(* ===== verification/Prelude.thy ===== *)
theory Prelude
  imports Main "HOL-Library.Word" "HOL-Library.State_Monad"
begin

text \<open>
  What every theory of the development shares: the collections of rewrite and
  introduction rules, a small program logic for stateful Go code (the state monad of
  the library with triples over it), the loop combinators Go's \<open>for range\<close> loops
  become, 64-bit wrap-around, and generic facts on lists and maps.
\<close>

section \<open>Collections\<close>

named_theorems triple_intros
named_theorems sql_defs
named_theorems sql_simps

type_synonym bytes = "char list"
type_synonym uuid = "128 word"

section \<open>Triples over the state monad\<close>

text \<open>
  A Go function that touches the database is a value of the state monad, written with
  \<open>do\<close>; a call that can fail returns a sum whose left side is the error. A triple says
  what holds after a run from any state that satisfies the precondition.
\<close>

abbreviation ret :: "'a \<Rightarrow> ('s, 'a) state" where
  "ret \<equiv> State_Monad.return"

definition triple :: "('s \<Rightarrow> bool) \<Rightarrow> ('s, 'a) state \<Rightarrow> ('a \<Rightarrow> 's \<Rightarrow> bool) \<Rightarrow> bool" where
  "triple P m Q \<longleftrightarrow> (\<forall>s. P s \<longrightarrow> (case run_state m s of (r, s') \<Rightarrow> Q r s'))"

text \<open>An invariant kept by a computation, whatever it returns.\<close>

abbreviation keeps :: "('s \<Rightarrow> bool) \<Rightarrow> ('s, 'a) state \<Rightarrow> bool" where
  "keeps I m \<equiv> triple I m (\<lambda>_. I)"

lemma tripleI:
  assumes "\<And>s r s'. P s \<Longrightarrow> run_state m s = (r, s') \<Longrightarrow> Q r s'"
  shows "triple P m Q"
  using assms by (auto simp: triple_def)

lemma tripleD: "triple P m Q \<Longrightarrow> P s \<Longrightarrow> run_state m s = (r, s') \<Longrightarrow> Q r s'"
  by (auto simp: triple_def)

lemma tripleD_snd: "keeps I m \<Longrightarrow> I s \<Longrightarrow> I (snd (run_state m s))"
  by (metis prod.collapse tripleD)

lemma triple_weaken:
  "triple P m Q \<Longrightarrow> (\<And>s. P' s \<Longrightarrow> P s) \<Longrightarrow> (\<And>r s. Q r s \<Longrightarrow> Q' r s) \<Longrightarrow> triple P' m Q'"
  by (fastforce simp: triple_def split: prod.splits)

lemma triple_conj:
  "triple P m Q \<Longrightarrow> triple P' m Q' \<Longrightarrow> triple (\<lambda>s. P s \<and> P' s) m (\<lambda>r s. Q r s \<and> Q' r s)"
  by (auto simp: triple_def split: prod.splits)

lemma triple_ret [triple_intros]: "(\<And>s. P s \<Longrightarrow> Q x s) \<Longrightarrow> triple P (ret x) Q"
  by (simp add: triple_def)

lemma keeps_ret: "keeps I (ret x)"
  by (simp add: triple_def)

lemma triple_bind:
  assumes "triple P m R" and "\<And>x. triple (R x) (f x) Q"
  shows "triple P (State_Monad.bind m f) Q"
  using assms by (fastforce simp: triple_def split: prod.splits)

lemma keeps_bind [triple_intros]:
  assumes "keeps I m" and "\<And>x. keeps I (f x)"
  shows "keeps I (State_Monad.bind m f)"
  using assms by (rule triple_bind)

lemma triple_if [triple_intros]:
  "(b \<Longrightarrow> triple P m Q) \<Longrightarrow> (\<not> b \<Longrightarrow> triple P n Q) \<Longrightarrow> triple P (if b then m else n) Q"
  by simp

lemma triple_case_sum [triple_intros]:
  "(\<And>e. x = Inl e \<Longrightarrow> triple P (f e) Q) \<Longrightarrow> (\<And>v. x = Inr v \<Longrightarrow> triple P (g v) Q)
    \<Longrightarrow> triple P (case x of Inl e \<Rightarrow> f e | Inr v \<Rightarrow> g v) Q"
  by (cases x) auto

lemma triple_case_option [triple_intros]:
  "(x = None \<Longrightarrow> triple P m Q) \<Longrightarrow> (\<And>v. x = Some v \<Longrightarrow> triple P (g v) Q)
    \<Longrightarrow> triple P (case x of None \<Rightarrow> m | Some v \<Rightarrow> g v) Q"
  by (cases x) auto

lemma triple_case_prod [triple_intros]:
  "(\<And>a b. x = (a, b) \<Longrightarrow> triple P (f a b) Q) \<Longrightarrow> triple P (case x of (a, b) \<Rightarrow> f a b) Q"
  by (cases x) auto

lemma triple_case_list [triple_intros]:
  "(x = [] \<Longrightarrow> triple P m Q) \<Longrightarrow> (\<And>y ys. x = y # ys \<Longrightarrow> triple P (g y ys) Q)
    \<Longrightarrow> triple P (case x of [] \<Rightarrow> m | y # ys \<Rightarrow> g y ys) Q"
  by (cases x) auto

lemma triple_let [triple_intros]: "triple P (f v) Q \<Longrightarrow> triple P (let x = v in f x) Q"
  by simp

lemma keeps_get [triple_intros]: "keeps I State_Monad.get"
  by (simp add: triple_def)

section \<open>Loops\<close>

text \<open>
  \<open>mfold\<close> is a \<open>for range\<close> loop whose body updates an accumulator (and may
  \<open>continue\<close>); \<open>for_err\<close> is a loop whose body may \<open>return err\<close> out of the function.
\<close>

primrec mfold :: "('b \<Rightarrow> 'a \<Rightarrow> ('s, 'b) state) \<Rightarrow> 'b \<Rightarrow> 'a list \<Rightarrow> ('s, 'b) state" where
  "mfold f b [] = ret b"
| "mfold f b (x # xs) = do { b' \<leftarrow> f b x; mfold f b' xs }"

primrec for_err :: "('a \<Rightarrow> ('s, 'e + unit) state) \<Rightarrow> 'a list \<Rightarrow> ('s, 'e + unit) state" where
  "for_err f [] = ret (Inr ())"
| "for_err f (x # xs) = do {
     r \<leftarrow> f x;
     case r of Inl e \<Rightarrow> ret (Inl e) | Inr _ \<Rightarrow> for_err f xs }"

lemma keeps_mfold [triple_intros]:
  "(\<And>b x. x \<in> set xs \<Longrightarrow> keeps I (f b x)) \<Longrightarrow> keeps I (mfold f b xs)"
  by (induction xs arbitrary: b) (auto intro!: triple_intros)

lemma keeps_for_err [triple_intros]:
  "(\<And>x. x \<in> set xs \<Longrightarrow> keeps I (f x)) \<Longrightarrow> keeps I (for_err f xs)"
  by (induction xs) (auto intro!: triple_intros)

text \<open>A loop invariant over the elements already processed.\<close>

lemma mfold_prefix:
  assumes step: "\<And>pre x rest b s b' s'. xs = pre @ x # rest \<Longrightarrow> J pre b s
      \<Longrightarrow> run_state (f b x) s = (b', s') \<Longrightarrow> J (pre @ [x]) b' s'"
    and "J [] b s" and "run_state (mfold f b xs) s = (b', s')"
  shows "J xs b' s'"
proof -
  have "J (pre @ todo) b' s'"
    if "xs = pre @ todo" "J pre b s" "run_state (mfold f b todo) s = (b', s')" for pre todo b s
    using that
  proof (induction todo arbitrary: pre b s)
    case Nil
    then show ?case by simp
  next
    case (Cons x todo)
    obtain c u where c: "run_state (f b x) s = (c, u)" by fastforce
    with step [OF Cons.prems(1,2)] have "J (pre @ [x]) c u" by simp
    moreover have "run_state (mfold f c todo) u = (b', s')" using Cons.prems(3) c by simp
    ultimately show ?case using Cons.IH [of "pre @ [x]" c u] Cons.prems(1) by simp
  qed
  from this [of "[]" xs b s] assms(2,3) show ?thesis by simp
qed

section \<open>64-bit integers\<close>

text \<open>
  Go's \<open>int64\<close> (and \<open>int\<close> on the 64-bit targets the images are built for) is an \<open>int\<close>
  with the wrap-around of an arithmetic result written out.
\<close>

definition wrap64 :: "int \<Rightarrow> int" where
  "wrap64 x = (x + 2 ^ 63) mod 2 ^ 64 - 2 ^ 63"

definition int64 :: "int \<Rightarrow> bool" where
  "int64 x \<longleftrightarrow> - (2 ^ 63) \<le> x \<and> x < 2 ^ 63"

lemma wrap64_int64 [simp]: "int64 (wrap64 x)"
proof -
  have "0 \<le> (x + 2 ^ 63) mod 2 ^ 64" and "(x + 2 ^ 63) mod 2 ^ 64 < 2 ^ 64"
    by simp_all
  then show ?thesis by (simp add: int64_def wrap64_def)
qed

lemma wrap64_id: "int64 x \<Longrightarrow> wrap64 x = x"
  by (simp add: int64_def wrap64_def)

lemma wrap64_sint: "wrap64 x = sint (word_of_int x :: 64 word)"
  by (simp add: wrap64_def int_word_sint)

section \<open>Lists\<close>

lemma distinct_map_filterI: "distinct (map f xs) \<Longrightarrow> distinct (map f (filter P xs))"
  by (induction xs) auto

lemma find_None_iff_filter: "find P xs = None \<longleftrightarrow> filter P xs = []"
  by (auto simp: find_None_iff filter_empty_conv)

lemma length_filter_map_same:
  "(\<And>x. x \<in> set xs \<Longrightarrow> P (f x) = P x) \<Longrightarrow> length (filter P (map f xs)) = length (filter P xs)"
  by (induction xs) auto

lemma length_filter_mono:
  "(\<And>x. x \<in> set xs \<Longrightarrow> P x \<Longrightarrow> Q x) \<Longrightarrow> length (filter P xs) \<le> length (filter Q xs)"
  by (induction xs) (auto simp: le_SucI)

lemma distinct_map_eq:
  "distinct (map f xs) \<Longrightarrow> x \<in> set xs \<Longrightarrow> y \<in> set xs \<Longrightarrow> f x = f y \<Longrightarrow> x = y"
  by (auto simp: distinct_map dest: inj_onD)

end
