(* ===== verification/Go_Lib.thy ===== *)
theory Go_Lib
  imports Prelude
begin

text \<open>
  The part of Go's standard library the server's own logic runs on: package
  \<open>strings\<close> on byte strings, \<open>strconv\<close>, \<open>encoding/hex\<close>, \<open>encoding/base64\<close> and the
  fragment of \<open>fmt.Sscanf\<close> the key directory uses; and \<open>env\<close>, the record of what the
  code calls but does not define. A Go string or \<open>[]byte\<close> is a list of \<open>char\<close>, and a
  \<open>char\<close> is a byte.
\<close>

section \<open>What the code is given\<close>

text \<open>
  Third-party packages, the cryptographic primitives and the Unicode tables are fields
  of a record that every definition using them takes as its argument. \<open>uni_lower\<close> is
  the Unicode case mapping \<open>strings.ToLower\<close> applies to a string with a non-ASCII byte;
  \<open>pg_lower\<close> is SQL's \<open>LOWER\<close> under the database's collation; \<open>uuid_str\<close> and
  \<open>uuid_parse\<close> are google/uuid's \<open>String\<close> and \<open>Parse\<close>; \<open>fmt_nano\<close> and \<open>pg_time\<close> print a
  timestamp as RFC 3339 and read it back as a \<open>timestamptz\<close> (microseconds);
  \<open>scan_tok\<close> is the token a verb of \<open>fmt.Sscanf\<close> reads into a string.
  A JSON claim of a token is a string, a number or something else.
\<close>

datatype claim = CStr string | CNum int | COther

type_synonym claims = "string \<Rightarrow> claim option"

record env =
  uni_lower :: "string \<Rightarrow> string"
  pg_lower :: "string \<Rightarrow> string"
  uuid_str :: "uuid \<Rightarrow> string"
  uuid_parse :: "string \<Rightarrow> uuid option"
  fmt_nano :: "int \<Rightarrow> string"
  pg_time :: "string \<Rightarrow> int option"
  scan_tok :: "char \<Rightarrow> string \<Rightarrow> (string \<times> string) option"
  sha256 :: "bytes \<Rightarrow> bytes"
  ed_sign :: "bytes \<Rightarrow> bytes \<Rightarrow> bytes"
  ed_verify :: "bytes \<Rightarrow> bytes \<Rightarrow> bytes \<Rightarrow> bool"
  bcrypt_hash :: "bytes \<Rightarrow> bytes option"
  bcrypt_ok :: "bytes \<Rightarrow> bytes \<Rightarrow> bool"
  jwt_sign :: "bytes \<Rightarrow> claims \<Rightarrow> string option"
  jwt_parse :: "bytes \<Rightarrow> int \<Rightarrow> string \<Rightarrow> claims option"

section \<open>Package strings\<close>

definition HasPrefix :: "string \<Rightarrow> string \<Rightarrow> bool" where
  "HasPrefix s p \<longleftrightarrow> take (length p) s = p"

definition TrimPrefix :: "string \<Rightarrow> string \<Rightarrow> string" where
  "TrimPrefix s p = (if HasPrefix s p then drop (length p) s else s)"

definition HasSuffix :: "string \<Rightarrow> string \<Rightarrow> bool" where
  "HasSuffix s p \<longleftrightarrow> length p \<le> length s \<and> drop (length s - length p) s = p"

definition TrimSuffix :: "string \<Rightarrow> string \<Rightarrow> string" where
  "TrimSuffix s p = (if HasSuffix s p then take (length s - length p) s else s)"

text \<open>\<open>strings.Index\<close>: the first occurrence; Go's -1 is \<open>None\<close>.\<close>

fun Index :: "string \<Rightarrow> string \<Rightarrow> nat option" where
  "Index [] p = (if p = [] then Some 0 else None)"
| "Index (c # s) p = (if HasPrefix (c # s) p then Some 0 else map_option Suc (Index s p))"

text \<open>\<open>strings.LastIndex\<close> of a one-byte separator.\<close>

definition LastIndexC :: "string \<Rightarrow> char \<Rightarrow> nat option" where
  "LastIndexC s c = map_option (\<lambda>i. length s - 1 - i) (Index (rev s) [c])"

definition Contains :: "string \<Rightarrow> string \<Rightarrow> bool" where
  "Contains s p \<longleftrightarrow> Index s p \<noteq> None"

text \<open>\<open>strings.Split\<close> and \<open>strings.SplitN(s, sep, 2)\<close> with a one-byte separator.\<close>

fun SplitC :: "char \<Rightarrow> string \<Rightarrow> string list" where
  "SplitC c [] = [[]]"
| "SplitC c (x # xs) =
     (if x = c then [] # SplitC c xs
      else (case SplitC c xs of [] \<Rightarrow> [[x]] | y # ys \<Rightarrow> (x # y) # ys))"

definition SplitN2 :: "char \<Rightarrow> string \<Rightarrow> string list" where
  "SplitN2 c s = (case Index s [c] of None \<Rightarrow> [s] | Some i \<Rightarrow> [take i s, drop (Suc i) s])"

text \<open>\<open>strings.ReplaceAll\<close> for a non-empty pattern.\<close>

fun ReplaceAll :: "string \<Rightarrow> string \<Rightarrow> string \<Rightarrow> string" where
  "ReplaceAll [] old new = []"
| "ReplaceAll (c # s) old new =
     (if old \<noteq> [] \<and> HasPrefix (c # s) old
      then new @ ReplaceAll (drop (length old - 1) s) old new
      else c # ReplaceAll s old new)"

text \<open>
  \<open>strings.TrimSpace\<close>: the white space of \<open>unicode.IsSpace\<close>, as the byte sequences of
  its UTF-8 encoding (the six ASCII characters, U+0085, U+00A0, U+1680, U+2000 to
  U+200A, U+2028, U+2029, U+202F, U+205F and U+3000).
\<close>

definition space_seqs :: "string list" where
  "space_seqs =
     [[CHR 0x09], [CHR 0x0A], [CHR 0x0B], [CHR 0x0C], [CHR 0x0D], [CHR 0x20],
      [CHR 0xC2, CHR 0x85], [CHR 0xC2, CHR 0xA0], [CHR 0xE1, CHR 0x9A, CHR 0x80],
      [CHR 0xE2, CHR 0x80, CHR 0x80], [CHR 0xE2, CHR 0x80, CHR 0x81],
      [CHR 0xE2, CHR 0x80, CHR 0x82], [CHR 0xE2, CHR 0x80, CHR 0x83],
      [CHR 0xE2, CHR 0x80, CHR 0x84], [CHR 0xE2, CHR 0x80, CHR 0x85],
      [CHR 0xE2, CHR 0x80, CHR 0x86], [CHR 0xE2, CHR 0x80, CHR 0x87],
      [CHR 0xE2, CHR 0x80, CHR 0x88], [CHR 0xE2, CHR 0x80, CHR 0x89],
      [CHR 0xE2, CHR 0x80, CHR 0x8A], [CHR 0xE2, CHR 0x80, CHR 0xA8],
      [CHR 0xE2, CHR 0x80, CHR 0xA9], [CHR 0xE2, CHR 0x80, CHR 0xAF],
      [CHR 0xE2, CHR 0x81, CHR 0x9F], [CHR 0xE3, CHR 0x80, CHR 0x80]]"

function strip :: "string list \<Rightarrow> string \<Rightarrow> string" where
  "strip ps s = (case find (\<lambda>p. p \<noteq> [] \<and> HasPrefix s p) ps of
     None \<Rightarrow> s
   | Some p \<Rightarrow> strip ps (drop (length p) s))"
  by pat_completeness auto
termination
proof (relation "measure (\<lambda>(ps, s). length s)")
  fix ps s p
  assume "find (\<lambda>p. p \<noteq> [] \<and> HasPrefix s p) ps = Some p"
  then have "p \<noteq> []" and "HasPrefix s p"
    by (auto simp: find_Some_iff)
  then show "((ps, drop (length p) s), ps, s) \<in> measure (\<lambda>(ps, s). length s)"
    by (cases s) (auto simp: HasPrefix_def)
qed simp

declare strip.simps [simp del]

definition TrimSpace :: "string \<Rightarrow> string" where
  "TrimSpace s = rev (strip (map rev space_seqs) (rev (strip space_seqs s)))"

text \<open>\<open>strings.Trim(s, cutset)\<close> with a one-byte cutset.\<close>

definition TrimC :: "char \<Rightarrow> string \<Rightarrow> string" where
  "TrimC c s = rev (dropWhile (\<lambda>x. x = c) (rev (dropWhile (\<lambda>x. x = c) s)))"

definition ascii_lower :: "char \<Rightarrow> char" where
  "ascii_lower c =
     (if 65 \<le> (of_char c :: nat) \<and> (of_char c :: nat) \<le> 90 then char_of ((of_char c :: nat) + 32) else c)"

definition is_ascii :: "string \<Rightarrow> bool" where
  "is_ascii s \<longleftrightarrow> list_all (\<lambda>c. (of_char c :: nat) < 128) s"

definition ToLower :: "env \<Rightarrow> string \<Rightarrow> string" where
  "ToLower E s = (if is_ascii s then map ascii_lower s else uni_lower E s)"

subsection \<open>Facts on strings\<close>

lemma HasPrefix_append [simp]: "HasPrefix (p @ s) p"
  by (simp add: HasPrefix_def)

lemma HasPrefix_Nil [simp]: "HasPrefix s []"
  by (simp add: HasPrefix_def)

lemma HasPrefix_Cons [simp]: "HasPrefix (c # s) (d # p) \<longleftrightarrow> c = d \<and> HasPrefix s p"
  by (auto simp: HasPrefix_def)

lemma HasPrefix_empty [simp]: "HasPrefix [] (d # p) = False"
  by (simp add: HasPrefix_def)

lemma HasPrefix_iff: "HasPrefix s p \<longleftrightarrow> (\<exists>r. s = p @ r)"
  by (metis HasPrefix_append HasPrefix_def append_take_drop_id)

lemma TrimPrefix_append [simp]: "TrimPrefix (p @ s) p = s"
  by (simp add: TrimPrefix_def)

lemma TrimPrefix_Cons [simp]: "TrimPrefix (c # s) [c] = s"
  by (simp add: TrimPrefix_def)

lemma Index_char_None [simp]: "Index s [c] = None \<longleftrightarrow> c \<notin> set s"
  by (induction s) auto

lemma Index_char_first: "c \<notin> set xs \<Longrightarrow> Index (xs @ c # ys) [c] = Some (length xs)"
  by (induction xs) auto

lemma Index_char_SomeD: "Index s [c] = Some i \<Longrightarrow> i < length s \<and> s ! i = c \<and> c \<notin> set (take i s)"
proof (induction s arbitrary: i)
  case (Cons x s)
  then show ?case by (cases i) (auto split: if_splits)
qed simp

lemma Index_char_split:
  "Index s [c] = Some i \<Longrightarrow> s = take i s @ c # drop (Suc i) s \<and> c \<notin> set (take i s)"
  by (metis Index_char_SomeD id_take_nth_drop)

lemma SplitN2_first: "c \<notin> set xs \<Longrightarrow> SplitN2 c (xs @ c # ys) = [xs, ys]"
  by (simp add: SplitN2_def Index_char_first)

lemma SplitN2_none: "c \<notin> set s \<Longrightarrow> SplitN2 c s = [s]"
  by (simp add: SplitN2_def del: Index_char_None) (simp split: option.splits)

lemma SplitN2_cases:
  obtains "SplitN2 c s = [s]" "c \<notin> set s"
  | u v where "SplitN2 c s = [u, v]" "s = u @ c # v" "c \<notin> set u"
proof (cases "c \<in> set s")
  case True
  then obtain u v where "s = u @ c # v" and "c \<notin> set u"
    by (meson split_list_first)
  then show thesis using that(2) SplitN2_first by blast
next
  case False
  then show thesis using that(1) SplitN2_none by blast
qed

lemma SplitC_nonempty [simp]: "SplitC c s \<noteq> []"
  by (cases s) (auto split: list.splits)

lemma SplitC_no_sep: "l \<in> set (SplitC c s) \<Longrightarrow> c \<notin> set l"
  by (induction s arbitrary: l) (auto split: if_splits list.splits)

lemma SplitC_append: "c \<notin> set l \<Longrightarrow> SplitC c (l @ c # s) = l # SplitC c s"
  by (induction l) auto

lemma SplitC_single: "c \<notin> set l \<Longrightarrow> SplitC c l = [l]"
  by (induction l) auto

lemma ascii_lower_idem [simp]: "ascii_lower (ascii_lower c) = ascii_lower c"
  by (auto simp: ascii_lower_def)

lemma ascii_lower_ascii [simp]: "(of_char c :: nat) < 128 \<Longrightarrow> (of_char (ascii_lower c) :: nat) < 128"
  by (auto simp: ascii_lower_def)

lemma is_ascii_lower: "is_ascii s \<Longrightarrow> is_ascii (map ascii_lower s)"
  by (simp add: is_ascii_def list_all_iff)

lemma ToLower_ascii_idem: "is_ascii s \<Longrightarrow> ToLower E (ToLower E s) = ToLower E s"
  by (simp add: ToLower_def is_ascii_lower)

lemma ToLower_Nil [simp]: "ToLower E [] = []"
  by (simp add: ToLower_def is_ascii_def)

lemma strip_fix: "find (\<lambda>p. p \<noteq> [] \<and> HasPrefix (strip ps s) p) ps = None"
proof (induction ps s rule: strip.induct)
  case (1 ps s)
  show ?case
  proof (cases "find (\<lambda>p. p \<noteq> [] \<and> HasPrefix s p) ps")
    case None
    then show ?thesis by (simp add: strip.simps [of ps s])
  next
    case (Some p)
    with "1" show ?thesis by (simp add: strip.simps [of ps s])
  qed
qed

lemma strip_idem [simp]: "strip ps (strip ps s) = strip ps s"
  using strip_fix [of ps s] by (subst strip.simps) simp

lemma strip_suffix: "\<exists>u. s = u @ strip ps s"
proof (induction ps s rule: strip.induct)
  case (1 ps s)
  show ?case
  proof (cases "find (\<lambda>p. p \<noteq> [] \<and> HasPrefix s p) ps")
    case None
    then show ?thesis by (simp add: strip.simps [of ps s])
  next
    case (Some p)
    with "1" obtain u where "drop (length p) s = u @ strip ps (drop (length p) s)" by blast
    then have "s = (take (length p) s @ u) @ strip ps (drop (length p) s)"
      by (metis append.assoc append_take_drop_id)
    then have "\<exists>u. s = u @ strip ps (drop (length p) s)" by blast
    with Some show ?thesis by (simp add: strip.simps [of ps s])
  qed
qed

text \<open>Trimming is idempotent: cutting the right end uncovers no space on the left.\<close>

lemma HasPrefix_append_mono: "HasPrefix s p \<Longrightarrow> HasPrefix (s @ t) p"
  by (auto simp: HasPrefix_iff)

lemma strip_none: "find (\<lambda>p. p \<noteq> [] \<and> HasPrefix s p) ps = None \<Longrightarrow> strip ps s = s"
  by (subst strip.simps) simp

lemma TrimSpace_idem [simp]: "TrimSpace (TrimSpace s) = TrimSpace s"
proof -
  let ?l = "strip space_seqs s" and ?r = "strip (map rev space_seqs)"
  obtain u where u: "rev ?l = u @ ?r (rev ?l)"
    using strip_suffix by blast
  then have "?l = rev (?r (rev ?l)) @ rev u"
    by (metis rev_append rev_rev_ident)
  then have "HasPrefix (rev (?r (rev ?l))) p \<Longrightarrow> HasPrefix ?l p" for p
    by (metis HasPrefix_append_mono)
  with strip_fix [of space_seqs s]
  have "find (\<lambda>p. p \<noteq> [] \<and> HasPrefix (rev (?r (rev ?l))) p) space_seqs = None"
    by (auto simp: find_None_iff)
  then show ?thesis
    by (simp add: TrimSpace_def strip_none)
qed

lemma TrimSpace_Nil [simp]: "TrimSpace [] = []"
  by (simp add: TrimSpace_def strip_none find_None_iff HasPrefix_def)

text \<open>A visible ASCII character at both ends keeps the string as it is.\<close>

definition visible :: "char \<Rightarrow> bool" where
  "visible c \<longleftrightarrow> 33 \<le> (of_char c :: nat) \<and> (of_char c :: nat) < 127"

lemma space_seqs_head: "p \<in> set space_seqs \<Longrightarrow> p \<noteq> [] \<and> \<not> visible (hd p) \<and> \<not> visible (last p)"
  by (auto simp: space_seqs_def visible_def)

lemma TrimSpace_visible:
  assumes "s \<noteq> []" and "visible (hd s)" and "visible (last s)"
  shows "TrimSpace s = s"
proof -
  have 1: "strip space_seqs s = s"
  proof (rule strip_none)
    show "find (\<lambda>p. p \<noteq> [] \<and> HasPrefix s p) space_seqs = None"
      using assms(2) space_seqs_head by (auto simp: find_None_iff HasPrefix_iff)
  qed
  have 2: "strip (map rev space_seqs) (rev s) = rev s"
  proof (rule strip_none)
    have "\<not> HasPrefix (rev s) (rev p)" if p: "p \<in> set space_seqs" for p
    proof
      assume "HasPrefix (rev s) (rev p)"
      then obtain r where "rev s = rev p @ r" by (auto simp: HasPrefix_iff)
      then have "s = rev r @ p" by (metis rev_append rev_rev_ident)
      with space_seqs_head [OF p] assms(3) show False by simp
    qed
    then show "find (\<lambda>p. p \<noteq> [] \<and> HasPrefix (rev s) p) (map rev space_seqs) = None"
      by (auto simp: find_None_iff)
  qed
  show ?thesis by (simp add: TrimSpace_def 1 2)
qed

lemma TrimSpace_all_visible: "list_all visible s \<Longrightarrow> TrimSpace s = s"
  by (cases "s = []") (auto simp: list_all_iff intro: TrimSpace_visible)

end
