(* ===== verification/Go_Enc.thy ===== *)
theory Go_Enc
  imports Go_Lib
begin

text \<open>
  Numbers and encodings of Go's standard library: decimal printing and parsing
  (\<open>strconv.Itoa\<close>, \<open>FormatInt\<close>, \<open>Atoi\<close>, \<open>ParseInt\<close>, \<open>ParseBool\<close>), \<open>encoding/hex\<close>,
  \<open>encoding/base64\<close> (\<open>StdEncoding\<close>), and \<open>fmt.Sscanf\<close> for formats made of literals and
  verbs. The lemmas are the round trips the components rely on.
\<close>

section \<open>Decimal numbers\<close>

definition digit :: "nat \<Rightarrow> char" where
  "digit n = char_of (48 + n)"

fun dec :: "nat \<Rightarrow> string" where
  "dec n = (if n < 10 then [digit n] else dec (n div 10) @ [digit (n mod 10)])"

declare dec.simps [simp del]

definition Itoa :: "int \<Rightarrow> string" where
  "Itoa i = (if i < 0 then CHR ''-'' # dec (nat (- i)) else dec (nat i))"

definition digit_val :: "char \<Rightarrow> nat option" where
  "digit_val c = (let n = of_char c :: nat in if 48 \<le> n \<and> n \<le> 57 then Some (n - 48) else None)"

text \<open>
  \<open>strconv.ParseUint\<close> in base 10: \<open>Inl True\<close> is a range error, \<open>Inl False\<close> a syntax
  error; the scan stops at whichever comes first.
\<close>

fun scan_uint :: "nat \<Rightarrow> string \<Rightarrow> bool + nat" where
  "scan_uint a [] = Inr a"
| "scan_uint a (c # s) =
     (case digit_val c of
        None \<Rightarrow> Inl False
      | Some d \<Rightarrow> if 10 * a + d < 2 ^ 64 then scan_uint (10 * a + d) s else Inl True)"

text \<open>
  \<open>strconv.ParseInt(s, 10, 64)\<close> and \<open>strconv.Atoi\<close>: the value Go returns, which is the
  nearest bound on a range error and 0 on a syntax error, and whether the error is nil.
\<close>

definition ParseInt :: "string \<Rightarrow> int \<times> bool" where
  "ParseInt s =
     (let (neg, d) = (case s of
          [] \<Rightarrow> (False, [])
        | c # t \<Rightarrow> if c = CHR ''-'' then (True, t) else if c = CHR ''+'' then (False, t) else (False, s))
      in if d = [] then (0, False)
         else (case scan_uint 0 d of
             Inl rng \<Rightarrow> (if rng then (if neg then - (2 ^ 63) else 2 ^ 63 - 1) else 0, False)
           | Inr n \<Rightarrow>
               if neg then (if n \<le> 2 ^ 63 then (- int n, True) else (- (2 ^ 63), False))
               else (if n < 2 ^ 63 then (int n, True) else (2 ^ 63 - 1, False))))"

definition ParseBool :: "string \<Rightarrow> bool" where
  "ParseBool s \<longleftrightarrow> s \<in> {''1'', ''t'', ''T'', ''TRUE'', ''true'', ''True''}"

lemma digit_val_digit [simp]: "n < 10 \<Longrightarrow> digit_val (digit n) = Some n"
  by (simp add: digit_val_def digit_def)

lemma dec_nonempty [simp]: "dec n \<noteq> []"
  by (subst dec.simps) simp

lemma dec_digits: "c \<in> set (dec n) \<Longrightarrow> \<exists>k < 10. c = digit k"
proof (induction n arbitrary: c rule: dec.induct)
  case (1 n)
  have m: "\<exists>k < 10. digit (n mod 10) = digit k" by (rule exI [of _ "n mod 10"]) simp
  with "1" show ?case
    by (cases "n < 10") (auto simp: dec.simps [of n])
qed

lemma digit_visible: "k < 10 \<Longrightarrow> visible (digit k)"
  by (simp add: visible_def digit_def)

lemma dec_visible: "list_all visible (dec n)"
  using dec_digits digit_visible by (auto simp: list_all_iff)

lemma scan_uint_append:
  "scan_uint a (xs @ ys) = (case scan_uint a xs of Inl e \<Rightarrow> Inl e | Inr b \<Rightarrow> scan_uint b ys)"
  by (induction xs arbitrary: a) (auto split: option.splits)

lemma scan_uint_dec: "n < 2 ^ 64 \<Longrightarrow> scan_uint 0 (dec n) = Inr n"
proof (induction n rule: dec.induct)
  case (1 n)
  show ?case
  proof (cases "n < 10")
    case True
    then show ?thesis by (simp add: dec.simps [of n])
  next
    case False
    with "1" have "scan_uint 0 (dec (n div 10)) = Inr (n div 10)" by simp
    moreover have "10 * (n div 10) + n mod 10 = n" by simp
    ultimately show ?thesis
      using False "1.prems" by (subst dec.simps) (simp add: scan_uint_append)
  qed
qed

lemma dec_head: "\<exists>k < 10. \<exists>t. dec n = digit k # t"
  by (metis dec_digits dec_nonempty list.set_intros(1) neq_Nil_conv)

text \<open>Printing an \<open>int64\<close> and parsing it gives it back.\<close>

lemma ParseInt_Itoa: "int64 i \<Longrightarrow> ParseInt (Itoa i) = (i, True)"
proof (cases "i < 0")
  case True
  assume "int64 i"
  with True have "nat (- i) \<le> 2 ^ 63" and "nat (- i) < 2 ^ 64"
    by (auto simp: int64_def)
  with True show ?thesis
    by (simp add: Itoa_def ParseInt_def scan_uint_dec)
next
  case False
  assume "int64 i"
  with False have lt: "nat i < 2 ^ 63" and "nat i < 2 ^ 64"
    by (auto simp: int64_def)
  then have s: "scan_uint 0 (dec (nat i)) = Inr (nat i)" by (simp add: scan_uint_dec)
  obtain k t where k: "k < 10" "dec (nat i) = digit k # t" using dec_head by blast
  have "digit k \<noteq> CHR ''-''" and "digit k \<noteq> CHR ''+''"
    using k(1) digit_val_digit [of k] by (auto simp: digit_val_def)
  with False k s lt show ?thesis
    by (simp add: Itoa_def ParseInt_def)
qed

lemma dec_inj: "dec m = dec n \<Longrightarrow> m < 2 ^ 64 \<Longrightarrow> n < 2 ^ 64 \<Longrightarrow> m = n"
  by (metis scan_uint_dec sum.inject(2))

lemma Itoa_inj: "Itoa i = Itoa j \<Longrightarrow> int64 i \<Longrightarrow> int64 j \<Longrightarrow> i = j"
  by (metis ParseInt_Itoa prod.inject)

section \<open>Hexadecimal\<close>

definition hex_digit :: "nat \<Rightarrow> char" where
  "hex_digit n = (if n < 10 then char_of (48 + n) else char_of (87 + n))"

definition hex_val :: "char \<Rightarrow> nat option" where
  "hex_val c = (let n = of_char c :: nat in
     if 48 \<le> n \<and> n \<le> 57 then Some (n - 48)
     else if 97 \<le> n \<and> n \<le> 102 then Some (n - 87)
     else if 65 \<le> n \<and> n \<le> 70 then Some (n - 55)
     else None)"

definition hex_encode :: "bytes \<Rightarrow> string" where
  "hex_encode b = concat (map (\<lambda>c. [hex_digit (of_char c div 16), hex_digit (of_char c mod 16)]) b)"

fun hex_decode :: "string \<Rightarrow> bytes option" where
  "hex_decode [] = Some []"
| "hex_decode [_] = None"
| "hex_decode (x # y # s) =
     (case (hex_val x, hex_val y) of
        (Some a, Some b) \<Rightarrow> map_option (\<lambda>r. char_of (16 * a + b) # r) (hex_decode s)
      | _ \<Rightarrow> None)"

lemma hex_val_digit [simp]: "n < 16 \<Longrightarrow> hex_val (hex_digit n) = Some n"
  by (auto simp: hex_val_def hex_digit_def)

lemma hex_digit_visible: "n < 16 \<Longrightarrow> visible (hex_digit n)"
  by (auto simp: visible_def hex_digit_def)

lemma of_char_256: "(of_char c :: nat) < 256"
  by (metis of_char_mod_256 mod_less_divisor zero_less_numeral)

lemma of_char_div [simp]:
  "(of_char c :: nat) div 4 < 64" "(of_char c :: nat) div 16 < 16" "(of_char c :: nat) div 64 < 4"
  using of_char_256 [of c] by (auto simp: div_less_iff_less_mult simp del: of_char_mod_256)

lemma hex_decode_encode: "hex_decode (hex_encode b) = Some b"
proof (induction b)
  case Nil
  show ?case by (simp add: hex_encode_def)
next
  case (Cons c b)
  have "(of_char c :: nat) div 16 < 16" by (rule of_char_div)
  moreover have "16 * ((of_char c :: nat) div 16) + of_char c mod 16 = of_char c" by simp
  ultimately show ?case using Cons
    by (simp add: hex_encode_def)
qed

lemma length_hex_encode [simp]: "length (hex_encode b) = 2 * length b"
  by (induction b) (auto simp: hex_encode_def)

lemma hex_decode_length: "hex_decode s = Some b \<Longrightarrow> length s = 2 * length b"
  by (induction s arbitrary: b rule: hex_decode.induct) (auto split: option.splits)

section \<open>Base64\<close>

definition b64_alphabet :: string where
  "b64_alphabet = ''ABCDEFGHIJKLMNOPQRSTUVWXYZabcdefghijklmnopqrstuvwxyz0123456789+/''"

definition b64_char :: "nat \<Rightarrow> char" where
  "b64_char n = b64_alphabet ! n"

definition b64_val :: "char \<Rightarrow> nat option" where
  "b64_val c = Index b64_alphabet [c]"

fun b64_encode :: "bytes \<Rightarrow> string" where
  "b64_encode [] = []"
| "b64_encode [a] =
     (let x = of_char a :: nat in
      [b64_char (x div 4), b64_char (x mod 4 * 16), CHR ''='', CHR ''=''])"
| "b64_encode [a, b] =
     (let x = of_char a :: nat; y = of_char b :: nat in
      [b64_char (x div 4), b64_char (x mod 4 * 16 + y div 16), b64_char (y mod 16 * 4), CHR ''=''])"
| "b64_encode (a # b # c # s) =
     (let x = of_char a :: nat; y = of_char b :: nat; z = of_char c :: nat in
      b64_char (x div 4) # b64_char (x mod 4 * 16 + y div 16)
      # b64_char (y mod 16 * 4 + z div 64) # b64_char (z mod 64) # b64_encode s)"

text \<open>
  \<open>StdEncoding.DecodeString\<close>: carriage returns and line feeds are skipped, the rest is
  quanta of four characters, the last of which may end in one or two padding
  characters. \<open>None\<close> is a non-nil error.
\<close>

fun b64_quanta :: "string \<Rightarrow> bytes option" where
  "b64_quanta [] = Some []"
| "b64_quanta (p # q # r # t # s) =
     (case (b64_val p, b64_val q) of
        (Some a, Some b) \<Rightarrow>
          (case (b64_val r, b64_val t) of
             (Some c, Some d) \<Rightarrow>
               map_option (\<lambda>rest. char_of (a * 4 + b div 16) # char_of (b mod 16 * 16 + c div 4)
                 # char_of (c mod 4 * 64 + d) # rest) (b64_quanta s)
           | (Some c, None) \<Rightarrow>
               if t = CHR ''='' \<and> s = [] then Some [char_of (a * 4 + b div 16), char_of (b mod 16 * 16 + c div 4)]
               else None
           | (None, _) \<Rightarrow>
               if r = CHR ''='' \<and> t = CHR ''='' \<and> s = [] then Some [char_of (a * 4 + b div 16)]
               else None)
      | _ \<Rightarrow> None)"
| "b64_quanta _ = None"

definition b64_decode :: "string \<Rightarrow> bytes option" where
  "b64_decode s = b64_quanta (filter (\<lambda>c. c \<noteq> CHR 0x0D \<and> c \<noteq> CHR 0x0A) s)"

lemma b64_table: "list_all (\<lambda>n. b64_val (b64_char n) = Some n \<and> visible (b64_char n)) [0..<64]"
  by code_simp

lemma b64_val_char [simp]: "n < 64 \<Longrightarrow> b64_val (b64_char n) = Some n"
  and b64_char_visible: "n < 64 \<Longrightarrow> visible (b64_char n)"
  using b64_table by (simp_all add: list_all_iff)

lemma b64_val_pad [simp]: "b64_val CHR ''='' = None"
  by (simp add: b64_val_def b64_alphabet_def)

lemma b64_digits [simp]:
  "(x :: nat) mod 4 * 16 < 64" "(x :: nat) mod 16 * 4 < 64"
  "x mod 4 * 16 + (of_char b :: nat) div 16 < 64"
  "x mod 16 * 4 + (of_char c :: nat) div 64 < 64"
proof -
  have "x mod 4 < 4" "x mod 16 < 16" "(of_char b :: nat) div 16 < 16" "(of_char c :: nat) div 64 < 4"
    by simp_all
  then show "x mod 4 * 16 < 64" "x mod 16 * 4 < 64"
    "x mod 4 * 16 + (of_char b :: nat) div 16 < 64"
    "x mod 16 * 4 + (of_char c :: nat) div 64 < 64"
    by linarith+
qed

lemma b64_join [simp]:
  "x div 4 * 4 + (x mod 4 * 16 + (of_char b :: nat) div 16) div 16 = (x :: nat)"
  "x div 4 * 4 + x mod 4 * 16 div 16 = (x :: nat)"
  "(x mod 4 * 16 + (of_char b :: nat) div 16) mod 16 = of_char b div 16"
  "(y mod 16 * 4 + (of_char c :: nat) div 64) mod 4 = of_char c div 64"
  "y div 16 * 16 + (y mod 16 * 4 + (of_char c :: nat) div 64) div 4 = (y :: nat)"
  "y div 16 * 16 + y mod 16 * 4 div 4 = (y :: nat)"
  "z div 64 * 64 + z mod 64 = (z :: nat)"
  using of_char_div [of b] of_char_div [of c] by (simp_all add: div_mult_self3)

lemma b64_quanta_encode: "b64_quanta (b64_encode b) = Some b"
  by (induction b rule: b64_encode.induct) (simp_all add: Let_def)

lemma b64_encode_visible: "c \<in> set (b64_encode b) \<Longrightarrow> visible c"
proof (induction b rule: b64_encode.induct)
  case (2 a)
  then show ?case by (auto simp: Let_def b64_char_visible) (auto simp: visible_def)
next
  case (3 a b)
  then show ?case by (auto simp: Let_def b64_char_visible) (auto simp: visible_def)
next
  case (4 a b c s)
  then show ?case by (auto simp: Let_def b64_char_visible)
qed simp

text \<open>Decoding what was encoded gives the bytes back.\<close>

lemma b64_decode_encode [simp]: "b64_decode (b64_encode b) = Some b"
proof -
  have "filter (\<lambda>c. c \<noteq> CHR 0x0D \<and> c \<noteq> CHR 0x0A) (b64_encode b) = b64_encode b"
    using b64_encode_visible [of "CHR 0x0D" b] b64_encode_visible [of "CHR 0x0A" b]
    by (auto simp: filter_id_conv visible_def)
  then show ?thesis by (simp add: b64_decode_def b64_quanta_encode)
qed

text \<open>What \<open>DecodeString\<close> returns beside its error, for the callers that ignore it: the bytes of the
  quanta before the first bad one, and those of a padded quantum with garbage after it.\<close>

fun b64_good :: "string \<Rightarrow> bytes" where
  "b64_good (p # q # r # t # s) =
     (case (b64_val p, b64_val q) of
        (Some a, Some b) \<Rightarrow>
          (case (b64_val r, b64_val t) of
             (Some c, Some d) \<Rightarrow>
               char_of (a * 4 + b div 16) # char_of (b mod 16 * 16 + c div 4) # char_of (c mod 4 * 64 + d) # b64_good s
           | (Some c, None) \<Rightarrow>
               if t = CHR ''='' then [char_of (a * 4 + b div 16), char_of (b mod 16 * 16 + c div 4)] else []
           | (None, _) \<Rightarrow> if r = CHR ''='' \<and> t = CHR ''='' then [char_of (a * 4 + b div 16)] else [])
      | _ \<Rightarrow> [])"
| "b64_good _ = []"

definition b64_bytes :: "string \<Rightarrow> bytes" where
  "b64_bytes s = b64_good (filter (\<lambda>c. c \<noteq> CHR 0x0D \<and> c \<noteq> CHR 0x0A) s)"

lemma b64_good_quanta: "b64_quanta s = Some b \<Longrightarrow> b64_good s = b"
  by (induction s arbitrary: b rule: b64_quanta.induct) (auto split: option.splits if_splits)

lemma b64_bytes_decode: "b64_decode s = Some b \<Longrightarrow> b64_bytes s = b"
  by (simp add: b64_decode_def b64_bytes_def b64_good_quanta)

lemma b64_bytes_encode [simp]: "b64_bytes (b64_encode b) = b"
  by (rule b64_bytes_decode) simp

section \<open>Percent-encoding\<close>

text \<open>Package \<open>net/url\<close>: what a path segment or the value of a query may hold as it is.\<close>

definition alnum :: "char \<Rightarrow> bool" where
  "alnum c \<longleftrightarrow> (let n = of_char c :: nat in 48 \<le> n \<and> n \<le> 57 \<or> 65 \<le> n \<and> n \<le> 90 \<or> 97 \<le> n \<and> n \<le> 122)"

definition upper_hex :: "nat \<Rightarrow> char" where
  "upper_hex n = ''0123456789ABCDEF'' ! n"

definition percent :: "char \<Rightarrow> string" where
  "percent c = [CHR ''%'', upper_hex (of_char c div 16), upper_hex (of_char c mod 16)]"

definition PathEscape :: "string \<Rightarrow> string" where
  "PathEscape s = concat (map (\<lambda>c. if alnum c \<or> c \<in> set ''-_.~$&+:=@'' then [c] else percent c) s)"

definition QueryEscape :: "string \<Rightarrow> string" where
  "QueryEscape s = concat (map (\<lambda>c. if alnum c \<or> c \<in> set ''-_.~'' then [c]
     else if c = CHR '' '' then ''+'' else percent c) s)"

fun PathUnescape :: "string \<Rightarrow> string option" where
  "PathUnescape [] = Some []"
| "PathUnescape (c # s) =
     (if c = CHR ''%'' then
        (case s of
           x # y # r \<Rightarrow>
             (case (hex_val x, hex_val y) of
                (Some a, Some b) \<Rightarrow> map_option (\<lambda>u. char_of (16 * a + b) # u) (PathUnescape r)
              | _ \<Rightarrow> None)
         | _ \<Rightarrow> None)
      else map_option ((#) c) (PathUnescape s))"

lemma upper_hex_table: "list_all (\<lambda>n. hex_val (upper_hex n) = Some n) [0..<16]"
  by code_simp

lemma hex_val_upper [simp]: "n < 16 \<Longrightarrow> hex_val (upper_hex n) = Some n"
  using upper_hex_table by (simp add: list_all_iff)

lemma PathUnescape_percent: "PathUnescape (percent c @ s) = map_option ((#) c) (PathUnescape s)"
  by (simp add: percent_def)

lemma PathUnescape_PathEscape: "PathUnescape (PathEscape s) = Some s"
proof (induction s)
  case (Cons c s)
  have "PathEscape (c # s) = (if alnum c \<or> c \<in> set ''-_.~$&+:=@'' then [c] else percent c) @ PathEscape s"
    by (simp add: PathEscape_def)
  moreover have "\<not> alnum CHR ''%''" by (simp add: alnum_def)
  ultimately show ?case using Cons by (auto simp: PathUnescape_percent)
qed (simp add: PathEscape_def)

lemma PathUnescape_plain: "CHR ''%'' \<notin> set s \<Longrightarrow> PathUnescape s = Some s"
  by (induction s) auto

section \<open>Sscanf\<close>

text \<open>
  \<open>fmt.Sscanf\<close> over string operands, for formats of literals and verbs (no widths, no
  white space, no percent literal): a literal has to match the next byte; a verb the
  scanner does not accept for a string (anything but s, v, q, x and X) is an error. Go has
  no character-class verb.
\<close>

datatype fmt_item = Lit char | Verb char

fun parse_fmt :: "string \<Rightarrow> fmt_item list" where
  "parse_fmt [] = []"
| "parse_fmt [c] = [Lit c]"
| "parse_fmt (c # v # s) = (if c = CHR ''%'' then Verb v # parse_fmt s else Lit c # parse_fmt (v # s))"

fun scan_items :: "env \<Rightarrow> fmt_item list \<Rightarrow> string \<Rightarrow> string list option" where
  "scan_items E [] s = Some []"
| "scan_items E (Lit c # fs) s =
     (case s of [] \<Rightarrow> None | x # t \<Rightarrow> if x = c then scan_items E fs t else None)"
| "scan_items E (Verb v # fs) s =
     (if v \<in> set ''svqxX''
      then (case scan_tok E v s of
              None \<Rightarrow> None
            | Some (w, t) \<Rightarrow> map_option (\<lambda>ws. w # ws) (scan_items E fs t))
      else None)"

definition Sscanf :: "env \<Rightarrow> string \<Rightarrow> string \<Rightarrow> string list option" where
  "Sscanf E f s = scan_items E (parse_fmt f) s"

lemma Sscanf_char_class: "Sscanf E ''@%[^:]:%s'' s = None"
  by (simp add: Sscanf_def split: list.splits)

section \<open>An environment to evaluate on\<close>

text \<open>
  One concrete value of what the code is given: UUIDs and times print as decimal numbers, a
  hash is its argument, a signature is the key before the message.
\<close>

definition demo_env :: env where
  "demo_env = \<lparr> uni_lower = (\<lambda>s. s), pg_lower = map ascii_lower,
     uuid_str = (\<lambda>u. dec (unat u)), uuid_parse = (\<lambda>s. case scan_uint 0 s of Inr n \<Rightarrow> Some (of_nat n) | _ \<Rightarrow> None),
     fmt_nano = Itoa, pg_time = (\<lambda>s. case ParseInt s of (v, ok) \<Rightarrow> if ok then Some v else None),
     scan_tok = (\<lambda>_ _. None), sha256 = (\<lambda>b. b), ed_sign = (\<lambda>k m. k @ m),
     ed_verify = (\<lambda>k m sig. sig = k @ m), bcrypt_hash = (\<lambda>p. Some (CHR ''$'' # p)),
     bcrypt_ok = (\<lambda>h p. h = CHR ''$'' # p), jwt_sign = (\<lambda>_ _. None), jwt_parse = (\<lambda>_ _ _. None) \<rparr>"

section \<open>Concrete documents\<close>

text \<open>Lists of strings in one string, for the instances that stand in for JSON: each in hexadecimal
  and ended by a dot. Integers are written in unary.\<close>

definition dotted :: "string list \<Rightarrow> string" where
  "dotted fs = concat (map (\<lambda>s. hex_encode s @ ''.'') fs)"

definition undotted :: "string \<Rightarrow> string list" where
  "undotted s = map (\<lambda>x. the (hex_decode x)) (butlast (SplitC (CHR ''.'') s))"

definition unary :: "int \<Rightarrow> string" where
  "unary i = (if i < 0 then ''-'' else '''') @ replicate (nat \<bar>i\<bar>) (CHR ''1'')"

definition of_unary :: "string \<Rightarrow> int" where
  "of_unary s = (case s of [] \<Rightarrow> 0 | c # r \<Rightarrow> if c = CHR ''-'' then - int (length r) else int (length s))"

lemma of_unary_unary [simp]: "of_unary (unary i) = i"
  by (cases "nat \<bar>i\<bar>") (auto simp: of_unary_def unary_def)

lemma hex_encode_no_dot: "CHR ''.'' \<notin> set (hex_encode b)"
proof -
  have "\<forall>n \<in> set [0..<16]. hex_digit n \<noteq> CHR ''.''" by code_simp
  moreover have "(of_char c :: nat) div 16 < 16" "(of_char c :: nat) mod 16 < 16" for c :: char using of_char_div [of c] by simp_all
  ultimately show ?thesis by (fastforce simp: hex_encode_def)
qed

lemma split_fields: "SplitC (CHR ''.'') (dotted fs) = map hex_encode fs @ [[]]"
  by (induction fs) (simp_all add: dotted_def SplitC_append [OF hex_encode_no_dot, simplified])

lemma undotted_dotted [simp]: "undotted (dotted fs) = fs"
  unfolding undotted_def split_fields by (simp add: hex_decode_encode comp_def)

lemma dotted_chars: "c \<in> set (dotted fs) \<Longrightarrow> c = CHR ''.'' \<or> (\<exists>n < 16. c = hex_digit n)"
proof -
  have "\<exists>n < 16. c = hex_digit n" if c: "c \<in> set (hex_encode b)" for b
  proof -
    obtain x :: char where "c = hex_digit (of_char x div 16) \<or> c = hex_digit (of_char x mod 16)" using c by (auto simp: hex_encode_def)
    moreover have "(of_char x :: nat) div 16 < 16" "(of_char x :: nat) mod 16 < 16" using of_char_div [of x] by simp_all
    ultimately show ?thesis by blast
  qed
  then show "c \<in> set (dotted fs) \<Longrightarrow> c = CHR ''.'' \<or> (\<exists>n < 16. c = hex_digit n)"
    by (cases "fs = []") (auto simp: dotted_def)
qed

end
