(* ===== verification/Database.thy ===== *)
theory Database
  imports Go_Enc
begin

text \<open>
  The PostgreSQL database behind the server: one record per table of the migrations
  under \<open>src/server/internal/db/migrations\<close> (columns no statement of the code reads are
  left out), and how a statement runs. A table is the list of its rows in insertion
  order. Every statement may be refused or its answer lost, as the session's fault
  schedule says, so that every \<open>if err != nil\<close> of the code is a reachable branch; random
  numbers, fresh UUIDs and the two clocks are inputs of the session as well.
\<close>

section \<open>Tables\<close>

record user_row =
  u_id :: int
  u_username :: string
  u_domain :: string
  u_password_hash :: "bytes option"

record device_row =
  d_id :: uuid
  d_user :: int
  d_identity_key :: bytes
  d_signed_prekey :: bytes
  d_signed_prekey_sig :: bytes
  d_signed_prekey_id :: int
  d_name :: "string option"
  d_created :: int
  d_updated :: int

record otpk_row =
  o_id :: int
  o_device :: uuid
  o_key_id :: int
  o_prekey :: bytes
  o_consumed :: "int option"

record token_row =
  a_id :: int
  a_user :: int
  a_device :: uuid
  a_hash :: bytes
  a_jti :: "uuid option"
  a_expires :: int
  a_revoked :: "int option"

record msg_row =
  m_event_id :: string
  m_sender :: string
  m_recipient :: string
  m_sender_device :: string
  m_type :: string
  m_ciphertext :: bytes
  m_ciphertexts :: "(string \<times> string) list option"
  m_session :: string
  m_timestamp :: int
  m_status :: string
  m_expires :: int
  m_created :: int

record cursor_row =
  c_user :: int
  c_device :: uuid
  c_cursor :: string

record idem_row =
  i_hash :: bytes
  i_event :: string

record peer_row =
  fp_domain :: string
  fp_endpoint :: string
  fp_allowed :: bool

record room_row =
  r_id :: uuid
  r_name :: string
  r_domain :: string
  r_creator :: int
  r_created :: int

record member_row =
  rm_room :: uuid
  rm_user :: int
  rm_role :: string
  rm_joined :: int

record receipt_row =
  rr_event :: string
  rr_reader :: string

record salt_row =
  bs_user :: int
  bs_salt :: bytes

record backup_row =
  kb_user :: int
  kb_bundle :: bytes

record proxy_row =
  ps_hash :: bytes
  ps_home_domain :: string
  ps_home_token :: string
  ps_user :: string
  ps_device :: string
  ps_expires :: int

record push_row =
  pu_user :: int
  pu_device :: uuid
  pu_endpoint :: string
  pu_p256dh :: string
  pu_auth :: string

text \<open>
  \<open>client_address\<close> is an \<open>inet\<close>; the texts the code writes and reads (an IPv4 address with \<open>/32\<close>)
  are the same, so the model keeps the text.
\<close>

record vpeer_row =
  vp_user :: int
  vp_device :: uuid
  vp_protocol :: string
  vp_pubkey :: "string option"
  vp_address :: "string option"
  vp_created :: int
  vp_expires :: "int option"
  vp_limit :: "int option"
  vp_node :: "uuid option"
  vp_xray :: "string option"
  vp_trojan :: "string option"

record vnode_row =
  vn_id :: uuid
  vn_name :: string
  vn_region :: string
  vn_wg_endpoint :: string
  vn_wg_pubkey :: string
  vn_ovpn_endpoint :: string
  vn_xray_endpoint :: string
  vn_default :: bool

text \<open>
  \<open>tb_now\<close> is SQL's \<open>NOW()\<close> in microseconds. The sequences behind the
  \<open>BIGSERIAL\<close> keys (and the generated key of \<open>access_tokens\<close>) and \<open>vpn_wg_addr_seq\<close> are counters, which a
  rollback does not put back.
\<close>

record tables =
  tb_users :: "user_row list"
  tb_devices :: "device_row list"
  tb_otpks :: "otpk_row list"
  tb_tokens :: "token_row list"
  tb_msgs :: "msg_row list"
  tb_cursors :: "cursor_row list"
  tb_idem :: "idem_row list"
  tb_peers :: "peer_row list"
  tb_rooms :: "room_row list"
  tb_members :: "member_row list"
  tb_receipts :: "receipt_row list"
  tb_salts :: "salt_row list"
  tb_backups :: "backup_row list"
  tb_proxy :: "proxy_row list"
  tb_push :: "push_row list"
  tb_vpeers :: "vpeer_row list"
  tb_vnodes :: "vnode_row list"
  tb_vsettings :: "(string \<times> string) list"
  seq_users :: int
  seq_otpks :: int
  seq_tokens :: int
  seq_wg :: int
  tb_now :: int

definition empty_tables :: tables where
  "empty_tables = \<lparr> tb_users = [], tb_devices = [], tb_otpks = [], tb_tokens = [], tb_msgs = [],
     tb_cursors = [], tb_idem = [], tb_peers = [], tb_rooms = [], tb_members = [],
     tb_receipts = [], tb_salts = [], tb_backups = [], tb_proxy = [], tb_push = [],
     tb_vpeers = [], tb_vnodes = [], tb_vsettings = [], seq_users = 1, seq_otpks = 1, seq_tokens = 1, seq_wg = 2, tb_now = 0 \<rparr>"

section \<open>Sessions\<close>

text \<open>
  What happens to one statement: it is answered; it is refused; it is applied and the
  answer is lost; or the result set breaks off after some rows, which the code only sees
  when it asks \<open>rows.Err()\<close>. An empty schedule answers everything.
\<close>

datatype fault = Answered | Refused | LostAck | Cut nat

datatype db_err = Conn | NoRows | UniqueViolation | ForeignKeyViolation | CheckViolation
  | NotNullViolation | SequenceLimit

text \<open>
  \<open>entropy\<close> is \<open>rand.Reader\<close> (a draw gives the bytes of one read, or fails), \<open>uuids\<close> the
  values \<open>uuid.New()\<close> returns, \<open>go_now\<close> is \<open>time.Now()\<close> in nanoseconds since the epoch.
\<close>

record sess =
  tabs :: tables
  faults :: "fault list"
  entropy :: "nat \<Rightarrow> (nat \<Rightarrow> char) option"
  epos :: nat
  uuids :: "nat \<Rightarrow> uuid"
  upos :: nat
  go_now :: int

text \<open>A session with working clocks and random source, to evaluate definitions on.\<close>

definition session_on :: "tables \<Rightarrow> fault list \<Rightarrow> sess" where
  "session_on t fs = \<lparr> tabs = t, faults = fs, entropy = (\<lambda>i. Some (\<lambda>j. CHR ''r'')), epos = 0,
     uuids = (\<lambda>i. of_nat (Suc i)), upos = 0, go_now = 1700000000000000000 \<rparr>"

definition time_now :: "(sess, int) state" where
  "time_now = State (\<lambda>s. (go_now s, s))"

definition unix :: "int \<Rightarrow> int" where
  "unix ns = ns div 1000000000"

definition uuid_new :: "(sess, uuid) state" where
  "uuid_new = State (\<lambda>s. (uuids s (upos s), s\<lparr>upos := Suc (upos s)\<rparr>))"

definition rand_read :: "nat \<Rightarrow> (sess, bytes option) state" where
  "rand_read n = State (\<lambda>s.
     (map_option (\<lambda>f. map f [0..<n]) (entropy s (epos s)), s\<lparr>epos := Suc (epos s)\<rparr>))"

text \<open>One SQL statement that changes tables, or that returns a value it computes.\<close>

definition stmt :: "(tables \<Rightarrow> (db_err + 'a) \<times> tables) \<Rightarrow> (sess, db_err + 'a) state" where
  "stmt f = State (\<lambda>s. case faults s of
       [] \<Rightarrow> (case f (tabs s) of (r, t) \<Rightarrow> (r, s\<lparr>tabs := t\<rparr>))
     | x # xs \<Rightarrow>
         (let s1 = s\<lparr>faults := xs\<rparr> in case x of
            Refused \<Rightarrow> (Inl Conn, s1)
          | LostAck \<Rightarrow> (Inl Conn, s1\<lparr>tabs := snd (f (tabs s))\<rparr>)
          | _ \<Rightarrow> (case f (tabs s) of (r, t) \<Rightarrow> (r, s1\<lparr>tabs := t\<rparr>))))"

text \<open>\<open>Pool.Query\<close>: the rows, and whether \<open>rows.Err()\<close> is non-nil after the loop.\<close>

definition query :: "(tables \<Rightarrow> 'a list) \<Rightarrow> (sess, db_err + 'a list \<times> bool) state" where
  "query q = State (\<lambda>s. case faults s of
       [] \<Rightarrow> (Inr (q (tabs s), False), s)
     | x # xs \<Rightarrow>
         (case x of
            Refused \<Rightarrow> Inl Conn
          | LostAck \<Rightarrow> Inl Conn
          | Cut n \<Rightarrow> Inr (take n (q (tabs s)), True)
          | Answered \<Rightarrow> Inr (q (tabs s), False), s\<lparr>faults := xs\<rparr>))"

text \<open>\<open>Pool.QueryRow(...).Scan\<close>: the first row, \<open>pgx.ErrNoRows\<close>, or another error.\<close>

definition query_row :: "(tables \<Rightarrow> 'a list) \<Rightarrow> (sess, db_err + 'a) state" where
  "query_row q = State (\<lambda>s. case faults s of
       [] \<Rightarrow> (case q (tabs s) of [] \<Rightarrow> Inl NoRows | r # _ \<Rightarrow> Inr r, s)
     | x # xs \<Rightarrow>
         (if x \<in> {Refused, LostAck, Cut 0} then Inl Conn
          else (case q (tabs s) of [] \<Rightarrow> Inl NoRows | r # _ \<Rightarrow> Inr r), s\<lparr>faults := xs\<rparr>))"

section \<open>Transactions\<close>

definition restore :: "tables \<Rightarrow> tables \<Rightarrow> tables" where
  "restore snap cur =
     snap\<lparr>seq_users := seq_users cur, seq_otpks := seq_otpks cur, seq_tokens := seq_tokens cur, seq_wg := seq_wg cur\<rparr>"

definition tx_begin :: "(sess, db_err + tables) state" where
  "tx_begin = stmt (\<lambda>t. (Inr t, t))"

definition tx_rollback :: "tables \<Rightarrow> (sess, unit) state" where
  "tx_rollback snap = State (\<lambda>s. ((), s\<lparr>tabs := restore snap (tabs s)\<rparr>))"

definition tx_commit :: "tables \<Rightarrow> (sess, db_err + unit) state" where
  "tx_commit snap = State (\<lambda>s. case faults s of
       [] \<Rightarrow> (Inr (), s)
     | x # xs \<Rightarrow>
         (let s1 = s\<lparr>faults := xs\<rparr> in case x of
            Refused \<Rightarrow> (Inl Conn, s1\<lparr>tabs := restore snap (tabs s)\<rparr>)
          | LostAck \<Rightarrow> (Inl Conn, s1)
          | _ \<Rightarrow> (Inr (), s1)))"

text \<open>
  \<open>Begin\<close>, a body whose error path is the deferred \<open>Rollback\<close>, and \<open>Commit\<close>; \<open>w\<close> is
  how the function wraps the error of \<open>Begin\<close>, \<open>fin\<close> what it returns after \<open>Commit\<close>.
\<close>

definition in_tx_then :: "(db_err \<Rightarrow> 'e) \<Rightarrow> (db_err + unit \<Rightarrow> 'a \<Rightarrow> 'e + 'a)
    \<Rightarrow> (sess, 'e + 'a) state \<Rightarrow> (sess, 'e + 'a) state" where
  "in_tx_then w fin body = do {
     b \<leftarrow> tx_begin;
     case b of
       Inl e \<Rightarrow> ret (Inl (w e))
     | Inr snap \<Rightarrow> do {
         r \<leftarrow> body;
         case r of
           Inl e \<Rightarrow> do { _ \<leftarrow> tx_rollback snap; ret (Inl e) }
         | Inr x \<Rightarrow> do { c \<leftarrow> tx_commit snap; ret (fin c x) } } }"

definition in_tx :: "(db_err \<Rightarrow> 'e) \<Rightarrow> (sess, 'e + 'a) state \<Rightarrow> (sess, 'e + 'a) state" where
  "in_tx w = in_tx_then w (\<lambda>c x. case c of Inl e \<Rightarrow> Inl (w e) | Inr _ \<Rightarrow> Inr x)"

section \<open>Rules\<close>

definition on_tabs :: "(tables \<Rightarrow> bool) \<Rightarrow> sess \<Rightarrow> bool" where
  "on_tabs P s \<longleftrightarrow> P (tabs s)"

text \<open>Without faults a statement is its effect on the tables.\<close>

lemma run_stmt [sql_simps]:
  "faults s = [] \<Longrightarrow> run_state (stmt f) s = (case f (tabs s) of (r, t) \<Rightarrow> (r, s\<lparr>tabs := t\<rparr>))"
  by (simp add: stmt_def)

lemma run_query [sql_simps]:
  "faults s = [] \<Longrightarrow> run_state (query q) s = (Inr (q (tabs s), False), s)"
  by (simp add: query_def)

lemma run_query_row [sql_simps]:
  "faults s = [] \<Longrightarrow>
    run_state (query_row q) s = (case q (tabs s) of [] \<Rightarrow> Inl NoRows | r # _ \<Rightarrow> Inr r, s)"
  by (simp add: query_row_def)

lemma run_time_now [sql_simps]: "run_state time_now s = (go_now s, s)"
  by (simp add: time_now_def)

lemma run_uuid_new [sql_simps]:
  "run_state uuid_new s = (uuids s (upos s), s\<lparr>upos := Suc (upos s)\<rparr>)"
  by (simp add: uuid_new_def)

lemma run_rand_read [sql_simps]:
  "run_state (rand_read n) s =
    (map_option (\<lambda>f. map f [0..<n]) (entropy s (epos s)), s\<lparr>epos := Suc (epos s)\<rparr>)"
  by (simp add: rand_read_def)

lemma run_tx_begin [sql_simps]: "faults s = [] \<Longrightarrow> run_state tx_begin s = (Inr (tabs s), s)"
  by (simp add: tx_begin_def run_stmt)

lemma run_tx_rollback [sql_simps]:
  "run_state (tx_rollback t) s = ((), s\<lparr>tabs := restore t (tabs s)\<rparr>)"
  by (simp add: tx_rollback_def)

lemma run_tx_commit [sql_simps]: "faults s = [] \<Longrightarrow> run_state (tx_commit t) s = (Inr (), s)"
  by (simp add: tx_commit_def)

text \<open>An invariant of the tables, under any fault schedule.\<close>

lemma keeps_stmt [triple_intros]:
  "(\<And>t. P t \<Longrightarrow> P (snd (f t))) \<Longrightarrow> keeps (on_tabs P) (stmt f)"
  by (fastforce simp: triple_def on_tabs_def stmt_def Let_def
      split: list.splits fault.splits prod.splits)

lemma keeps_query [triple_intros]: "keeps (on_tabs P) (query q)"
  by (auto simp: triple_def on_tabs_def query_def split: list.splits)

lemma triple_query:
  "triple (on_tabs P) (query q)
     (\<lambda>r s. on_tabs P s \<and> (\<forall>rows b. r = Inr (rows, b) \<longrightarrow> (\<exists>t. P t \<and> set rows \<subseteq> set (q t))))"
  by (fastforce simp: triple_def on_tabs_def query_def split: list.splits fault.splits
      dest: in_set_takeD)

lemma keeps_query_row [triple_intros]: "keeps (on_tabs P) (query_row q)"
  by (auto simp: triple_def on_tabs_def query_row_def split: list.splits)

text \<open>What a statement returned, under any schedule: what it returned is what it computed.\<close>

lemma stmt_InrD: "run_state (stmt f) s = (Inr x, s') \<Longrightarrow> f (tabs s) = (Inr x, tabs s')"
  by (auto simp: stmt_def Let_def split: list.splits fault.splits prod.splits)

lemma stmt_tabs: "run_state (stmt f) s = (r, s') \<Longrightarrow> tabs s' = tabs s \<or> tabs s' = snd (f (tabs s))"
  by (auto simp: stmt_def Let_def split: list.splits fault.splits prod.splits)

lemma query_row_tabs: "run_state (query_row q) s = (r, s') \<Longrightarrow> tabs s' = tabs s"
  by (auto simp: query_row_def split: list.splits if_splits)

lemma query_row_frame: "run_state (query_row q) s = (r, s') \<Longrightarrow> \<exists>fs. s' = s\<lparr>faults := fs\<rparr>"
  by (cases "faults s") (auto simp: query_row_def split: list.splits if_splits intro: exI [of _ "faults s"])

lemma query_frame: "run_state (query q) s = (r, s') \<Longrightarrow> \<exists>fs. s' = s\<lparr>faults := fs\<rparr>"
  by (cases "faults s") (auto simp: query_def split: list.splits if_splits intro: exI [of _ "faults s"])

lemma query_row_InrD: "run_state (query_row q) s = (Inr x, s') \<Longrightarrow> \<exists>xs. q (tabs s) = x # xs"
  by (auto simp: query_row_def split: list.splits if_splits)

lemma query_row_NoRowsD: "run_state (query_row q) s = (Inl NoRows, s') \<Longrightarrow> q (tabs s) = []"
  by (auto simp: query_row_def split: list.splits if_splits)

lemma query_tabs: "run_state (query q) s = (r, s') \<Longrightarrow> tabs s' = tabs s"
  by (auto simp: query_def split: list.splits if_splits)

lemma query_InrD: "run_state (query q) s = (Inr (xs, e), s') \<Longrightarrow> \<exists>n. xs = take n (q (tabs s))"
proof -
  have "\<exists>n. ys = take n ys" for ys :: "'b list" by (metis take_all order_refl)
  then show "run_state (query q) s = (Inr (xs, e), s') \<Longrightarrow> \<exists>n. xs = take n (q (tabs s))"
    by (auto simp: query_def split: list.splits if_splits fault.splits)
qed

lemma keeps_time_now [triple_intros]: "keeps (on_tabs P) time_now"
  by (simp add: triple_def on_tabs_def time_now_def)

lemma keeps_uuid_new [triple_intros]: "keeps (on_tabs P) uuid_new"
  by (simp add: triple_def on_tabs_def uuid_new_def)

lemma keeps_rand_read [triple_intros]: "keeps (on_tabs P) (rand_read n)"
  by (simp add: triple_def on_tabs_def rand_read_def)


text \<open>
  A transaction: what its body establishes when it succeeds holds after it, or the snapshot
  is back.
\<close>

lemma triple_tx_begin:
  "triple (on_tabs P) tx_begin
     (\<lambda>r s. on_tabs P s \<and> (\<forall>snap. r = Inr snap \<longrightarrow> P snap))"
  by (auto simp: triple_def on_tabs_def tx_begin_def stmt_def Let_def
      split: list.splits fault.splits)

lemma triple_tx_commit:
  assumes "\<And>cur. P (restore snap cur)"
  shows "keeps (on_tabs P) (tx_commit snap)"
  using assms by (auto simp: triple_def on_tabs_def tx_commit_def Let_def
      split: list.splits fault.splits)

lemma triple_tx_rollback:
  assumes "\<And>cur. P (restore snap cur)"
  shows "triple A (tx_rollback snap) (\<lambda>_. on_tabs P)"
  using assms by (auto simp: triple_def on_tabs_def tx_rollback_def)

lemma triple_in_tx_then:
  assumes seq: "\<And>snap cur. A snap \<Longrightarrow> P (restore snap cur)" and AP: "\<And>t. A t \<Longrightarrow> P t"
    and body: "triple (on_tabs A) body (\<lambda>r s. \<forall>x. r = Inr x \<longrightarrow> P (tabs s))"
  shows "triple (on_tabs A) (in_tx_then w fin body) (\<lambda>_. on_tabs P)"
  unfolding in_tx_then_def
proof (rule triple_bind [OF triple_tx_begin])
  fix b :: "db_err + tables"
  let ?pre = "\<lambda>s. on_tabs A s \<and> (\<forall>snap. b = Inr snap \<longrightarrow> A snap)"
  let ?cont = "\<lambda>snap. do {
         r \<leftarrow> body;
         case r of
           Inl e \<Rightarrow> do { _ \<leftarrow> tx_rollback snap; ret (Inl e) }
         | Inr x \<Rightarrow> do { c \<leftarrow> tx_commit snap; ret (fin c x) } }"
  have cont: "triple (on_tabs A) (?cont snap) (\<lambda>_. on_tabs P)" if "A snap" for snap
  proof (rule triple_bind [OF body])
    fix r
    from that have re: "\<And>cur. P (restore snap cur)" by (rule seq)
    show "triple (\<lambda>s. \<forall>x. r = Inr x \<longrightarrow> P (tabs s)) (case r of
           Inl e \<Rightarrow> do { _ \<leftarrow> tx_rollback snap; ret (Inl e) }
         | Inr x \<Rightarrow> do { c \<leftarrow> tx_commit snap; ret (fin c x) }) (\<lambda>_. on_tabs P)"
    proof (cases r)
      case (Inl e)
      then show ?thesis by (auto intro!: triple_bind [OF triple_tx_rollback [where P = P and snap = snap]] keeps_ret re)
    next
      case (Inr x)
      have "keeps (on_tabs P) (do { c \<leftarrow> tx_commit snap; ret (fin c x) })"
        by (intro triple_intros triple_tx_commit re)
      then show ?thesis unfolding Inr sum.case by (rule triple_weaken) (simp_all add: on_tabs_def)
    qed
  qed
  show "triple ?pre (case b of Inl e \<Rightarrow> ret (Inl (w e)) | Inr snap \<Rightarrow> ?cont snap) (\<lambda>_. on_tabs P)"
  proof (cases b)
    case (Inl e)
    then show ?thesis using AP by (auto simp: on_tabs_def intro: triple_ret)
  next
    case (Inr snap)
    then show ?thesis using cont [of snap] by (auto simp: triple_def)
  qed
qed

lemma triple_in_tx:
  assumes "\<And>snap cur. A snap \<Longrightarrow> P (restore snap cur)" and "\<And>t. A t \<Longrightarrow> P t"
    and "triple (on_tabs A) body (\<lambda>r s. \<forall>x. r = Inr x \<longrightarrow> P (tabs s))"
  shows "triple (on_tabs A) (in_tx w body) (\<lambda>_. on_tabs P)"
  unfolding in_tx_def using assms by (rule triple_in_tx_then)

text \<open>An invariant that does not look at the sequences and that the body keeps.\<close>

lemma keeps_in_tx [triple_intros]:
  assumes "\<And>snap cur. P snap \<Longrightarrow> P (restore snap cur)" and "keeps (on_tabs P) body"
  shows "keeps (on_tabs P) (in_tx w body)"
  using assms by (intro triple_in_tx) (auto simp: on_tabs_def elim!: triple_weaken)

end
