(* ===== verification/Dbenc.thy ===== *)
theory Dbenc
  imports Database
begin

text \<open>
  Package \<open>dbenc\<close>: AES-256-GCM encryption of sensitive columns
  (\<open>src/server/internal/dbenc/dbenc.go\<close>) and the start-up migration that encrypts what is
  still plaintext (\<open>migrate.go\<close>). The AEAD itself is a parameter. The lemmas show the
  round trip, the contract other packages rely on as a locale, that the migration never
  changes what a reader sees under any fault schedule, that it completes, and that a
  second run changes nothing.
\<close>

section \<open>The cipher\<close>

record aead =
  nonce_size :: nat
  aead_seal :: "bytes \<Rightarrow> bytes \<Rightarrow> bytes"
  aead_open :: "bytes \<Rightarrow> bytes \<Rightarrow> bytes option"

text \<open>\<open>*Cipher\<close>: \<open>None\<close> is the nil cipher, encryption switched off.\<close>

type_synonym cipher = "aead option"

datatype enc_err = RandErr | ErrDecrypt | ErrInvalidKey | EncDB db_err

definition magicPrefix :: bytes where
  "magicPrefix = ''DBE1''"

text \<open>\<open>mk\<close> is \<open>cipher.NewGCM(aes.NewCipher(key))\<close>, which succeeds on 32 bytes.\<close>

definition New :: "(bytes \<Rightarrow> aead) \<Rightarrow> string \<Rightarrow> enc_err + cipher" where
  "New mk keyB64 =
     (if keyB64 = [] then Inr None
      else (case b64_decode keyB64 of
              None \<Rightarrow> Inl ErrInvalidKey
            | Some key \<Rightarrow> if length key \<noteq> 32 then Inl ErrInvalidKey else Inr (Some (mk key))))"

definition Encrypt :: "cipher \<Rightarrow> bytes \<Rightarrow> (sess, enc_err + bytes) state" where
  "Encrypt c plain = (case c of
       None \<Rightarrow> ret (Inr plain)
     | Some a \<Rightarrow> do {
         n \<leftarrow> rand_read (nonce_size a);
         ret (case n of
           None \<Rightarrow> Inl RandErr
         | Some nonce \<Rightarrow> Inr (magicPrefix @ nonce @ aead_seal a nonce plain)) })"

definition Decrypt :: "cipher \<Rightarrow> bytes \<Rightarrow> enc_err + bytes" where
  "Decrypt c data = (case c of
       None \<Rightarrow> Inr data
     | Some a \<Rightarrow>
         if length data < length magicPrefix \<or> take (length magicPrefix) data \<noteq> magicPrefix then Inr data
         else (let d = drop (length magicPrefix) data in
           if length d < nonce_size a then Inl ErrDecrypt
           else (case aead_open a (take (nonce_size a) d) (drop (nonce_size a) d) of
                   None \<Rightarrow> Inl ErrDecrypt
                 | Some plain \<Rightarrow> Inr plain)))"

definition GenerateKey :: "(sess, enc_err + string) state" where
  "GenerateKey = do {
     b \<leftarrow> rand_read 32;
     ret (case b of None \<Rightarrow> Inl RandErr | Some k \<Rightarrow> Inr (b64_encode k)) }"

definition IsEncrypted :: "bytes \<Rightarrow> bool" where
  "IsEncrypted data \<longleftrightarrow> length data \<ge> length magicPrefix \<and> take (length magicPrefix) data = magicPrefix"

text \<open>The documented law of an AEAD: opening a sealed text with its nonce gives it back.\<close>

definition cipher_ok :: "cipher \<Rightarrow> bool" where
  "cipher_ok c \<longleftrightarrow> (case c of None \<Rightarrow> True
     | Some a \<Rightarrow> (\<forall>n p. aead_open a n (aead_seal a n p) = Some p))"

section \<open>The start-up migration\<close>

text \<open>
  The body of each of the loops: skip a value that carries the prefix, else encrypt it and
  write it back under the row's key.
\<close>

definition encrypt_cell :: "cipher \<Rightarrow> ('k \<Rightarrow> bytes \<Rightarrow> tables \<Rightarrow> tables) \<Rightarrow> 'k \<times> bytes
    \<Rightarrow> (sess, enc_err + unit) state" where
  "encrypt_cell c upd kv = (case kv of (k, v) \<Rightarrow>
     if IsEncrypted v then ret (Inr ())
     else do {
       r \<leftarrow> Encrypt c v;
       case r of
         Inl e \<Rightarrow> ret (Inl e)
       | Inr enc \<Rightarrow> do {
           x \<leftarrow> stmt (\<lambda>t. (Inr (), upd k enc t));
           ret (case x of Inl e \<Rightarrow> Inl (EncDB e) | Inr _ \<Rightarrow> Inr ()) } })"

definition sel_users :: "tables \<Rightarrow> (int \<times> bytes) list" where
  "sel_users t = [(u_id u, the (u_password_hash u)).
     u \<leftarrow> tb_users t, u_password_hash u \<noteq> None \<and> u_password_hash u \<noteq> Some []]"

definition upd_users :: "int \<Rightarrow> bytes \<Rightarrow> tables \<Rightarrow> tables" where
  "upd_users k v t = t\<lparr>tb_users :=
     map (\<lambda>u. if u_id u = k then u\<lparr>u_password_hash := Some v\<rparr> else u) (tb_users t)\<rparr>"

definition sel_otpks :: "tables \<Rightarrow> (int \<times> bytes) list" where
  "sel_otpks t = map (\<lambda>p. (o_id p, o_prekey p)) (tb_otpks t)"

definition upd_otpks :: "int \<Rightarrow> bytes \<Rightarrow> tables \<Rightarrow> tables" where
  "upd_otpks k v t = t\<lparr>tb_otpks :=
     map (\<lambda>p. if o_id p = k then p\<lparr>o_prekey := v\<rparr> else p) (tb_otpks t)\<rparr>"

definition sel_tokens :: "tables \<Rightarrow> (int \<times> bytes) list" where
  "sel_tokens t = map (\<lambda>a. (a_id a, a_hash a)) (tb_tokens t)"

definition upd_tokens :: "int \<Rightarrow> bytes \<Rightarrow> tables \<Rightarrow> tables" where
  "upd_tokens k v t = t\<lparr>tb_tokens :=
     map (\<lambda>a. if a_id a = k then a\<lparr>a_hash := v\<rparr> else a) (tb_tokens t)\<rparr>"

definition sel_salts :: "tables \<Rightarrow> (int \<times> bytes) list" where
  "sel_salts t = map (\<lambda>b. (bs_user b, bs_salt b)) (tb_salts t)"

definition upd_salts :: "int \<Rightarrow> bytes \<Rightarrow> tables \<Rightarrow> tables" where
  "upd_salts k v t = t\<lparr>tb_salts :=
     map (\<lambda>b. if bs_user b = k then b\<lparr>bs_salt := v\<rparr> else b) (tb_salts t)\<rparr>"

text \<open>The loop over \<open>devices\<close> encrypts the three key columns of a row and writes them at once.\<close>

definition maybe_enc :: "cipher \<Rightarrow> bytes \<Rightarrow> (sess, enc_err + bytes) state" where
  "maybe_enc c v = (if IsEncrypted v then ret (Inr v) else Encrypt c v)"

definition upd_device_keys :: "uuid \<Rightarrow> bytes \<Rightarrow> bytes \<Rightarrow> bytes \<Rightarrow> tables \<Rightarrow> tables" where
  "upd_device_keys k ik spk sig t = t\<lparr>tb_devices :=
     map (\<lambda>d. if d_id d = k
              then d\<lparr>d_identity_key := ik, d_signed_prekey := spk, d_signed_prekey_sig := sig\<rparr>
              else d) (tb_devices t)\<rparr>"

definition encrypt_device :: "cipher \<Rightarrow> device_row \<Rightarrow> (sess, enc_err + unit) state" where
  "encrypt_device c d =
     (if IsEncrypted (d_identity_key d) \<and> IsEncrypted (d_signed_prekey d)
         \<and> IsEncrypted (d_signed_prekey_sig d) then ret (Inr ())
      else do {
        r1 \<leftarrow> maybe_enc c (d_identity_key d);
        case r1 of Inl e \<Rightarrow> ret (Inl e) | Inr ik \<Rightarrow> do {
        r2 \<leftarrow> maybe_enc c (d_signed_prekey d);
        case r2 of Inl e \<Rightarrow> ret (Inl e) | Inr spk \<Rightarrow> do {
        r3 \<leftarrow> maybe_enc c (d_signed_prekey_sig d);
        case r3 of Inl e \<Rightarrow> ret (Inl e) | Inr sig \<Rightarrow> do {
        x \<leftarrow> stmt (\<lambda>t. (Inr (), upd_device_keys (d_id d) ik spk sig t));
        ret (case x of Inl e \<Rightarrow> Inl (EncDB e) | Inr _ \<Rightarrow> Inr ()) } } } })"

definition encrypt_column :: "(tables \<Rightarrow> 'a list) \<Rightarrow> (db_err \<Rightarrow> enc_err + unit)
    \<Rightarrow> ('a \<Rightarrow> (sess, enc_err + unit) state) \<Rightarrow> (sess, enc_err + unit) state
    \<Rightarrow> (sess, enc_err + unit) state" where
  "encrypt_column sel onerr body next = do {
     q \<leftarrow> query sel;
     case q of
       Inl e \<Rightarrow> ret (onerr e)
     | Inr (rows, _) \<Rightarrow> do {
         r \<leftarrow> for_err body rows;
         case r of Inl e \<Rightarrow> ret (Inl e) | Inr _ \<Rightarrow> next } }"

definition EncryptExisting :: "cipher \<Rightarrow> (sess, enc_err + unit) state" where
  "EncryptExisting c =
     (if c = None then ret (Inr ())
      else encrypt_column sel_users (\<lambda>e. Inl (EncDB e)) (encrypt_cell c upd_users)
          (encrypt_column tb_devices (\<lambda>e. Inl (EncDB e)) (encrypt_device c)
          (encrypt_column sel_otpks (\<lambda>e. Inl (EncDB e)) (encrypt_cell c upd_otpks)
          (encrypt_column sel_tokens (\<lambda>e. Inl (EncDB e)) (encrypt_cell c upd_tokens)
          (encrypt_column sel_salts (\<lambda>e. Inr ()) (encrypt_cell c upd_salts)
          (ret (Inr ())))))))"

section \<open>Round trip\<close>

lemma Decrypt_sealed:
  assumes "cipher_ok (Some a)" and "length nonce = nonce_size a"
  shows "Decrypt (Some a) (magicPrefix @ nonce @ aead_seal a nonce p) = Inr p"
  using assms by (simp add: Decrypt_def cipher_ok_def Let_def)

lemma IsEncrypted_sealed [simp]: "IsEncrypted (magicPrefix @ x)"
  by (simp add: IsEncrypted_def)

lemma Decrypt_plain: "\<not> IsEncrypted v \<Longrightarrow> Decrypt c v = Inr v"
  by (auto simp: Decrypt_def IsEncrypted_def split: option.splits)

text \<open>
  A draw only moves the position in the random source: what an encryption leaves of the
  session, and that what it returns decrypts to what went in.
\<close>

lemma run_Encrypt:
  "run_state (Encrypt c p) s = (r, s') \<Longrightarrow> \<exists>k. s' = s\<lparr>epos := k\<rparr>"
  by (auto simp: Encrypt_def sql_simps split: option.splits
      intro: exI [of _ "epos s"] exI [of _ "Suc (epos s)"])

lemma Encrypt_InrD:
  assumes "run_state (Encrypt c p) s = (Inr x, s')" and "cipher_ok c"
  shows "Decrypt c x = Inr p \<and> (c \<noteq> None \<longrightarrow> IsEncrypted x)"
proof (cases c)
  case None
  with assms(1) show ?thesis by (simp add: Encrypt_def Decrypt_def)
next
  case (Some a)
  with assms(1) obtain f where
    x: "x = magicPrefix @ map f [0..<nonce_size a] @ aead_seal a (map f [0..<nonce_size a]) p"
    by (auto simp: Encrypt_def sql_simps split: option.splits)
  with Some assms(2) show ?thesis by (simp add: Decrypt_sealed)
qed

text \<open>The contract of a column cipher, which the packages that store columns rely on.\<close>

locale column_cipher =
  fixes good :: "'c \<Rightarrow> bool"
    and enc :: "'c \<Rightarrow> bytes \<Rightarrow> (sess, enc_err + bytes) state"
    and dec :: "'c \<Rightarrow> bytes \<Rightarrow> enc_err + bytes"
  assumes enc_frame: "run_state (enc c p) s = (r, s') \<Longrightarrow> \<exists>k. s' = s\<lparr>epos := k\<rparr>"
    and enc_dec: "run_state (enc c p) s = (Inr x, s') \<Longrightarrow> good c \<Longrightarrow> dec c x = Inr p"
begin

lemma enc_tabs: "run_state (enc c p) s = (r, s') \<Longrightarrow> tabs s' = tabs s \<and> faults s' = faults s
    \<and> go_now s' = go_now s \<and> uuids s' = uuids s \<and> upos s' = upos s"
  using enc_frame by fastforce

lemma keeps_enc: "keeps (on_tabs P) (enc c p)"
  by (rule tripleI) (auto simp: on_tabs_def dest: enc_tabs)

lemma enc_inj:
  assumes "good c" and "run_state (enc c p) s = (Inr x, s')" and "run_state (enc c q) s'' = (Inr x, s3)"
  shows "p = q"
  using enc_dec [OF assms(2,1)] enc_dec [OF assms(3,1)] by simp

end

interpretation col: column_cipher cipher_ok Encrypt Decrypt
  by unfold_locales (auto dest: run_Encrypt Encrypt_InrD)

declare col.keeps_enc [triple_intros]

section \<open>What a reader sees during the migration\<close>

text \<open>
  The tables as a reader with the cipher sees them: sensitive columns decrypted, the rest as
  stored. The migration keeps this view in every state it passes through.
\<close>

definition reader_view :: "cipher \<Rightarrow> tables \<Rightarrow> tables
    \<times> (user_row \<times> (enc_err + bytes) option) list
    \<times> (device_row \<times> (enc_err + bytes) \<times> (enc_err + bytes) \<times> (enc_err + bytes)) list
    \<times> (otpk_row \<times> (enc_err + bytes)) list
    \<times> (token_row \<times> (enc_err + bytes)) list
    \<times> (salt_row \<times> (enc_err + bytes)) list" where
  "reader_view c t =
    (t\<lparr>tb_users := [], tb_devices := [], tb_otpks := [], tb_tokens := [], tb_salts := []\<rparr>,
     map (\<lambda>u. (u\<lparr>u_password_hash := None\<rparr>, map_option (Decrypt c) (u_password_hash u))) (tb_users t),
     map (\<lambda>d. (d\<lparr>d_identity_key := [], d_signed_prekey := [], d_signed_prekey_sig := []\<rparr>,
        Decrypt c (d_identity_key d), Decrypt c (d_signed_prekey d), Decrypt c (d_signed_prekey_sig d)))
       (tb_devices t),
     map (\<lambda>p. (p\<lparr>o_prekey := []\<rparr>, Decrypt c (o_prekey p))) (tb_otpks t),
     map (\<lambda>a. (a\<lparr>a_hash := []\<rparr>, Decrypt c (a_hash a))) (tb_tokens t),
     map (\<lambda>b. (b\<lparr>bs_salt := []\<rparr>, Decrypt c (bs_salt b))) (tb_salts t))"

text \<open>The primary keys of the five tables.\<close>

definition keys_distinct :: "tables \<Rightarrow> bool" where
  "keys_distinct t \<longleftrightarrow> distinct (map u_id (tb_users t)) \<and> distinct (map d_id (tb_devices t))
     \<and> distinct (map o_id (tb_otpks t)) \<and> distinct (map a_id (tb_tokens t))
     \<and> distinct (map bs_user (tb_salts t))"

text \<open>
  Two tables with the same view agree, row by row, on what a cell decrypts to; so writing
  another ciphertext of the same plaintext under its key keeps the view.
\<close>

lemma same_cell:
  assumes "map f xs = map f ys" and "distinct (map k xs)"
    and "\<And>x y. f x = f y \<Longrightarrow> k x = k y" and "x \<in> set xs" and "y \<in> set ys" and "k x = k y"
  shows "f x = f y"
proof -
  obtain i where i: "i < length ys" "y = ys ! i" using assms(5) by (auto simp: in_set_conv_nth)
  have l: "length xs = length ys" using assms(1) map_eq_imp_length_eq by blast
  with assms(1) i have "f (xs ! i) = f y" by (metis nth_map)
  moreover from this have "k (xs ! i) = k x" using assms(3,6) by metis
  moreover have "xs ! i \<in> set xs" using i l by simp
  ultimately show ?thesis using assms(2,4) distinct_map_eq by metis
qed

lemma same_view_upd:
  assumes "map f xs = map f ys" and "distinct (map k xs)"
    and "\<And>x y. f x = f y \<Longrightarrow> k x = k y" and "x \<in> set xs" and "\<And>y. f y = f x \<Longrightarrow> f (g y) = f x"
  shows "map f (map (\<lambda>y. if k y = k x then g y else y) ys) = map f ys"
proof -
  have "f (if k y = k x then g y else y) = f y" if y: "y \<in> set ys" for y
  proof (cases "k y = k x")
    case True
    with same_cell [OF assms(1,2,3,4) y] have "f x = f y" by simp
    with True assms(5) [of y] show ?thesis by simp
  qed simp
  then show ?thesis by (simp add: comp_def)
qed

lemma view_upd_users:
  assumes "reader_view c t0 = reader_view c t" and "keys_distinct t0" and "(k, v) \<in> set (sel_users t0)"
    and "Decrypt c e = Decrypt c v"
  shows "reader_view c (upd_users k e t) = reader_view c t"
proof -
  let ?f = "\<lambda>u. (u\<lparr>u_password_hash := None\<rparr>, map_option (Decrypt c) (u_password_hash u))"
  obtain u0 where u0: "u0 \<in> set (tb_users t0)" "k = u_id u0" "u_password_hash u0 = Some v"
    using assms(3) by (auto simp: sel_users_def)
  have "map ?f (map (\<lambda>u. if u_id u = u_id u0 then u\<lparr>u_password_hash := Some e\<rparr> else u) (tb_users t))
      = map ?f (tb_users t)"
    using assms(1,2,4) u0(1,3)
    by (intro same_view_upd [where xs = "tb_users t0"])
       (auto simp: reader_view_def keys_distinct_def dest: arg_cong [of _ _ u_id])
  then show ?thesis by (simp add: reader_view_def upd_users_def u0(2))
qed

lemma view_upd_otpks:
  assumes "reader_view c t0 = reader_view c t" and "keys_distinct t0" and "(k, v) \<in> set (sel_otpks t0)"
    and "Decrypt c e = Decrypt c v"
  shows "reader_view c (upd_otpks k e t) = reader_view c t"
proof -
  let ?f = "\<lambda>p. (p\<lparr>o_prekey := []\<rparr>, Decrypt c (o_prekey p))"
  obtain p0 where p0: "p0 \<in> set (tb_otpks t0)" "k = o_id p0" "o_prekey p0 = v"
    using assms(3) by (auto simp: sel_otpks_def)
  have "map ?f (map (\<lambda>p. if o_id p = o_id p0 then p\<lparr>o_prekey := e\<rparr> else p) (tb_otpks t))
      = map ?f (tb_otpks t)"
    using assms(1,2,4) p0(1,3)
    by (intro same_view_upd [where xs = "tb_otpks t0"])
       (auto simp: reader_view_def keys_distinct_def dest: arg_cong [of _ _ o_id])
  then show ?thesis by (simp add: reader_view_def upd_otpks_def p0(2))
qed

lemma view_upd_tokens:
  assumes "reader_view c t0 = reader_view c t" and "keys_distinct t0" and "(k, v) \<in> set (sel_tokens t0)"
    and "Decrypt c e = Decrypt c v"
  shows "reader_view c (upd_tokens k e t) = reader_view c t"
proof -
  let ?f = "\<lambda>a. (a\<lparr>a_hash := []\<rparr>, Decrypt c (a_hash a))"
  obtain a0 where a0: "a0 \<in> set (tb_tokens t0)" "k = a_id a0" "a_hash a0 = v"
    using assms(3) by (auto simp: sel_tokens_def)
  have "map ?f (map (\<lambda>a. if a_id a = a_id a0 then a\<lparr>a_hash := e\<rparr> else a) (tb_tokens t))
      = map ?f (tb_tokens t)"
    using assms(1,2,4) a0(1,3)
    by (intro same_view_upd [where xs = "tb_tokens t0"])
       (auto simp: reader_view_def keys_distinct_def dest: arg_cong [of _ _ a_id])
  then show ?thesis by (simp add: reader_view_def upd_tokens_def a0(2))
qed

lemma view_upd_salts:
  assumes "reader_view c t0 = reader_view c t" and "keys_distinct t0" and "(k, v) \<in> set (sel_salts t0)"
    and "Decrypt c e = Decrypt c v"
  shows "reader_view c (upd_salts k e t) = reader_view c t"
proof -
  let ?f = "\<lambda>b. (b\<lparr>bs_salt := []\<rparr>, Decrypt c (bs_salt b))"
  obtain b0 where b0: "b0 \<in> set (tb_salts t0)" "k = bs_user b0" "bs_salt b0 = v"
    using assms(3) by (auto simp: sel_salts_def)
  have "map ?f (map (\<lambda>b. if bs_user b = bs_user b0 then b\<lparr>bs_salt := e\<rparr> else b) (tb_salts t))
      = map ?f (tb_salts t)"
    using assms(1,2,4) b0(1,3)
    by (intro same_view_upd [where xs = "tb_salts t0"])
       (auto simp: reader_view_def keys_distinct_def dest: arg_cong [of _ _ bs_user])
  then show ?thesis by (simp add: reader_view_def upd_salts_def b0(2))
qed

lemma view_upd_device_keys:
  assumes "reader_view c t0 = reader_view c t" and "keys_distinct t0" and "d0 \<in> set (tb_devices t0)"
    and "Decrypt c ik = Decrypt c (d_identity_key d0)" and "Decrypt c spk = Decrypt c (d_signed_prekey d0)"
    and "Decrypt c sig = Decrypt c (d_signed_prekey_sig d0)"
  shows "reader_view c (upd_device_keys (d_id d0) ik spk sig t) = reader_view c t"
proof -
  let ?f = "\<lambda>d. (d\<lparr>d_identity_key := [], d_signed_prekey := [], d_signed_prekey_sig := []\<rparr>,
        Decrypt c (d_identity_key d), Decrypt c (d_signed_prekey d), Decrypt c (d_signed_prekey_sig d))"
  let ?g = "\<lambda>d. d\<lparr>d_identity_key := ik, d_signed_prekey := spk, d_signed_prekey_sig := sig\<rparr>"
  have "map ?f (map (\<lambda>d. if d_id d = d_id d0 then ?g d else d) (tb_devices t)) = map ?f (tb_devices t)"
    using assms
    by (intro same_view_upd [where xs = "tb_devices t0"])
       (auto simp: reader_view_def keys_distinct_def dest: arg_cong [of _ _ d_id])
  then show ?thesis by (simp add: reader_view_def upd_device_keys_def)
qed

text \<open>The loops keep the view, each row under any faults.\<close>

lemma triple_Encrypt:
  assumes "cipher_ok c"
  shows "triple (on_tabs P) (Encrypt c v) (\<lambda>r s. on_tabs P s \<and> (\<forall>x. r = Inr x \<longrightarrow> Decrypt c x = Inr v))"
  using assms by (intro tripleI) (auto simp: on_tabs_def dest: col.enc_tabs col.enc_dec)

lemma triple_maybe_enc:
  assumes "cipher_ok c"
  shows "triple (on_tabs P) (maybe_enc c v)
    (\<lambda>r s. on_tabs P s \<and> (\<forall>x. r = Inr x \<longrightarrow> Decrypt c x = Decrypt c v))"
  using assms
  by (intro tripleI)
     (auto simp: maybe_enc_def on_tabs_def Decrypt_plain split: if_splits dest: col.enc_tabs col.enc_dec)

lemma triple_pure_pre:
  "(A \<Longrightarrow> triple P m Q) \<Longrightarrow> triple (\<lambda>s. P s \<and> A) m Q"
  by (auto simp: triple_def)

lemma keeps_encrypt_cell:
  assumes c: "cipher_ok c"
    and upd: "\<And>t e. P t \<Longrightarrow> Decrypt c e = Decrypt c v \<Longrightarrow> P (upd k e t)"
  shows "keeps (on_tabs P) (encrypt_cell c upd (k, v))"
  unfolding encrypt_cell_def prod.case
  by (intro triple_if keeps_ret triple_bind [OF triple_Encrypt [OF c]] triple_pure_pre
        triple_case_sum keeps_bind keeps_stmt)
     (auto intro: upd simp: Decrypt_plain)

lemma keeps_encrypt_column:
  assumes body: "\<And>t x. P t \<Longrightarrow> x \<in> set (sel t) \<Longrightarrow> keeps (on_tabs P) (body x)"
    and nxt: "keeps (on_tabs P) next"
  shows "keeps (on_tabs P) (encrypt_column sel onerr body next)"
  unfolding encrypt_column_def
proof (rule triple_bind [OF triple_query])
  fix q :: "db_err + 'a list \<times> bool"
  let ?pre = "\<lambda>s. on_tabs P s \<and> (\<forall>rows b. q = Inr (rows, b) \<longrightarrow> (\<exists>t. P t \<and> set rows \<subseteq> set (sel t)))"
  show "triple ?pre (case q of Inl e \<Rightarrow> ret (onerr e)
     | Inr (rows, _) \<Rightarrow> do {
         r \<leftarrow> for_err body rows;
         case r of Inl e \<Rightarrow> ret (Inl e) | Inr _ \<Rightarrow> next }) (\<lambda>_. on_tabs P)"
  proof (cases "\<exists>rows b t. q = Inr (rows, b) \<and> P t \<and> set rows \<subseteq> set (sel t)")
    case True
    then obtain rows b t where q: "q = Inr (rows, b)" "P t" "set rows \<subseteq> set (sel t)" by blast
    then have "keeps (on_tabs P) (do {
         r \<leftarrow> for_err body rows;
         case r of Inl e \<Rightarrow> ret (Inl e) | Inr _ \<Rightarrow> next })"
      by (intro triple_intros) (auto intro: body nxt)
    with q(1) show ?thesis by (auto intro: triple_weaken)
  next
    case False
    then show ?thesis by (cases q) (auto simp: triple_def)
  qed
qed

lemma keeps_encrypt_device:
  assumes c: "cipher_ok c"
    and upd: "\<And>t ik spk sig. P t \<Longrightarrow> Decrypt c ik = Decrypt c (d_identity_key d)
      \<Longrightarrow> Decrypt c spk = Decrypt c (d_signed_prekey d)
      \<Longrightarrow> Decrypt c sig = Decrypt c (d_signed_prekey_sig d)
      \<Longrightarrow> P (upd_device_keys (d_id d) ik spk sig t)"
  shows "keeps (on_tabs P) (encrypt_device c d)"
  unfolding encrypt_device_def
  by (intro triple_if keeps_ret triple_bind [OF triple_maybe_enc [OF c]] triple_pure_pre
        triple_case_sum keeps_bind keeps_stmt)
     (auto intro: upd)

lemma keys_distinct_upd:
  "keys_distinct t \<Longrightarrow> keys_distinct (upd_users k e t)"
  "keys_distinct t \<Longrightarrow> keys_distinct (upd_otpks k e t)"
  "keys_distinct t \<Longrightarrow> keys_distinct (upd_tokens k e t)"
  "keys_distinct t \<Longrightarrow> keys_distinct (upd_salts k e t)"
  "keys_distinct t \<Longrightarrow> keys_distinct (upd_device_keys i ik spk sig t)"
  by (simp_all add: keys_distinct_def upd_users_def upd_otpks_def upd_tokens_def upd_salts_def
      upd_device_keys_def comp_def if_distrib cong: if_cong)

lemma keeps_EncryptExisting:
  assumes c: "cipher_ok c"
  shows "keeps (on_tabs (\<lambda>t. keys_distinct t \<and> reader_view c t = V)) (EncryptExisting c)"
  unfolding EncryptExisting_def
  by (intro triple_if keeps_ret keeps_encrypt_column keeps_encrypt_device [OF c])
     (auto intro!: keeps_encrypt_cell [OF c] keys_distinct_upd
        simp: view_upd_users [OF sym] view_upd_otpks [OF sym] view_upd_tokens [OF sym]
          view_upd_salts [OF sym] view_upd_device_keys [OF sym])

section \<open>The migration completes\<close>

text \<open>A session in which the database answers and the random source delivers.\<close>

definition ready :: "sess \<Rightarrow> bool" where
  "ready s \<longleftrightarrow> faults s = [] \<and> (\<forall>i. entropy s i \<noteq> None)"

lemma ready_Encrypt:
  assumes "ready s"
  obtains x where "run_state (Encrypt (Some a) v) s = (Inr x, s\<lparr>epos := Suc (epos s)\<rparr>)"
    and "IsEncrypted x"
proof -
  obtain f where "entropy s (epos s) = Some f" using assms by (auto simp: ready_def)
  then show thesis by (intro that) (auto simp: Encrypt_def sql_simps)
qed

lemma ready_epos [simp]: "ready (s\<lparr>epos := k\<rparr>) = ready s" "ready (s\<lparr>tabs := t\<rparr>) = ready s"
  by (simp_all add: ready_def)

text \<open>
  What the migration needs of one column group: the body of the loop returns without error,
  skips a row that holds no plaintext, takes the row's key off the keys that still have
  plaintext, and leaves the other tables alone.
\<close>

locale secret_column =
  fixes rows :: "tables \<Rightarrow> 'a list"
    and plaintext :: "'a \<Rightarrow> bool"
    and key :: "'a \<Rightarrow> 'k"
    and body :: "cipher \<Rightarrow> 'a \<Rightarrow> (sess, enc_err + unit) state"
    and others :: "tables \<Rightarrow> 'o"
  assumes skips: "\<not> plaintext x \<Longrightarrow> body c x = ret (Inr ())"
    and seals: "ready s \<Longrightarrow> plaintext x \<Longrightarrow> run_state (body (Some a) x) s = (r, s') \<Longrightarrow>
      r = Inr () \<and> ready s' \<and> others (tabs s') = others (tabs s) \<and>
      key ` {y \<in> set (rows (tabs s')). plaintext y}
        \<subseteq> key ` {y \<in> set (rows (tabs s)). plaintext y} - {key x}"
begin

definition open_keys :: "tables \<Rightarrow> 'k set" where
  "open_keys t = key ` {x \<in> set (rows t). plaintext x}"

lemma loop_done:
  assumes "ready s" and "run_state (for_err (body (Some a)) xs) s = (r, s')"
  shows "r = Inr () \<and> ready s' \<and> others (tabs s') = others (tabs s)
    \<and> open_keys (tabs s') \<subseteq> open_keys (tabs s) - key ` {x \<in> set xs. plaintext x}"
  using assms
proof (induction xs arbitrary: s)
  case Nil
  then show ?case by simp
next
  case (Cons x xs)
  show ?case
  proof (cases "plaintext x")
    case False
    with Cons show ?thesis by (auto simp: skips)
  next
    case True
    obtain r1 s1 where r1: "run_state (body (Some a) x) s = (r1, s1)" by fastforce
    note x = seals [OF Cons.prems(1) True r1]
    with Cons.prems(2) r1 have "run_state (for_err (body (Some a)) xs) s1 = (r, s')" by simp
    from Cons.IH [OF _ this] x have "r = Inr ()" "ready s'" "others (tabs s') = others (tabs s)"
      "open_keys (tabs s') \<subseteq> open_keys (tabs s1) - key ` {x \<in> set xs. plaintext x}"
      "open_keys (tabs s1) \<subseteq> open_keys (tabs s) - {key x}"
      by (simp_all add: open_keys_def)
    then show ?thesis by auto
  qed
qed

lemma column_done:
  assumes "ready s"
  shows "\<exists>s'. run_state (encrypt_column rows onerr (body (Some a)) next) s = run_state next s'
    \<and> ready s' \<and> open_keys (tabs s') = {} \<and> others (tabs s') = others (tabs s)"
proof -
  obtain r s' where r: "run_state (for_err (body (Some a)) (rows (tabs s))) s = (r, s')" by fastforce
  from loop_done [OF assms r] have "r = Inr ()" "ready s'" "others (tabs s') = others (tabs s)"
    "open_keys (tabs s') = {}" by (auto simp: open_keys_def)
  with assms r show ?thesis
    by (intro exI [of _ s']) (simp add: encrypt_column_def ready_def sql_simps)
qed

lemma column_then:
  assumes "\<And>t t'. others t = others t' \<Longrightarrow> J t \<Longrightarrow> J t'"
    and "triple R next Q" and "\<And>s. ready s \<Longrightarrow> J (tabs s) \<Longrightarrow> open_keys (tabs s) = {} \<Longrightarrow> R s"
  shows "triple (\<lambda>s. ready s \<and> J (tabs s)) (encrypt_column rows onerr (body (Some a)) next) Q"
proof (rule tripleI, elim conjE)
  fix s r s'
  assume s: "ready s" "J (tabs s)" and r: "run_state (encrypt_column rows onerr (body (Some a)) next) s = (r, s')"
  from column_done [OF s(1), of onerr a "next"] obtain s1 where
    "run_state next s1 = (r, s')" "ready s1" "open_keys (tabs s1) = {}" "J (tabs s1)"
    using assms(1) s(2) r by metis
  then show "Q r s'" using tripleD [OF assms(2)] assms(3) by blast
qed

lemma column_skipped:
  assumes "faults s = []" and "open_keys (tabs s) = {}"
  shows "run_state (encrypt_column rows onerr (body c) next) s = run_state next s"
proof -
  have "run_state (for_err (body c) xs) s = (Inr (), s)" if "\<forall>x \<in> set xs. \<not> plaintext x" for xs
    using that by (induction xs) (auto simp: skips)
  moreover have "\<forall>x \<in> set (rows (tabs s)). \<not> plaintext x"
    using assms(2) by (auto simp: open_keys_def)
  ultimately show ?thesis using assms(1) by (simp add: encrypt_column_def sql_simps)
qed

end

text \<open>A column with one secret per row: the law is one on its \<open>UPDATE\<close> alone.\<close>

locale cell_column =
  fixes sel :: "tables \<Rightarrow> ('k \<times> bytes) list"
    and upd :: "'k \<Rightarrow> bytes \<Rightarrow> tables \<Rightarrow> tables"
    and rest :: "tables \<Rightarrow> 'o"
  assumes upd_sel: "IsEncrypted e \<Longrightarrow> (k', v) \<in> set (sel (upd k e t)) \<Longrightarrow> \<not> IsEncrypted v
      \<Longrightarrow> (k', v) \<in> set (sel t) \<and> k' \<noteq> k"
    and upd_rest: "rest (upd k e t) = rest t"
begin

lemma run_encrypt_cell:
  assumes "ready s" and "\<not> IsEncrypted v" and "run_state (encrypt_cell (Some a) upd (k, v)) s = (r, s')"
  shows "r = Inr () \<and> ready s' \<and> (\<exists>e. IsEncrypted e \<and> tabs s' = upd k e (tabs s))"
proof -
  obtain x where x: "run_state (Encrypt (Some a) v) s = (Inr x, s\<lparr>epos := Suc (epos s)\<rparr>)"
    "IsEncrypted x" using ready_Encrypt assms(1) .
  with assms show ?thesis by (auto simp: encrypt_cell_def sql_simps ready_def)
qed

end

sublocale cell_column \<subseteq> secret_column sel "\<lambda>(k, v). \<not> IsEncrypted v" fst "\<lambda>c. encrypt_cell c upd" rest
proof unfold_locales
  fix x :: "'k \<times> bytes" and c
  assume "\<not> (case x of (k, v) \<Rightarrow> \<not> IsEncrypted v)"
  then show "encrypt_cell c upd x = ret (Inr ())" by (cases x) (simp add: encrypt_cell_def)
next
  fix s s' r a and x :: "'k \<times> bytes"
  assume s: "ready s" and x: "case x of (k, v) \<Rightarrow> \<not> IsEncrypted v"
    and r: "run_state (encrypt_cell (Some a) upd x) s = (r, s')"
  obtain k v where kv: "x = (k, v)" by fastforce
  with run_encrypt_cell [OF s _ r [unfolded kv]] x obtain e where
    "r = Inr ()" "ready s'" "IsEncrypted e" "tabs s' = upd k e (tabs s)" by auto
  then show "r = Inr () \<and> ready s' \<and> rest (tabs s') = rest (tabs s) \<and>
      fst ` {y \<in> set (sel (tabs s')). case y of (k, v) \<Rightarrow> \<not> IsEncrypted v}
      \<subseteq> fst ` {y \<in> set (sel (tabs s)). case y of (k, v) \<Rightarrow> \<not> IsEncrypted v} - {fst x}"
    using upd_sel by (fastforce simp: kv upd_rest)
qed

interpretation users_col: cell_column sel_users upd_users "\<lambda>t. t\<lparr>tb_users := []\<rparr>"
  by unfold_locales (auto simp: sel_users_def upd_users_def split: if_splits)

interpretation otpks_col: cell_column sel_otpks upd_otpks "\<lambda>t. t\<lparr>tb_otpks := []\<rparr>"
  by unfold_locales (auto simp: sel_otpks_def upd_otpks_def split: if_splits)

interpretation tokens_col: cell_column sel_tokens upd_tokens "\<lambda>t. t\<lparr>tb_tokens := []\<rparr>"
  by unfold_locales (auto simp: sel_tokens_def upd_tokens_def split: if_splits)

interpretation salts_col: cell_column sel_salts upd_salts "\<lambda>t. t\<lparr>tb_salts := []\<rparr>"
  by unfold_locales (auto simp: sel_salts_def upd_salts_def split: if_splits)

text \<open>The loop over the devices, three secrets per row.\<close>

definition device_plain :: "device_row \<Rightarrow> bool" where
  "device_plain d \<longleftrightarrow> \<not> (IsEncrypted (d_identity_key d) \<and> IsEncrypted (d_signed_prekey d)
     \<and> IsEncrypted (d_signed_prekey_sig d))"

lemma ready_maybe_enc:
  assumes "ready s"
  obtains x k where "run_state (maybe_enc (Some a) v) s = (Inr x, s\<lparr>epos := k\<rparr>)" and "IsEncrypted x"
proof (cases "IsEncrypted v")
  case True
  then show ?thesis by (intro that [of v "epos s"]) (simp_all add: maybe_enc_def)
next
  case False
  with ready_Encrypt [OF assms, of a v] show ?thesis
    by (metis maybe_enc_def that)
qed

lemma run_encrypt_device:
  assumes s: "ready s" and "device_plain d" and r: "run_state (encrypt_device (Some a) d) s = (r, s')"
  shows "r = Inr () \<and> ready s' \<and> (\<exists>ik spk sig. IsEncrypted ik \<and> IsEncrypted spk \<and> IsEncrypted sig
    \<and> tabs s' = upd_device_keys (d_id d) ik spk sig (tabs s))"
proof -
  obtain ik k1 where 1: "run_state (maybe_enc (Some a) (d_identity_key d)) s = (Inr ik, s\<lparr>epos := k1\<rparr>)"
    "IsEncrypted ik" using ready_maybe_enc s .
  obtain spk k2 where 2: "run_state (maybe_enc (Some a) (d_signed_prekey d)) (s\<lparr>epos := k1\<rparr>)
      = (Inr spk, s\<lparr>epos := k1, epos := k2\<rparr>)" "IsEncrypted spk"
    using ready_maybe_enc s ready_epos(1) by metis
  obtain sig k3 where 3: "run_state (maybe_enc (Some a) (d_signed_prekey_sig d)) (s\<lparr>epos := k2\<rparr>)
      = (Inr sig, s\<lparr>epos := k2, epos := k3\<rparr>)" "IsEncrypted sig"
    using ready_maybe_enc s ready_epos(1) by metis
  have nd: "\<not> (IsEncrypted (d_identity_key d) \<and> IsEncrypted (d_signed_prekey d)
     \<and> IsEncrypted (d_signed_prekey_sig d))" using assms(2) by (simp add: device_plain_def)
  have "faults s = []" using s by (simp add: ready_def)
  then have "run_state (encrypt_device (Some a) d) s =
      (Inr (), s\<lparr>epos := k3, tabs := upd_device_keys (d_id d) ik spk sig (tabs s)\<rparr>)"
    using 1(1) 2(1) 3(1) nd by (simp only: encrypt_device_def if_False) (simp add: sql_simps)
  with r have "r = Inr ()"
    "s' = s\<lparr>epos := k3, tabs := upd_device_keys (d_id d) ik spk sig (tabs s)\<rparr>" by simp_all
  with s 1(2) 2(2) 3(2) show ?thesis by (fastforce simp: ready_def)
qed

interpretation devices_col: secret_column tb_devices device_plain d_id encrypt_device
    "\<lambda>t. t\<lparr>tb_devices := []\<rparr>"
proof unfold_locales
  fix d c assume "\<not> device_plain d"
  then show "encrypt_device c d = ret (Inr ())" by (simp add: encrypt_device_def device_plain_def)
next
  fix s d a r s'
  assume "ready s" and "device_plain d" and "run_state (encrypt_device (Some a) d) s = (r, s')"
  from run_encrypt_device [OF this] obtain ik spk sig where
    "r = Inr ()" "ready s'" "IsEncrypted ik" "IsEncrypted spk" "IsEncrypted sig"
    "tabs s' = upd_device_keys (d_id d) ik spk sig (tabs s)" by blast
  then show "r = Inr () \<and> ready s' \<and> (tabs s')\<lparr>tb_devices := []\<rparr> = (tabs s)\<lparr>tb_devices := []\<rparr> \<and>
      d_id ` {y \<in> set (tb_devices (tabs s')). device_plain y}
      \<subseteq> d_id ` {y \<in> set (tb_devices (tabs s)). device_plain y} - {d_id d}"
    by (auto simp: upd_device_keys_def device_plain_def split: if_splits)
qed

text \<open>No plaintext left in any of the five tables.\<close>

definition all_encrypted :: "tables \<Rightarrow> bool" where
  "all_encrypted t \<longleftrightarrow>
     (\<forall>u \<in> set (tb_users t). \<forall>h. u_password_hash u = Some h \<longrightarrow> h = [] \<or> IsEncrypted h)
     \<and> (\<forall>d \<in> set (tb_devices t). \<not> device_plain d)
     \<and> (\<forall>p \<in> set (tb_otpks t). IsEncrypted (o_prekey p))
     \<and> (\<forall>a \<in> set (tb_tokens t). IsEncrypted (a_hash a))
     \<and> (\<forall>b \<in> set (tb_salts t). IsEncrypted (bs_salt b))"

lemmas open_keys_defs = users_col.open_keys_def devices_col.open_keys_def
  otpks_col.open_keys_def tokens_col.open_keys_def salts_col.open_keys_def
  sel_users_def sel_otpks_def sel_tokens_def sel_salts_def

lemma open_keys_empty:
  "users_col.open_keys t = {} \<longleftrightarrow>
    (\<forall>u \<in> set (tb_users t). \<forall>h. u_password_hash u = Some h \<longrightarrow> h = [] \<or> IsEncrypted h)"
  "devices_col.open_keys t = {} \<longleftrightarrow> (\<forall>d \<in> set (tb_devices t). \<not> device_plain d)"
  "otpks_col.open_keys t = {} \<longleftrightarrow> (\<forall>p \<in> set (tb_otpks t). IsEncrypted (o_prekey p))"
  "tokens_col.open_keys t = {} \<longleftrightarrow> (\<forall>a \<in> set (tb_tokens t). IsEncrypted (a_hash a))"
  "salts_col.open_keys t = {} \<longleftrightarrow> (\<forall>b \<in> set (tb_salts t). IsEncrypted (bs_salt b))"
  unfolding open_keys_defs by fastforce+

lemma EncryptExisting_skipped:
  assumes "all_encrypted (tabs s)" and "faults s = []"
  shows "run_state (EncryptExisting c) s = (Inr (), s)"
  using assms
  by (simp add: EncryptExisting_def all_encrypted_def open_keys_empty users_col.column_skipped
      devices_col.column_skipped otpks_col.column_skipped tokens_col.column_skipped
      salts_col.column_skipped)

text \<open>What one loop has done stays done, since the later loops write other tables.\<close>

lemma EncryptExisting_done:
  "triple ready (EncryptExisting (Some a)) (\<lambda>r s. r = Inr () \<and> ready s \<and> all_encrypted (tabs s))"
proof -
  note cols = users_col.column_then [where J = "\<lambda>_. True"]
    devices_col.column_then [where J = "\<lambda>t. users_col.open_keys t = {}"]
    otpks_col.column_then [where J = "\<lambda>t. users_col.open_keys t = {} \<and> devices_col.open_keys t = {}"]
    tokens_col.column_then [where J = "\<lambda>t. users_col.open_keys t = {} \<and> devices_col.open_keys t = {}
      \<and> otpks_col.open_keys t = {}"]
    salts_col.column_then [where J = "\<lambda>t. users_col.open_keys t = {} \<and> devices_col.open_keys t = {}
      \<and> otpks_col.open_keys t = {} \<and> tokens_col.open_keys t = {}"]
  have frame: "tb_users t = tb_users t' \<Longrightarrow> users_col.open_keys t = users_col.open_keys t'"
    "tb_devices t = tb_devices t' \<Longrightarrow> devices_col.open_keys t = devices_col.open_keys t'"
    "tb_otpks t = tb_otpks t' \<Longrightarrow> otpks_col.open_keys t = otpks_col.open_keys t'"
    "tb_tokens t = tb_tokens t' \<Longrightarrow> tokens_col.open_keys t = tokens_col.open_keys t'" for t t'
    by (simp_all add: open_keys_defs)
  have rest: "t\<lparr>tb_devices := []\<rparr> = t'\<lparr>tb_devices := []\<rparr> \<Longrightarrow> tb_users t = tb_users t'"
    "t\<lparr>tb_otpks := []\<rparr> = t'\<lparr>tb_otpks := []\<rparr> \<Longrightarrow> tb_users t = tb_users t' \<and> tb_devices t = tb_devices t'"
    "t\<lparr>tb_tokens := []\<rparr> = t'\<lparr>tb_tokens := []\<rparr> \<Longrightarrow> tb_users t = tb_users t' \<and> tb_devices t = tb_devices t'
      \<and> tb_otpks t = tb_otpks t'"
    "t\<lparr>tb_salts := []\<rparr> = t'\<lparr>tb_salts := []\<rparr> \<Longrightarrow> tb_users t = tb_users t' \<and> tb_devices t = tb_devices t'
      \<and> tb_otpks t = tb_otpks t' \<and> tb_tokens t = tb_tokens t'" for t t'
    by (cases t; cases t'; simp)+
  have "triple (\<lambda>s. ready s \<and> True) (EncryptExisting (Some a))
      (\<lambda>r s. r = Inr () \<and> ready s \<and> all_encrypted (tabs s))"
    unfolding EncryptExisting_def
    apply (rule triple_if, simp)
    apply (rule cols(1), simp)
     apply (rule cols(2), metis frame rest)
      apply (rule cols(3), metis frame rest)
       apply (rule cols(4), metis frame rest)
        apply (rule cols(5), metis frame rest)
         apply (rule triple_ret [where P = "\<lambda>s. ready s \<and> all_encrypted (tabs s)"])
         apply (simp_all add: all_encrypted_def open_keys_empty)
    done
  then show ?thesis by simp
qed

section \<open>Properties\<close>

text \<open>A cipher to evaluate on: nonces of two bytes, sealing is reversal under the nonce.\<close>

definition toy_aead :: aead where
  "toy_aead = \<lparr> nonce_size = 2, aead_seal = (\<lambda>n p. rev p @ n),
     aead_open = (\<lambda>n x. if length n \<le> length x \<and> drop (length x - length n) x = n
       then Some (rev (take (length x - length n) x)) else None) \<rparr>"

lemma toy_aead_ok [simp]: "cipher_ok (Some toy_aead)"
  by (simp add: cipher_ok_def toy_aead_def)

definition toy_tables :: tables where
  "toy_tables = empty_tables\<lparr>
     tb_users := [\<lparr> u_id = 1, u_username = ''ann'', u_domain = ''a.org'', u_password_hash = Some ''h'' \<rparr>,
       \<lparr> u_id = 2, u_username = ''bob'', u_domain = ''a.org'', u_password_hash = None \<rparr>],
     tb_otpks := [\<lparr> o_id = 1, o_device = 7, o_key_id = 1, o_prekey = ''k'', o_consumed = None \<rparr>]\<rparr>"

lemma toy_tables_distinct [simp]: "keys_distinct toy_tables"
  by (simp add: keys_distinct_def toy_tables_def empty_tables_def)

text \<open>C14: whatever statements of the start-up migration the database refuses, cuts short or
  fails to acknowledge, a reader with the cipher sees after it exactly what he saw before:
  every secret decrypts to the same plaintext and every other column is unchanged.\<close>

theorem EncryptExisting_keeps_view:
  assumes "cipher_ok c" and "keys_distinct (tabs s)" and "run_state (EncryptExisting c) s = (r, s')"
  shows "reader_view c (tabs s') = reader_view c (tabs s)"
  using tripleD [OF keeps_EncryptExisting [OF assms(1), of "reader_view c (tabs s)"] _ assms(3)]
    assms(2) by (simp add: on_tabs_def)

theorem EncryptExisting_keeps_view_witness:
  "reader_view (Some toy_aead)
      (tabs (snd (run_state (EncryptExisting (Some toy_aead)) (session_on toy_tables [Answered, LostAck, Cut 0]))))
    = reader_view (Some toy_aead) toy_tables"
  using EncryptExisting_keeps_view [OF toy_aead_ok, of "session_on toy_tables [Answered, LostAck, Cut 0]"]
  by (simp add: session_on_def prod_eq_iff)

text \<open>When the database answers and the random source delivers, the migration returns
  without error, leaves no plaintext in any of the five tables, and a second run of it
  changes nothing at all.\<close>

theorem EncryptExisting_complete:
  assumes "ready s" and "run_state (EncryptExisting (Some a)) s = (r, s')"
  shows "r = Inr () \<and> all_encrypted (tabs s') \<and> run_state (EncryptExisting (Some a)) s' = (Inr (), s')"
  using tripleD [OF EncryptExisting_done assms] EncryptExisting_skipped by (simp add: ready_def)

theorem EncryptExisting_complete_witness:
  "all_encrypted (tabs (snd (run_state (EncryptExisting (Some toy_aead)) (session_on toy_tables []))))
    \<and> \<not> all_encrypted toy_tables"
proof -
  have "ready (session_on toy_tables [])" by (simp add: ready_def session_on_def)
  then show ?thesis
    using EncryptExisting_complete [of "session_on toy_tables []" toy_aead]
    by (fastforce simp: prod_eq_iff all_encrypted_def toy_tables_def IsEncrypted_def magicPrefix_def)
qed

lemma b64_encode_nonempty: "k \<noteq> [] \<Longrightarrow> b64_encode k \<noteq> []"
  by (cases k rule: b64_encode.cases) (auto simp: Let_def)

text \<open>C20: a stored secret reads back as what was written, with a cipher made from a
  generated key; a value without the prefix reads as itself, so that rows written before
  encryption was switched on stay readable.\<close>

theorem Encrypt_roundtrip:
  assumes "run_state GenerateKey s0 = (Inr keyB64, s1)" and "\<And>k. cipher_ok (Some (mk k))"
    and "run_state (Encrypt c p) s2 = (Inr x, s3)" and "New mk keyB64 = Inr c"
  shows "c \<noteq> None \<and> IsEncrypted x \<and> Decrypt c x = Inr p
    \<and> (\<forall>v. \<not> IsEncrypted v \<longrightarrow> Decrypt c v = Inr v)"
proof -
  obtain k where k: "keyB64 = b64_encode k" "length k = 32"
    using assms(1) by (auto simp: GenerateKey_def sql_simps split: option.splits)
  then have "k \<noteq> []" by auto
  with k(1) have "keyB64 \<noteq> []" using b64_encode_nonempty by simp
  with k assms(4) have "c = Some (mk k)" by (auto simp: New_def b64_decode_encode)
  with assms(2,3) show ?thesis using Encrypt_InrD [of c p s2 x s3] Decrypt_plain by auto
qed

theorem Encrypt_roundtrip_witness:
  "\<exists>c x. New (\<lambda>k. toy_aead) (b64_encode (replicate 32 (CHR ''r''))) = Inr c
    \<and> fst (run_state (Encrypt c ''secret'') (session_on empty_tables [])) = Inr x
    \<and> IsEncrypted x \<and> Decrypt c x = Inr ''secret''"
proof -
  let ?s = "session_on empty_tables []"
  have g: "run_state GenerateKey ?s = (Inr (b64_encode (replicate 32 (CHR ''r''))), ?s\<lparr>epos := 1\<rparr>)"
    by (simp add: GenerateKey_def sql_simps session_on_def map_replicate_const)
  have n: "New (\<lambda>k. toy_aead) (b64_encode (replicate 32 (CHR ''r''))) = Inr (Some toy_aead)"
    by (simp add: New_def b64_decode_encode b64_encode_nonempty)
  obtain x s' where e: "run_state (Encrypt (Some toy_aead) ''secret'') ?s = (Inr x, s')"
    by (simp add: Encrypt_def sql_simps session_on_def)
  from Encrypt_roundtrip [OF g _ e n] n e show ?thesis by (metis fst_conv toy_aead_ok)
qed

text \<open>
  The loops do not ask \<open>rows.Err()\<close>: a result set that breaks off after its first rows makes
  the migration report success although a secret is still in plaintext.
\<close>

lemma EncryptExisting_cut_reports_success:
  "case run_state (EncryptExisting (Some toy_aead)) (session_on toy_tables [Cut 0, Cut 0, Cut 0, Cut 0, Cut 0]) of
     (r, s') \<Rightarrow> r = Inr () \<and> \<not> all_encrypted (tabs s')"
  by (simp add: EncryptExisting_def encrypt_column_def query_def session_on_def all_encrypted_def
      toy_tables_def IsEncrypted_def magicPrefix_def)

end
