(* ===== verification/Interfaces.thy ===== *)
theory Interfaces
  imports Database
begin

text \<open>
  The Go interfaces through which one package of the server calls another: the interface
  value as a record of its methods, and the contract the caller relies on as a locale. The
  provider interprets the locale on its own operations; the caller proves its lemmas inside
  it.
\<close>

text \<open>
  \<open>relay.RoomChecker\<close> (\<open>src/server/internal/relay/relay.go\<close>), which \<open>rooms.Service\<close>
  implements: \<open>member\<close> is what the provider's tables say, \<open>good\<close> its invariant, \<open>addr\<close> the
  address of a room.
\<close>

record 'e checker =
  ck_IsMember :: "uuid \<Rightarrow> int \<Rightarrow> (sess, 'e + bool) state"
  ck_GetRoomAddrsForUser :: "int \<Rightarrow> (sess, 'e + string list) state"

locale room_checker =
  fixes C :: "'e checker"
    and member :: "tables \<Rightarrow> uuid \<Rightarrow> int \<Rightarrow> bool"
    and good :: "tables \<Rightarrow> bool"
    and addr :: "uuid \<Rightarrow> string"
  assumes IsMember_sound: "run_state (ck_IsMember C r u) s = (Inr b, s') \<Longrightarrow> b = member (tabs s) r u"
    and IsMember_frame: "run_state (ck_IsMember C r u) s = (x, s') \<Longrightarrow> \<exists>fs. s' = s\<lparr>faults := fs\<rparr>"
    and IsMember_total: "faults s = [] \<Longrightarrow> run_state (ck_IsMember C r u) s = (Inr (member (tabs s) r u), s)"
    and addrs_sound: "run_state (ck_GetRoomAddrsForUser C u) s = (Inr xs, s')
      \<Longrightarrow> set xs \<subseteq> {addr r | r. member (tabs s) r u}"
    and addrs_frame: "run_state (ck_GetRoomAddrsForUser C u) s = (y, s') \<Longrightarrow> \<exists>fs. s' = s\<lparr>faults := fs\<rparr>"
    and addrs_total: "faults s = [] \<Longrightarrow> good (tabs s) \<Longrightarrow>
      \<exists>xs. run_state (ck_GetRoomAddrsForUser C u) s = (Inr xs, s) \<and> set xs = {addr r | r. member (tabs s) r u}"
begin

lemma IsMember_tabs: "run_state (ck_IsMember C r u) s = (x, s') \<Longrightarrow> tabs s' = tabs s"
  using IsMember_frame by fastforce

lemma addrs_tabs: "run_state (ck_GetRoomAddrsForUser C u) s = (y, s') \<Longrightarrow> tabs s' = tabs s"
  using addrs_frame by fastforce

lemma keeps_IsMember: "keeps (on_tabs P) (ck_IsMember C r u)"
  by (rule tripleI) (auto simp: on_tabs_def dest: IsMember_tabs)

lemma keeps_addrs: "keeps (on_tabs P) (ck_GetRoomAddrsForUser C u)"
  by (rule tripleI) (auto simp: on_tabs_def dest: addrs_tabs)

end

end
