(* ===== verification/Rooms.thy ===== *)
theory Rooms
  imports Interfaces
begin

text \<open>
  Package \<open>rooms\<close> (\<open>src/server/internal/rooms/rooms.go\<close>): group chats, their members and
  roles. The operations are those of \<open>Service\<close>, statement by statement. The lemmas show
  that the membership table stays well-formed under any fault schedule, and that without
  faults the service implements an access-control list that knows nothing of tables.
\<close>

section \<open>Addresses\<close>

definition RoomAddr :: "env \<Rightarrow> uuid \<Rightarrow> string \<Rightarrow> string" where
  "RoomAddr E roomID domain = ''!'' @ uuid_str E roomID @ '':'' @ domain"

definition IsRoomAddr :: "string \<Rightarrow> bool" where
  "IsRoomAddr addr = HasPrefix addr ''!''"

text \<open>The third result of the code, \<open>ok\<close>, is the constructor of the option.\<close>

definition ParseRoomAddr :: "string \<Rightarrow> (string \<times> string) option" where
  "ParseRoomAddr addr =
     (if \<not> HasPrefix addr ''!'' then None
      else (let rest = drop 1 addr in
        case Index rest '':'' of
          None \<Rightarrow> None
        | Some idx \<Rightarrow> if idx + 1 < length rest then Some (take idx rest, drop (idx + 1) rest) else None))"

section \<open>The service\<close>

datatype rooms_err = ErrNotMember | ErrForbidden | ErrCreatorCannotLeave | ErrUserNotFound
  | ErrInvalidRole | ErrTransferSelf | ErrUsernameRequired | RoomsDB db_err

record room_member =
  mb_user :: int
  mb_username :: string
  mb_domain :: string
  mb_role :: string
  mb_joined :: int

text \<open>The statements on \<open>rooms\<close> and \<open>room_members\<close>, with the constraints of migration 009.\<close>

definition ins_room :: "uuid \<Rightarrow> string \<Rightarrow> string \<Rightarrow> int \<Rightarrow> tables \<Rightarrow> (db_err + unit) \<times> tables" where
  "ins_room i name domain creator t =
     (if i \<in> r_id ` set (tb_rooms t) then (Inl UniqueViolation, t)
      else if creator \<notin> u_id ` set (tb_users t) then (Inl ForeignKeyViolation, t)
      else (Inr (), t\<lparr>tb_rooms := tb_rooms t @
        [\<lparr> r_id = i, r_name = name, r_domain = domain, r_creator = creator, r_created = tb_now t \<rparr>]\<rparr>))"

definition member_of :: "uuid \<Rightarrow> int \<Rightarrow> member_row \<Rightarrow> bool" where
  "member_of room user m \<longleftrightarrow> rm_room m = room \<and> rm_user m = user"

definition ins_member :: "uuid \<Rightarrow> int \<Rightarrow> string \<Rightarrow> tables \<Rightarrow> (db_err + unit) \<times> tables" where
  "ins_member room user role t =
     (if role \<notin> {''creator'', ''admin'', ''member''} then (Inl CheckViolation, t)
      else if list_ex (member_of room user) (tb_members t) then (Inl UniqueViolation, t)
      else if room \<notin> r_id ` set (tb_rooms t) \<or> user \<notin> u_id ` set (tb_users t)
        then (Inl ForeignKeyViolation, t)
      else (Inr (), t\<lparr>tb_members := tb_members t @
        [\<lparr> rm_room = room, rm_user = user, rm_role = role, rm_joined = tb_now t \<rparr>]\<rparr>))"

definition put_role :: "uuid \<Rightarrow> int \<Rightarrow> string \<Rightarrow> tables \<Rightarrow> tables" where
  "put_role room user role t = t\<lparr>tb_members :=
     map (\<lambda>m. if member_of room user m then m\<lparr>rm_role := role\<rparr> else m) (tb_members t)\<rparr>"

definition put_creator :: "int \<Rightarrow> uuid \<Rightarrow> tables \<Rightarrow> tables" where
  "put_creator user room t = t\<lparr>tb_rooms :=
     map (\<lambda>r. if r_id r = room then r\<lparr>r_creator := user\<rparr> else r) (tb_rooms t)\<rparr>"

definition upd_role :: "uuid \<Rightarrow> int \<Rightarrow> string \<Rightarrow> tables \<Rightarrow> (db_err + unit) \<times> tables" where
  "upd_role room user role t =
     (if role \<notin> {''creator'', ''admin'', ''member''} \<and> list_ex (member_of room user) (tb_members t)
        then (Inl CheckViolation, t)
      else (Inr (), put_role room user role t))"

definition del_member :: "uuid \<Rightarrow> int \<Rightarrow> tables \<Rightarrow> (db_err + unit) \<times> tables" where
  "del_member room user t =
     (Inr (), t\<lparr>tb_members := filter (\<lambda>m. \<not> member_of room user m) (tb_members t)\<rparr>)"

definition upd_creator :: "int \<Rightarrow> uuid \<Rightarrow> tables \<Rightarrow> (db_err + unit) \<times> tables" where
  "upd_creator user room t =
     (if user \<notin> u_id ` set (tb_users t) \<and> room \<in> r_id ` set (tb_rooms t) then (Inl ForeignKeyViolation, t)
      else (Inr (), put_creator user room t))"

definition Create :: "string \<Rightarrow> string \<Rightarrow> int \<Rightarrow> (sess, rooms_err + room_row) state" where
  "Create domain name creatorUserID = do {
     roomID \<leftarrow> uuid_new;
     x \<leftarrow> stmt (ins_room roomID name domain creatorUserID);
     case x of
       Inl e \<Rightarrow> ret (Inl (RoomsDB e))
     | Inr _ \<Rightarrow> do {
         y \<leftarrow> stmt (ins_member roomID creatorUserID ''creator'');
         ret (case y of
           Inl e \<Rightarrow> Inl (RoomsDB e)
         | Inr _ \<Rightarrow> Inr \<lparr> r_id = roomID, r_name = name, r_domain = domain,
             r_creator = creatorUserID, r_created = 0 \<rparr>) } }"

text \<open>\<open>rooms r JOIN room_members rm ON rm.room_id = r.id WHERE rm.user_id = $1\<close>.\<close>

definition rooms_of :: "int \<Rightarrow> tables \<Rightarrow> room_row list" where
  "rooms_of user t = [r. r \<leftarrow> tb_rooms t, m \<leftarrow> tb_members t, rm_room m = r_id r \<and> rm_user m = user]"

definition List_rooms :: "int \<Rightarrow> (sess, rooms_err + room_row list) state" where
  "List_rooms userID = do {
     q \<leftarrow> query (\<lambda>t. sort_key (\<lambda>r. - r_created r) (rooms_of userID t));
     ret (case q of Inl e \<Rightarrow> Inl (RoomsDB e) | Inr (rows, _) \<Rightarrow> Inr rows) }"

definition Get :: "uuid \<Rightarrow> int \<Rightarrow> (sess, rooms_err + room_row) state" where
  "Get roomID userID = do {
     q \<leftarrow> query_row (\<lambda>t. filter (\<lambda>r. r_id r = roomID) (rooms_of userID t));
     ret (case q of
       Inl e \<Rightarrow> Inl (if e = NoRows then ErrNotMember else RoomsDB e)
     | Inr r \<Rightarrow> Inr r) }"

definition IsMember :: "uuid \<Rightarrow> int \<Rightarrow> (sess, rooms_err + bool) state" where
  "IsMember roomID userID = do {
     q \<leftarrow> query_row (\<lambda>t. filter (member_of roomID userID) (tb_members t));
     ret (case q of
       Inl e \<Rightarrow> if e = NoRows then Inr False else Inl (RoomsDB e)
     | Inr _ \<Rightarrow> Inr True) }"

definition GetRoomAddrsForUser :: "env \<Rightarrow> string \<Rightarrow> int \<Rightarrow> (sess, rooms_err + string list) state" where
  "GetRoomAddrsForUser E domain userID = do {
     q \<leftarrow> query (\<lambda>t. map r_id (rooms_of userID t));
     ret (case q of
       Inl e \<Rightarrow> Inl (RoomsDB e)
     | Inr (ids, _) \<Rightarrow> Inr (map (\<lambda>i. RoomAddr E i domain) ids)) }"

definition ResolveUserID :: "env \<Rightarrow> string \<Rightarrow> string \<Rightarrow> (sess, rooms_err + int) state" where
  "ResolveUserID E domain username0 =
     (let username = TrimSpace (TrimPrefix username0 ''@'') in
      if username = '''' then ret (Inl ErrUsernameRequired)
      else (let name = (case Index username '':'' of None \<Rightarrow> username | Some idx \<Rightarrow> take idx username) in do {
        q \<leftarrow> query_row (\<lambda>t. [u_id u. u \<leftarrow> tb_users t,
               pg_lower E (u_username u) = pg_lower E name \<and> u_domain u = domain]);
        ret (case q of
          Inl e \<Rightarrow> Inl (if e = NoRows then ErrUserNotFound else RoomsDB e)
        | Inr i \<Rightarrow> Inr i) }))"

definition getMemberRole :: "uuid \<Rightarrow> int \<Rightarrow> (sess, rooms_err + string) state" where
  "getMemberRole roomID userID = do {
     q \<leftarrow> query_row (\<lambda>t. map rm_role (filter (member_of roomID userID) (tb_members t)));
     ret (case q of
       Inl e \<Rightarrow> Inl (if e = NoRows then ErrNotMember else RoomsDB e)
     | Inr role \<Rightarrow> Inr role) }"

text \<open>How an operation returns the error of its last statement.\<close>

definition exec :: "(tables \<Rightarrow> (db_err + unit) \<times> tables) \<Rightarrow> (sess, rooms_err + unit) state" where
  "exec f = do {
     x \<leftarrow> stmt f;
     ret (case x of Inl e \<Rightarrow> Inl (RoomsDB e) | Inr _ \<Rightarrow> Inr ()) }"

definition ins_member_if_absent :: "uuid \<Rightarrow> int \<Rightarrow> tables \<Rightarrow> (db_err + unit) \<times> tables" where
  "ins_member_if_absent room user t =
     (if list_ex (member_of room user) (tb_members t) then (Inr (), t)
      else ins_member room user ''member'' t)"

definition Invite :: "uuid \<Rightarrow> int \<Rightarrow> int \<Rightarrow> (sess, rooms_err + unit) state" where
  "Invite roomID inviterUserID inviteeUserID = do {
     r \<leftarrow> getMemberRole roomID inviterUserID;
     case r of
       Inl _ \<Rightarrow> ret (Inl ErrForbidden)
     | Inr role \<Rightarrow>
         if role \<noteq> ''creator'' \<and> role \<noteq> ''admin'' then ret (Inl ErrForbidden)
         else exec (ins_member_if_absent roomID inviteeUserID) }"

definition Leave :: "uuid \<Rightarrow> int \<Rightarrow> (sess, rooms_err + unit) state" where
  "Leave roomID userID = do {
     r \<leftarrow> getMemberRole roomID userID;
     case r of
       Inl e \<Rightarrow> ret (Inl e)
     | Inr role \<Rightarrow>
         if role = ''creator'' then ret (Inl ErrCreatorCannotLeave)
         else exec (del_member roomID userID) }"

text \<open>
  \<open>ORDER BY rm.role DESC\<close>: under every collation of the database the three roles sort as
  member, creator, admin.
\<close>

definition role_desc :: "string \<Rightarrow> nat" where
  "role_desc role = (if role = ''member'' then 0 else if role = ''creator'' then 1 else 2)"

definition Members :: "uuid \<Rightarrow> int \<Rightarrow> (sess, rooms_err + room_member list) state" where
  "Members roomID requesterUserID = do {
     g \<leftarrow> Get roomID requesterUserID;
     case g of
       Inl e \<Rightarrow> ret (Inl e)
     | Inr _ \<Rightarrow> do {
         q \<leftarrow> query (\<lambda>t. sort_key (\<lambda>m. role_desc (mb_role m)) (sort_key mb_joined
               [\<lparr> mb_user = u_id u, mb_username = u_username u, mb_domain = u_domain u,
                  mb_role = rm_role m, mb_joined = rm_joined m \<rparr>.
                m \<leftarrow> tb_members t, u \<leftarrow> tb_users t, u_id u = rm_user m \<and> rm_room m = roomID]));
         ret (case q of Inl e \<Rightarrow> Inl (RoomsDB e) | Inr (rows, _) \<Rightarrow> Inr rows) } }"

definition SetRole :: "uuid \<Rightarrow> int \<Rightarrow> int \<Rightarrow> string \<Rightarrow> (sess, rooms_err + unit) state" where
  "SetRole roomID actorUserID targetUserID newRole =
     (if newRole \<noteq> ''admin'' \<and> newRole \<noteq> ''member'' then ret (Inl ErrInvalidRole)
      else do {
        r \<leftarrow> getMemberRole roomID actorUserID;
        case r of
          Inl _ \<Rightarrow> ret (Inl ErrForbidden)
        | Inr actorRole \<Rightarrow>
            if actorRole \<noteq> ''creator'' \<and> actorRole \<noteq> ''admin'' then ret (Inl ErrForbidden)
            else if newRole = ''admin'' \<and> actorRole \<noteq> ''creator'' then ret (Inl ErrForbidden)
            else exec (upd_role roomID targetUserID newRole) })"

text \<open>The error of \<open>Commit\<close> is dropped: the last argument of the combinator ignores it.\<close>

definition transfer_body :: "uuid \<Rightarrow> int \<Rightarrow> int \<Rightarrow> (sess, rooms_err + unit) state" where
  "transfer_body roomID actorUserID targetUserID = do {
     x \<leftarrow> exec (upd_role roomID targetUserID ''creator'');
     case x of Inl e \<Rightarrow> ret (Inl e) | Inr _ \<Rightarrow> do {
     y \<leftarrow> exec (upd_role roomID actorUserID ''member'');
     case y of Inl e \<Rightarrow> ret (Inl e) | Inr _ \<Rightarrow>
     exec (upd_creator targetUserID roomID) } }"

definition TransferCreator :: "uuid \<Rightarrow> int \<Rightarrow> int \<Rightarrow> (sess, rooms_err + unit) state" where
  "TransferCreator roomID actorUserID targetUserID = do {
     r \<leftarrow> getMemberRole roomID actorUserID;
     case r of
       Inl _ \<Rightarrow> ret (Inl ErrForbidden)
     | Inr actorRole \<Rightarrow>
         if actorRole \<noteq> ''creator'' then ret (Inl ErrForbidden)
         else do {
           r2 \<leftarrow> getMemberRole roomID targetUserID;
           case r2 of
             Inl e \<Rightarrow> ret (Inl e)
           | Inr _ \<Rightarrow>
               if targetUserID = actorUserID then ret (Inl ErrTransferSelf)
               else in_tx_then RoomsDB (\<lambda>_ x. Inr x) (transfer_body roomID actorUserID targetUserID) } }"

definition Remove :: "uuid \<Rightarrow> int \<Rightarrow> int \<Rightarrow> (sess, rooms_err + unit) state" where
  "Remove roomID actorUserID targetUserID = do {
     r \<leftarrow> getMemberRole roomID actorUserID;
     case r of
       Inl _ \<Rightarrow> ret (Inl ErrForbidden)
     | Inr actorRole \<Rightarrow>
         if actorRole \<noteq> ''creator'' \<and> actorRole \<noteq> ''admin'' then ret (Inl ErrForbidden)
         else do {
           r2 \<leftarrow> getMemberRole roomID targetUserID;
           case r2 of
             Inl e \<Rightarrow> ret (Inl e)
           | Inr targetRole \<Rightarrow>
               if targetRole = ''creator'' \<or> (targetRole = ''admin'' \<and> actorRole \<noteq> ''creator'')
               then ret (Inl ErrForbidden)
               else exec (del_member roomID targetUserID) } }"

definition MemberAddresses :: "uuid \<Rightarrow> (sess, rooms_err + string list) state" where
  "MemberAddresses roomID = do {
     q \<leftarrow> query (\<lambda>t. [''@'' @ u_username u @ '':'' @ u_domain u.
           m \<leftarrow> tb_members t, u \<leftarrow> tb_users t, u_id u = rm_user m \<and> rm_room m = roomID]);
     ret (case q of Inl e \<Rightarrow> Inl (RoomsDB e) | Inr (rows, _) \<Rightarrow> Inr rows) }"

section \<open>The abstract access-control list\<close>

text \<open>
  What the service promises, without tables: who has which role in which room, and what each
  operation answers and does to that.
\<close>

type_synonym acl = "uuid \<Rightarrow> int \<Rightarrow> string option"

datatype room_op = OpInvite uuid int int | OpLeave uuid int | OpSetRole uuid int int string
  | OpTransfer uuid int int | OpRemove uuid int int

definition set_role :: "uuid \<Rightarrow> int \<Rightarrow> string option \<Rightarrow> acl \<Rightarrow> acl" where
  "set_role room user x R = R(room := (R room)(user := x))"

fun acl_op :: "int set \<Rightarrow> room_op \<Rightarrow> acl \<Rightarrow> (rooms_err + unit) \<times> acl" where
  "acl_op U (OpInvite room a b) R =
     (if R room a \<notin> {Some ''creator'', Some ''admin''} then (Inl ErrForbidden, R)
      else if R room b \<noteq> None then (Inr (), R)
      else if b \<notin> U then (Inl (RoomsDB ForeignKeyViolation), R)
      else (Inr (), set_role room b (Some ''member'') R))"
| "acl_op U (OpLeave room a) R =
     (if R room a = None then (Inl ErrNotMember, R)
      else if R room a = Some ''creator'' then (Inl ErrCreatorCannotLeave, R)
      else (Inr (), set_role room a None R))"
| "acl_op U (OpSetRole room a b role) R =
     (if role \<noteq> ''admin'' \<and> role \<noteq> ''member'' then (Inl ErrInvalidRole, R)
      else if R room a \<noteq> Some ''creator'' \<and> (R room a \<noteq> Some ''admin'' \<or> role = ''admin'') then (Inl ErrForbidden, R)
      else if R room b = None then (Inr (), R)
      else (Inr (), set_role room b (Some role) R))"
| "acl_op U (OpTransfer room a b) R =
     (if R room a \<noteq> Some ''creator'' then (Inl ErrForbidden, R)
      else if R room b = None then (Inl ErrNotMember, R)
      else if b = a then (Inl ErrTransferSelf, R)
      else (Inr (), set_role room a (Some ''member'') (set_role room b (Some ''creator'') R)))"
| "acl_op U (OpRemove room a b) R =
     (if R room a \<notin> {Some ''creator'', Some ''admin''} then (Inl ErrForbidden, R)
      else if R room b = None then (Inl ErrNotMember, R)
      else if R room b = Some ''creator'' \<or> (R room b = Some ''admin'' \<and> R room a \<noteq> Some ''creator'')
        then (Inl ErrForbidden, R)
      else (Inr (), set_role room b None R))"

text \<open>The operations of the service, and the abstraction of its tables.\<close>

fun run_op :: "room_op \<Rightarrow> (sess, rooms_err + unit) state" where
  "run_op (OpInvite room a b) = Invite room a b"
| "run_op (OpLeave room a) = Leave room a"
| "run_op (OpSetRole room a b role) = SetRole room a b role"
| "run_op (OpTransfer room a b) = TransferCreator room a b"
| "run_op (OpRemove room a b) = Remove room a b"

definition roles :: "tables \<Rightarrow> acl" where
  "roles t room user = (case filter (member_of room user) (tb_members t) of
     [] \<Rightarrow> None | m # _ \<Rightarrow> Some (rm_role m))"

definition rooms_inv :: "tables \<Rightarrow> bool" where
  "rooms_inv t \<longleftrightarrow> distinct (map r_id (tb_rooms t))
     \<and> distinct (map (\<lambda>m. (rm_room m, rm_user m)) (tb_members t))
     \<and> (\<forall>m \<in> set (tb_members t). rm_role m \<in> {''creator'', ''admin'', ''member''}
          \<and> rm_user m \<in> u_id ` set (tb_users t)
          \<and> (\<exists>r \<in> set (tb_rooms t). r_id r = rm_room m
               \<and> (rm_role m = ''creator'' \<longrightarrow> r_creator r = rm_user m)))"

subsection \<open>The statements on the abstraction\<close>

lemma find_map_upd: "(\<And>x. P (f x) = P x) \<Longrightarrow> find P (map f xs) = map_option f (find P xs)"
  by (induction xs) auto

lemma find_filter_other: "(\<And>x. P x \<Longrightarrow> Q x) \<Longrightarrow> find P (filter Q xs) = find P xs"
  by (induction xs) auto

lemma roles_find: "roles t room user = map_option rm_role (find (member_of room user) (tb_members t))"
proof -
  have "(case filter P xs of [] \<Rightarrow> None | m # _ \<Rightarrow> Some (rm_role m)) = map_option rm_role (find P xs)" for P xs
    by (induction xs) auto
  then show ?thesis by (simp add: roles_def)
qed

lemma roles_upd_role:
  "roles (put_role room user role t)
    = (if roles t room user = None then roles t else set_role room user (Some role) (roles t))"
proof (intro ext)
  fix r u
  let ?f = "\<lambda>m. if member_of room user m then m\<lparr>rm_role := role\<rparr> else m"
  have f: "find (member_of r u) (map ?f (tb_members t)) = map_option ?f (find (member_of r u) (tb_members t))"
    by (rule find_map_upd) (simp add: member_of_def)
  have "r = room \<and> u = user \<longleftrightarrow> member_of room user m"
    if "find (member_of r u) (tb_members t) = Some m" for m
    using that by (auto simp: find_Some_iff member_of_def)
  then show "roles (put_role room user role t) r u =
      (if roles t room user = None then roles t else set_role room user (Some role) (roles t)) r u"
    by (cases "find (member_of r u) (tb_members t)") (auto simp: put_role_def roles_find f set_role_def)
qed

lemma put_simps [simp]:
  "tb_users (put_role room user role t) = tb_users t"
  "tb_rooms (put_role room user role t) = tb_rooms t"
  "tb_users (put_creator user room t) = tb_users t"
  "tb_members (put_creator user room t) = tb_members t"
  "roles (put_creator user room t) = roles t"
  by (auto simp: put_role_def put_creator_def roles_def intro!: ext)

lemma roles_del_member:
  "roles (t\<lparr>tb_members := filter (\<lambda>m. \<not> member_of room user m) (tb_members t)\<rparr>)
    = set_role room user None (roles t)"
proof (intro ext)
  fix r u
  have "find (member_of r u) (filter (\<lambda>m. \<not> member_of room user m) (tb_members t))
      = (if r = room \<and> u = user then None else find (member_of r u) (tb_members t))"
    by (auto simp: find_None_iff member_of_def intro: find_filter_other)
  then show "roles (t\<lparr>tb_members := filter (\<lambda>m. \<not> member_of room user m) (tb_members t)\<rparr>) r u
      = set_role room user None (roles t) r u"
    by (simp add: roles_find set_role_def)
qed

lemma roles_ins_member:
  "roles t room user = None \<Longrightarrow>
    roles (t\<lparr>tb_members := tb_members t @ [\<lparr> rm_room = room, rm_user = user, rm_role = role, rm_joined = j \<rparr>]\<rparr>)
    = set_role room user (Some role) (roles t)"
  by (intro ext) (auto simp: roles_def set_role_def member_of_def split: list.splits)

lemma roles_None: "roles t room user = None \<longleftrightarrow> \<not> list_ex (member_of room user) (tb_members t)"
  by (auto simp: roles_find find_None_iff list_ex_iff)

lemma roles_ex: "list_ex (member_of room user) (tb_members t) \<longleftrightarrow> roles t room user \<noteq> None"
  by (simp add: roles_None)

lemma roles_SomeD:
  "roles t room user = Some role \<Longrightarrow>
    \<exists>m \<in> set (tb_members t). rm_room m = room \<and> rm_user m = user \<and> rm_role m = role"
  by (auto simp: roles_def member_of_def split: list.splits dest!: filter_eq_ConsD)

lemma roles_iff:
  assumes "rooms_inv t"
  shows "roles t room user = Some role \<longleftrightarrow>
    (\<exists>m \<in> set (tb_members t). rm_room m = room \<and> rm_user m = user \<and> rm_role m = role)"
proof
  assume "\<exists>m \<in> set (tb_members t). rm_room m = room \<and> rm_user m = user \<and> rm_role m = role"
  then obtain m where m: "m \<in> set (tb_members t)" "member_of room user m" "rm_role m = role"
    by (auto simp: member_of_def)
  then obtain role' where r: "roles t room user = Some role'"
    using roles_None [of t room user] by (auto simp: list_ex_iff)
  from roles_SomeD [OF this] obtain m' where m': "m' \<in> set (tb_members t)" "member_of room user m'"
    "rm_role m' = role'" by (auto simp: member_of_def)
  then have "m' = m" using assms m
    by (auto simp: rooms_inv_def member_of_def intro: distinct_map_eq)
  with r m m' show "roles t room user = Some role" by simp
qed (rule roles_SomeD)

lemma rooms_inv_room:
  "rooms_inv t \<Longrightarrow> roles t room user = Some role \<Longrightarrow> room \<in> r_id ` set (tb_rooms t) \<and> user \<in> u_id ` set (tb_users t)"
  by (auto simp: rooms_inv_def dest!: roles_SomeD) (metis image_eqI)

subsection \<open>Refinement\<close>

lemma run_getMemberRole:
  "faults s = [] \<Longrightarrow> run_state (getMemberRole room user) s =
    (case roles (tabs s) room user of None \<Rightarrow> Inl ErrNotMember | Some role \<Rightarrow> Inr role, s)"
  by (auto simp: getMemberRole_def sql_simps roles_def split: list.splits)

lemmas room_stmts = exec_def ins_member_if_absent_def ins_member_def upd_role_def del_member_def
  upd_creator_def transfer_body_def

lemma acl_refines:
  assumes inv: "rooms_inv (tabs s)" and f: "faults s = []" and r: "run_state (run_op p) s = (r, s')"
  shows "acl_op (u_id ` set (tb_users (tabs s))) p (roles (tabs s)) = (r, roles (tabs s'))"
proof (cases p)
  case (OpInvite room a b)
  with r f show ?thesis
    using rooms_inv_room [OF inv, of room a]
    by (auto simp: Invite_def run_getMemberRole room_stmts sql_simps roles_ex
        roles_ins_member split: option.splits if_splits)
next
  case (OpLeave room a)
  with r f show ?thesis
    by (auto simp: Leave_def run_getMemberRole room_stmts sql_simps roles_del_member
        split: option.splits if_splits)
next
  case (OpSetRole room a b role)
  with r f show ?thesis
    by (auto simp: SetRole_def run_getMemberRole room_stmts sql_simps roles_upd_role
        split: option.splits if_splits)
next
  case (OpTransfer room a b)
  with r f show ?thesis
    using rooms_inv_room [OF inv, of room b]
    by (auto simp: TransferCreator_def run_getMemberRole in_tx_then_def room_stmts sql_simps
        roles_upd_role set_role_def split: option.splits if_splits)
next
  case (OpRemove room a b)
  with r f show ?thesis
    by (auto simp: Remove_def run_getMemberRole room_stmts sql_simps roles_del_member
        split: option.splits if_splits)
qed

section \<open>Invariant and authorisation under faults\<close>

lemma getMemberRole_tabs: "run_state (getMemberRole room user) s = (r, s') \<Longrightarrow> tabs s' = tabs s"
  by (auto simp: getMemberRole_def dest!: query_row_tabs split: prod.splits)

lemma getMemberRole_InrD:
  "run_state (getMemberRole room user) s = (Inr role, s') \<Longrightarrow> roles (tabs s) room user = Some role"
  by (auto simp: getMemberRole_def roles_def dest!: query_row_InrD
      split: prod.splits sum.splits if_splits)

lemma exec_InrD: "run_state (exec f) s = (Inr x, s') \<Longrightarrow> f (tabs s) = (Inr (), tabs s')"
  by (auto simp: exec_def split: prod.splits sum.splits dest!: stmt_InrD)

lemma exec_tabs: "run_state (exec f) s = (r, s') \<Longrightarrow> tabs s' = tabs s \<or> tabs s' = snd (f (tabs s))"
  by (auto simp: exec_def split: prod.splits dest!: stmt_tabs)

lemma transfer_body_InrD:
  "run_state (transfer_body room a b) s = (Inr x, s') \<Longrightarrow>
    tabs s' = put_creator b room (put_role room a ''member'' (put_role room b ''creator'' (tabs s)))"
  by (fastforce simp: transfer_body_def upd_role_def upd_creator_def
      split: prod.splits sum.splits if_splits dest!: exec_InrD)

lemma inv_restore: "rooms_inv snap \<Longrightarrow> rooms_inv (restore snap cur)"
  by (simp add: rooms_inv_def restore_def)

lemma inv_ins_room: "rooms_inv t \<Longrightarrow> rooms_inv (snd (ins_room i name domain creator t))"
  by (fastforce simp: rooms_inv_def ins_room_def)

lemma inv_ins_member:
  assumes "rooms_inv t" and "role = ''creator'' \<longrightarrow> (\<exists>r \<in> set (tb_rooms t). r_id r = room \<and> r_creator r = user)"
  shows "rooms_inv (snd (ins_member room user role t))"
proof (cases "role \<in> {''creator'', ''admin'', ''member''} \<and> \<not> list_ex (member_of room user) (tb_members t)
    \<and> room \<in> r_id ` set (tb_rooms t) \<and> user \<in> u_id ` set (tb_users t)")
  case True
  then have new: "\<exists>r \<in> set (tb_rooms t). r_id r = room \<and> (role = ''creator'' \<longrightarrow> r_creator r = user)"
    using assms(2) by (cases "role = ''creator''") auto
  have "(room, user) \<notin> (\<lambda>m. (rm_room m, rm_user m)) ` set (tb_members t)"
    using True by (auto simp: list_ex_iff member_of_def)
  with True new assms(1) show ?thesis by (simp add: ins_member_def rooms_inv_def)
next
  case False
  with assms(1) show ?thesis by (auto simp: ins_member_def)
qed

lemma map_key_put_role:
  "map (\<lambda>m. (rm_room m, rm_user m)) (tb_members (put_role room user role t))
    = map (\<lambda>m. (rm_room m, rm_user m)) (tb_members t)"
  by (auto simp: put_role_def)

lemma map_id_put_creator: "map r_id (tb_rooms (put_creator user room t)) = map r_id (tb_rooms t)"
  by (auto simp: put_creator_def)

lemma put_role_mem:
  "m \<in> set (tb_members (put_role room user role t)) \<Longrightarrow>
    \<exists>m0 \<in> set (tb_members t). rm_room m = rm_room m0 \<and> rm_user m = rm_user m0
      \<and> rm_role m = (if member_of room user m0 then role else rm_role m0)"
  by (auto simp: put_role_def)

lemma inv_put_role:
  assumes "rooms_inv t" and "role = ''admin'' \<or> role = ''member''"
  shows "rooms_inv (put_role room user role t)"
proof -
  have "rm_role m \<in> {''creator'', ''admin'', ''member''} \<and> rm_user m \<in> u_id ` set (tb_users t)
      \<and> (\<exists>r \<in> set (tb_rooms t). r_id r = rm_room m \<and> (rm_role m = ''creator'' \<longrightarrow> r_creator r = rm_user m))"
    if m: "m \<in> set (tb_members (put_role room user role t))" for m
  proof -
    from put_role_mem [OF m] obtain m0 where "m0 \<in> set (tb_members t)" "rm_room m = rm_room m0"
      "rm_user m = rm_user m0" "rm_role m = (if member_of room user m0 then role else rm_role m0)" by blast
    with assms show ?thesis by (auto simp: rooms_inv_def)
  qed
  with assms(1) show ?thesis by (simp add: rooms_inv_def map_key_put_role)
qed

lemma inv_upd_role:
  "rooms_inv t \<Longrightarrow> role = ''admin'' \<or> role = ''member'' \<Longrightarrow> rooms_inv (snd (upd_role room user role t))"
  by (simp add: upd_role_def inv_put_role)

lemma inv_del_member: "rooms_inv t \<Longrightarrow> rooms_inv (snd (del_member room user t))"
  by (auto simp: rooms_inv_def del_member_def distinct_map_filterI)

lemma only_creator:
  assumes inv: "rooms_inv t" and a: "roles t room a = Some ''creator''"
    and m: "m \<in> set (tb_members t)" "rm_room m = room" "rm_role m = ''creator''"
  shows "rm_user m = a"
proof -
  from roles_SomeD [OF a] obtain m' where m': "m' \<in> set (tb_members t)" "rm_room m' = room"
    "rm_user m' = a" "rm_role m' = ''creator''" by blast
  have own: "\<exists>r \<in> set (tb_rooms t). r_id r = rm_room x \<and> r_creator r = rm_user x"
    if "x \<in> set (tb_members t)" "rm_role x = ''creator''" for x
    using inv that by (auto simp: rooms_inv_def)
  obtain r r' where r: "r \<in> set (tb_rooms t)" "r' \<in> set (tb_rooms t)" "r_id r = room"
    "r_id r' = room" "r_creator r = rm_user m" "r_creator r' = a"
    using own [OF m(1,3)] own [OF m'(1,4)] m(2) m'(2,3) by auto
  have "distinct (map r_id (tb_rooms t))" using inv by (simp add: rooms_inv_def)
  from distinct_map_eq [OF this r(1,2)] r show ?thesis by simp
qed

lemma inv_transfer:
  assumes inv: "rooms_inv t" and a: "roles t room a = Some ''creator''" and b: "b \<noteq> a"
  shows "rooms_inv (put_creator b room (put_role room a ''member'' (put_role room b ''creator'' t)))"
    (is "rooms_inv ?t")
proof -
  note one = only_creator [OF inv a]
  have mem: "rm_role m \<in> {''creator'', ''admin'', ''member''} \<and> rm_user m \<in> u_id ` set (tb_users ?t)
      \<and> (\<exists>r \<in> set (tb_rooms ?t). r_id r = rm_room m \<and> (rm_role m = ''creator'' \<longrightarrow> r_creator r = rm_user m))"
    if m: "m \<in> set (tb_members ?t)" for m
  proof -
    from m have "m \<in> set (tb_members (put_role room a ''member'' (put_role room b ''creator'' t)))" by simp
    from put_role_mem [OF this] obtain m1 where
      m1: "m1 \<in> set (tb_members (put_role room b ''creator'' t))" "rm_room m = rm_room m1" "rm_user m = rm_user m1"
        "rm_role m = (if member_of room a m1 then ''member'' else rm_role m1)" by blast
    from put_role_mem [OF m1(1)] m1(2-4) obtain m0 where m0: "m0 \<in> set (tb_members t)" and keys: "rm_room m = rm_room m0" "rm_user m = rm_user m0"
      and role: "rm_role m = (if member_of room a m0 then ''member''
        else if member_of room b m0 then ''creator'' else rm_role m0)"
      by (auto simp: member_of_def)
    with inv obtain r0 where r0: "r0 \<in> set (tb_rooms t)" "r_id r0 = rm_room m0"
      "rm_role m0 = ''creator'' \<longrightarrow> r_creator r0 = rm_user m0" "rm_role m0 \<in> {''creator'', ''admin'', ''member''}"
      "rm_user m0 \<in> u_id ` set (tb_users t)" by (auto simp: rooms_inv_def)
    let ?r = "if r_id r0 = room then r0\<lparr>r_creator := b\<rparr> else r0"
    have "?r \<in> set (tb_rooms ?t)" using r0(1) by (auto simp: put_creator_def)
    moreover have "r_id ?r = rm_room m" using r0(2) keys by simp
    moreover have "rm_role m = ''creator'' \<longrightarrow> r_creator ?r = rm_user m"
      using role keys r0 one [OF m0] by (auto simp: member_of_def split: if_splits)
    ultimately show ?thesis using role r0(4,5) keys by auto
  qed
  moreover have "distinct (map r_id (tb_rooms ?t))
      \<and> distinct (map (\<lambda>m. (rm_room m, rm_user m)) (tb_members ?t))"
    using inv by (simp add: map_id_put_creator map_key_put_role rooms_inv_def)
  ultimately show ?thesis unfolding rooms_inv_def by blast
qed

subsection \<open>Every operation keeps the invariant\<close>

lemma keeps_exec: "(\<And>t. P t \<Longrightarrow> P (snd (f t))) \<Longrightarrow> keeps (on_tabs P) (exec f)"
  unfolding exec_def by (intro triple_intros) auto

lemma keeps_getMemberRole [triple_intros]: "keeps (on_tabs P) (getMemberRole room user)"
  unfolding getMemberRole_def by (intro triple_intros)

lemma keeps_Invite: "keeps (on_tabs rooms_inv) (Invite room a b)"
  unfolding Invite_def
  by (intro triple_intros keeps_exec) (auto simp: ins_member_if_absent_def inv_ins_member)

lemma keeps_Leave: "keeps (on_tabs rooms_inv) (Leave room a)"
  unfolding Leave_def by (intro triple_intros keeps_exec) (auto simp: inv_del_member)

lemma keeps_SetRole: "keeps (on_tabs rooms_inv) (SetRole room a b role)"
  unfolding SetRole_def by (intro triple_intros keeps_exec) (auto intro: inv_upd_role)

lemma keeps_Remove: "keeps (on_tabs rooms_inv) (Remove room a b)"
  unfolding Remove_def by (intro triple_intros keeps_exec) (auto simp: inv_del_member)

lemma triple_transfer_tx:
  assumes "b \<noteq> a"
  shows "triple (on_tabs (\<lambda>t. rooms_inv t \<and> roles t room a = Some ''creator''))
    (in_tx_then w fin (transfer_body room a b)) (\<lambda>_. on_tabs rooms_inv)"
  using assms
  by (intro triple_in_tx_then tripleI)
     (auto simp: on_tabs_def inv_restore inv_transfer dest!: transfer_body_InrD)

lemma triple_getMemberRole:
  "triple (on_tabs P) (getMemberRole room user)
    (\<lambda>r s. on_tabs (\<lambda>t. P t \<and> (\<forall>role. r = Inr role \<longrightarrow> roles t room user = Some role)) s)"
proof (rule tripleI)
  fix s r s' assume "on_tabs P s" and r: "run_state (getMemberRole room user) s = (r, s')"
  then show "on_tabs (\<lambda>t. P t \<and> (\<forall>role. r = Inr role \<longrightarrow> roles t room user = Some role)) s'"
    using getMemberRole_tabs [OF r] getMemberRole_InrD by (auto simp: on_tabs_def)
qed

lemma keeps_TransferCreator: "keeps (on_tabs rooms_inv) (TransferCreator room a b)"
  unfolding TransferCreator_def
proof (rule triple_bind [OF triple_getMemberRole], goal_cases)
  case (1 r)
  show ?case
  proof (cases "r = Inr ''creator''")
    case True
    have "triple (on_tabs (\<lambda>t. rooms_inv t \<and> roles t room a = Some ''creator''))
      (do { r2 \<leftarrow> getMemberRole room b;
            case r2 of Inl e \<Rightarrow> ret (Inl e)
            | Inr _ \<Rightarrow> if b = a then ret (Inl ErrTransferSelf)
                else in_tx_then RoomsDB (\<lambda>_ x. Inr x) (transfer_body room a b) })
      (\<lambda>_. on_tabs rooms_inv)"
      by (rule triple_bind [OF keeps_getMemberRole])
         (intro triple_case_sum triple_if triple_ret triple_transfer_tx; simp add: on_tabs_def)
    from triple_weaken [OF this] show ?thesis
      unfolding True by (simp only: sum.case simp_thms if_False) (simp add: on_tabs_def)
  next
    case False
    then show ?thesis by (cases r) (auto simp: on_tabs_def intro!: triple_ret)
  qed
qed

lemma keeps_run_op: "keeps (on_tabs rooms_inv) (run_op p)"
  by (cases p) (simp_all add: keeps_Invite keeps_Leave keeps_SetRole keeps_TransferCreator keeps_Remove)

lemma keeps_Create: "keeps (on_tabs rooms_inv) (Create domain name u)"
proof (rule tripleI)
  fix s r s' assume inv: "on_tabs rooms_inv s" and r: "run_state (Create domain name u) s = (r, s')"
  let ?i = "uuids s (upos s)"
  let ?s = "s\<lparr>upos := Suc (upos s)\<rparr>"
  obtain x s1 where x: "run_state (stmt (ins_room ?i name domain u)) ?s = (x, s1)" by fastforce
  have s1: "rooms_inv (tabs s1)"
    using stmt_tabs [OF x] inv inv_ins_room by (auto simp: on_tabs_def)
  show "on_tabs rooms_inv s'"
  proof (cases x)
    case (Inl e)
    with r x s1 show ?thesis by (simp add: Create_def sql_simps on_tabs_def)
  next
    case (Inr y)
    with x have "ins_room ?i name domain u (tabs s) = (Inr (), tabs s1)" by (auto dest: stmt_InrD)
    then have "tabs s1 = snd (ins_room ?i name domain u (tabs s))"
      "fst (ins_room ?i name domain u (tabs s)) = Inr ()" by simp_all
    then have "\<exists>r \<in> set (tb_rooms (tabs s1)). r_id r = ?i \<and> r_creator r = u"
      by (auto simp: ins_room_def split: if_splits)
    then have "rooms_inv (snd (ins_member ?i u ''creator'' (tabs s1)))"
      using s1 inv_ins_member by blast
    moreover obtain z s2 where z: "run_state (stmt (ins_member ?i u ''creator'')) s1 = (z, s2)" by fastforce
    ultimately have "rooms_inv (tabs s2)" using stmt_tabs [OF z] s1 by auto
    with r x Inr z show ?thesis by (simp add: Create_def sql_simps on_tabs_def)
  qed
qed

text \<open>
  Who may change a room, as a function of the role the actor holds: only the creator hands
  out the admin role or the room itself.
\<close>

fun op_actor :: "room_op \<Rightarrow> uuid \<times> int" where
  "op_actor (OpInvite room a b) = (room, a)"
| "op_actor (OpLeave room a) = (room, a)"
| "op_actor (OpSetRole room a b role) = (room, a)"
| "op_actor (OpTransfer room a b) = (room, a)"
| "op_actor (OpRemove room a b) = (room, a)"

fun op_needs :: "room_op \<Rightarrow> string set" where
  "op_needs (OpInvite room a b) = {''creator'', ''admin''}"
| "op_needs (OpLeave room a) = UNIV - {''creator''}"
| "op_needs (OpSetRole room a b role) = (if role = ''admin'' then {''creator''} else {''creator'', ''admin''})"
| "op_needs (OpTransfer room a b) = {''creator''}"
| "op_needs (OpRemove room a b) = {''creator'', ''admin''}"

lemma op_not_authorised:
  assumes "run_state (run_op p) s = (r, s')" and "op_actor p = (room, a)"
    and no: "\<And>role. roles (tabs s) room a = Some role \<Longrightarrow> role \<notin> op_needs p"
  shows "tabs s' = tabs s \<and> r \<noteq> Inr ()"
proof -
  obtain g s1 where g: "run_state (getMemberRole room a) s = (g, s1)" by fastforce
  note t = getMemberRole_tabs [OF g]
  have n: "role \<notin> op_needs p" if "g = Inr role" for role
    using g that no getMemberRole_InrD by blast
  show ?thesis
    using assms(1,2) g t n
    by (cases p; cases g)
       (auto simp: Invite_def Leave_def SetRole_def TransferCreator_def Remove_def split: if_splits)
qed

section \<open>The service as the relay sees it\<close>

definition room_service :: "env \<Rightarrow> string \<Rightarrow> rooms_err checker" where
  "room_service E domain = \<lparr> ck_IsMember = IsMember, ck_GetRoomAddrsForUser = GetRoomAddrsForUser E domain \<rparr>"

definition is_member :: "tables \<Rightarrow> uuid \<Rightarrow> int \<Rightarrow> bool" where
  "is_member t room user \<longleftrightarrow> roles t room user \<noteq> None"

lemma rooms_of_set:
  "set (map r_id (rooms_of user t)) =
    {r_id r | r m. r \<in> set (tb_rooms t) \<and> m \<in> set (tb_members t) \<and> rm_room m = r_id r \<and> rm_user m = user}"
  by (auto simp: rooms_of_def)

lemma is_member_iff: "is_member t room user \<longleftrightarrow> (\<exists>m \<in> set (tb_members t). member_of room user m)"
  by (simp add: is_member_def roles_None list_ex_iff)

lemma rooms_of_member: "i \<in> set (map r_id (rooms_of user t)) \<Longrightarrow> is_member t i user"
  unfolding rooms_of_set by (auto simp: is_member_iff member_of_def)

lemma rooms_of_inv: "rooms_inv t \<Longrightarrow> set (map r_id (rooms_of user t)) = {i. is_member t i user}"
proof (intro equalityI subsetI)
  fix i assume inv: "rooms_inv t" and "i \<in> {i. is_member t i user}"
  then obtain m where m: "m \<in> set (tb_members t)" "rm_room m = i" "rm_user m = user"
    by (auto simp: is_member_iff member_of_def)
  with inv obtain r where "r \<in> set (tb_rooms t)" "r_id r = i" by (auto simp: rooms_inv_def)
  with m show "i \<in> set (map r_id (rooms_of user t))" unfolding rooms_of_set by (intro CollectI exI [of _ r] exI [of _ m]) simp
qed (simp only: mem_Collect_eq rooms_of_member)

lemma filter_is_member: "filter (member_of room user) (tb_members t) = [] \<longleftrightarrow> \<not> is_member t room user"
  by (auto simp: is_member_iff filter_empty_conv)

interpretation rooms_checker: room_checker "room_service E domain" is_member rooms_inv
    "\<lambda>i. RoomAddr E i domain" for E domain
proof (unfold_locales, goal_cases)
  case (1 r u s b s')
  then show ?case
    using filter_is_member [of r u "tabs s"]
    by (auto simp: room_service_def IsMember_def split: sum.splits prod.splits if_splits
        dest!: query_row_InrD query_row_NoRowsD)
next
  case (2 r u s x s')
  then show ?case
    by (auto simp: room_service_def IsMember_def split: prod.splits dest!: query_row_frame)
next
  case (3 s r u)
  then show ?case
    using filter_is_member [of r u "tabs s"]
    by (auto simp: room_service_def IsMember_def sql_simps split: list.splits)
next
  case (4 u s xs s')
  then obtain ids e s1 where "run_state (query (\<lambda>t. map r_id (rooms_of u t))) s = (Inr (ids, e), s1)"
    and xs: "xs = map (\<lambda>i. RoomAddr E i domain) ids"
    by (auto simp: room_service_def GetRoomAddrsForUser_def split: sum.splits prod.splits)
  then have "set ids \<subseteq> {i. is_member (tabs s) i u}"
    using rooms_of_member by (fastforce dest!: query_InrD dest: in_set_takeD)
  with xs show ?case by auto
next
  case (5 u s y s')
  then show ?case
    by (auto simp: room_service_def GetRoomAddrsForUser_def split: prod.splits dest!: query_frame)
next
  case (6 s u)
  let ?ids = "map r_id (rooms_of u (tabs s))"
  have "set (map (\<lambda>i. RoomAddr E i domain) ?ids) = (\<lambda>i. RoomAddr E i domain) ` set ?ids"
    by (rule set_map)
  also have "\<dots> = {RoomAddr E r domain | r. is_member (tabs s) r u}"
    unfolding rooms_of_inv [OF 6(2)] by auto
  finally show ?case
    using 6(1) by (simp add: room_service_def GetRoomAddrsForUser_def sql_simps)
qed

section \<open>Properties\<close>

text \<open>A room with its creator (user 1), an admin (user 2) and a member (user 3), to evaluate on.\<close>

definition demo_user :: "int \<Rightarrow> string \<Rightarrow> user_row" where
  "demo_user i name = \<lparr> u_id = i, u_username = name, u_domain = ''a.org'', u_password_hash = None \<rparr>"

definition demo_member :: "int \<Rightarrow> string \<Rightarrow> member_row" where
  "demo_member i role = \<lparr> rm_room = 9, rm_user = i, rm_role = role, rm_joined = i \<rparr>"

definition demo_rooms :: tables where
  "demo_rooms = empty_tables\<lparr>
     tb_users := [demo_user 1 ''ann'', demo_user 2 ''bob'', demo_user 3 ''cat'', demo_user 4 ''dan''],
     tb_rooms := [\<lparr> r_id = 9, r_name = ''team'', r_domain = ''a.org'', r_creator = 1, r_created = 5 \<rparr>],
     tb_members := [demo_member 1 ''creator'', demo_member 2 ''admin'', demo_member 3 ''member'']\<rparr>"

lemmas demo_defs = demo_rooms_def demo_user_def demo_member_def empty_tables_def session_on_def

lemma demo_rooms_inv [simp]: "rooms_inv demo_rooms"
  by (simp add: rooms_inv_def demo_defs)

lemma demo_roles [simp]:
  "roles demo_rooms 9 1 = Some ''creator''" "roles demo_rooms 9 2 = Some ''admin''"
  "roles demo_rooms 9 3 = Some ''member''"
  by (simp_all add: roles_def demo_defs member_of_def)

text \<open>C5: without database faults every operation that changes a room's membership answers
  and acts exactly as the abstract access-control list says: the same result or error, and
  the roles the list has afterwards.\<close>

theorem rooms_refine_acl:
  assumes "rooms_inv (tabs s)" and "faults s = []" and "run_state (run_op p) s = (r, s')"
  shows "acl_op (u_id ` set (tb_users (tabs s))) p (roles (tabs s)) = (r, roles (tabs s'))"
  using assms by (rule acl_refines)

theorem rooms_refine_acl_witness:
  "roles (tabs (snd (run_state (run_op (OpRemove 9 2 3)) (session_on demo_rooms [])))) 9 3 = None"
  using rooms_refine_acl [of "session_on demo_rooms []" "OpRemove 9 2 3"]
  by (cases "run_state (run_op (OpRemove 9 2 3)) (session_on demo_rooms [])")
     (simp add: session_on_def prod_eq_iff fun_eq_iff set_role_def split: if_splits)

text \<open>C21: whatever the database refuses or loses on the way, an operation changes the tables
  only if the actor holds a role in that room that permits it: only creator and admin invite,
  remove or demote, only the creator appoints admins and hands the room over, and the creator
  does not leave.\<close>

theorem rooms_authorised:
  assumes "run_state (run_op p) s = (r, s')" and "op_actor p = (room, a)"
    and "tabs s' \<noteq> tabs s \<or> r = Inr ()"
  shows "\<exists>role \<in> op_needs p. roles (tabs s) room a = Some role"
  using op_not_authorised [OF assms(1,2)] assms(3) by blast

theorem rooms_authorised_witness:
  "\<exists>role \<in> op_needs (OpInvite 9 2 4). roles demo_rooms 9 2 = Some role"
proof -
  have "run_state (run_op (OpInvite 9 2 4)) (session_on demo_rooms []) = (Inr (),
     snd (run_state (run_op (OpInvite 9 2 4)) (session_on demo_rooms [])))"
    by (simp add: Invite_def run_getMemberRole room_stmts sql_simps demo_defs roles_def member_of_def)
  from rooms_authorised [OF this] show ?thesis by (simp add: session_on_def)
qed

text \<open>The guard of Remove that shields the creator is not a protection: an admin can first
  set the creator's role to member and then remove him, and both calls succeed.\<close>

theorem admin_can_oust_creator:
  assumes "rooms_inv (tabs s)" and "faults s = []" and "a \<noteq> c"
    and "roles (tabs s) room a = Some ''admin''" and "roles (tabs s) room c = Some ''creator''"
    and "run_state (SetRole room a c ''member'') s = (r1, s1)" and "run_state (Remove room a c) s1 = (r2, s2)"
  shows "r1 = Inr () \<and> r2 = Inr () \<and> roles (tabs s2) room c = None"
proof -
  have 1: "acl_op (u_id ` set (tb_users (tabs s))) (OpSetRole room a c ''member'') (roles (tabs s)) = (r1, roles (tabs s1))"
    using assms(1,2,6) by (intro acl_refines) simp_all
  have "rooms_inv (tabs s1)"
    using tripleD [OF keeps_SetRole _ assms(6)] assms(1) by (simp add: on_tabs_def)
  moreover have "faults s1 = []"
    using assms(2,6) by (auto simp: SetRole_def run_getMemberRole room_stmts sql_simps
        split: option.splits if_splits)
  ultimately have "acl_op (u_id ` set (tb_users (tabs s1))) (OpRemove room a c) (roles (tabs s1)) = (r2, roles (tabs s2))"
    using assms(7) by (intro acl_refines) simp_all
  moreover from 1 assms(3-5) have "r1 = Inr ()"
    "roles (tabs s1) = set_role room c (Some ''member'') (roles (tabs s))" by auto
  ultimately show ?thesis
    using assms(3,4) by (auto simp: set_role_def split: if_splits dest!: sym [of _ "roles (tabs s2)"])
qed

theorem admin_can_oust_creator_witness:
  "\<exists>s1. run_state (SetRole 9 2 1 ''member'') (session_on demo_rooms []) = (Inr (), s1)
    \<and> roles (tabs (snd (run_state (Remove 9 2 1) s1))) 9 1 = None"
  using admin_can_oust_creator [of "session_on demo_rooms []" 2 1 9]
  by (simp add: session_on_def prod_eq_iff)

text \<open>The address of a room parses back to the room's id and domain, and is recognised as a
  room address; a user address never is. The hypotheses are the documented form of a UUID
  (hexadecimal digits and dashes) and that the server has a domain.\<close>

theorem RoomAddr_roundtrip:
  assumes "CHR '':'' \<notin> set (uuid_str E i)" and "domain \<noteq> []"
  shows "ParseRoomAddr (RoomAddr E i domain) = Some (uuid_str E i, domain)
    \<and> IsRoomAddr (RoomAddr E i domain) \<and> (\<forall>u. \<not> IsRoomAddr (CHR ''@'' # u))"
  using assms Index_char_first [of "CHR '':''" "uuid_str E i" domain]
  by (simp add: ParseRoomAddr_def RoomAddr_def IsRoomAddr_def)

theorem RoomAddr_roundtrip_witness:
  "ParseRoomAddr (RoomAddr demo_env 7 ''a.org'') = Some (''7'', ''a.org'')"
proof -
  have "uuid_str demo_env 7 = ''7''" by code_simp
  then show ?thesis using RoomAddr_roundtrip [of demo_env 7 "''a.org''"] by simp
qed

text \<open>
  Two ways the code reports what is not so. \<open>Create\<close> writes the room and its creator in two
  statements without a transaction: when the second is refused, the room stays behind without
  a creator. \<open>TransferCreator\<close> drops the error of \<open>Commit\<close> and reports success.
\<close>

lemma Create_leaves_ownerless_room:
  "case run_state (Create ''a.org'' ''new'' 1) (session_on demo_rooms [Answered, Refused]) of (r, s') \<Rightarrow>
     r = Inl (RoomsDB Conn) \<and> length (tb_rooms (tabs s')) = 2 \<and> tb_members (tabs s') = tb_members demo_rooms"
  by (simp add: Create_def sql_simps stmt_def ins_room_def demo_defs)

lemma TransferCreator_drops_commit_error:
  "case run_state (TransferCreator 9 1 3)
      (session_on demo_rooms [Answered, Answered, Answered, Answered, Answered, Answered, Refused]) of
     (r, s') \<Rightarrow> r = Inr () \<and> tabs s' = demo_rooms"
  by (simp add: TransferCreator_def getMemberRole_def query_row_def in_tx_then_def tx_begin_def stmt_def
      tx_commit_def restore_def room_stmts demo_defs member_of_def put_role_def put_creator_def)

end
