(* ===== verification/Relay.thy ===== *)
theory Relay
  imports Rooms "HOL-Library.Multiset"
begin

text \<open>
  Package \<open>relay\<close> (\<open>src/server/internal/relay/relay.go\<close>): the message queue. \<open>Send\<close> accepts a
  message from a local user, \<open>AcceptTransaction\<close> takes a federated batch, \<open>Sync\<close> delivers a
  page of messages to a device and \<open>MarkRead\<close> records read receipts. The room service is the
  interface value \<open>rl_rooms\<close>; what is proved of the relay is proved in the locale
  \<open>room_checker\<close> for every implementation of that interface.
\<close>

section \<open>Sending\<close>

record 'e relay =
  rl_domain :: string
  rl_rooms :: "'e checker option"

definition defaultTTLDays :: int where "defaultTTLDays = 7"
definition replayWindowSec :: int where "replayWindowSec = 300"
definition futureToleranceSec :: int where "futureToleranceSec = 60"

text \<open>\<open>ErrRemoteRecipient\<close> is returned together with the event id.\<close>

datatype relay_err = ErrRemoteRecipient string | ErrNotRoomMember | ErrRecipientNotFound | ErrReplayTimestamp
  | ErrInvalidRoomAddress | ErrInvalidRoomID | RelayDB db_err

definition extractDomain :: "string \<Rightarrow> string" where
  "extractDomain addr = (case Index addr '':'' of
     None \<Rightarrow> ''''
   | Some idx \<Rightarrow> if length addr > idx + 1 then drop (idx + 1) addr else '''')"

text \<open>
  A nil \<open>[]byte\<close> is \<open>None\<close>; a Go map is the list of its entries, empty when the map is nil or
  has no entry.
\<close>

record send_input =
  si_EventID :: string
  si_Sender :: string
  si_Recipient :: string
  si_SenderUserID :: int
  si_SenderDevice :: string
  si_Ciphertext :: "bytes option"
  si_Ciphertexts :: "(string \<times> string) list"
  si_SessionID :: string
  si_Timestamp :: int
  si_IdempotencyKey :: string

text \<open>\<open>INSERT INTO message_queue\<close> with the defaults of its columns.\<close>

definition ins_msg :: "string \<Rightarrow> string \<Rightarrow> string \<Rightarrow> string \<Rightarrow> bytes option
    \<Rightarrow> (string \<times> string) list option \<Rightarrow> string \<Rightarrow> int \<Rightarrow> int \<Rightarrow> tables \<Rightarrow> (db_err + unit) \<times> tables" where
  "ins_msg eid sender recipient dev ct cts sid ts expires t =
     (case ct of
        None \<Rightarrow> (Inl NotNullViolation, t)
      | Some c \<Rightarrow>
          if eid \<in> m_event_id ` set (tb_msgs t) then (Inl UniqueViolation, t)
          else (Inr (), t\<lparr>tb_msgs := tb_msgs t @
            [\<lparr> m_event_id = eid, m_sender = sender, m_recipient = recipient, m_sender_device = dev,
               m_type = ''m.room.encrypted'', m_ciphertext = c, m_ciphertexts = cts, m_session = sid,
               m_timestamp = ts, m_status = ''queued'', m_expires = expires, m_created = tb_now t \<rparr>]\<rparr>))"

definition ins_idem :: "bytes \<Rightarrow> string \<Rightarrow> tables \<Rightarrow> (db_err + unit) \<times> tables" where
  "ins_idem h eid t =
     (if h \<in> i_hash ` set (tb_idem t) then (Inl UniqueViolation, t)
      else (Inr (), t\<lparr>tb_idem := tb_idem t @ [\<lparr> i_hash = h, i_event = eid \<rparr>]\<rparr>))"

definition local_user :: "env \<Rightarrow> string \<Rightarrow> string \<Rightarrow> tables \<Rightarrow> bool" where
  "local_user E domain name t \<longleftrightarrow>
     list_ex (\<lambda>u. pg_lower E (u_username u) = pg_lower E name \<and> u_domain u = domain) (tb_users t)"

definition recipient_name :: "string \<Rightarrow> string" where
  "recipient_name recipient =
     (let name0 = TrimPrefix recipient ''@'' in
      TrimSpace (case Index name0 '':'' of None \<Rightarrow> name0 | Some idx \<Rightarrow> take idx name0))"

text \<open>
  The checks on the recipient: the sender's membership for a room, the existence of the user
  for a direct message.
\<close>

definition check_recipient :: "env \<Rightarrow> 'e relay \<Rightarrow> send_input \<Rightarrow> (sess, relay_err + unit) state" where
  "check_recipient E S inp =
     (case (if IsRoomAddr (si_Recipient inp) then rl_rooms S else None) of
        Some rooms \<Rightarrow>
          (case ParseRoomAddr (si_Recipient inp) of
             None \<Rightarrow> ret (Inl ErrInvalidRoomAddress)
           | Some (roomID, _) \<Rightarrow>
               (case uuid_parse E roomID of
                  None \<Rightarrow> ret (Inl ErrInvalidRoomID)
                | Some rid \<Rightarrow> do {
                    m \<leftarrow> ck_IsMember rooms rid (si_SenderUserID inp);
                    ret (if m = Inr True then Inr () else Inl ErrNotRoomMember) }))
      | None \<Rightarrow>
          (let username = recipient_name (si_Recipient inp) in
           if username = '''' then ret (Inr ())
           else do {
             q \<leftarrow> query_row (\<lambda>t. [local_user E (rl_domain S) username t]);
             ret (case q of
               Inl e \<Rightarrow> Inl (RelayDB e)
             | Inr exists \<Rightarrow> if exists then Inr () else Inl ErrRecipientNotFound) }))"

text \<open>The lookup of the idempotency key: the event already sent under it, if there is one.\<close>

definition seen_key :: "env \<Rightarrow> string \<Rightarrow> (sess, relay_err + string option) state" where
  "seen_key E key =
     (if key = '''' then ret (Inr None)
      else do {
        q \<leftarrow> query_row (\<lambda>t. map i_event (filter (\<lambda>i. i_hash i = sha256 E key) (tb_idem t)));
        ret (case q of
          Inr existing \<Rightarrow> Inr (Some existing)
        | Inl e \<Rightarrow> if e = NoRows then Inr None else Inl (RelayDB e)) })"

text \<open>The end of \<open>Send\<close>: the insert, and the key, whose insertion may fail unnoticed.\<close>

definition enqueue :: "env \<Rightarrow> send_input \<Rightarrow> string \<Rightarrow> (sess, relay_err + string) state" where
  "enqueue E inp eid = do {
     now \<leftarrow> time_now;
     x \<leftarrow> stmt (ins_msg eid (si_Sender inp) (si_Recipient inp) (si_SenderDevice inp)
            (if si_Ciphertexts inp \<noteq> [] then Some [] else si_Ciphertext inp)
            (if si_Ciphertexts inp \<noteq> [] then Some (si_Ciphertexts inp) else None)
            (si_SessionID inp) (si_Timestamp inp)
            ((now + defaultTTLDays * 24 * 3600 * 1000000000) div 1000));
     case x of
       Inl e \<Rightarrow> ret (Inl (RelayDB e))
     | Inr _ \<Rightarrow>
         if si_IdempotencyKey inp = '''' then ret (Inr eid)
         else do {
           _ \<leftarrow> stmt (ins_idem (sha256 E (si_IdempotencyKey inp)) eid);
           ret (Inr eid) } }"

text \<open>\<open>Send\<close> in two parts: the choice of the event id, and the gates with the rest.\<close>

definition send_rest :: "env \<Rightarrow> 'e relay \<Rightarrow> send_input \<Rightarrow> string \<Rightarrow> (sess, relay_err + string) state" where
  "send_rest E S inp eid = do {
     ns \<leftarrow> time_now;
     let now = unix ns in
     if si_Timestamp inp < now - replayWindowSec then ret (Inl ErrReplayTimestamp)
     else if si_Timestamp inp > now + futureToleranceSec then ret (Inl ErrReplayTimestamp)
     else if extractDomain (si_Recipient inp) \<noteq> '''' \<and> extractDomain (si_Recipient inp) \<noteq> rl_domain S
       then ret (Inl (ErrRemoteRecipient eid))
     else do {
       c \<leftarrow> check_recipient E S inp;
       case c of
         Inl e \<Rightarrow> ret (Inl e)
       | Inr _ \<Rightarrow> do {
           k \<leftarrow> seen_key E (si_IdempotencyKey inp);
           case k of
             Inl e \<Rightarrow> ret (Inl e)
           | Inr (Some existing) \<Rightarrow> ret (Inr existing)
           | Inr None \<Rightarrow> enqueue E inp eid } } }"

definition Send :: "env \<Rightarrow> 'e relay \<Rightarrow> send_input \<Rightarrow> (sess, relay_err + string) state" where
  "Send E S inp = do {
     eid \<leftarrow> (if si_EventID inp = '''' then do { u \<leftarrow> uuid_new; ret (''evt_'' @ uuid_str E u) }
            else ret (si_EventID inp));
     send_rest E S inp eid }"

section \<open>Federated batches\<close>

record fed_event =
  fe_EventID :: string
  fe_Type :: string
  fe_Sender :: string
  fe_Recipient :: string
  fe_SenderDevice :: string
  fe_Ciphertext :: "bytes option"
  fe_SessionID :: string
  fe_Timestamp :: int

text \<open>
  One round of the loop; \<open>exists\<close> stays false when the lookup fails. The second component
  collects the rejected events, all with reason \<open>insert_failed\<close>.
\<close>

definition accept_event :: "int \<Rightarrow> string list \<times> string list \<Rightarrow> fed_event \<Rightarrow> (sess, string list \<times> string list) state" where
  "accept_event expires acc e = do {
     q \<leftarrow> query_row (\<lambda>t. [fe_EventID e \<in> m_event_id ` set (tb_msgs t)]);
     if q = Inr True then ret (fst acc @ [fe_EventID e], snd acc)
     else do {
       x \<leftarrow> stmt (ins_msg (fe_EventID e) (fe_Sender e) (fe_Recipient e) (fe_SenderDevice e)
              (fe_Ciphertext e) None (fe_SessionID e) (fe_Timestamp e) expires);
       ret (case x of
         Inl _ \<Rightarrow> (fst acc, snd acc @ [fe_EventID e])
       | Inr _ \<Rightarrow> (fst acc @ [fe_EventID e], snd acc)) } }"

definition AcceptTransaction :: "fed_event list \<Rightarrow> (sess, string list \<times> string list) state" where
  "AcceptTransaction events = do {
     now \<leftarrow> time_now;
     mfold (accept_event ((now + defaultTTLDays * 24 * 3600 * 1000000000) div 1000)) ([], []) events }"

section \<open>Synchronisation\<close>

record sync_event =
  se_EventID :: string
  se_Type :: string
  se_Sender :: string
  se_Recipient :: string
  se_SenderDevice :: string
  se_Timestamp :: int
  se_Ciphertext :: bytes
  se_SessionID :: string
  se_Status :: string

record sync_result =
  sr_events :: "sync_event list"
  sr_next :: string
  sr_delivered :: "(string \<times> string) list"

text \<open>The ciphertext a device sees of a message with one ciphertext per device or per user.\<close>

definition pick_ciphertext :: "string \<Rightarrow> string \<Rightarrow> (string \<times> string) list \<Rightarrow> bytes \<Rightarrow> bytes" where
  "pick_ciphertext me dev cts old =
     (let at = (\<lambda>k. case map_of cts k of None \<Rightarrow> '''' | Some v \<Rightarrow> v);
          ct = (if at (me @ '':'' @ dev) \<noteq> '''' then at (me @ '':'' @ dev) else at me) in
      if ct = '''' then old
      else (case b64_decode ct of
              Some d \<Rightarrow> d
            | None \<Rightarrow> if HasPrefix ct ''sig1:'' \<or> HasPrefix ct ''sk1:'' then ct else old))"

definition sync_event_of :: "string \<Rightarrow> string \<Rightarrow> msg_row \<Rightarrow> sync_event" where
  "sync_event_of me dev m =
     \<lparr> se_EventID = m_event_id m, se_Type = m_type m, se_Sender = m_sender m, se_Recipient = m_recipient m,
       se_SenderDevice = m_sender_device m, se_Timestamp = m_timestamp m,
       se_Ciphertext = (case m_ciphertexts m of
          None \<Rightarrow> m_ciphertext m
        | Some cts \<Rightarrow> pick_ciphertext me dev cts (m_ciphertext m)),
       se_SessionID = m_session m, se_Status = m_status m \<rparr>"

text \<open>
  The query. A cursor the database cannot read as a timestamp, or a negative \<open>LIMIT\<close>, makes
  the result set fail when its first row is asked for, which the code does not see: the rows
  are empty. Rows with the same \<open>created_at\<close> come in the order of their insertion.
\<close>

definition sync_rows :: "env \<Rightarrow> string list \<Rightarrow> string \<Rightarrow> string \<Rightarrow> int \<Rightarrow> tables \<Rightarrow> msg_row list" where
  "sync_rows E recipients me since lim t =
     (let visible = filter (\<lambda>m. m_recipient m \<in> set recipients \<or> m_sender m = me) (tb_msgs t) in
      if since = '''' then take (nat lim) (sort_key (\<lambda>m. - m_created m) visible)
      else (case pg_time E since of
              None \<Rightarrow> []
            | Some c \<Rightarrow> take (nat lim) (sort_key m_created
                (filter (\<lambda>m. m_status m = ''queued'' \<and> m_created m > c) visible))))"

definition mark_delivered :: "string \<Rightarrow> tables \<Rightarrow> (db_err + unit) \<times> tables" where
  "mark_delivered eid t = (Inr (), t\<lparr>tb_msgs :=
     map (\<lambda>m. if m_event_id m = eid then m\<lparr>m_status := ''delivered''\<rparr> else m) (tb_msgs t)\<rparr>)"

definition put_cursor :: "int \<Rightarrow> uuid \<Rightarrow> string \<Rightarrow> tables \<Rightarrow> (db_err + unit) \<times> tables" where
  "put_cursor user dev cur t =
     (if list_ex (\<lambda>c. c_user c = user \<and> c_device c = dev) (tb_cursors t)
      then (Inr (), t\<lparr>tb_cursors := map (\<lambda>c. if c_user c = user \<and> c_device c = dev
              then c\<lparr>c_cursor := cur\<rparr> else c) (tb_cursors t)\<rparr>)
      else if user \<notin> u_id ` set (tb_users t) then (Inl ForeignKeyViolation, t)
      else (Inr (), t\<lparr>tb_cursors := tb_cursors t @ [\<lparr> c_user = user, c_device = dev, c_cursor = cur \<rparr>]\<rparr>))"

definition deliver :: "string \<Rightarrow> (string \<times> string) list \<Rightarrow> sync_event \<Rightarrow> (sess, (string \<times> string) list) state" where
  "deliver me acc ev =
     (if se_Sender ev \<noteq> me then do {
        _ \<leftarrow> stmt (mark_delivered (se_EventID ev));
        ret (acc @ [(se_Sender ev, se_EventID ev)]) }
      else ret acc)"

text \<open>The addresses whose messages a user sees; an error of the room service is ignored.\<close>

definition sync_addrs :: "'e relay \<Rightarrow> int \<Rightarrow> (sess, string list) state" where
  "sync_addrs S userID = (case rl_rooms S of
     None \<Rightarrow> ret []
   | Some rooms \<Rightarrow> do {
       a \<leftarrow> ck_GetRoomAddrsForUser rooms userID;
       ret (case a of Inl _ \<Rightarrow> [] | Inr xs \<Rightarrow> xs) })"

text \<open>What \<open>Sync\<close> does with the fetched rows.\<close>

definition sync_finish :: "env \<Rightarrow> int \<Rightarrow> uuid \<Rightarrow> string \<Rightarrow> string \<Rightarrow> int \<Rightarrow> msg_row list \<Rightarrow> (sess, sync_result) state" where
  "sync_finish E userID deviceID me since limit rows =
     (let fetched = map (sync_event_of me (uuid_str E deviceID)) rows;
          events = (if since = '''' then rev fetched else fetched) in
      if int (length events) > limit then
        ret \<lparr> sr_events = take (nat limit) events,
              sr_next = fmt_nano E (m_created (rows ! (nat limit - 1))), sr_delivered = [] \<rparr>
      else if events \<noteq> [] then
        (let next = fmt_nano E (m_created (last rows)) in do {
           delivered \<leftarrow> mfold (deliver me) [] events;
           _ \<leftarrow> stmt (put_cursor userID deviceID next);
           ret \<lparr> sr_events = events, sr_next = next, sr_delivered = delivered \<rparr> })
      else ret \<lparr> sr_events = [], sr_next = '''', sr_delivered = [] \<rparr>)"

definition Sync :: "env \<Rightarrow> 'e relay \<Rightarrow> int \<Rightarrow> uuid \<Rightarrow> string \<Rightarrow> int \<Rightarrow> (sess, db_err + sync_result) state" where
  "Sync E S userID deviceID since limit0 =
     (let limit = (if limit0 \<le> 0 then 100 else limit0) in do {
     q \<leftarrow> query_row (\<lambda>t. map (\<lambda>u. (u_username u, u_domain u)) (filter (\<lambda>u. u_id u = userID) (tb_users t)));
     case q of
       Inl e \<Rightarrow> ret (Inl e)
     | Inr (username, domain) \<Rightarrow>
         let me = ''@'' @ username @ '':'' @ domain in do {
         addrs \<leftarrow> sync_addrs S userID;
         rs \<leftarrow> query (sync_rows E (me # addrs) me since (wrap64 (limit + 1)));
         case rs of
           Inl e \<Rightarrow> ret (Inl e)
         | Inr (rows, _) \<Rightarrow> do {
             res \<leftarrow> sync_finish E userID deviceID me since limit rows;
             ret (Inr res) } } })"

section \<open>Read receipts\<close>

definition ins_receipt :: "string \<Rightarrow> string \<Rightarrow> tables \<Rightarrow> (db_err + unit) \<times> tables" where
  "ins_receipt eid reader t =
     (if list_ex (\<lambda>r. rr_event r = eid \<and> rr_reader r = reader) (tb_receipts t) then (Inr (), t)
      else if eid \<notin> m_event_id ` set (tb_msgs t) then (Inl ForeignKeyViolation, t)
      else (Inr (), t\<lparr>tb_receipts := tb_receipts t @ [\<lparr> rr_event = eid, rr_reader = reader \<rparr>]\<rparr>))"

definition can_read :: "env \<Rightarrow> 'e relay \<Rightarrow> string \<Rightarrow> int \<Rightarrow> string \<Rightarrow> (sess, bool) state" where
  "can_read E S reader userID recipient =
     (case (if IsRoomAddr recipient then rl_rooms S else None) of
        Some rooms \<Rightarrow>
          (case ParseRoomAddr recipient of
             None \<Rightarrow> ret False
           | Some (roomID, _) \<Rightarrow>
               (case uuid_parse E roomID of
                  None \<Rightarrow> ret False
                | Some rid \<Rightarrow> do {
                    m \<leftarrow> ck_IsMember rooms rid userID;
                    ret (m = Inr True) }))
      | None \<Rightarrow> ret (recipient = reader))"

definition read_one :: "env \<Rightarrow> 'e relay \<Rightarrow> string \<Rightarrow> int \<Rightarrow> (string \<times> string) list \<Rightarrow> string
    \<Rightarrow> (sess, (string \<times> string) list) state" where
  "read_one E S reader userID acc eid =
     (if eid = '''' then ret acc
      else do {
        q \<leftarrow> query_row (\<lambda>t. map (\<lambda>m. (m_sender m, m_recipient m)) (filter (\<lambda>m. m_event_id m = eid) (tb_msgs t)));
        case q of
          Inl _ \<Rightarrow> ret acc
        | Inr (sender, recipient) \<Rightarrow> do {
            ok \<leftarrow> can_read E S reader userID recipient;
            if \<not> ok then ret acc
            else do {
              x \<leftarrow> stmt (ins_receipt eid reader);
              ret (case x of Inl _ \<Rightarrow> acc | Inr _ \<Rightarrow> acc @ [(sender, eid)]) } } })"

definition MarkRead :: "env \<Rightarrow> 'e relay \<Rightarrow> string \<Rightarrow> int \<Rightarrow> string list \<Rightarrow> (sess, (string \<times> string) list) state" where
  "MarkRead E S reader userID eventIDs = mfold (read_one E S reader userID) [] eventIDs"

section \<open>Lemmas on sending\<close>

text \<open>When the recipient check passes: what it saw in the tables.\<close>

definition recipient_ok :: "(tables \<Rightarrow> uuid \<Rightarrow> int \<Rightarrow> bool) \<Rightarrow> env \<Rightarrow> string \<Rightarrow> send_input \<Rightarrow> tables \<Rightarrow> bool" where
  "recipient_ok mem E domain inp t \<longleftrightarrow>
     (if IsRoomAddr (si_Recipient inp)
      then (case ParseRoomAddr (si_Recipient inp) of
              None \<Rightarrow> False
            | Some (roomID, _) \<Rightarrow> (case uuid_parse E roomID of
                None \<Rightarrow> False
              | Some rid \<Rightarrow> mem t rid (si_SenderUserID inp)))
      else recipient_name (si_Recipient inp) = '''' \<or> local_user E domain (recipient_name (si_Recipient inp)) t)"

definition gates_ok :: "(tables \<Rightarrow> uuid \<Rightarrow> int \<Rightarrow> bool) \<Rightarrow> env \<Rightarrow> string \<Rightarrow> int \<Rightarrow> send_input \<Rightarrow> tables \<Rightarrow> bool" where
  "gates_ok mem E domain now inp t \<longleftrightarrow>
     now - replayWindowSec \<le> si_Timestamp inp \<and> si_Timestamp inp \<le> now + futureToleranceSec
     \<and> extractDomain (si_Recipient inp) \<in> {'''', domain} \<and> recipient_ok mem E domain inp t"

definition key_event :: "env \<Rightarrow> string \<Rightarrow> tables \<Rightarrow> string option" where
  "key_event E key t = map_option i_event (find (\<lambda>i. i_hash i = sha256 E key) (tb_idem t))"

lemma find_filter: "find P xs = (case filter P xs of [] \<Rightarrow> None | x # _ \<Rightarrow> Some x)"
  by (induction xs) auto

lemma run_seen_key:
  "faults s = [] \<Longrightarrow> run_state (seen_key E key) s
    = (Inr (if key = '''' then None else key_event E key (tabs s)), s)"
  by (auto simp: seen_key_def key_event_def sql_simps find_filter split: list.splits)

lemma seen_key_tabs: "run_state (seen_key E key) s = (r, s') \<Longrightarrow> tabs s' = tabs s"
  by (auto simp: seen_key_def split: if_splits prod.splits dest!: query_row_tabs)

text \<open>The event id \<open>Send\<close> chooses, and the session after the choice.\<close>

definition fresh_id :: "env \<Rightarrow> send_input \<Rightarrow> sess \<Rightarrow> string" where
  "fresh_id E inp s = (if si_EventID inp = '''' then ''evt_'' @ uuid_str E (uuids s (upos s)) else si_EventID inp)"

definition after_id :: "send_input \<Rightarrow> sess \<Rightarrow> sess" where
  "after_id inp s = (if si_EventID inp = '''' then s\<lparr>upos := Suc (upos s)\<rparr> else s)"

lemma after_id_simps [simp]:
  "tabs (after_id inp s) = tabs s" "faults (after_id inp s) = faults s" "go_now (after_id inp s) = go_now s"
  by (simp_all add: after_id_def)

lemma run_Send: "run_state (Send E S inp) s = run_state (send_rest E S inp (fresh_id E inp s)) (after_id inp s)"
  by (simp add: Send_def fresh_id_def after_id_def sql_simps)

lemma enqueue_tabs:
  assumes "run_state (enqueue E inp eid) s = (Inr x, s')"
  shows "x = eid \<and> (\<exists>m. m_event_id m = eid \<and> m_sender m = si_Sender inp \<and> m_recipient m = si_Recipient inp
    \<and> tb_msgs (tabs s') = tb_msgs (tabs s) @ [m] \<and> eid \<notin> m_event_id ` set (tb_msgs (tabs s)))"
proof -
  obtain y s1 where y: "run_state (stmt (ins_msg eid (si_Sender inp) (si_Recipient inp) (si_SenderDevice inp)
            (if si_Ciphertexts inp \<noteq> [] then Some [] else si_Ciphertext inp)
            (if si_Ciphertexts inp \<noteq> [] then Some (si_Ciphertexts inp) else None)
            (si_SessionID inp) (si_Timestamp inp)
            ((go_now s + defaultTTLDays * 24 * 3600 * 1000000000) div 1000))) s = (Inr y, s1)"
    and rest: "x = eid" "s' = s1 \<or> (\<exists>z. run_state (stmt (ins_idem (sha256 E (si_IdempotencyKey inp)) eid)) s1 = (z, s'))"
    using assms by (auto simp: enqueue_def sql_simps split: prod.splits sum.splits if_splits)
  have "tb_msgs (tabs s') = tb_msgs (tabs s1)"
    using rest(2) by (auto simp: ins_idem_def dest!: stmt_tabs)
  moreover have "\<exists>m. m_event_id m = eid \<and> m_sender m = si_Sender inp \<and> m_recipient m = si_Recipient inp
    \<and> tb_msgs (tabs s1) = tb_msgs (tabs s) @ [m] \<and> eid \<notin> m_event_id ` set (tb_msgs (tabs s))"
    using stmt_InrD [OF y] by (auto simp: ins_msg_def split: option.splits if_splits dest!: sym [of _ "tabs s1"])
  ultimately show ?thesis using rest(1) by simp
qed

lemma enqueue_key:
  assumes "run_state (enqueue E inp eid) s = (Inr x, s')" and "faults s = []" and "si_IdempotencyKey inp \<noteq> ''''"
    and "key_event E (si_IdempotencyKey inp) (tabs s) = None"
  shows "key_event E (si_IdempotencyKey inp) (tabs s') = Some eid \<and> faults s' = []"
proof -
  let ?h = "sha256 E (si_IdempotencyKey inp)"
  have n: "find (\<lambda>i. i_hash i = ?h) (tb_idem (tabs s)) = None"
    using assms(4) by (simp add: key_event_def)
  then have "?h \<notin> i_hash ` set (tb_idem (tabs s))" by (auto simp: find_None_iff)
  have f: "find P (xs @ ys) = (case find P xs of None \<Rightarrow> find P ys | Some x \<Rightarrow> Some x)" for P xs and ys :: "idem_row list"
    by (induction xs) auto
  show ?thesis
    using assms(1-3) n \<open>?h \<notin> _\<close>
    by (auto simp: enqueue_def sql_simps ins_msg_def ins_idem_def key_event_def f
        split: option.splits if_splits sum.splits prod.splits)
qed

context room_checker
begin

abbreviation (input) S :: "string \<Rightarrow> 'e relay" where
  "S d \<equiv> \<lparr>rl_domain = d, rl_rooms = Some C\<rparr>"

lemma check_recipient_tabs:
  "run_state (check_recipient E (S d) inp) s = (r, s') \<Longrightarrow> tabs s' = tabs s"
  by (auto simp: check_recipient_def Let_def split: if_splits option.splits prod.splits
      dest!: IsMember_tabs query_row_tabs)

lemma check_recipient_InrD:
  "run_state (check_recipient E (S d) inp) s = (Inr x, s') \<Longrightarrow> recipient_ok member E d inp (tabs s)"
  by (auto simp: check_recipient_def recipient_ok_def Let_def
      split: if_splits option.splits prod.splits sum.splits dest!: IsMember_sound query_row_InrD)

lemma check_recipient_total:
  assumes "faults s = []"
  shows "\<exists>r. run_state (check_recipient E (S d) inp) s = (r, s)
    \<and> (r = Inr () \<longleftrightarrow> recipient_ok member E d inp (tabs s))"
  using assms
  by (auto simp: check_recipient_def recipient_ok_def Let_def IsMember_total sql_simps
      split: option.splits prod.splits)

lemma send_rest_InrD:
  "run_state (send_rest E (S d) inp eid) s = (Inr x, s') \<Longrightarrow>
    gates_ok member E d (unix (go_now s)) inp (tabs s)"
  by (auto simp: send_rest_def gates_ok_def sql_simps Let_def
      split: if_splits prod.splits sum.splits dest!: check_recipient_InrD)

lemma run_send_rest:
  assumes "faults s = []" and "gates_ok member E d (unix (go_now s)) inp (tabs s)"
  shows "run_state (send_rest E (S d) inp eid) s =
    (case (if si_IdempotencyKey inp = '''' then None else key_event E (si_IdempotencyKey inp) (tabs s)) of
       Some e \<Rightarrow> (Inr e, s) | None \<Rightarrow> run_state (enqueue E inp eid) s)"
proof -
  have "run_state (check_recipient E (S d) inp) s = (Inr (), s)"
    using check_recipient_total [OF assms(1), of E d inp] assms(2) by (auto simp: gates_ok_def)
  with assms show ?thesis
    by (auto simp: send_rest_def gates_ok_def sql_simps run_seen_key split: option.splits)
qed

lemma send_rest_refused:
  assumes "faults s = []" and "\<not> gates_ok member E d (unix (go_now s)) inp (tabs s)"
  shows "\<exists>e. run_state (send_rest E (S d) inp eid) s = (Inl e, s)"
proof -
  obtain r where r: "run_state (check_recipient E (S d) inp) s = (r, s)"
    "r = Inr () \<longleftrightarrow> recipient_ok member E d inp (tabs s)"
    using check_recipient_total [OF assms(1)] by blast
  show ?thesis
    using assms(2) r by (cases r) (auto simp: send_rest_def gates_ok_def sql_simps Let_def)
qed

end

section \<open>Lemmas on federated batches\<close>

lemma ins_msg_Inr:
  "ins_msg eid sender recipient dev ct cts sid ts expires t = (Inr u, t') \<Longrightarrow>
    (\<exists>m. m_event_id m = eid \<and> m_sender m = sender \<and> m_recipient m = recipient \<and> tb_msgs t' = tb_msgs t @ [m])
    \<and> eid \<notin> m_event_id ` set (tb_msgs t)"
  by (auto simp: ins_msg_def split: option.splits if_splits)

lemma ins_msg_tabs:
  "tb_msgs (snd (ins_msg eid sender recipient dev ct cts sid ts expires t)) = tb_msgs t
   \<or> (\<exists>m. m_event_id m = eid \<and> m_sender m = sender \<and> m_recipient m = recipient
       \<and> tb_msgs (snd (ins_msg eid sender recipient dev ct cts sid ts expires t)) = tb_msgs t @ [m]
       \<and> eid \<notin> m_event_id ` set (tb_msgs t))"
  by (auto simp: ins_msg_def split: option.splits)

text \<open>What one round does to the queue under any faults.\<close>

lemma accept_event_any:
  assumes "run_state (accept_event x (acc, rej) e) s = ((acc', rej'), s')"
  shows "(acc' = acc @ [fe_EventID e] \<and> rej' = rej \<and> fe_EventID e \<in> m_event_id ` set (tb_msgs (tabs s'))
      \<or> acc' = acc \<and> rej' = rej @ [fe_EventID e])
    \<and> (tb_msgs (tabs s') = tb_msgs (tabs s)
       \<or> (\<exists>m. m_event_id m = fe_EventID e \<and> m_sender m = fe_Sender e \<and> m_recipient m = fe_Recipient e
            \<and> tb_msgs (tabs s') = tb_msgs (tabs s) @ [m] \<and> fe_EventID e \<notin> m_event_id ` set (tb_msgs (tabs s))))"
proof -
  let ?q = "query_row (\<lambda>t. [fe_EventID e \<in> m_event_id ` set (tb_msgs t)])"
  let ?f = "ins_msg (fe_EventID e) (fe_Sender e) (fe_Recipient e) (fe_SenderDevice e)
              (fe_Ciphertext e) None (fe_SessionID e) (fe_Timestamp e) x"
  obtain q s1 where q: "run_state ?q s = (q, s1)" by fastforce
  note t1 = query_row_tabs [OF q]
  show ?thesis
  proof (cases "q = Inr True")
    case True
    then have "fe_EventID e \<in> m_event_id ` set (tb_msgs (tabs s))"
      using query_row_InrD [of _ s True s1] q by auto
    with True q t1 assms show ?thesis by (simp add: accept_event_def)
  next
    case False
    obtain y s2 where y: "run_state (stmt ?f) s1 = (y, s2)" by fastforce
    with False q assms have r: "s' = s2" "(acc', rej') = (case y of Inl _ \<Rightarrow> (acc, rej @ [fe_EventID e])
        | Inr _ \<Rightarrow> (acc @ [fe_EventID e], rej))" by (auto simp: accept_event_def split: sum.splits)
    have "tb_msgs (tabs s') = tb_msgs (tabs s)
       \<or> (\<exists>m. m_event_id m = fe_EventID e \<and> m_sender m = fe_Sender e \<and> m_recipient m = fe_Recipient e
            \<and> tb_msgs (tabs s') = tb_msgs (tabs s) @ [m] \<and> fe_EventID e \<notin> m_event_id ` set (tb_msgs (tabs s)))"
      using stmt_tabs [OF y] ins_msg_tabs r(1) t1 by metis
    moreover have "fe_EventID e \<in> m_event_id ` set (tb_msgs (tabs s'))" if "y = Inr u" for u
      using stmt_InrD [of ?f s1 u s2] y that r(1) by (auto dest!: ins_msg_Inr)
    ultimately show ?thesis using r(2) by (cases y) auto
  qed
qed

definition batch_inv :: "msg_row list \<Rightarrow> fed_event list \<Rightarrow> string list \<times> string list \<Rightarrow> sess \<Rightarrow> bool" where
  "batch_inv old pre acc s \<longleftrightarrow>
     mset (fst acc) + mset (snd acc) = mset (map fe_EventID pre)
     \<and> set (fst acc) \<subseteq> m_event_id ` set (tb_msgs (tabs s))
     \<and> (\<exists>new. tb_msgs (tabs s) = old @ new \<and> distinct (map m_event_id new)
          \<and> m_event_id ` set new \<inter> m_event_id ` set old = {}
          \<and> (\<forall>m \<in> set new. \<exists>e \<in> set pre. m_event_id m = fe_EventID e
               \<and> m_sender m = fe_Sender e \<and> m_recipient m = fe_Recipient e))"

lemma batch_inv_step:
  assumes "batch_inv old pre acc s" and "run_state (accept_event x acc e) s = (acc', s')"
  shows "batch_inv old (pre @ [e]) acc' s'"
proof -
  obtain a b a' b' where ab: "acc = (a, b)" "acc' = (a', b')" by fastforce
  note e = accept_event_any [OF assms(2) [unfolded ab]]
  from assms(1) obtain new where new: "tb_msgs (tabs s) = old @ new" "distinct (map m_event_id new)"
    "m_event_id ` set new \<inter> m_event_id ` set old = {}"
    "\<forall>m \<in> set new. \<exists>e \<in> set pre. m_event_id m = fe_EventID e \<and> m_sender m = fe_Sender e \<and> m_recipient m = fe_Recipient e"
    by (auto simp: batch_inv_def)
  have "\<exists>new. tb_msgs (tabs s') = old @ new \<and> distinct (map m_event_id new)
          \<and> m_event_id ` set new \<inter> m_event_id ` set old = {}
          \<and> (\<forall>m \<in> set new. \<exists>e \<in> set (pre @ [e]). m_event_id m = fe_EventID e
               \<and> m_sender m = fe_Sender e \<and> m_recipient m = fe_Recipient e)"
    using conjunct2 [OF e]
  proof
    assume "tb_msgs (tabs s') = tb_msgs (tabs s)"
    with new show ?thesis by (intro exI [of _ new]) auto
  next
    assume "\<exists>m. m_event_id m = fe_EventID e \<and> m_sender m = fe_Sender e \<and> m_recipient m = fe_Recipient e
            \<and> tb_msgs (tabs s') = tb_msgs (tabs s) @ [m] \<and> fe_EventID e \<notin> m_event_id ` set (tb_msgs (tabs s))"
    then obtain m where "m_event_id m = fe_EventID e" "m_sender m = fe_Sender e" "m_recipient m = fe_Recipient e"
      "tb_msgs (tabs s') = tb_msgs (tabs s) @ [m]" "fe_EventID e \<notin> m_event_id ` set (tb_msgs (tabs s))" by blast
    with new show ?thesis by (intro exI [of _ "new @ [m]"]) auto
  qed
  moreover have "set (tb_msgs (tabs s)) \<subseteq> set (tb_msgs (tabs s'))" using conjunct2 [OF e] by auto
  then have "set a \<subseteq> m_event_id ` set (tb_msgs (tabs s'))"
    using assms(1) unfolding batch_inv_def ab fst_conv by (meson image_mono subset_trans)
  then have "set a' \<subseteq> m_event_id ` set (tb_msgs (tabs s'))" using conjunct1 [OF e] by auto
  moreover have "mset a + mset b = mset (map fe_EventID pre)"
    using assms(1) by (simp add: batch_inv_def ab)
  then have "mset a' + mset b' = mset (map fe_EventID (pre @ [e]))"
    using conjunct1 [OF e] by auto
  ultimately show ?thesis by (simp add: batch_inv_def ab)
qed

lemma AcceptTransaction_inv:
  assumes "run_state (AcceptTransaction events) s = (acc, s')"
  shows "batch_inv (tb_msgs (tabs s)) events acc s'"
proof -
  let ?x = "(go_now s + defaultTTLDays * 24 * 3600 * 1000000000) div 1000"
  have r: "run_state (mfold (accept_event ?x) ([], []) events) s = (acc, s')"
    using assms by (simp add: AcceptTransaction_def sql_simps)
  show ?thesis
  proof (rule mfold_prefix [where J = "batch_inv (tb_msgs (tabs s))", OF _ _ r])
    show "batch_inv (tb_msgs (tabs s)) [] ([], []) s" by (simp add: batch_inv_def)
  qed (rule batch_inv_step)
qed

lemma accept_event_known:
  assumes "faults s = []" and "\<forall>e \<in> set es. fe_EventID e \<in> m_event_id ` set (tb_msgs (tabs s))"
  shows "run_state (mfold (accept_event x) (acc, rej) es) s = ((acc @ map fe_EventID es, rej), s)"
  using assms by (induction es arbitrary: acc) (auto simp: accept_event_def sql_simps)

lemma accept_event_ok:
  assumes "faults s = []" and "\<forall>e \<in> set es. fe_Ciphertext e \<noteq> None"
  shows "\<exists>s'. run_state (mfold (accept_event x) (acc, rej) es) s = ((acc @ map fe_EventID es, rej), s') \<and> faults s' = []"
  using assms
proof (induction es arbitrary: acc s)
  case Nil
  then show ?case by simp
next
  case (Cons e es)
  then obtain c where "fe_Ciphertext e = Some c" by auto
  then have "\<exists>s1. run_state (accept_event x (acc, rej) e) s = ((acc @ [fe_EventID e], rej), s1) \<and> faults s1 = []"
    using Cons.prems(1) by (auto simp: accept_event_def sql_simps ins_msg_def)
  then obtain s1 where "run_state (accept_event x (acc, rej) e) s = ((acc @ [fe_EventID e], rej), s1)" "faults s1 = []"
    by blast
  with Cons.IH [of s1 "acc @ [fe_EventID e]"] Cons.prems(2) show ?case by simp
qed

section \<open>Lemmas on synchronisation\<close>

lemma sync_finish_events:
  assumes "run_state (sync_finish E u dev me since limit rows) s = (res, s')" and "0 < limit"
  shows "sr_events res = take (nat limit)
    (let fetched = map (sync_event_of me (uuid_str E dev)) rows in if since = '''' then rev fetched else fetched)"
  using assms by (auto simp: sync_finish_def Let_def split: if_splits prod.splits)

lemma sync_finish_next:
  assumes "run_state (sync_finish E u dev me since limit rows) s = (res, s')" and "0 < limit" and "rows \<noteq> []"
  shows "sr_next res = fmt_nano E (m_created (last (take (nat limit) rows)))"
proof (cases "int (length rows) > limit")
  case True
  then have "nat limit - 1 < length rows" "nat limit \<noteq> 0" using assms(2) by linarith+
  then have "last (take (nat limit) rows) = rows ! (nat limit - 1)"
    by (cases "nat limit") (auto simp: take_Suc_conv_app_nth)
  with assms True show ?thesis by (auto simp: sync_finish_def Let_def split: if_splits)
next
  case False
  then have "take (nat limit) rows = rows" using assms(2) by simp
  with assms False show ?thesis by (auto simp: sync_finish_def Let_def split: if_splits prod.splits)
qed

lemma sync_rows_visible:
  "m \<in> set (sync_rows E recipients me since lim t) \<Longrightarrow>
    m \<in> set (tb_msgs t) \<and> (m_recipient m \<in> set recipients \<or> m_sender m = me)"
  by (auto simp: sync_rows_def Let_def split: if_splits option.splits dest!: in_set_takeD)

lemma se_of [simp]:
  "se_EventID (sync_event_of me dev m) = m_event_id m" "se_Sender (sync_event_of me dev m) = m_sender m"
  "se_Recipient (sync_event_of me dev m) = m_recipient m"
  by (simp_all add: sync_event_of_def)

lemma sync_finish_subset:
  assumes "run_state (sync_finish E u dev me since limit rows) s = (res, s')" and "0 < limit" and "e \<in> set (sr_events res)"
  shows "\<exists>m \<in> set rows. e = sync_event_of me (uuid_str E dev) m"
  using sync_finish_events [OF assms(1,2)] assms(3)
  by (auto simp: Let_def split: if_splits dest!: in_set_takeD)

text \<open>The address of a user as \<open>Sync\<close> reads it.\<close>

definition user_addr :: "tables \<Rightarrow> int \<Rightarrow> string \<Rightarrow> bool" where
  "user_addr t userID me \<longleftrightarrow>
     (\<exists>u \<in> set (tb_users t). u_id u = userID \<and> me = ''@'' @ u_username u @ '':'' @ u_domain u)"

context room_checker
begin

lemma Sync_InrE:
  assumes "run_state (Sync E (S d) userID dev since limit0) s = (Inr res, s')"
  obtains me addrs rows e s2 s3 where "user_addr (tabs s) userID me"
    and "set addrs \<subseteq> {addr r | r. member (tabs s) r userID}" and "tabs s2 = tabs s"
    and "run_state (query (sync_rows E (me # addrs) me since (wrap64 ((if limit0 \<le> 0 then 100 else limit0) + 1)))) s2
          = (Inr (rows, e), s3)"
    and "run_state (sync_finish E userID dev me since (if limit0 \<le> 0 then 100 else limit0) rows) s3 = (res, s')"
proof -
  let ?l = "if limit0 \<le> 0 then 100 else limit0"
  let ?q = "query_row (\<lambda>t. map (\<lambda>u. (u_username u, u_domain u)) (filter (\<lambda>u. u_id u = userID) (tb_users t)))"
  from assms obtain un dm s1 where q: "run_state ?q s = (Inr (un, dm), s1)"
    by (auto simp: Sync_def Let_def split: prod.splits sum.splits)
  let ?me = "''@'' @ un @ '':'' @ dm"
  obtain a s2 where a: "run_state (ck_GetRoomAddrsForUser C userID) s1 = (a, s2)" by fastforce
  let ?addrs = "case a of Inl _ \<Rightarrow> [] | Inr xs \<Rightarrow> xs"
  have addr: "run_state (sync_addrs (S d) userID) s1 = (?addrs, s2)" using a by (simp add: sync_addrs_def)
  obtain r s3 where r: "run_state (query (sync_rows E (?me # ?addrs) ?me since (wrap64 (?l + 1)))) s2 = (r, s3)" by fastforce
  from assms q addr r obtain rows e where rows: "r = Inr (rows, e)"
    and fin: "run_state (sync_finish E userID dev ?me since ?l rows) s3 = (res, s')"
    by (cases r) (auto simp: Sync_def Let_def split: prod.splits)
  have "user_addr (tabs s) userID ?me"
    using query_row_InrD [OF q] by (auto simp: user_addr_def map_eq_Cons_conv filter_eq_Cons_iff)
  moreover have "set ?addrs \<subseteq> {addr r | r. member (tabs s) r userID}"
    using addrs_sound [of userID s1 _ s2] a query_row_tabs [OF q] by (cases a) auto
  moreover have "tabs s2 = tabs s" using addrs_tabs [OF a] query_row_tabs [OF q] by simp
  ultimately show thesis using that [of ?me ?addrs s2 rows e s3] r rows fin by simp
qed

lemma Sync_confidential:
  assumes "run_state (Sync E (S d) userID dev since limit0) s = (Inr res, s')"
  shows "int (length (sr_events res)) \<le> (if limit0 \<le> 0 then 100 else limit0) \<and>
    (\<exists>me. user_addr (tabs s) userID me \<and> (\<forall>e \<in> set (sr_events res).
      (\<exists>m \<in> set (tb_msgs (tabs s)). se_EventID e = m_event_id m \<and> se_Sender e = m_sender m \<and> se_Recipient e = m_recipient m)
      \<and> (se_Sender e = me \<or> se_Recipient e = me \<or> (\<exists>r. member (tabs s) r userID \<and> se_Recipient e = addr r))))"
  using assms
proof (rule Sync_InrE)
  fix me addrs rows e s2 s3
  let ?l = "if limit0 \<le> 0 then 100 else limit0"
  assume me: "user_addr (tabs s) userID me" and addrs: "set addrs \<subseteq> {addr r | r. member (tabs s) r userID}"
    and t2: "tabs s2 = tabs s"
    and q: "run_state (query (sync_rows E (me # addrs) me since (wrap64 (?l + 1)))) s2 = (Inr (rows, e), s3)"
    and fin: "run_state (sync_finish E userID dev me since ?l rows) s3 = (res, s')"
  have l: "0 < ?l" by simp
  have "int (length (sr_events res)) \<le> ?l"
    using sync_finish_events [OF fin l] l by (simp add: Let_def)
  moreover have "(\<exists>m \<in> set (tb_msgs (tabs s)). se_EventID ev = m_event_id m \<and> se_Sender ev = m_sender m \<and> se_Recipient ev = m_recipient m)
      \<and> (se_Sender ev = me \<or> se_Recipient ev = me \<or> (\<exists>r. member (tabs s) r userID \<and> se_Recipient ev = addr r))"
    if "ev \<in> set (sr_events res)" for ev
  proof -
    from sync_finish_subset [OF fin l that] obtain m where m: "m \<in> set rows" "ev = sync_event_of me (uuid_str E dev) m"
      by blast
    then have "m \<in> set (sync_rows E (me # addrs) me since (wrap64 (?l + 1)) (tabs s))"
      using query_InrD [OF q] t2 by (auto dest: in_set_takeD)
    from sync_rows_visible [OF this] m(2) addrs show ?thesis by auto
  qed
  ultimately show ?thesis using me by blast
qed

end

text \<open>A page without faults: the rows the query defines, cut at the limit.\<close>

lemma nth_take_last: "xs \<noteq> [] \<Longrightarrow> 0 < n \<Longrightarrow> last (take n (take (Suc n) xs)) = last (take n xs)"
  by (simp add: min_def)

definition visible_msgs :: "string list \<Rightarrow> string \<Rightarrow> tables \<Rightarrow> msg_row list" where
  "visible_msgs recipients me t = filter (\<lambda>m. m_recipient m \<in> set recipients \<or> m_sender m = me) (tb_msgs t)"

lemma sync_rows_since:
  assumes "since \<noteq> ''''" and "pg_time E since = Some c" and "0 < limit" and "limit < 2 ^ 63 - 1"
  shows "sync_rows E recipients me since (wrap64 (limit + 1)) t = take (Suc (nat limit)) (sort_key m_created
    (filter (\<lambda>m. m_status m = ''queued'' \<and> m_created m > c) (visible_msgs recipients me t)))"
proof -
  have "wrap64 (limit + 1) = limit + 1" using assms(3,4) by (intro wrap64_id) (simp add: int64_def)
  moreover have "nat (limit + 1) = Suc (nat limit)" using assms(3) by simp
  ultimately show ?thesis using assms(1,2) by (simp add: sync_rows_def visible_msgs_def)
qed

lemma sync_rows_first:
  assumes "0 < limit" and "limit < 2 ^ 63 - 1"
  shows "sync_rows E recipients me '''' (wrap64 (limit + 1)) t
    = take (Suc (nat limit)) (sort_key (\<lambda>m. - m_created m) (visible_msgs recipients me t))"
proof -
  have "wrap64 (limit + 1) = limit + 1" using assms by (intro wrap64_id) (simp add: int64_def)
  moreover have "nat (limit + 1) = Suc (nat limit)" using assms(1) by simp
  ultimately show ?thesis by (simp add: sync_rows_def visible_msgs_def)
qed

text \<open>In a sorted list, what is not among the first \<open>n\<close> is not below any of them.\<close>

lemma sorted_take_ge:
  assumes "sorted (map f xs)" and "x \<in> set xs" and "x \<notin> set (take n xs)" and "y \<in> set (take n xs)"
  shows "f y \<le> f x"
proof -
  have "x \<in> set (drop n xs)" using assms(2,3) by (metis UnE append_take_drop_id set_append)
  moreover have "sorted (map f (take n xs) @ map f (drop n xs))"
    using assms(1) by (metis append_take_drop_id map_append)
  ultimately show ?thesis using assms(4) by (auto simp: sorted_append)
qed

context room_checker
begin

lemma Sync_run:
  assumes "faults s = []" and "good (tabs s)" and "0 < limit" and "limit < 2 ^ 63 - 1"
    and "run_state (Sync E (S d) userID dev since limit) s = (Inr res, s')"
  obtains me addrs where "user_addr (tabs s) userID me"
    and "set addrs = {addr r | r. member (tabs s) r userID}"
    and "run_state (sync_finish E userID dev me since limit
           (sync_rows E (me # addrs) me since (wrap64 (limit + 1)) (tabs s))) s = (res, s')"
proof -
  let ?q = "query_row (\<lambda>t. map (\<lambda>u. (u_username u, u_domain u)) (filter (\<lambda>u. u_id u = userID) (tb_users t)))"
  from assms(5) obtain un dm s1 where q: "run_state ?q s = (Inr (un, dm), s1)"
    by (auto simp: Sync_def Let_def split: prod.splits sum.splits)
  with assms(1) have "s1 = s" by (auto simp: sql_simps)
  let ?me = "''@'' @ un @ '':'' @ dm"
  obtain xs where xs: "run_state (ck_GetRoomAddrsForUser C userID) s = (Inr xs, s)"
    "set xs = {addr r | r. member (tabs s) r userID}" using addrs_total [OF assms(1,2)] by blast
  then have "run_state (sync_addrs (S d) userID) s = (xs, s)" by (simp add: sync_addrs_def)
  then have "run_state (sync_finish E userID dev ?me since limit
           (sync_rows E (?me # xs) ?me since (wrap64 (limit + 1)) (tabs s))) s = (res, s')"
    using assms q \<open>s1 = s\<close> by (auto simp: Sync_def Let_def sql_simps split: prod.splits)
  moreover have "user_addr (tabs s) userID ?me"
    using query_row_InrD [OF q] by (auto simp: user_addr_def map_eq_Cons_conv filter_eq_Cons_iff)
  ultimately show thesis using that xs(2) by blast
qed

lemma Sync_total:
  assumes "faults s = []" and "good (tabs s)" and "\<exists>u \<in> set (tb_users (tabs s)). u_id u = userID"
  shows "\<exists>res s'. run_state (Sync E (S d) userID dev since limit) s = (Inr res, s')"
proof -
  let ?q = "map (\<lambda>u. (u_username u, u_domain u)) (filter (\<lambda>u. u_id u = userID) (tb_users (tabs s)))"
  obtain un dm rest where q: "?q = (un, dm) # rest"
    using assms(3) by (cases ?q) (auto simp: filter_empty_conv)
  obtain xs where "run_state (ck_GetRoomAddrsForUser C userID) s = (Inr xs, s)" using addrs_total [OF assms(1,2)] by blast
  then have "run_state (sync_addrs (S d) userID) s = (xs, s)" by (simp add: sync_addrs_def)
  with q assms(1) show ?thesis by (auto simp: Sync_def Let_def sql_simps split: prod.splits)
qed

lemma Sync_no_gap:
  assumes f: "faults s = []" and g: "good (tabs s)" and l: "0 < limit" "limit < 2 ^ 63 - 1"
    and r: "run_state (Sync E (S d) userID dev since limit) s = (Inr res, s')"
    and c: "since \<noteq> ''''" "pg_time E since = Some c"
    and m: "m \<in> set (tb_msgs (tabs s))" "m_status m = ''queued''" "c < m_created m"
      "\<exists>x. member (tabs s) x userID \<and> m_recipient m = addr x"
  shows "(\<exists>e \<in> set (sr_events res). se_EventID e = m_event_id m) \<or>
    (length (sr_events res) = nat limit \<and> (\<exists>p. c < p \<and> p \<le> m_created m \<and> sr_next res = fmt_nano E p))"
proof -
  from Sync_run [OF f g l r] obtain me addrs where addrs: "set addrs = {addr r | r. member (tabs s) r userID}"
    and fin: "run_state (sync_finish E userID dev me since limit
           (sync_rows E (me # addrs) me since (wrap64 (limit + 1)) (tabs s))) s = (res, s')" .
  define V where "V = sort_key m_created (filter (\<lambda>m. m_status m = ''queued'' \<and> m_created m > c)
    (visible_msgs (me # addrs) me (tabs s)))"
  let ?n = "nat limit"
  have n: "0 < ?n" using l(1) by simp
  have fin': "run_state (sync_finish E userID dev me since limit (take (Suc ?n) V)) s = (res, s')"
    using fin by (simp only: sync_rows_since [OF c l] V_def)
  have ev: "sr_events res = map (sync_event_of me (uuid_str E dev)) (take ?n V)"
    using sync_finish_events [OF fin' l(1)] c(1) by (simp add: take_map [symmetric] min_def)
  have mV: "m \<in> set V" using m addrs by (auto simp: V_def visible_msgs_def)
  show ?thesis
  proof (cases "m \<in> set (take ?n V)")
    case True
    then show ?thesis using ev by auto
  next
    case False
    then have len: "?n < length V" using mV by (metis linorder_not_less take_all)
    have ne: "take (Suc ?n) V \<noteq> []" using mV by auto
    let ?y = "last (take ?n V)"
    have y: "?y \<in> set (take ?n V)" using n mV by (intro last_in_set) auto
    have "sr_next res = fmt_nano E (m_created ?y)"
      using sync_finish_next [OF fin' l(1) ne] by (simp add: min_def)
    moreover have "sorted (map m_created V)" by (simp add: V_def)
    then have "m_created ?y \<le> m_created m" using mV False y by (rule sorted_take_ge)
    moreover have "c < m_created ?y" using in_set_takeD [OF y] by (simp add: V_def)
    ultimately show ?thesis using ev len by auto
  qed
qed

lemma Sync_first_page:
  assumes f: "faults s = []" and g: "good (tabs s)" and l: "0 < limit" "limit < 2 ^ 63 - 1"
    and r: "run_state (Sync E (S d) userID dev '''' limit) s = (Inr res, s')"
    and d: "distinct (map m_event_id (tb_msgs (tabs s)))"
    and m: "m \<in> set (tb_msgs (tabs s))" "\<exists>x. member (tabs s) x userID \<and> m_recipient m = addr x"
    and newest: "\<forall>m' \<in> set (tb_msgs (tabs s)). m' = m \<or> m_created m' < m_created m"
    and many: "nat limit < length (filter (\<lambda>m. \<exists>x. member (tabs s) x userID \<and> m_recipient m = addr x) (tb_msgs (tabs s)))"
  shows "m_event_id m \<notin> se_EventID ` set (sr_events res)"
proof -
  from Sync_run [OF f g l r] obtain me addrs where addrs: "set addrs = {addr r | r. member (tabs s) r userID}"
    and fin: "run_state (sync_finish E userID dev me '''' limit
           (sync_rows E (me # addrs) me '''' (wrap64 (limit + 1)) (tabs s))) s = (res, s')" .
  define V where "V = sort_key (\<lambda>m. - m_created m) (visible_msgs (me # addrs) me (tabs s))"
  let ?n = "nat limit"
  have fin': "run_state (sync_finish E userID dev me '''' limit (take (Suc ?n) V)) s = (res, s')"
    using fin by (simp only: sync_rows_first [OF l] V_def)
  have ev: "sr_events res = map (sync_event_of me (uuid_str E dev)) (take ?n (rev (take (Suc ?n) V)))"
    using sync_finish_events [OF fin' l(1)] by (simp add: rev_map take_map)
  have mV: "m \<in> set V" using m addrs by (auto simp: V_def visible_msgs_def)
  have "length (filter (\<lambda>m. \<exists>x. member (tabs s) x userID \<and> m_recipient m = addr x) (tb_msgs (tabs s)))
      \<le> length (visible_msgs (me # addrs) me (tabs s))"
    unfolding visible_msgs_def using addrs by (intro length_filter_mono) auto
  then have len: "?n < length V" using many by (simp add: V_def)
  then obtain v vs where V: "V = v # vs" by (cases V) auto
  have "sorted (map (\<lambda>m. - m_created m) V)" by (simp add: V_def)
  then have "\<forall>x \<in> set V. m_created x \<le> m_created v" by (auto simp: V)
  then have "m_created m \<le> m_created v" using mV by blast
  moreover have "v \<in> set (tb_msgs (tabs s))" using V by (metis V_def visible_msgs_def
      filter_is_subset list.set_intros(1) set_sort subsetD)
  ultimately have "v = m" using newest by fastforce
  have "distinct (map m_event_id V)"
    using d by (simp add: V_def visible_msgs_def distinct_map distinct_filter inj_on_def)
  then have "m_event_id m \<notin> m_event_id ` set vs" using V \<open>v = m\<close> by simp
  moreover have "take ?n (rev (take (Suc ?n) V)) = rev (take ?n vs)"
    using len V by simp
  ultimately show ?thesis using ev by (auto dest: in_set_takeD)
qed

end

section \<open>Lemmas on read receipts\<close>

definition may_read :: "(tables \<Rightarrow> uuid \<Rightarrow> int \<Rightarrow> bool) \<Rightarrow> env \<Rightarrow> string \<Rightarrow> int \<Rightarrow> string \<Rightarrow> tables \<Rightarrow> bool" where
  "may_read mem E reader userID recipient t \<longleftrightarrow>
     (if IsRoomAddr recipient
      then (\<exists>roomID d rid. ParseRoomAddr recipient = Some (roomID, d) \<and> uuid_parse E roomID = Some rid \<and> mem t rid userID)
      else recipient = reader)"

text \<open>
  What the loop of \<open>MarkRead\<close> keeps: only receipts are written, each by this reader for a
  message he may read, and each notification answers such a message.
\<close>

definition readable :: "(tables \<Rightarrow> uuid \<Rightarrow> int \<Rightarrow> bool) \<Rightarrow> env \<Rightarrow> string \<Rightarrow> int \<Rightarrow> tables \<Rightarrow> string \<Rightarrow> string \<Rightarrow> bool" where
  "readable mem E reader userID t sender eid \<longleftrightarrow> (\<exists>m \<in> set (tb_msgs t). m_event_id m = eid \<and> m_sender m = sender
     \<and> may_read mem E reader userID (m_recipient m) t)"

definition read_inv :: "(tables \<Rightarrow> uuid \<Rightarrow> int \<Rightarrow> bool) \<Rightarrow> env \<Rightarrow> string \<Rightarrow> int \<Rightarrow> tables
    \<Rightarrow> (string \<times> string) list \<Rightarrow> tables \<Rightarrow> bool" where
  "read_inv mem E reader userID t0 acc t \<longleftrightarrow>
     t\<lparr>tb_receipts := []\<rparr> = t0\<lparr>tb_receipts := []\<rparr>
     \<and> (\<forall>r \<in> set (tb_receipts t) - set (tb_receipts t0). rr_reader r = reader
          \<and> (\<exists>sender. readable mem E reader userID t0 sender (rr_event r)))
     \<and> (\<forall>(sender, eid) \<in> set acc. readable mem E reader userID t0 sender eid)"

context room_checker
begin

lemma can_read_tabs: "run_state (can_read E (S d) reader u recipient) s = (b, s') \<Longrightarrow> tabs s' = tabs s"
  by (auto simp: can_read_def split: if_splits option.splits prod.splits dest!: IsMember_tabs)

lemma can_read_sound:
  "run_state (can_read E (S d) reader u recipient) s = (True, s') \<Longrightarrow> may_read member E reader u recipient (tabs s)"
  by (auto simp: can_read_def may_read_def split: if_splits option.splits prod.splits dest!: IsMember_sound)

lemma read_query_readable:
  assumes mem: "\<And>t t'. t\<lparr>tb_receipts := []\<rparr> = t'\<lparr>tb_receipts := []\<rparr> \<Longrightarrow> member t = member t'"
    and inv: "read_inv member E reader u t0 acc (tabs s)"
    and q: "run_state (query_row (\<lambda>t. map (\<lambda>m. (m_sender m, m_recipient m)) (filter (\<lambda>m. m_event_id m = eid) (tb_msgs t)))) s = (Inr (sender, recipient), s1)"
    and ok: "run_state (can_read E (S d) reader u recipient) s1 = (True, s2)"
  shows "readable member E reader u t0 sender eid"
proof -
  have same: "(tabs s)\<lparr>tb_receipts := []\<rparr> = t0\<lparr>tb_receipts := []\<rparr>" using inv by (simp add: read_inv_def)
  have msgs: "tb_msgs (tabs s) = tb_msgs t0" using arg_cong [OF same, of tb_msgs] by simp
  from query_row_InrD [OF q] have
    "(sender, recipient) \<in> set (map (\<lambda>m. (m_sender m, m_recipient m)) (filter (\<lambda>m. m_event_id m = eid) (tb_msgs (tabs s))))"
    by (metis list.set_intros(1))
  then obtain m where "m \<in> set (tb_msgs t0)" "m_event_id m = eid" "m_sender m = sender" "m_recipient m = recipient" using msgs by auto
  moreover have "may_read member E reader u recipient t0"
    using can_read_sound [of E d reader u recipient s1 s2] ok query_row_tabs [OF q] mem [OF same]
    by (auto simp: may_read_def split: if_splits)
  ultimately show ?thesis by (auto simp: readable_def)
qed

lemma read_one_inv:
  assumes mem: "\<And>t t'. t\<lparr>tb_receipts := []\<rparr> = t'\<lparr>tb_receipts := []\<rparr> \<Longrightarrow> member t = member t'"
    and inv: "read_inv member E reader u t0 acc (tabs s)"
    and r: "run_state (read_one E (S d) reader u acc eid) s = (acc', s')"
  shows "read_inv member E reader u t0 acc' (tabs s')"
proof (cases "eid = ''''")
  case True
  with inv r show ?thesis by (simp add: read_one_def)
next
  case False
  let ?q = "query_row (\<lambda>t. map (\<lambda>m. (m_sender m, m_recipient m)) (filter (\<lambda>m. m_event_id m = eid) (tb_msgs t)))"
  obtain q s1 where q: "run_state ?q s = (q, s1)" by fastforce
  note t1 = query_row_tabs [OF q]
  show ?thesis
  proof (cases q)
    case (Inl e)
    with q t1 inv r False show ?thesis by (simp add: read_one_def)
  next
    case (Inr sr)
    obtain sender recipient where sr: "sr = (sender, recipient)" by fastforce
    obtain ok s2 where ok: "run_state (can_read E (S d) reader u recipient) s1 = (ok, s2)" by fastforce
    note t2 = can_read_tabs [OF ok]
    obtain x s3 where x: "run_state (stmt (ins_receipt eid reader)) s2 = (x, s3)" by fastforce
    show ?thesis
    proof (cases ok)
      case False
      with q t1 t2 Inr sr ok inv r \<open>eid \<noteq> ''''\<close> show ?thesis by (simp add: read_one_def)
    next
      case True
      have "s' = s3" "acc' = (case x of Inl _ \<Rightarrow> acc | Inr _ \<Rightarrow> acc @ [(sender, eid)])"
        using q Inr sr ok x r True \<open>eid \<noteq> ''''\<close> by (simp_all add: read_one_def)
      have "tabs s2 = tabs s" using t1 t2 by simp
      then have "tabs s3 = tabs s \<or> tabs s3 = snd (ins_receipt eid reader (tabs s))" using stmt_tabs [OF x] by simp
      then have rec: "tabs s3 = tabs s \<or>
          tabs s3 = (tabs s)\<lparr>tb_receipts := tb_receipts (tabs s) @ [\<lparr> rr_event = eid, rr_reader = reader \<rparr>]\<rparr>"
        by (auto simp: ins_receipt_def)
      have "readable member E reader u t0 sender eid" using read_query_readable [OF mem inv q [unfolded Inr sr]] ok True by simp
      with rec inv \<open>s' = s3\<close> \<open>acc' = _\<close> show ?thesis
        by (cases x) (auto simp: read_inv_def split: prod.splits, (rule exI, assumption)+)
    qed
  qed
qed

lemma MarkRead_inv:
  assumes mem: "\<And>t t'. t\<lparr>tb_receipts := []\<rparr> = t'\<lparr>tb_receipts := []\<rparr> \<Longrightarrow> member t = member t'"
    and r: "run_state (MarkRead E (S d) reader u eids) s = (acc, s')"
  shows "read_inv member E reader u (tabs s) acc (tabs s')"
proof (rule mfold_prefix [where J = "\<lambda>pre acc s'. read_inv member E reader u (tabs s) acc (tabs s')"])
  show "run_state (mfold (read_one E (S d) reader u) [] eids) s = (acc, s')" using r by (simp add: MarkRead_def)
  show "read_inv member E reader u (tabs s) [] (tabs s)" by (simp add: read_inv_def)
qed (rule read_one_inv [OF mem])

end

section \<open>Properties\<close>

text \<open>The relay as \<open>main.go\<close> builds it: the room service behind the interface.\<close>

definition relay_service :: "env \<Rightarrow> string \<Rightarrow> rooms_err relay" where
  "relay_service E domain = \<lparr> rl_domain = domain, rl_rooms = Some (room_service E domain) \<rparr>"

lemma relay_InrD:
  "run_state (send_rest E (relay_service E d) inp eid) s = (Inr x, s') \<Longrightarrow>
    gates_ok is_member E d (unix (go_now s)) inp (tabs s)"
  unfolding relay_service_def by (rule rooms_checker.send_rest_InrD)

lemma relay_run:
  "faults s = [] \<Longrightarrow> gates_ok is_member E d (unix (go_now s)) inp (tabs s) \<Longrightarrow>
    run_state (send_rest E (relay_service E d) inp eid) s =
    (case (if si_IdempotencyKey inp = '''' then None else key_event E (si_IdempotencyKey inp) (tabs s)) of
       Some e \<Rightarrow> (Inr e, s) | None \<Rightarrow> run_state (enqueue E inp eid) s)"
  unfolding relay_service_def by (rule rooms_checker.run_send_rest)

lemma relay_refused:
  "faults s = [] \<Longrightarrow> \<not> gates_ok is_member E d (unix (go_now s)) inp (tabs s) \<Longrightarrow>
    \<exists>e. run_state (send_rest E (relay_service E d) inp eid) s = (Inl e, s)"
  unfolding relay_service_def by (rule rooms_checker.send_rest_refused)

definition demo_msg :: "string \<Rightarrow> string \<Rightarrow> int \<Rightarrow> send_input" where
  "demo_msg recipient key sender = \<lparr> si_EventID = ''e1'', si_Sender = ''@bob:a.org'', si_Recipient = recipient,
     si_SenderUserID = sender, si_SenderDevice = ''d'', si_Ciphertext = Some ''x'', si_Ciphertexts = [],
     si_SessionID = ''s'', si_Timestamp = 1700000000, si_IdempotencyKey = key \<rparr>"

lemmas send_eval = relay_service_def demo_msg_def Send_def send_rest_def check_recipient_def seen_key_def enqueue_def
  sql_simps demo_defs unix_def replayWindowSec_def futureToleranceSec_def extractDomain_def IsRoomAddr_def
  recipient_name_def local_user_def ins_msg_def ins_idem_def Let_def

lemma demo_name: "recipient_name ''@cat:a.org'' = ''cat''"
  by code_simp

lemma demo_send: "\<exists>s'. run_state (Send demo_env (relay_service demo_env ''a.org'') (demo_msg ''@cat:a.org'' ''k'' 2))
    (session_on demo_rooms []) = (Inr ''e1'', s') \<and> faults s' = []"
proof -
  have "extractDomain ''@cat:a.org'' = ''a.org''" by code_simp
  moreover have "local_user demo_env ''a.org'' ''cat'' demo_rooms"
    by (simp add: local_user_def demo_defs demo_env_def ascii_lower_def)
  moreover have "tb_msgs demo_rooms = []" "tb_idem demo_rooms = []" by (simp_all add: demo_defs)
  ultimately show ?thesis
    by (simp add: Send_def send_rest_def check_recipient_def seen_key_def enqueue_def relay_service_def demo_msg_def
        sql_simps session_on_def demo_name IsRoomAddr_def unix_def replayWindowSec_def futureToleranceSec_def
        ins_msg_def ins_idem_def)
qed



text \<open>A message sent under an idempotency key is enqueued once. Sending again under the
  same key, with whatever sender, recipient and content and at whatever time, changes no
  table; if the second message passes the gates it is answered with the event id of the
  first.\<close>

theorem Send_once:
  assumes "faults s = []" and "si_IdempotencyKey inp \<noteq> ''''" and "si_IdempotencyKey inp' = si_IdempotencyKey inp"
    and "run_state (Send E (relay_service E d) inp) s = (Inr eid, s1)"
    and "tabs s2 = tabs s1" and "faults s2 = []"
    and "run_state (Send E (relay_service E d) inp') s2 = (r, s3)"
  shows "tabs s3 = tabs s1 \<and>
    (if gates_ok is_member E d (unix (go_now s2)) inp' (tabs s1) then r = Inr eid else \<exists>e. r = Inl e)"
proof -
  let ?key = "si_IdempotencyKey inp"
  let ?id = "fresh_id E inp s" and ?a = "after_id inp s"
  have r: "run_state (send_rest E (relay_service E d) inp ?id) ?a = (Inr eid, s1)"
    using assms(4) by (simp add: run_Send)
  have run: "run_state (send_rest E (relay_service E d) inp ?id) ?a =
      (case key_event E ?key (tabs s) of Some e \<Rightarrow> (Inr e, ?a) | None \<Rightarrow> run_state (enqueue E inp ?id) ?a)"
    using relay_run [of ?a E d inp ?id] relay_InrD [OF r] assms(1,2) by simp
  have key: "key_event E ?key (tabs s1) = Some eid"
  proof (cases "key_event E ?key (tabs s)")
    case None
    with r run have q: "run_state (enqueue E inp ?id) ?a = (Inr eid, s1)" by simp
    from enqueue_key [OF q] enqueue_tabs [OF q] assms(1,2) None show ?thesis by simp
  next
    case (Some e)
    with r run show ?thesis by auto
  qed
  let ?a' = "after_id inp' s2"
  show ?thesis
  proof (cases "gates_ok is_member E d (unix (go_now s2)) inp' (tabs s1)")
    case True
    with relay_run [of ?a' E d inp' "fresh_id E inp' s2"] key assms(2,3,5-7) show ?thesis
      by (auto simp: run_Send)
  next
    case False
    with relay_refused [of ?a' E d inp' "fresh_id E inp' s2"] assms(5-7) show ?thesis
      by (auto simp: run_Send)
  qed
qed

theorem Send_once_witness:
  "\<exists>s1. run_state (Send demo_env (relay_service demo_env ''a.org'') (demo_msg ''@cat:a.org'' ''k'' 2))
      (session_on demo_rooms []) = (Inr ''e1'', s1) \<and>
    tabs (snd (run_state (Send demo_env (relay_service demo_env ''a.org'') (demo_msg ''@ann:a.org'' ''k'' 3)) s1)) = tabs s1"
proof -
  from demo_send obtain s1 where s1: "run_state (Send demo_env (relay_service demo_env ''a.org'') (demo_msg ''@cat:a.org'' ''k'' 2))
    (session_on demo_rooms []) = (Inr ''e1'', s1)" "faults s1 = []" by blast
  from Send_once [OF _ _ _ s1(1) refl s1(2), of "demo_msg ''@ann:a.org'' ''k'' 3"] s1(1) show ?thesis
    by (auto simp: demo_msg_def session_on_def prod_eq_iff)
qed

text \<open>C17: what a user fetches is his own: under any fault schedule every event of a page is a
  stored message that he sent, that is addressed to him, or that is addressed to a room he
  is a member of; and a page never exceeds the limit (100 when none is given).\<close>

theorem Sync_only_own:
  assumes "run_state (Sync E (relay_service E d) userID dev since limit0) s = (Inr res, s')"
  shows "int (length (sr_events res)) \<le> (if limit0 \<le> 0 then 100 else limit0) \<and>
    (\<exists>me. user_addr (tabs s) userID me \<and> (\<forall>e \<in> set (sr_events res).
      (\<exists>m \<in> set (tb_msgs (tabs s)). se_EventID e = m_event_id m \<and> se_Sender e = m_sender m \<and> se_Recipient e = m_recipient m)
      \<and> (se_Sender e = me \<or> se_Recipient e = me
         \<or> (\<exists>r. is_member (tabs s) r userID \<and> se_Recipient e = RoomAddr E r d))))"
  using assms unfolding relay_service_def by (rule rooms_checker.Sync_confidential)

definition demo_row :: "string \<Rightarrow> string \<Rightarrow> string \<Rightarrow> int \<Rightarrow> msg_row" where
  "demo_row eid sender recipient created = \<lparr> m_event_id = eid, m_sender = sender, m_recipient = recipient,
     m_sender_device = ''d'', m_type = ''m.room.encrypted'', m_ciphertext = ''x'', m_ciphertexts = None,
     m_session = ''s'', m_timestamp = 1700000000, m_status = ''queued'', m_expires = 0, m_created = created \<rparr>"

text \<open>Two messages to room 9, of which users 1, 2 and 3 are members.\<close>

definition demo_queue :: tables where
  "demo_queue = demo_rooms\<lparr>tb_msgs :=
     [demo_row ''e1'' ''@bob:a.org'' ''!9:a.org'' 10, demo_row ''e2'' ''@bob:a.org'' ''!9:a.org'' 20]\<rparr>"

lemma demo_addr [simp]: "RoomAddr demo_env 9 ''a.org'' = ''!9:a.org''" "uuid_str demo_env 7 = ''7''"
  by code_simp+

lemma demo_queue_simps [simp]: "rooms_inv demo_queue" "is_member demo_queue 9 3" "is_member demo_queue 9 1"
  "distinct (map m_event_id (tb_msgs demo_queue))"
  by (simp_all add: rooms_inv_def is_member_iff member_of_def demo_queue_def demo_defs demo_row_def)

lemma demo_sync:
  obtains res s' where
    "run_state (Sync demo_env (relay_service demo_env ''a.org'') 3 7 since 1) (session_on demo_queue []) = (Inr res, s')"
proof -
  have "\<exists>u \<in> set (tb_users demo_queue). u_id u = 3" by (simp add: demo_queue_def demo_defs)
  then show thesis
    using that rooms_checker.Sync_total [of "session_on demo_queue []" 3] by (fastforce simp: relay_service_def session_on_def)
qed

lemma demo_e2:
  "demo_row ''e2'' ''@bob:a.org'' ''!9:a.org'' 20 \<in> set (tb_msgs demo_queue)"
  "\<exists>x. is_member demo_queue x 3 \<and> m_recipient (demo_row ''e2'' ''@bob:a.org'' ''!9:a.org'' 20) = RoomAddr demo_env x ''a.org''"
  "\<forall>m' \<in> set (tb_msgs demo_queue). m' = demo_row ''e2'' ''@bob:a.org'' ''!9:a.org'' 20
     \<or> m_created m' < m_created (demo_row ''e2'' ''@bob:a.org'' ''!9:a.org'' 20)"
  "nat 1 < length (filter (\<lambda>m. \<exists>x. is_member demo_queue x 3 \<and> m_recipient m = RoomAddr demo_env x ''a.org'') (tb_msgs demo_queue))"
proof -
  have mem: "\<exists>x. is_member demo_queue x 3 \<and> ''!9:a.org'' = RoomAddr demo_env x ''a.org''"
    using demo_queue_simps(2) demo_addr(1) by metis
  have q: "tb_msgs demo_queue =
     [demo_row ''e1'' ''@bob:a.org'' ''!9:a.org'' 10, demo_row ''e2'' ''@bob:a.org'' ''!9:a.org'' 20]"
    by (simp add: demo_queue_def)
  show "demo_row ''e2'' ''@bob:a.org'' ''!9:a.org'' 20 \<in> set (tb_msgs demo_queue)" by (simp add: q)
  show "\<exists>x. is_member demo_queue x 3 \<and> m_recipient (demo_row ''e2'' ''@bob:a.org'' ''!9:a.org'' 20) = RoomAddr demo_env x ''a.org''"
    using mem by (simp add: demo_row_def)
  show "\<forall>m' \<in> set (tb_msgs demo_queue). m' = demo_row ''e2'' ''@bob:a.org'' ''!9:a.org'' 20
     \<or> m_created m' < m_created (demo_row ''e2'' ''@bob:a.org'' ''!9:a.org'' 20)" by (simp add: q demo_row_def)
  show "nat 1 < length (filter (\<lambda>m. \<exists>x. is_member demo_queue x 3 \<and> m_recipient m = RoomAddr demo_env x ''a.org'') (tb_msgs demo_queue))"
    using mem by (simp add: q demo_row_def)
qed

theorem Sync_only_own_witness:
  "\<exists>res s'. run_state (Sync demo_env (relay_service demo_env ''a.org'') 3 7 '''' 1) (session_on demo_queue []) = (Inr res, s')
    \<and> length (sr_events res) \<le> 1"
proof -
  obtain res s' where r: "run_state (Sync demo_env (relay_service demo_env ''a.org'') 3 7 '''' 1) (session_on demo_queue []) = (Inr res, s')"
    by (rule demo_sync)
  from Sync_only_own [OF r] r show ?thesis by auto
qed

text \<open>Paging forward loses nothing: with a cursor, a queued message to one of the user's
  rooms that is newer than the cursor is either in the page or not older than the page's new
  cursor, so that a later page reaches it; the second case only arises when the page is full.\<close>

theorem Sync_pages_forward:
  assumes "faults s = []" and "rooms_inv (tabs s)" and "0 < limit" and "limit < 2 ^ 63 - 1"
    and "run_state (Sync E (relay_service E d) userID dev since limit) s = (Inr res, s')"
    and "since \<noteq> ''''" and "pg_time E since = Some c"
    and "m \<in> set (tb_msgs (tabs s))" and "m_status m = ''queued''" and "c < m_created m"
    and "\<exists>x. is_member (tabs s) x userID \<and> m_recipient m = RoomAddr E x d"
  shows "(\<exists>e \<in> set (sr_events res). se_EventID e = m_event_id m) \<or>
    (length (sr_events res) = nat limit \<and> (\<exists>p. c < p \<and> p \<le> m_created m \<and> sr_next res = fmt_nano E p))"
  using assms unfolding relay_service_def by (rule rooms_checker.Sync_no_gap)

theorem Sync_pages_forward_witness:
  "\<exists>res s'. run_state (Sync demo_env (relay_service demo_env ''a.org'') 3 7 ''5'' 1) (session_on demo_queue []) = (Inr res, s')
    \<and> ((\<exists>e \<in> set (sr_events res). se_EventID e = ''e2'') \<or> length (sr_events res) = 1)"
proof -
  let ?m = "demo_row ''e2'' ''@bob:a.org'' ''!9:a.org'' 20"
  obtain res s' where r: "run_state (Sync demo_env (relay_service demo_env ''a.org'') 3 7 ''5'' 1) (session_on demo_queue []) = (Inr res, s')"
    by (rule demo_sync)
  have s: "faults (session_on demo_queue []) = []" "tabs (session_on demo_queue []) = demo_queue" by (simp_all add: session_on_def)
  have "Itoa 5 = ''5''" by code_simp
  then have "pg_time demo_env ''5'' = Some 5" using ParseInt_Itoa [of 5] by (simp add: demo_env_def int64_def)
  moreover have "m_status ?m = ''queued''" "5 < m_created ?m" "m_event_id ?m = ''e2''" by (simp_all add: demo_row_def)
  ultimately have "(\<exists>e \<in> set (sr_events res). se_EventID e = ''e2'') \<or> length (sr_events res) = 1"
    using Sync_pages_forward [OF s(1) _ _ _ r, of 5 ?m, unfolded s(2)] demo_e2(1,2) by force
  with r show ?thesis by blast
qed

text \<open>The first page drops the newest message: with no cursor and more messages in the
  user's rooms than the limit, the newest one is not in the page, since the fetched rows are
  reversed before they are cut.\<close>

theorem Sync_first_page_drops_newest:
  assumes "faults s = []" and "rooms_inv (tabs s)" and "0 < limit" and "limit < 2 ^ 63 - 1"
    and "run_state (Sync E (relay_service E d) userID dev '''' limit) s = (Inr res, s')"
    and "distinct (map m_event_id (tb_msgs (tabs s)))"
    and "m \<in> set (tb_msgs (tabs s))" and "\<exists>x. is_member (tabs s) x userID \<and> m_recipient m = RoomAddr E x d"
    and "\<forall>m' \<in> set (tb_msgs (tabs s)). m' = m \<or> m_created m' < m_created m"
    and "nat limit < length (filter (\<lambda>m. \<exists>x. is_member (tabs s) x userID \<and> m_recipient m = RoomAddr E x d) (tb_msgs (tabs s)))"
  shows "m_event_id m \<notin> se_EventID ` set (sr_events res)"
  using assms unfolding relay_service_def by (rule rooms_checker.Sync_first_page)

theorem Sync_first_page_drops_newest_witness:
  "\<exists>res s'. run_state (Sync demo_env (relay_service demo_env ''a.org'') 3 7 '''' 1) (session_on demo_queue []) = (Inr res, s')
    \<and> ''e2'' \<notin> se_EventID ` set (sr_events res)"
proof -
  let ?m = "demo_row ''e2'' ''@bob:a.org'' ''!9:a.org'' 20"
  obtain res s' where r: "run_state (Sync demo_env (relay_service demo_env ''a.org'') 3 7 '''' 1) (session_on demo_queue []) = (Inr res, s')"
    by (rule demo_sync)
  have s: "faults (session_on demo_queue []) = []" "tabs (session_on demo_queue []) = demo_queue" by (simp_all add: session_on_def)
  have "m_event_id ?m \<notin> se_EventID ` set (sr_events res)"
    by (rule Sync_first_page_drops_newest [OF s(1) _ _ _ r, unfolded s(2),
          OF demo_queue_simps(1) _ _ demo_queue_simps(4) demo_e2]) simp_all
  with r show ?thesis by (auto simp: demo_row_def)
qed

text \<open>A federated batch is answered event by event: under any fault schedule each event is
  either accepted or rejected, everything accepted is in the queue, and what the batch adds
  to the queue are new messages of it with distinct ids, the old ones unchanged.\<close>

theorem AcceptTransaction_sound:
  assumes "run_state (AcceptTransaction events) s = ((accepted, rejected), s')"
  shows "mset accepted + mset rejected = mset (map fe_EventID events)
    \<and> set accepted \<subseteq> m_event_id ` set (tb_msgs (tabs s'))
    \<and> (\<exists>new. tb_msgs (tabs s') = tb_msgs (tabs s) @ new \<and> distinct (map m_event_id new)
         \<and> m_event_id ` set new \<inter> m_event_id ` set (tb_msgs (tabs s)) = {}
         \<and> (\<forall>m \<in> set new. \<exists>e \<in> set events. m_event_id m = fe_EventID e
              \<and> m_sender m = fe_Sender e \<and> m_recipient m = fe_Recipient e))"
  using AcceptTransaction_inv [OF assms] by (simp add: batch_inv_def)

definition demo_event :: "string \<Rightarrow> fed_event" where
  "demo_event eid = \<lparr> fe_EventID = eid, fe_Type = ''m.room.encrypted'', fe_Sender = ''@eve:b.org'',
     fe_Recipient = ''@ann:a.org'', fe_SenderDevice = ''d'', fe_Ciphertext = Some ''x'', fe_SessionID = ''s'',
     fe_Timestamp = 1700000000 \<rparr>"

theorem AcceptTransaction_sound_witness:
  "case run_state (AcceptTransaction [demo_event ''e7'', demo_event ''e1'']) (session_on demo_queue [Refused, LostAck]) of
     ((accepted, rejected), s') \<Rightarrow> mset accepted + mset rejected = {#''e7'', ''e1''#}"
  using AcceptTransaction_sound [of "[demo_event ''e7'', demo_event ''e1'']" "session_on demo_queue [Refused, LostAck]"]
  by (auto simp: demo_event_def split: prod.splits)

text \<open>Without faults a batch whose events carry a ciphertext is accepted completely, and
  a peer that repeats the batch, not having seen the answer, gets the same answer and
  nothing is stored twice.\<close>

theorem AcceptTransaction_idempotent:
  assumes "faults s = []" and "\<forall>e \<in> set events. fe_Ciphertext e \<noteq> None"
    and "run_state (AcceptTransaction events) s = (r, s')"
  shows "r = (map fe_EventID events, []) \<and> run_state (AcceptTransaction events) s' = (r, s')"
proof -
  let ?x = "(go_now s + defaultTTLDays * 24 * 3600 * 1000000000) div 1000"
  have run: "run_state (mfold (accept_event ?x) ([], []) events) s = (r, s')"
    using assms(3) by (simp add: AcceptTransaction_def sql_simps)
  with accept_event_ok [OF assms(1,2), of ?x "[]" "[]"] have r: "r = (map fe_EventID events, [])" "faults s' = []" by auto
  have "set (map fe_EventID events) \<subseteq> m_event_id ` set (tb_msgs (tabs s'))"
    using AcceptTransaction_inv [OF assms(3)] r(1) by (simp add: batch_inv_def)
  then have "\<forall>e \<in> set events. fe_EventID e \<in> m_event_id ` set (tb_msgs (tabs s'))" by auto
  from accept_event_known [OF r(2) this, of _ "[]" "[]"] r(1) show ?thesis
    by (simp add: AcceptTransaction_def sql_simps)
qed

theorem AcceptTransaction_idempotent_witness:
  "fst (run_state (AcceptTransaction [demo_event ''e7'', demo_event ''e1'']) (session_on demo_queue [])) = ([''e7'', ''e1''], [])"
  using AcceptTransaction_idempotent [of "session_on demo_queue []" "[demo_event ''e7'', demo_event ''e1'']"]
  by (simp add: demo_event_def session_on_def prod_eq_iff)

text \<open>Read receipts are authorised: under any fault schedule marking messages as read
  writes nothing but receipts in the reader's name, each for a message addressed to him or to
  a room he is a member of, and every sender notified is the sender of such a message.\<close>

theorem MarkRead_authorised:
  assumes "run_state (MarkRead E (relay_service E d) reader userID eids) s = (notify, s')"
  shows "read_inv is_member E reader userID (tabs s) notify (tabs s')"
proof -
  have "is_member t = is_member t'" if "t\<lparr>tb_receipts := []\<rparr> = t'\<lparr>tb_receipts := []\<rparr>" for t t'
    using arg_cong [OF that, of tb_members] by (intro ext) (simp add: is_member_iff)
  from rooms_checker.MarkRead_inv [OF this] assms show ?thesis by (simp add: relay_service_def)
qed

theorem MarkRead_authorised_witness:
  "case run_state (MarkRead demo_env (relay_service demo_env ''a.org'') ''@dan:a.org'' 4 [''e1'']) (session_on demo_queue []) of
     (notify, s') \<Rightarrow> read_inv is_member demo_env ''@dan:a.org'' 4 demo_queue notify (tabs s')"
  using MarkRead_authorised [of demo_env "''a.org''" "''@dan:a.org''" 4 "[''e1'']" "session_on demo_queue []"]
  by (auto simp: session_on_def split: prod.splits)

end
