(* ===== verification/Send_Races.thy ===== *)
theory Send_Races
  imports Relay "HOL-Library.Multiset"
begin

text \<open>
  Messages sent at the same time under idempotency keys (\<open>Send\<close> of
  \<open>src/server/internal/relay/relay.go\<close>). A send looks the key up, stores the message and records the
  key in three statements without a transaction, and ignores the error of the last.

  Shown: with a working database the messages stored under one key are at most as many as there
  are sends in flight at a time, so one key stores one message when sends do not overlap; two
  sends at a time store two, and so does one after the other when the last statement fails; and a
  run of \<open>Send\<close> is a run of the steps.
\<close>

section \<open>Sends in flight\<close>

text \<open>A send that found its key unused, and one that has stored its message.\<close>

datatype send = Looked bytes | Stored bytes string

primrec looked :: "bytes \<Rightarrow> send \<Rightarrow> bool" where
  "looked k (Looked h) \<longleftrightarrow> h = k"
| "looked k (Stored h eid) \<longleftrightarrow> False"

primrec stored :: "bytes \<Rightarrow> send \<Rightarrow> bool" where
  "stored k (Looked h) \<longleftrightarrow> False"
| "stored k (Stored h eid) \<longleftrightarrow> h = k"

definition holding :: "(send \<Rightarrow> bool) \<Rightarrow> send multiset \<Rightarrow> nat" where
  "holding P M = size (filter_mset P M)"

lemma holding_simps [simp]:
  "holding P {#} = 0" "holding P (add_mset x M) = (if P x then Suc (holding P M) else holding P M)"
  by (simp_all add: holding_def)

lemma looked_stored_le: "holding (looked k) M + holding (stored k) M \<le> size M"
proof (induction M)
  case (add x M)
  then show ?case by (cases x) auto
qed simp

text \<open>
  The tables, at most \<open>F\<close> sends in flight, and for every message stored the hash of its key.
  \<open>unrecorded\<close> is a last statement that fails, possible only when \<open>faulty\<close>.
\<close>

type_synonym sends = "tables \<times> send multiset \<times> bytes multiset"

inductive send_step :: "bool \<Rightarrow> nat \<Rightarrow> sends \<Rightarrow> sends \<Rightarrow> bool" for faulty F where
  look: "h \<notin> i_hash ` set (tb_idem t) \<Longrightarrow> size M < F \<Longrightarrow> send_step faulty F (t, M, g) (t, add_mset (Looked h) M, g)"
| store: "ins_msg eid sender recipient dev ct cts sid ts expires t = (Inr (), t')
    \<Longrightarrow> send_step faulty F (t, add_mset (Looked h) M, g) (t', add_mset (Stored h eid) M, add_mset h g)"
| refuse: "send_step faulty F (t, add_mset (Looked h) M, g) (t, M, g)"
| record_key: "send_step faulty F (t, add_mset (Stored h eid) M, g) (snd (ins_idem h eid t), M, g)"
| unrecorded: "faulty \<Longrightarrow> send_step faulty F (t, add_mset (Stored h eid) M, g) (t, M, g)"
| elsewhere: "tb_idem t' = tb_idem t \<Longrightarrow> send_step faulty F (t, M, g) (t', M, g)"

section \<open>Messages under one key\<close>

text \<open>As long as a key is not recorded, every message stored under it is of a send in flight.\<close>

definition keys_inv :: "nat \<Rightarrow> sends \<Rightarrow> bool" where
  "keys_inv F c \<longleftrightarrow> (case c of (t, M, g) \<Rightarrow> size M \<le> F \<and> (\<forall>h. count g h + holding (looked h) M \<le> F
     \<and> (h \<notin> i_hash ` set (tb_idem t) \<longrightarrow> count g h = holding (stored h) M)))"

lemma idem_ins_msg: "ins_msg eid sender recipient dev ct cts sid ts expires t = (r, t') \<Longrightarrow> tb_idem t' = tb_idem t"
  by (auto simp: ins_msg_def split: option.splits if_splits)

lemma idem_ins_idem: "i_hash ` set (tb_idem (snd (ins_idem h eid t))) = insert h (i_hash ` set (tb_idem t))"
  by (auto simp: ins_idem_def)

lemma keys_inv_step:
  assumes "send_step False F c c'" and "keys_inv F c"
  shows "keys_inv F c'"
  using assms
proof (induction rule: send_step.induct)
  case (look h t M g)
  have "count g h = holding (stored h) M" using look(1,3) by (simp add: keys_inv_def)
  then have "count g h + holding (looked h) (add_mset (Looked h) M) \<le> F" using looked_stored_le [of h M] look(2) by simp
  with look(2,3) show ?case by (simp add: keys_inv_def)
next
  case (store eid sender recipient dev ct cts sid ts expires t t' h M g)
  have "count (add_mset h g) k + holding (looked k) (add_mset (Stored h eid) M)
      = count g k + holding (looked k) (add_mset (Looked h) M)" for k by simp
  moreover have "count (add_mset h g) k = holding (stored k) (add_mset (Stored h eid) M)
      \<longleftrightarrow> count g k = holding (stored k) (add_mset (Looked h) M)" for k by simp
  ultimately show ?case using store(2) idem_ins_msg [OF store(1)] by (simp only: keys_inv_def prod.case) simp
next
  case (refuse t h M g)
  have "count g k + holding (looked k) M \<le> F" for k
    using refuse by (auto simp: keys_inv_def split: if_splits dest!: spec [of _ k])
  with refuse show ?case by (simp add: keys_inv_def)
next
  case (record_key t h eid M g)
  then show ?case by (auto simp: keys_inv_def idem_ins_idem)
qed (auto simp: keys_inv_def)

lemma keys_inv_steps: "(send_step False F)\<^sup>*\<^sup>* c c' \<Longrightarrow> keys_inv F c \<Longrightarrow> keys_inv F c'"
  by (induction rule: rtranclp_induct) (auto intro: keys_inv_step)

section \<open>A send is a run of the steps\<close>

lemma send_first: "send_step b F x y \<Longrightarrow> (send_step b F)\<^sup>*\<^sup>* y z \<Longrightarrow> (send_step b F)\<^sup>*\<^sup>* x z"
  by (rule converse_rtranclp_into_rtranclp)

text \<open>Under any faults: an answered \<open>enqueue\<close> stores one message under the key.\<close>

lemma enqueue_path:
  assumes "run_state (enqueue E inp eid) s = (Inr x, s')" and "si_IdempotencyKey inp \<noteq> ''''" "0 < F"
    and "sha256 E (si_IdempotencyKey inp) \<notin> i_hash ` set (tb_idem (tabs s))" "faulty \<or> faults s = []"
  shows "(send_step faulty F)\<^sup>*\<^sup>* (tabs s, {#}, g) (tabs s', {#}, add_mset (sha256 E (si_IdempotencyKey inp)) g)"
proof -
  let ?h = "sha256 E (si_IdempotencyKey inp)"
  let ?ins = "ins_msg eid (si_Sender inp) (si_Recipient inp) (si_SenderDevice inp)
            (if si_Ciphertexts inp \<noteq> [] then Some [] else si_Ciphertext inp)
            (if si_Ciphertexts inp \<noteq> [] then Some (si_Ciphertexts inp) else None)
            (si_SessionID inp) (si_Timestamp inp)
            ((go_now s + defaultTTLDays * 24 * 3600 * 1000000000) div 1000)"
  obtain y s1 where y: "run_state (stmt ?ins) s = (Inr y, s1)"
    and z: "\<exists>z. run_state (stmt (ins_idem ?h eid)) s1 = (z, s')"
    using assms(1,2) by (auto simp: enqueue_def sql_simps split: prod.splits sum.splits if_splits)
  have look: "send_step faulty F (tabs s, {#}, g) (tabs s, {#Looked ?h#}, g)"
    using assms(3,4) by (intro send_step.look) simp_all
  have "?ins (tabs s) = (Inr (), tabs s1)" using stmt_InrD [OF y] by simp
  then have store: "send_step faulty F (tabs s, {#Looked ?h#}, g) (tabs s1, {#Stored ?h eid#}, add_mset ?h g)"
    by (rule send_step.store)
  have "tabs s' = snd (ins_idem ?h eid (tabs s1)) \<or> faulty \<and> tabs s' = tabs s1"
  proof (cases "faults s = []")
    case True
    have "faults s1 = []" using y True by (auto simp: stmt_def split: prod.splits)
    with z show ?thesis by (auto simp: stmt_def split: prod.splits)
  next
    case False
    with z assms(5) show ?thesis by (auto dest!: stmt_tabs)
  qed
  then have "send_step faulty F (tabs s1, {#Stored ?h eid#}, add_mset ?h g) (tabs s', {#}, add_mset ?h g)"
    using send_step.record_key [of faulty F "tabs s1" ?h eid "{#}"] send_step.unrecorded [of faulty F "tabs s1" ?h eid "{#}"] by auto
  with look store show ?thesis by (meson converse_rtranclp_into_rtranclp rtranclp.rtrancl_refl)
qed

text \<open>Without faults, a whole \<open>Send\<close> under a key: one message when the key is new, none when it is known.\<close>

lemma Send_path:
  assumes "faults s = []" "si_IdempotencyKey inp \<noteq> ''''" "0 < F"
    and "run_state (Send E (relay_service E d) inp) s = (Inr eid, s1)"
  shows "(send_step False F)\<^sup>*\<^sup>* (tabs s, {#}, g)
    (tabs s1, {#}, if key_event E (si_IdempotencyKey inp) (tabs s) = None then add_mset (sha256 E (si_IdempotencyKey inp)) g else g)"
proof -
  let ?key = "si_IdempotencyKey inp" and ?a = "after_id inp s"
  have r: "run_state (send_rest E (relay_service E d) inp (fresh_id E inp s)) ?a = (Inr eid, s1)"
    using assms(4) by (simp add: run_Send)
  have run: "run_state (send_rest E (relay_service E d) inp (fresh_id E inp s)) ?a =
      (case key_event E ?key (tabs s) of Some e \<Rightarrow> (Inr e, ?a) | None \<Rightarrow> run_state (enqueue E inp (fresh_id E inp s)) ?a)"
    using relay_run [of ?a E d inp "fresh_id E inp s"] relay_InrD [OF r] assms(1,2) by simp
  show ?thesis
  proof (cases "key_event E ?key (tabs s)")
    case None
    have n: "sha256 E ?key \<notin> i_hash ` set (tb_idem (tabs ?a))"
      using None by (auto simp: key_event_def find_None_iff)
    from None r run have "run_state (enqueue E inp (fresh_id E inp s)) ?a = (Inr eid, s1)" by simp
    from enqueue_path [OF this assms(2,3) n, of False g] assms(1) None show ?thesis by simp
  next
    case (Some e)
    with r run have "tabs s1 = tabs s" by auto
    with Some show ?thesis by simp
  qed
qed

section \<open>Two messages under one key\<close>

definition demo_ins :: "string \<Rightarrow> tables \<Rightarrow> (db_err + unit) \<times> tables" where
  "demo_ins eid = ins_msg eid ''@bob:a.org'' ''@cat:a.org'' ''d'' (Some ''x'') None ''s'' 1700000000 0"

abbreviation demo_one :: tables where
  "demo_one \<equiv> snd (demo_ins ''e1'' empty_tables)"

abbreviation demo_two :: tables where
  "demo_two \<equiv> snd (demo_ins ''e2'' demo_one)"

lemma demo_ins_ok: "demo_ins ''e1'' empty_tables = (Inr (), demo_one)" "demo_ins ''e2'' demo_one = (Inr (), demo_two)"
  "length (tb_msgs demo_two) = 2" "tb_idem demo_one = []" "tb_idem empty_tables = []"
  by (simp_all add: demo_ins_def ins_msg_def empty_tables_def)

text \<open>Both look before either records; the second record fails on the primary key, unnoticed.\<close>

lemma two_sends_one_key:
  "\<exists>t. (send_step False 2)\<^sup>*\<^sup>* (empty_tables, {#}, {#}) (t, {#}, {#h, h#}) \<and> length (tb_msgs t) = 2"
proof -
  let ?t = "snd (ins_idem h ''e1'' (snd (ins_idem h ''e2'' demo_two)))"
  have "send_step False 2 (empty_tables, {#}, {#}) (empty_tables, {#Looked h#}, {#})"
    by (rule send_step.look) (simp_all add: demo_ins_ok(4,5))
  moreover have "send_step False 2 (empty_tables, {#Looked h#}, {#}) (empty_tables, {#Looked h, Looked h#}, {#})"
    by (rule send_step.look) (simp_all add: demo_ins_ok(4,5))
  moreover have "send_step False 2 (empty_tables, {#Looked h, Looked h#}, {#}) (demo_one, {#Looked h, Stored h ''e1''#}, {#h#})"
    using send_step.store [OF demo_ins_ok(1) [unfolded demo_ins_def], of False 2 h "{#Looked h#}" "{#}"] by (simp add: demo_ins_def add_mset_commute)
  moreover have "send_step False 2 (demo_one, {#Looked h, Stored h ''e1''#}, {#h#}) (demo_two, {#Stored h ''e2'', Stored h ''e1''#}, {#h, h#})"
    using send_step.store [OF demo_ins_ok(2) [unfolded demo_ins_def], of False 2 h "{#Stored h ''e1''#}" "{#h#}"] by (simp add: demo_ins_def)
  moreover have "send_step False 2 (demo_two, {#Stored h ''e2'', Stored h ''e1''#}, {#h, h#}) (snd (ins_idem h ''e2'' demo_two), {#Stored h ''e1''#}, {#h, h#})"
    by (rule send_step.record_key)
  moreover have "send_step False 2 (snd (ins_idem h ''e2'' demo_two), {#Stored h ''e1''#}, {#h, h#}) (?t, {#}, {#h, h#})"
    by (rule send_step.record_key)
  moreover have "length (tb_msgs ?t) = 2" using demo_ins_ok(3) by (simp add: ins_idem_def)
  ultimately show ?thesis by (meson send_first rtranclp.rtrancl_refl)
qed

text \<open>C11: idempotency keys under concurrent sends: with a working database, however the statements of
  sends interleave, the messages stored under one key are at most as many as there are sends in
  flight at a time: one when sends do not overlap; the code does not prevent more (the witness runs
  two, which store two).\<close>

theorem messages_per_key:
  assumes "(send_step False F)\<^sup>*\<^sup>* (t, {#}, {#}) (t', M, g)"
  shows "count g h \<le> F"
proof -
  have "keys_inv F (t, {#}, {#})" by (simp add: keys_inv_def)
  from keys_inv_steps [OF assms this] have "count g h + holding (looked h) M \<le> F" by (simp add: keys_inv_def)
  then show ?thesis by simp
qed

theorem messages_per_key_witness:
  "\<exists>t g. (send_step False 2)\<^sup>*\<^sup>* (empty_tables, {#}, {#}) (t, {#}, g) \<and> length (tb_msgs t) = 2 \<and> count g ''k'' = 2 \<and> count g ''k'' \<le> 2"
proof -
  obtain t where t: "(send_step False 2)\<^sup>*\<^sup>* (empty_tables, {#}, {#}) (t, {#}, {#''k'', ''k''#})" "length (tb_msgs t) = 2"
    using two_sends_one_key by blast
  from messages_per_key [OF t(1), of "''k''"] t show ?thesis by fastforce
qed

text \<open>With a database that fails, one send after the other is enough: the message is stored, its key
  is not, and the client that tries again stores a second one.\<close>

lemma unrecorded_key_sends_twice:
  "\<exists>t. (send_step True 1)\<^sup>*\<^sup>* (empty_tables, {#}, {#}) (t, {#}, {#h, h#}) \<and> length (tb_msgs t) = 2"
proof -
  have "send_step True 1 (empty_tables, {#}, {#}) (empty_tables, {#Looked h#}, {#})"
    by (rule send_step.look) (simp_all add: demo_ins_ok(4,5))
  moreover have "send_step True 1 (empty_tables, {#Looked h#}, {#}) (demo_one, {#Stored h ''e1''#}, {#h#})"
    using send_step.store [OF demo_ins_ok(1) [unfolded demo_ins_def], of True 1 h "{#}" "{#}"] by (simp add: demo_ins_def)
  moreover have "send_step True 1 (demo_one, {#Stored h ''e1''#}, {#h#}) (demo_one, {#}, {#h#})"
    by (rule send_step.unrecorded) simp
  moreover have "send_step True 1 (demo_one, {#}, {#h#}) (demo_one, {#Looked h#}, {#h#})"
    by (rule send_step.look) (simp_all add: demo_ins_ok(4,5))
  moreover have "send_step True 1 (demo_one, {#Looked h#}, {#h#}) (demo_two, {#Stored h ''e2''#}, {#h, h#})"
    using send_step.store [OF demo_ins_ok(2) [unfolded demo_ins_def], of True 1 h "{#}" "{#h#}"] by (simp add: demo_ins_def)
  moreover have "send_step True 1 (demo_two, {#Stored h ''e2''#}, {#h, h#}) (snd (ins_idem h ''e2'' demo_two), {#}, {#h, h#})"
    by (rule send_step.record_key)
  moreover have "length (tb_msgs (snd (ins_idem h ''e2'' demo_two))) = 2" using demo_ins_ok(3) by (simp add: ins_idem_def)
  ultimately show ?thesis by (meson send_first rtranclp.rtrancl_refl)
qed

end
