(* ===== verification/Keydir.thy ===== *)
theory Keydir
  imports Dbenc
begin

text \<open>
  Package \<open>keydir\<close> (\<open>src/server/internal/keydir/keydir.go\<close>): the directory of device keys,
  from which a sender fetches the bundle of a recipient's device with at most one one-time
  prekey. The lemmas show that a one-time prekey is handed out at most once in any run of the
  directory's operations under any faults, that the quota per device holds, and that a bundle
  carries the keys the device uploaded.
\<close>

section \<open>Bundles\<close>

definition normDomain :: "env \<Rightarrow> string \<Rightarrow> string" where
  "normDomain E s0 = (let s = TrimSpace (ToLower E s0) in
     if s = ''127.0.0.1'' \<or> HasPrefix s ''127.'' \<or> s = ''localhost'' \<or> s = '''' then ''local'' else s)"

record prekey_item =
  pk_Key :: bytes
  pk_KeyID :: int

record key_bundle =
  bu_IdentityKey :: bytes
  bu_SignedPrekey :: bytes
  bu_SignedPrekeySig :: bytes
  bu_SignedPrekeyID :: int
  bu_OneTimePrekey :: "prekey_item option"

record keydir =
  kd_dom :: string
  kd_enc :: cipher

datatype keydir_err = ErrInvalidUserID | ErrInvalidDeviceID | ErrRemoteUser | ErrNotFound
  | ErrInvalidSignature | ErrPrekeyQuotaExceeded | KeyEnc enc_err | KeyDB db_err

definition decrypt_bundle :: "cipher \<Rightarrow> device_row \<Rightarrow> keydir_err + key_bundle" where
  "decrypt_bundle c d =
     (case Decrypt c (d_identity_key d) of Inl e \<Rightarrow> Inl (KeyEnc e) | Inr ik \<Rightarrow>
     (case Decrypt c (d_signed_prekey d) of Inl e \<Rightarrow> Inl (KeyEnc e) | Inr spk \<Rightarrow>
     (case Decrypt c (d_signed_prekey_sig d) of Inl e \<Rightarrow> Inl (KeyEnc e) | Inr sig \<Rightarrow>
        Inr \<lparr> bu_IdentityKey = ik, bu_SignedPrekey = spk, bu_SignedPrekeySig = sig,
              bu_SignedPrekeyID = d_signed_prekey_id d, bu_OneTimePrekey = None \<rparr>)))"

text \<open>
  \<open>UPDATE one_time_prekeys SET consumed_at = NOW() WHERE id = (SELECT ...) RETURNING\<close>: the
  unconsumed key of the device with the smallest key id.
\<close>

definition free_keys :: "uuid \<Rightarrow> tables \<Rightarrow> otpk_row list" where
  "free_keys dev t = filter (\<lambda>p. o_device p = dev \<and> o_consumed p = None) (tb_otpks t)"

definition claim_prekey :: "uuid \<Rightarrow> tables \<Rightarrow> (db_err + bytes \<times> int) \<times> tables" where
  "claim_prekey dev t =
     (case sort_key o_key_id (free_keys dev t) of
        [] \<Rightarrow> (Inl NoRows, t)
      | p # _ \<Rightarrow> (Inr (o_prekey p, o_key_id p), t\<lparr>tb_otpks :=
          map (\<lambda>q. if o_id q = o_id p then q\<lparr>o_consumed := Some (tb_now t)\<rparr> else q) (tb_otpks t)\<rparr>))"

definition add_prekey :: "cipher \<Rightarrow> uuid \<Rightarrow> key_bundle \<Rightarrow> (sess, keydir_err + key_bundle) state" where
  "add_prekey c dev b = do {
     x \<leftarrow> stmt (claim_prekey dev);
     ret (case x of
       Inl _ \<Rightarrow> Inr b
     | Inr (key, keyID) \<Rightarrow>
         (case Decrypt c key of
            Inl e \<Rightarrow> Inl (KeyEnc e)
          | Inr k \<Rightarrow> Inr (b\<lparr>bu_OneTimePrekey := Some \<lparr> pk_Key = k, pk_KeyID = keyID \<rparr>\<rparr>))) }"

definition local_names :: "string set" where
  "local_names = {''localhost'', ''127.0.0.1''}"

definition GetBundle :: "env \<Rightarrow> keydir \<Rightarrow> string \<Rightarrow> string \<Rightarrow> (sess, keydir_err + key_bundle) state" where
  "GetBundle E S userID deviceID =
     (case Sscanf E ''@%[^:]:%s'' userID of
        Some [username, domain] \<Rightarrow>
          if normDomain E domain \<noteq> normDomain E (kd_dom S) then ret (Inl ErrRemoteUser)
          else (case uuid_parse E deviceID of
                  None \<Rightarrow> ret (Inl ErrInvalidDeviceID)
                | Some dev \<Rightarrow> do {
                    q \<leftarrow> query_row (\<lambda>t. [d. d \<leftarrow> tb_devices t, u \<leftarrow> tb_users t,
                           u_id u = d_user d \<and> pg_lower E (u_username u) = pg_lower E username
                           \<and> (u_domain u = domain \<or> u_domain u = kd_dom S
                              \<or> (u_domain u \<in> local_names \<and> (domain \<in> local_names \<or> kd_dom S \<in> local_names)))
                           \<and> d_id d = dev]);
                    case q of
                      Inl e \<Rightarrow> ret (Inl (if e = NoRows then ErrNotFound else KeyDB e))
                    | Inr d \<Rightarrow>
                        (case decrypt_bundle (kd_enc S) d of
                           Inl e \<Rightarrow> ret (Inl e)
                         | Inr b \<Rightarrow> add_prekey (kd_enc S) dev b) })
      | _ \<Rightarrow> ret (Inl ErrInvalidUserID))"

text \<open>The name in a user id, with or without the leading @ and the domain.\<close>

definition bare_name :: "string \<Rightarrow> string" where
  "bare_name userID =
     (let n = TrimPrefix (TrimSpace userID) ''@'' in
      TrimSpace (case Index n '':'' of None \<Rightarrow> n | Some idx \<Rightarrow> take idx n))"

text \<open>An error of \<open>rows.Err()\<close> is returned, so the rows read before it do not count.\<close>

definition ListDevicesForUser :: "env \<Rightarrow> keydir \<Rightarrow> string \<Rightarrow> (sess, keydir_err + string list) state" where
  "ListDevicesForUser E S userID =
     (let username = bare_name userID in
      if username = '''' then ret (Inl ErrInvalidUserID)
      else do {
        q \<leftarrow> query (\<lambda>t. map d_id (sort_key d_created [d. d \<leftarrow> tb_devices t, u \<leftarrow> tb_users t,
               u_id u = d_user d \<and> pg_lower E (u_username u) = pg_lower E username
               \<and> (u_domain u = kd_dom S \<or> (u_domain u \<in> local_names \<and> kd_dom S \<in> local_names))]));
        ret (case q of
          Inl e \<Rightarrow> Inl (KeyDB e)
        | Inr (ids, broken) \<Rightarrow> if broken then Inl (KeyDB Conn) else Inr (map (uuid_str E) ids)) })"

definition first_device :: "env \<Rightarrow> string \<Rightarrow> tables \<Rightarrow> device_row list" where
  "first_device E username t = sort_key d_created [d. d \<leftarrow> tb_devices t, u \<leftarrow> tb_users t,
     u_id u = d_user d \<and> pg_lower E (u_username u) = pg_lower E username]"

definition GetBundleForUser :: "env \<Rightarrow> keydir \<Rightarrow> string \<Rightarrow> (sess, keydir_err + key_bundle \<times> uuid) state" where
  "GetBundleForUser E S userID =
     (let username = bare_name userID in
      if username = '''' then ret (Inl ErrInvalidUserID)
      else do {
        q \<leftarrow> query_row (first_device E username);
        case q of
          Inl e \<Rightarrow> ret (Inl (if e = NoRows then ErrNotFound else KeyDB e))
        | Inr d \<Rightarrow>
            (case decrypt_bundle (kd_enc S) d of
               Inl e \<Rightarrow> ret (Inl e)
             | Inr b \<Rightarrow> do {
                 x \<leftarrow> add_prekey (kd_enc S) (d_id d) b;
                 ret (case x of Inl e \<Rightarrow> Inl e | Inr b' \<Rightarrow> Inr (b', d_id d)) }) })"

text \<open>Bytes 0 to 3 of a UUID are its high 32 bits.\<close>

definition UUIDToSignalDeviceID :: "uuid \<Rightarrow> int" where
  "UUIDToSignalDeviceID i = (if i = 0 then 1 else uint (drop_bit 96 i) mod 16383 + 1)"

section \<open>Status and upload\<close>

text \<open>The time of the last update is kept as a time; the code prints it.\<close>

record key_status =
  ks_UnconsumedPrekeys :: int
  ks_SignedPrekeyUpdatedAt :: "int option"
  ks_NextOneTimePrekeyKeyID :: int

definition GetKeyStatus :: "uuid \<Rightarrow> (sess, keydir_err + key_status) state" where
  "GetKeyStatus dev = do {
     q \<leftarrow> query_row (\<lambda>t. [int (length (free_keys dev t))]);
     case q of
       Inl e \<Rightarrow> ret (Inl (KeyDB e))
     | Inr unconsumed \<Rightarrow> do {
         m \<leftarrow> query_row (\<lambda>t. [let ks = map o_key_id (filter (\<lambda>p. o_device p = dev) (tb_otpks t))
                in if ks = [] then 0 else Max (set ks)]);
         let maxKeyID = (case m of Inl _ \<Rightarrow> 0 | Inr k \<Rightarrow> k);
             next0 = wrap64 (maxKeyID + 1);
             next = (if next0 < 1 then 1 else next0) in do {
         u \<leftarrow> query_row (\<lambda>t. map d_updated (filter (\<lambda>d. d_id d = dev) (tb_devices t)));
         ret (case u of
           Inl e \<Rightarrow> if e = NoRows
             then Inr \<lparr> ks_UnconsumedPrekeys = unconsumed, ks_SignedPrekeyUpdatedAt = None,
                        ks_NextOneTimePrekeyKeyID = next \<rparr>
             else Inl (KeyDB e)
         | Inr at \<Rightarrow> Inr \<lparr> ks_UnconsumedPrekeys = unconsumed, ks_SignedPrekeyUpdatedAt = Some at,
                        ks_NextOneTimePrekeyKeyID = next \<rparr>) } } }"

definition MaxOneTimePrekeysPerDevice :: int where "MaxOneTimePrekeysPerDevice = 500"

text \<open>The insert takes a value of the sequence whether or not the row conflicts.\<close>

definition ins_otpk :: "uuid \<Rightarrow> int \<Rightarrow> bytes \<Rightarrow> tables \<Rightarrow> (db_err + unit) \<times> tables" where
  "ins_otpk dev keyID key t0 =
     (let t = t0\<lparr>seq_otpks := seq_otpks t0 + 1\<rparr> in
      if list_ex (\<lambda>p. o_device p = dev \<and> o_key_id p = keyID) (tb_otpks t) then (Inl UniqueViolation, t)
      else if dev \<notin> d_id ` set (tb_devices t) then (Inl ForeignKeyViolation, t)
      else (Inr (), t\<lparr>tb_otpks := tb_otpks t @
        [\<lparr> o_id = seq_otpks t0, o_device = dev, o_key_id = keyID, o_prekey = key, o_consumed = None \<rparr>]\<rparr>))"

definition ins_otpk_if_absent :: "uuid \<Rightarrow> int \<Rightarrow> bytes \<Rightarrow> tables \<Rightarrow> (db_err + unit) \<times> tables" where
  "ins_otpk_if_absent dev keyID key t =
     (case ins_otpk dev keyID key t of
        (Inl e, t') \<Rightarrow> (if e = UniqueViolation then Inr () else Inl e, t')
      | (Inr u, t') \<Rightarrow> (Inr u, t'))"

definition upd_signed_prekey :: "int \<Rightarrow> uuid \<Rightarrow> bytes \<Rightarrow> bytes \<Rightarrow> int \<Rightarrow> tables \<Rightarrow> (db_err + unit) \<times> tables" where
  "upd_signed_prekey user dev spk sig spkID t = (Inr (), t\<lparr>tb_devices := map (\<lambda>d.
     if d_user d = user \<and> d_id d = dev
     then d\<lparr>d_signed_prekey := spk, d_signed_prekey_sig := sig, d_signed_prekey_id := spkID, d_updated := tb_now t\<rparr>
     else d) (tb_devices t)\<rparr>)"

definition put_signed_prekey :: "env \<Rightarrow> cipher \<Rightarrow> int \<Rightarrow> uuid \<Rightarrow> bytes \<Rightarrow> bytes \<Rightarrow> int \<Rightarrow> bytes
    \<Rightarrow> (sess, keydir_err + unit) state" where
  "put_signed_prekey E c user dev spk sig spkID signKey =
     (if spk = [] then ret (Inr ())
      else if length signKey = 32 \<and> sig \<noteq> [] \<and> \<not> ed_verify E signKey (b64_encode spk) sig
        then ret (Inl ErrInvalidSignature)
      else do {
        x \<leftarrow> Encrypt c spk;
        case x of Inl e \<Rightarrow> ret (Inl (KeyEnc e)) | Inr spk' \<Rightarrow> do {
        y \<leftarrow> Encrypt c sig;
        case y of Inl e \<Rightarrow> ret (Inl (KeyEnc e)) | Inr sig' \<Rightarrow> do {
        z \<leftarrow> stmt (upd_signed_prekey user dev spk' sig' spkID);
        ret (case z of Inl e \<Rightarrow> Inl (KeyDB e) | Inr _ \<Rightarrow> Inr ()) } } })"

definition put_prekey :: "cipher \<Rightarrow> uuid \<Rightarrow> prekey_item \<Rightarrow> (sess, keydir_err + unit) state" where
  "put_prekey c dev pk = do {
     x \<leftarrow> Encrypt c (pk_Key pk);
     case x of
       Inl e \<Rightarrow> ret (Inl (KeyEnc e))
     | Inr key \<Rightarrow> do {
         y \<leftarrow> stmt (ins_otpk_if_absent dev (pk_KeyID pk) key);
         ret (case y of Inl e \<Rightarrow> Inl (KeyDB e) | Inr _ \<Rightarrow> Inr ()) } }"

definition UpdateKeys :: "env \<Rightarrow> keydir \<Rightarrow> int \<Rightarrow> uuid \<Rightarrow> bytes \<Rightarrow> bytes \<Rightarrow> int \<Rightarrow> prekey_item list \<Rightarrow> bytes
    \<Rightarrow> (sess, keydir_err + unit) state" where
  "UpdateKeys E S user dev spk sig spkID prekeys signKey = do {
     r \<leftarrow> put_signed_prekey E (kd_enc S) user dev spk sig spkID signKey;
     case r of
       Inl e \<Rightarrow> ret (Inl e)
     | Inr _ \<Rightarrow>
         if prekeys = [] then ret (Inr ())
         else do {
           q \<leftarrow> query_row (\<lambda>t. [int (length (free_keys dev t))]);
           case q of
             Inl e \<Rightarrow> ret (Inl (KeyDB e))
           | Inr unconsumed \<Rightarrow>
               if unconsumed + int (length prekeys) > MaxOneTimePrekeysPerDevice
               then ret (Inl ErrPrekeyQuotaExceeded)
               else for_err (put_prekey (kd_enc S) dev) prekeys } }"

definition old_consumed :: "tables \<Rightarrow> otpk_row \<Rightarrow> bool" where
  "old_consumed t p \<longleftrightarrow> (case o_consumed p of None \<Rightarrow> False
     | Some at \<Rightarrow> at < tb_now t - 30 * 24 * 3600 * 1000000)"

definition CleanupOldConsumedPrekeys :: "(sess, keydir_err + int) state" where
  "CleanupOldConsumedPrekeys = do {
     x \<leftarrow> stmt (\<lambda>t. (Inr (int (length (filter (old_consumed t) (tb_otpks t)))),
            t\<lparr>tb_otpks := filter (\<lambda>p. \<not> old_consumed t p) (tb_otpks t)\<rparr>));
     ret (case x of Inl e \<Rightarrow> Inl (KeyDB e) | Inr n \<Rightarrow> Inr n) }"

section \<open>One-time prekeys are handed out once\<close>

definition otpk_inv :: "tables \<Rightarrow> bool" where
  "otpk_inv t \<longleftrightarrow> distinct (map o_id (tb_otpks t)) \<and> (\<forall>p \<in> set (tb_otpks t). o_id p < seq_otpks t)
     \<and> distinct (map (\<lambda>p. (o_device p, o_key_id p)) (tb_otpks t))"

text \<open>The row with this id has been handed out: it is consumed, or gone for good.\<close>

definition spent :: "int \<Rightarrow> uuid \<Rightarrow> int \<Rightarrow> tables \<Rightarrow> bool" where
  "spent i dev keyID t \<longleftrightarrow> otpk_inv t \<and> i < seq_otpks t \<and> (\<forall>p \<in> set (tb_otpks t). o_id p = i \<longrightarrow>
     o_consumed p \<noteq> None \<and> o_device p = dev \<and> o_key_id p = keyID)"

lemma claim_prekey_cases:
  obtains "claim_prekey dev t = (Inl NoRows, t)" "free_keys dev t = []"
  | p where "p \<in> set (tb_otpks t)" "o_device p = dev" "o_consumed p = None"
    "claim_prekey dev t = (Inr (o_prekey p, o_key_id p), t\<lparr>tb_otpks :=
       map (\<lambda>q. if o_id q = o_id p then q\<lparr>o_consumed := Some (tb_now t)\<rparr> else q) (tb_otpks t)\<rparr>)"
proof (cases "sort_key o_key_id (free_keys dev t)")
  case Nil
  then have "set (free_keys dev t) = {}" by (metis list.set(1) set_sort)
  with Nil that(1) show thesis by (simp add: claim_prekey_def)
next
  case (Cons p ps)
  then have "p \<in> set (free_keys dev t)" by (metis list.set_intros(1) set_sort)
  with Cons that(2) show thesis by (auto simp: claim_prekey_def free_keys_def)
qed

lemma consume_simps [simp]:
  "o_id (if b then q\<lparr>o_consumed := c\<rparr> else q) = o_id q"
  "o_device (if b then q\<lparr>o_consumed := c\<rparr> else q) = o_device q"
  "o_key_id (if b then q\<lparr>o_consumed := c\<rparr> else q) = o_key_id q"
  by simp_all

lemma inv_consume:
  "otpk_inv t \<Longrightarrow> otpk_inv (t\<lparr>tb_otpks := map (\<lambda>q. if o_id q = i then q\<lparr>o_consumed := c\<rparr> else q) (tb_otpks t)\<rparr>)"
  by (auto simp: otpk_inv_def comp_def)

lemma inv_claim: "otpk_inv t \<Longrightarrow> otpk_inv (snd (claim_prekey dev t))"
  by (rule claim_prekey_cases [of dev t]) (simp_all add: inv_consume)

lemma spent_claim: "spent i d k t \<Longrightarrow> spent i d k (snd (claim_prekey dev t))"
  by (rule claim_prekey_cases [of dev t]) (auto simp: spent_def inv_consume)

lemma inv_ins_otpk: "otpk_inv t \<Longrightarrow> otpk_inv (snd (ins_otpk dev keyID key t))"
  by (auto simp: otpk_inv_def ins_otpk_def Let_def list_ex_iff)

lemma ins_otpk_tabs:
  "seq_otpks (snd (ins_otpk dev keyID key t)) = seq_otpks t + 1 \<and>
   (tb_otpks (snd (ins_otpk dev keyID key t)) = tb_otpks t \<or>
    tb_otpks (snd (ins_otpk dev keyID key t)) = tb_otpks t @
      [\<lparr> o_id = seq_otpks t, o_device = dev, o_key_id = keyID, o_prekey = key, o_consumed = None \<rparr>])"
  by (simp add: ins_otpk_def Let_def)

lemma snd_if_absent: "snd (ins_otpk_if_absent dev keyID key t) = snd (ins_otpk dev keyID key t)"
  by (simp add: ins_otpk_if_absent_def split: prod.splits sum.splits)

lemma spent_ins: "spent i d k t \<Longrightarrow> spent i d k (snd (ins_otpk_if_absent dev keyID key t))"
  using inv_ins_otpk [of t dev keyID key] ins_otpk_tabs [of dev keyID key t]
  by (auto simp: snd_if_absent spent_def)

lemma spent_filter: "spent i d k t \<Longrightarrow> spent i d k (t\<lparr>tb_otpks := filter P (tb_otpks t)\<rparr>)"
  by (auto simp: spent_def otpk_inv_def distinct_map_filterI)

lemma spent_other:
  "spent i d k t \<Longrightarrow> spent i d k (t\<lparr>tb_devices := x\<rparr>)" "spent i d k t \<Longrightarrow> spent i d k (t\<lparr>tb_now := n\<rparr>)"
  by (simp_all add: spent_def otpk_inv_def)

text \<open>Every operation keeps a property of the tables that the statements on keys keep.\<close>

lemma keeps_add_prekey:
  "(\<And>t. P t \<Longrightarrow> P (snd (claim_prekey dev t))) \<Longrightarrow> keeps (on_tabs P) (add_prekey c dev b)"
  unfolding add_prekey_def by (intro triple_intros) auto

lemma keeps_GetBundleForUser:
  "(\<And>t dev. P t \<Longrightarrow> P (snd (claim_prekey dev t))) \<Longrightarrow> keeps (on_tabs P) (GetBundleForUser E S userID)"
  unfolding GetBundleForUser_def by (intro triple_intros keeps_add_prekey) auto

lemma GetBundle_invalid: "GetBundle E S userID deviceID = ret (Inl ErrInvalidUserID)"
  by (simp add: GetBundle_def Sscanf_char_class)

lemma keeps_put_prekey:
  "(\<And>t k. P t \<Longrightarrow> P (snd (ins_otpk_if_absent dev (pk_KeyID pk) k t))) \<Longrightarrow> keeps (on_tabs P) (put_prekey c dev pk)"
  unfolding put_prekey_def by (intro triple_intros) auto

lemma keeps_put_signed_prekey:
  "(\<And>t spk sig. P t \<Longrightarrow> P (snd (upd_signed_prekey user dev spk sig spkID t)))
    \<Longrightarrow> keeps (on_tabs P) (put_signed_prekey E c user dev spk sig spkID signKey)"
  unfolding put_signed_prekey_def by (intro triple_intros) auto

lemma keeps_UpdateKeys:
  assumes "\<And>t spk sig. P t \<Longrightarrow> P (snd (upd_signed_prekey user dev spk sig spkID t))"
    and "\<And>t k key. P t \<Longrightarrow> P (snd (ins_otpk_if_absent dev k key t))"
  shows "keeps (on_tabs P) (UpdateKeys E S user dev spk sig spkID prekeys signKey)"
  unfolding UpdateKeys_def
  by (intro triple_intros keeps_put_prekey keeps_put_signed_prekey) (auto intro: assms)

lemma keeps_Cleanup:
  "(\<And>t. P t \<Longrightarrow> P (t\<lparr>tb_otpks := filter (\<lambda>p. \<not> old_consumed t p) (tb_otpks t)\<rparr>))
    \<Longrightarrow> keeps (on_tabs P) CleanupOldConsumedPrekeys"
  unfolding CleanupOldConsumedPrekeys_def by (intro triple_intros) auto

text \<open>The directory as a state machine: its operations under any faults, and time passing.\<close>

inductive keydir_step :: "sess \<Rightarrow> sess \<Rightarrow> bool" where
  get_user: "run_state (GetBundleForUser E S userID) s = (r, s') \<Longrightarrow> keydir_step s s'"
| get_device: "run_state (GetBundle E S userID deviceID) s = (q, s') \<Longrightarrow> keydir_step s s'"
| put: "run_state (UpdateKeys E S user dev spk sig spkID prekeys signKey) s = (u, s') \<Longrightarrow> keydir_step s s'"
| clean: "run_state CleanupOldConsumedPrekeys s = (n, s') \<Longrightarrow> keydir_step s s'"
| tick: "tabs s' = (tabs s)\<lparr>tb_now := now\<rparr> \<Longrightarrow> keydir_step s s'"

lemma spent_step:
  assumes "keydir_step s s'" and "spent i d k (tabs s)"
  shows "spent i d k (tabs s')"
  using assms
proof (induction rule: keydir_step.induct)
  case (get_user E S userID s r s')
  have "keeps (on_tabs (spent i d k)) (GetBundleForUser E S userID)"
    by (intro keeps_GetBundleForUser spent_claim)
  from tripleD [OF this _ get_user(1)] get_user(2) show ?case by (simp add: on_tabs_def)
next
  case (get_device E S userID deviceID s q s')
  then show ?case by (simp add: GetBundle_invalid)
next
  case (put E S user dev spk sig spkID prekeys signKey s u s')
  have "keeps (on_tabs (spent i d k)) (UpdateKeys E S user dev spk sig spkID prekeys signKey)"
    by (intro keeps_UpdateKeys spent_ins) (simp add: upd_signed_prekey_def spent_other)
  from tripleD [OF this _ put(1)] put(2) show ?case by (simp add: on_tabs_def)
next
  case (clean s n s')
  have "keeps (on_tabs (spent i d k)) CleanupOldConsumedPrekeys"
    by (intro keeps_Cleanup spent_filter)
  from tripleD [OF this _ clean(1)] clean(2) show ?case by (simp add: on_tabs_def)
next
  case (tick s' s now)
  then show ?case by (simp add: spent_other)
qed

lemma spent_steps: "keydir_step\<^sup>*\<^sup>* s s' \<Longrightarrow> spent i d k (tabs s) \<Longrightarrow> spent i d k (tabs s')"
  by (induction rule: rtranclp_induct) (auto intro: spent_step)

text \<open>What a bundle with a one-time prekey says of the tables before and after.\<close>

lemma add_prekey_InrD:
  assumes "run_state (add_prekey c dev b) s = (Inr b', s')" and "bu_OneTimePrekey b = None"
    and "bu_OneTimePrekey b' = Some k" and "otpk_inv (tabs s)"
  shows "\<exists>p \<in> set (tb_otpks (tabs s)). o_device p = dev \<and> o_consumed p = None \<and> o_key_id p = pk_KeyID k
    \<and> Decrypt c (o_prekey p) = Inr (pk_Key k) \<and> spent (o_id p) dev (pk_KeyID k) (tabs s')"
proof -
  obtain x s1 where x: "run_state (stmt (claim_prekey dev)) s = (x, s1)" by fastforce
  with assms(1-3) obtain key keyID where kk: "x = Inr (key, keyID)" "s' = s1" "Decrypt c key = Inr (pk_Key k)" "pk_KeyID k = keyID"
    by (auto simp: add_prekey_def split: sum.splits prod.splits)
  have c: "claim_prekey dev (tabs s) = (Inr (key, keyID), tabs s')" using stmt_InrD [of "claim_prekey dev" s] x kk by simp
  show ?thesis
  proof (rule claim_prekey_cases [of dev "tabs s"])
    fix p assume p: "p \<in> set (tb_otpks (tabs s))" "o_device p = dev" "o_consumed p = None"
      "claim_prekey dev (tabs s) = (Inr (o_prekey p, o_key_id p), (tabs s)\<lparr>tb_otpks :=
       map (\<lambda>q. if o_id q = o_id p then q\<lparr>o_consumed := Some (tb_now (tabs s))\<rparr> else q) (tb_otpks (tabs s))\<rparr>)"
    have same: "q = p" if "q \<in> set (tb_otpks (tabs s))" "o_id q = o_id p" for q
      using assms(4) that p(1) by (auto simp: otpk_inv_def intro: distinct_map_eq)
    have "tabs s' = (tabs s)\<lparr>tb_otpks :=
       map (\<lambda>q. if o_id q = o_id p then q\<lparr>o_consumed := Some (tb_now (tabs s))\<rparr> else q) (tb_otpks (tabs s))\<rparr>"
      "key = o_prekey p" "keyID = o_key_id p" using c p(4) by simp_all
    moreover from this have "spent (o_id p) dev keyID (tabs s')"
      using assms(4) inv_consume [OF assms(4), of "o_id p"] p same
      by (auto simp: spent_def otpk_inv_def dest!: same)
    ultimately show ?thesis using p kk by auto
  qed (use c in simp)
qed

lemma decrypt_bundle_None: "decrypt_bundle c d = Inr b \<Longrightarrow> bu_OneTimePrekey b = None"
  by (auto simp: decrypt_bundle_def split: sum.splits)

lemma GetBundleForUser_InrD:
  assumes "run_state (GetBundleForUser E S userID) s = (Inr (b, dev), s')"
    and "bu_OneTimePrekey b = Some k" and "otpk_inv (tabs s)"
  shows "\<exists>p \<in> set (tb_otpks (tabs s)). o_device p = dev \<and> o_consumed p = None \<and> o_key_id p = pk_KeyID k
    \<and> Decrypt (kd_enc S) (o_prekey p) = Inr (pk_Key k) \<and> spent (o_id p) dev (pk_KeyID k) (tabs s')"
proof -
  obtain q s1 where q: "run_state (query_row (first_device E (bare_name userID))) s = (q, s1)" by fastforce
  with assms(1) obtain d b0 where d: "q = Inr d" "dev = d_id d" and b0: "decrypt_bundle (kd_enc S) d = Inr b0"
    and a: "run_state (add_prekey (kd_enc S) (d_id d) b0) s1 = (Inr b, s')"
    by (auto simp: GetBundleForUser_def Let_def split: if_splits sum.splits prod.splits)
  from add_prekey_InrD [OF a decrypt_bundle_None [OF b0] assms(2)] query_row_tabs [OF q] assms(3) d(2)
  show ?thesis by simp
qed

section \<open>The quota\<close>

definition quota_ok :: "tables \<Rightarrow> bool" where
  "quota_ok t \<longleftrightarrow> (\<forall>dev. int (length (free_keys dev t)) \<le> MaxOneTimePrekeysPerDevice)"

lemma free_keys_ins:
  "length (free_keys d (snd (ins_otpk_if_absent dev keyID key t))) \<le> length (free_keys d t) + (if d = dev then 1 else 0)"
  by (simp add: snd_if_absent ins_otpk_def Let_def free_keys_def)

lemma put_prekey_count:
  assumes "run_state (put_prekey c dev pk) s = (r, s')"
  shows "length (free_keys d (tabs s')) \<le> length (free_keys d (tabs s)) + (if d = dev then 1 else 0)"
proof -
  obtain x s1 where x: "run_state (Encrypt c (pk_Key pk)) s = (x, s1)" by fastforce
  note t1 = conjunct1 [OF col.enc_tabs [OF x]]
  show ?thesis
  proof (cases x)
    case (Inl e)
    with x t1 assms show ?thesis by (simp add: put_prekey_def)
  next
    case (Inr key)
    obtain y s2 where y: "run_state (stmt (ins_otpk_if_absent dev (pk_KeyID pk) key)) s1 = (y, s2)" by fastforce
    with x Inr assms have "s' = s2" by (simp add: put_prekey_def)
    with stmt_tabs [OF y] t1 free_keys_ins [of d dev "pk_KeyID pk" key "tabs s"] show ?thesis by auto
  qed
qed

lemma put_prekeys_count:
  assumes "run_state (for_err (put_prekey c dev) pks) s = (r, s')"
  shows "length (free_keys d (tabs s')) \<le> length (free_keys d (tabs s)) + (if d = dev then length pks else 0)"
  using assms
proof (induction pks arbitrary: s)
  case Nil
  then show ?case by simp
next
  case (Cons pk pks)
  obtain x s1 where x: "run_state (put_prekey c dev pk) s = (x, s1)" by fastforce
  have 1: "length (free_keys d (tabs s1)) \<le> length (free_keys d (tabs s)) + (if d = dev then 1 else 0)"
    by (rule put_prekey_count [OF x])
  show ?case
  proof (cases x)
    case (Inl e)
    with Cons.prems x 1 show ?thesis by (auto split: if_splits)
  next
    case (Inr u)
    with Cons.prems x have "run_state (for_err (put_prekey c dev) pks) s1 = (r, s')" by simp
    from Cons.IH [OF this] 1 show ?thesis by (auto split: if_splits)
  qed
qed

lemma quota_UpdateKeys: "keeps (on_tabs quota_ok) (UpdateKeys E S user dev spk sig spkID prekeys signKey)"
proof (rule tripleI)
  fix s r s'
  assume q: "on_tabs quota_ok s" and r: "run_state (UpdateKeys E S user dev spk sig spkID prekeys signKey) s = (r, s')"
  obtain x s1 where x: "run_state (put_signed_prekey E (kd_enc S) user dev spk sig spkID signKey) s = (x, s1)" by fastforce
  have "keeps (on_tabs quota_ok) (put_signed_prekey E (kd_enc S) user dev spk sig spkID signKey)"
    by (rule keeps_put_signed_prekey) (simp add: upd_signed_prekey_def quota_ok_def free_keys_def)
  from tripleD [OF this q x] have q1: "quota_ok (tabs s1)" by (simp add: on_tabs_def)
  obtain n s2 where n: "run_state (query_row (\<lambda>t. [int (length (free_keys dev t))])) s1 = (n, s2)" by fastforce
  note t2 = query_row_tabs [OF n]
  show "on_tabs quota_ok s'"
  proof (cases "\<exists>u k. x = Inr u \<and> prekeys \<noteq> [] \<and> n = Inr k \<and> \<not> k + int (length prekeys) > MaxOneTimePrekeysPerDevice")
    case True
    then obtain u k where c: "x = Inr u" "prekeys \<noteq> []" "n = Inr k" "\<not> k + int (length prekeys) > MaxOneTimePrekeysPerDevice"
      by blast
    with r x n have f: "run_state (for_err (put_prekey (kd_enc S) dev) prekeys) s2 = (r, s')"
      by (simp add: UpdateKeys_def)
    have "k = int (length (free_keys dev (tabs s1)))" using query_row_InrD n c(3) by fastforce
    have "int (length (free_keys d (tabs s'))) \<le> MaxOneTimePrekeysPerDevice" for d
    proof -
      have "int (length (free_keys d (tabs s1))) \<le> MaxOneTimePrekeysPerDevice" using q1 by (simp add: quota_ok_def)
      then show ?thesis
        using put_prekeys_count [OF f, of d] c(4) t2 \<open>k = _\<close> by (cases "d = dev") auto
    qed
    then show ?thesis by (simp add: on_tabs_def quota_ok_def)
  next
    case False
    then have "s' = s1 \<or> s' = s2" using r x n by (auto simp: UpdateKeys_def split: sum.splits if_splits)
    with q1 t2 show ?thesis by (auto simp: on_tabs_def)
  qed
qed

section \<open>Upload and fetch\<close>

lemma insort_key_map: "(\<And>y. k (f y) = k y) \<Longrightarrow> insort_key k (f x) (map f xs) = map f (insort_key k x xs)"
  by (induction xs) auto

lemma sort_key_map: "(\<And>x. k (f x) = k x) \<Longrightarrow> sort_key k (map f xs) = map f (sort_key k xs)"
  by (induction xs) (simp_all add: insort_key_map)

lemma first_device_upd:
  assumes "\<And>d. d_user (f d) = d_user d" and "\<And>d. d_created (f d) = d_created d"
  shows "first_device E username (t\<lparr>tb_devices := map f (tb_devices t)\<rparr>) = map f (first_device E username t)"
proof -
  let ?P = "\<lambda>d u. u_id u = d_user d \<and> pg_lower E (u_username u) = pg_lower E username"
  have "[d. d \<leftarrow> map f ds, u \<leftarrow> us, ?P d u] = map f [d. d \<leftarrow> ds, u \<leftarrow> us, ?P d u]" for ds us
  proof (induction ds)
    case (Cons d ds)
    have "[f d. u \<leftarrow> us, ?P (f d) u] = map f [d. u \<leftarrow> us, ?P d u]" by (induction us) (auto simp: assms)
    with Cons show ?case by simp
  qed simp
  from this [of "tb_users t" "tb_devices t"] show ?thesis
    by (simp add: first_device_def sort_key_map assms)
qed

lemma first_device_otpks:
  "first_device E u (t\<lparr>tb_otpks := x\<rparr>) = first_device E u t" "first_device E u (t\<lparr>seq_otpks := n\<rparr>) = first_device E u t"
  by (simp_all add: first_device_def)

lemma put_prekey_devices:
  "keeps (on_tabs (\<lambda>t. first_device E u t = ds)) (for_err (put_prekey c dev) pks)"
  by (intro triple_intros keeps_put_prekey) (auto simp: snd_if_absent ins_otpk_def Let_def first_device_otpks)

lemma put_signed_prekey_InrD:
  assumes "run_state (put_signed_prekey E c user dev spk sig spkID signKey) s = (Inr x, s')" and "spk \<noteq> []" and "cipher_ok c"
  obtains spk' sig' where "Decrypt c spk' = Inr spk" and "Decrypt c sig' = Inr sig"
    and "tabs s' = snd (upd_signed_prekey user dev spk' sig' spkID (tabs s))"
proof -
  obtain a s1 where a: "run_state (Encrypt c spk) s = (a, s1)" by fastforce
  obtain b s2 where b: "run_state (Encrypt c sig) s1 = (b, s2)" by fastforce
  from assms(1,2) a b obtain spk' sig' y where i: "a = Inr spk'" "b = Inr sig'"
    "run_state (stmt (upd_signed_prekey user dev spk' sig' spkID)) s2 = (Inr y, s')"
    by (auto simp: put_signed_prekey_def split: if_splits sum.splits prod.splits)
  have "upd_signed_prekey user dev spk' sig' spkID (tabs s) = (Inr y, tabs s')"
    using stmt_InrD [OF i(3)] col.enc_tabs [OF a] col.enc_tabs [OF b] by simp
  with that a b i(1,2) assms(3) show thesis using col.enc_dec by (metis snd_conv)
qed

section \<open>Properties\<close>

text \<open>A user with one device that has two one-time prekeys, to evaluate on.\<close>

definition demo_device :: device_row where
  "demo_device = \<lparr> d_id = 7, d_user = 1, d_identity_key = ''I'', d_signed_prekey = ''S'', d_signed_prekey_sig = ''G'',
     d_signed_prekey_id = 1, d_name = None, d_created = 1, d_updated = 1 \<rparr>"

definition demo_keys :: tables where
  "demo_keys = empty_tables\<lparr>
     tb_users := [\<lparr> u_id = 1, u_username = ''ann'', u_domain = ''a.org'', u_password_hash = None \<rparr>],
     tb_devices := [demo_device],
     tb_otpks := [\<lparr> o_id = 1, o_device = 7, o_key_id = 1, o_prekey = ''k1'', o_consumed = None \<rparr>,
       \<lparr> o_id = 2, o_device = 7, o_key_id = 2, o_prekey = ''k2'', o_consumed = None \<rparr>],
     seq_otpks := 3\<rparr>"

definition demo_dir :: keydir where
  "demo_dir = \<lparr> kd_dom = ''a.org'', kd_enc = None \<rparr>"

lemma demo_bare: "bare_name ''@ann:a.org'' = ''ann''"
  by code_simp

lemma demo_keys_inv [simp]: "otpk_inv demo_keys" "quota_ok demo_keys"
  by (simp_all add: otpk_inv_def quota_ok_def demo_keys_def free_keys_def empty_tables_def MaxOneTimePrekeysPerDevice_def)

lemmas demo_fetch = GetBundleForUser_def demo_bare first_device_def add_prekey_def claim_prekey_def free_keys_def
  decrypt_bundle_def Decrypt_def demo_dir_def demo_keys_def demo_device_def empty_tables_def session_on_def sql_simps

lemma demo_first:
  "\<exists>b s1. run_state (GetBundleForUser demo_env demo_dir ''@ann:a.org'') (session_on demo_keys []) = (Inr (b, 7), s1)
    \<and> bu_OneTimePrekey b = Some \<lparr> pk_Key = ''k1'', pk_KeyID = 1 \<rparr>
    \<and> (\<exists>b2 s2. run_state (GetBundleForUser demo_env demo_dir ''@ann:a.org'') s1 = (Inr (b2, 7), s2)
         \<and> bu_OneTimePrekey b2 = Some \<lparr> pk_Key = ''k2'', pk_KeyID = 2 \<rparr>)"
  by (simp add: demo_fetch)

text \<open>A bundle fetched when a row is spent carries another row.\<close>

lemma second_bundle:
  assumes sp: "spent i dev1 kid1 (tabs s2)"
    and "run_state (GetBundleForUser E S u') s2 = (Inr (b2, dev2), s3)" and "bu_OneTimePrekey b2 = Some k2"
  shows "\<exists>p2 \<in> set (tb_otpks (tabs s2)). i \<noteq> o_id p2 \<and> o_device p2 = dev2 \<and> o_key_id p2 = pk_KeyID k2 \<and> o_consumed p2 = None
    \<and> (i \<in> o_id ` set (tb_otpks (tabs s2)) \<longrightarrow> (dev1, kid1) \<noteq> (dev2, pk_KeyID k2))"
proof -
  from sp have inv: "otpk_inv (tabs s2)" by (simp add: spent_def)
  from GetBundleForUser_InrD [OF assms(2,3) inv] obtain p2 where p2: "p2 \<in> set (tb_otpks (tabs s2))"
    "o_device p2 = dev2" "o_consumed p2 = None" "o_key_id p2 = pk_KeyID k2" by blast
  have ne: "i \<noteq> o_id p2" using sp p2(1,3) by (auto simp: spent_def)
  have "(dev1, kid1) \<noteq> (dev2, pk_KeyID k2)" if "q \<in> set (tb_otpks (tabs s2))" "o_id q = i" for q
  proof
    assume "(dev1, kid1) = (dev2, pk_KeyID k2)"
    then have "(o_device q, o_key_id q) = (o_device p2, o_key_id p2)" using sp that p2 by (auto simp: spent_def)
    with inv that(1) p2(1) have "q = p2"
      using distinct_map_eq [of "\<lambda>p. (o_device p, o_key_id p)"] by (fastforce simp: otpk_inv_def)
    with that(2) ne show False by simp
  qed
  then have "i \<in> o_id ` set (tb_otpks (tabs s2)) \<longrightarrow> (dev1, kid1) \<noteq> (dev2, pk_KeyID k2)" by (metis imageE)
  with p2 ne show ?thesis by blast
qed

text \<open>A one-time prekey is handed out at most once: in any run of the directory's
  operations under any fault schedule, two bundles that carry a one-time prekey take it from
  two different rows, both unconsumed when taken; and as long as the first row has not been
  cleaned up, the two differ in device or key id.\<close>

theorem prekey_handed_out_once:
  assumes "otpk_inv (tabs s)"
    and "run_state (GetBundleForUser E S u) s = (Inr (b1, dev1), s1)" and "bu_OneTimePrekey b1 = Some k1"
    and "keydir_step\<^sup>*\<^sup>* s1 s2"
    and "run_state (GetBundleForUser E S u') s2 = (Inr (b2, dev2), s3)" and "bu_OneTimePrekey b2 = Some k2"
  shows "\<exists>p1 \<in> set (tb_otpks (tabs s)). \<exists>p2 \<in> set (tb_otpks (tabs s2)). o_id p1 \<noteq> o_id p2
    \<and> o_device p1 = dev1 \<and> o_key_id p1 = pk_KeyID k1 \<and> o_consumed p1 = None
    \<and> o_device p2 = dev2 \<and> o_key_id p2 = pk_KeyID k2 \<and> o_consumed p2 = None
    \<and> (o_id p1 \<in> o_id ` set (tb_otpks (tabs s2)) \<longrightarrow> (dev1, pk_KeyID k1) \<noteq> (dev2, pk_KeyID k2))"
proof -
  from GetBundleForUser_InrD [OF assms(2,3,1)] obtain p1 where p1: "p1 \<in> set (tb_otpks (tabs s))"
    "o_device p1 = dev1" "o_consumed p1 = None" "o_key_id p1 = pk_KeyID k1" "spent (o_id p1) dev1 (pk_KeyID k1) (tabs s1)"
    by blast
  have sp: "spent (o_id p1) dev1 (pk_KeyID k1) (tabs s2)" by (rule spent_steps [OF assms(4) p1(5)])
  from second_bundle [OF sp assms(5,6)] p1 show ?thesis by blast
qed

theorem prekey_handed_out_once_witness:
  "\<exists>b1 s1 b2 s2 k1 k2. run_state (GetBundleForUser demo_env demo_dir ''@ann:a.org'') (session_on demo_keys []) = (Inr (b1, 7), s1)
    \<and> run_state (GetBundleForUser demo_env demo_dir ''@ann:a.org'') s1 = (Inr (b2, 7), s2)
    \<and> bu_OneTimePrekey b1 = Some k1 \<and> bu_OneTimePrekey b2 = Some k2
    \<and> (\<exists>p1 \<in> set (tb_otpks demo_keys). \<exists>p2 \<in> set (tb_otpks (tabs s1)). o_id p1 \<noteq> o_id p2
        \<and> o_key_id p1 = pk_KeyID k1 \<and> o_key_id p2 = pk_KeyID k2)"
proof -
  from demo_first obtain b1 s1 b2 s2 where r: "run_state (GetBundleForUser demo_env demo_dir ''@ann:a.org'') (session_on demo_keys []) = (Inr (b1, 7), s1)"
    "bu_OneTimePrekey b1 = Some \<lparr> pk_Key = ''k1'', pk_KeyID = 1 \<rparr>"
    "run_state (GetBundleForUser demo_env demo_dir ''@ann:a.org'') s1 = (Inr (b2, 7), s2)"
    "bu_OneTimePrekey b2 = Some \<lparr> pk_Key = ''k2'', pk_KeyID = 2 \<rparr>" by blast
  have i: "otpk_inv (tabs (session_on demo_keys []))" by (simp add: session_on_def)
  from prekey_handed_out_once [OF i r(1,2) rtranclp.rtrancl_refl r(3,4)] r show ?thesis
    by (fastforce simp: session_on_def)
qed

text \<open>The quota of unconsumed one-time prekeys per device holds after an upload if it held
  before, whatever the database does to the statements of the upload.\<close>

theorem UpdateKeys_quota:
  assumes "quota_ok (tabs s)" and "run_state (UpdateKeys E S user dev spk sig spkID prekeys signKey) s = (r, s')"
  shows "quota_ok (tabs s')"
  using tripleD [OF quota_UpdateKeys _ assms(2)] assms(1) by (simp add: on_tabs_def)

theorem UpdateKeys_quota_witness:
  "quota_ok (tabs (snd (run_state (UpdateKeys demo_env demo_dir 1 7 [] [] 1 [\<lparr> pk_Key = ''k'', pk_KeyID = 9 \<rparr>] [])
     (session_on demo_keys [Answered, LostAck]))))"
  using UpdateKeys_quota [of "session_on demo_keys [Answered, LostAck]"] by (simp add: session_on_def prod_eq_iff)

text \<open>Adding a one-time prekey to a bundle, or finding none, leaves its other keys.\<close>

lemma add_prekey_bundle:
  assumes "faults s = []" and "\<forall>p \<in> set (tb_otpks (tabs s)). \<exists>k. Decrypt c (o_prekey p) = Inr k"
  shows "\<exists>b' s2. run_state (add_prekey c dev b) s = (Inr b', s2) \<and> bu_IdentityKey b' = bu_IdentityKey b
    \<and> bu_SignedPrekey b' = bu_SignedPrekey b \<and> bu_SignedPrekeySig b' = bu_SignedPrekeySig b \<and> bu_SignedPrekeyID b' = bu_SignedPrekeyID b"
proof (rule claim_prekey_cases [of dev "tabs s"])
  assume "claim_prekey dev (tabs s) = (Inl NoRows, tabs s)"
  then show ?thesis using assms(1) by (simp add: add_prekey_def sql_simps)
next
  fix p assume "p \<in> set (tb_otpks (tabs s))" "claim_prekey dev (tabs s) = (Inr (o_prekey p, o_key_id p), (tabs s)\<lparr>tb_otpks :=
     map (\<lambda>q. if o_id q = o_id p then q\<lparr>o_consumed := Some (tb_now (tabs s))\<rparr> else q) (tb_otpks (tabs s))\<rparr>)"
  with assms show ?thesis by (auto simp: add_prekey_def sql_simps)
qed

text \<open>What a device uploads is what a sender fetches: after a successful upload of a signed
  prekey for the first device of a user, fetching that user's bundle returns this signed
  prekey with its signature and id, and the device's identity key, encrypted columns or not.\<close>

theorem UpdateKeys_GetBundleForUser:
  assumes "cipher_ok (kd_enc S)" and "spk \<noteq> []" and "bare_name u \<noteq> ''''"
    and "first_device E (bare_name u) (tabs s) = d # ds" and "d_id d = dev" and "d_user d = user"
    and "Decrypt (kd_enc S) (d_identity_key d) = Inr ik"
    and "run_state (UpdateKeys E S user dev spk sig spkID prekeys signKey) s = (Inr (), s1)"
    and "faults s1 = []" and "\<forall>p \<in> set (tb_otpks (tabs s1)). \<exists>k. Decrypt (kd_enc S) (o_prekey p) = Inr k"
  shows "\<exists>b s2. run_state (GetBundleForUser E S u) s1 = (Inr (b, dev), s2) \<and> bu_IdentityKey b = ik
    \<and> bu_SignedPrekey b = spk \<and> bu_SignedPrekeySig b = sig \<and> bu_SignedPrekeyID b = spkID"
proof -
  let ?c = "kd_enc S"
  obtain x s0 where x: "run_state (put_signed_prekey E ?c user dev spk sig spkID signKey) s = (x, s0)" by fastforce
  with assms(8) obtain y where y: "x = Inr y" by (cases x) (auto simp: UpdateKeys_def)
  from put_signed_prekey_InrD [OF x [unfolded y] assms(2,1)] obtain spk' sig' where
    k: "Decrypt ?c spk' = Inr spk" "Decrypt ?c sig' = Inr sig" "tabs s0 = snd (upd_signed_prekey user dev spk' sig' spkID (tabs s))" .
  let ?f = "\<lambda>d. if d_user d = user \<and> d_id d = dev
     then d\<lparr>d_signed_prekey := spk', d_signed_prekey_sig := sig', d_signed_prekey_id := spkID, d_updated := tb_now (tabs s)\<rparr> else d"
  have d0: "first_device E (bare_name u) (tabs s0) = ?f d # map ?f ds"
    unfolding k(3) upd_signed_prekey_def snd_conv by (subst first_device_upd) (simp_all add: assms(4))
  obtain n sx where n: "run_state (query_row (\<lambda>t. [int (length (free_keys dev t))])) s0 = (n, sx)" by fastforce
  note tx = query_row_tabs [OF n]
  have "first_device E (bare_name u) (tabs s1) = ?f d # map ?f ds"
  proof (cases "prekeys = []")
    case True
    with assms(8) x y d0 show ?thesis by (simp add: UpdateKeys_def)
  next
    case False
    with assms(8) x y n have "run_state (for_err (put_prekey ?c dev) prekeys) sx = (Inr (), s1)"
      by (auto simp: UpdateKeys_def split: if_splits sum.splits)
    from tripleD [OF put_prekey_devices _ this, of E "bare_name u" "?f d # map ?f ds"] d0 tx show ?thesis
      by (simp only: on_tabs_def)
  qed
  then have q: "run_state (query_row (first_device E (bare_name u))) s1 = (Inr (?f d), s1)"
    using assms(9) by (simp add: sql_simps)
  have b: "decrypt_bundle ?c (?f d) = Inr \<lparr> bu_IdentityKey = ik, bu_SignedPrekey = spk, bu_SignedPrekeySig = sig,
      bu_SignedPrekeyID = spkID, bu_OneTimePrekey = None \<rparr>" (is "_ = Inr ?b")
    using k(1,2) assms(5-7) by (simp add: decrypt_bundle_def)
  note add_prekey_bundle [OF assms(9,10), of dev ?b]
  then show ?thesis
    using q b assms(3,5) by (auto simp: GetBundleForUser_def Let_def)
qed

theorem UpdateKeys_GetBundleForUser_witness:
  "\<exists>s1 b s2. run_state (UpdateKeys demo_env demo_dir 1 7 ''SPK'' ''SIG'' 5 [] []) (session_on demo_keys []) = (Inr (), s1)
    \<and> run_state (GetBundleForUser demo_env demo_dir ''@ann:a.org'') s1 = (Inr (b, 7), s2)
    \<and> bu_SignedPrekey b = ''SPK'' \<and> bu_SignedPrekeyID b = 5"
proof -
  let ?s = "session_on demo_keys []"
  obtain s1 where s1: "run_state (UpdateKeys demo_env demo_dir 1 7 ''SPK'' ''SIG'' 5 [] []) ?s = (Inr (), s1)"
    "faults s1 = []"
    by (simp add: UpdateKeys_def put_signed_prekey_def Encrypt_def demo_dir_def session_on_def sql_simps upd_signed_prekey_def)
  have d: "first_device demo_env (bare_name ''@ann:a.org'') (tabs ?s) = [demo_device]"
    by (simp add: demo_fetch)
  have "\<exists>b s2. run_state (GetBundleForUser demo_env demo_dir ''@ann:a.org'') s1 = (Inr (b, 7), s2) \<and> bu_IdentityKey b = ''I''
    \<and> bu_SignedPrekey b = ''SPK'' \<and> bu_SignedPrekeySig b = ''SIG'' \<and> bu_SignedPrekeyID b = 5"
    by (rule UpdateKeys_GetBundleForUser [OF _ _ _ d _ _ _ s1])
       (simp_all add: demo_dir_def demo_device_def Decrypt_def cipher_ok_def demo_bare)
  with s1 show ?thesis by blast
qed

text \<open>The key id proposed for the next one-time prekey is positive, and larger than every
  key id of the device unless the largest is already the maximum of a 64-bit integer; the
  count of unconsumed keys is exact.\<close>

theorem GetKeyStatus_next_fresh:
  assumes "faults s = []" and "run_state (GetKeyStatus dev) s = (Inr st, s')"
    and "\<forall>p \<in> set (tb_otpks (tabs s)). int64 (o_key_id p)"
  shows "1 \<le> ks_NextOneTimePrekeyKeyID st \<and> ks_UnconsumedPrekeys st = int (length (free_keys dev (tabs s)))
    \<and> ((\<forall>p \<in> set (tb_otpks (tabs s)). o_key_id p \<noteq> 2 ^ 63 - 1) \<longrightarrow>
       (\<forall>p \<in> set (tb_otpks (tabs s)). o_device p = dev \<longrightarrow> o_key_id p < ks_NextOneTimePrekeyKeyID st))"
proof -
  let ?ks = "map o_key_id (filter (\<lambda>p. o_device p = dev) (tb_otpks (tabs s)))"
  let ?m = "if ?ks = [] then 0 else Max (set ?ks)"
  have st: "ks_NextOneTimePrekeyKeyID st = (if wrap64 (?m + 1) < 1 then 1 else wrap64 (?m + 1))"
    "ks_UnconsumedPrekeys st = int (length (free_keys dev (tabs s)))"
    using assms(1,2) by (auto simp: GetKeyStatus_def sql_simps Let_def split: list.splits if_splits)
  have "o_key_id p < ks_NextOneTimePrekeyKeyID st"
    if ne: "\<forall>p \<in> set (tb_otpks (tabs s)). o_key_id p \<noteq> 2 ^ 63 - 1"
      and p: "p \<in> set (tb_otpks (tabs s))" "o_device p = dev" for p
  proof -
    have le: "o_key_id p \<le> Max (set ?ks)" using p by (intro Max_ge) auto
    have "Max (set ?ks) \<in> set ?ks" using p by (intro Max_in) (auto simp: filter_empty_conv)
    then obtain q where "q \<in> set (tb_otpks (tabs s))" "Max (set ?ks) = o_key_id q" by auto
    then have "int64 (Max (set ?ks) + 1)" using assms(3) ne by (fastforce simp: int64_def)
    then have "wrap64 (Max (set ?ks) + 1) = Max (set ?ks) + 1" by (rule wrap64_id)
    moreover have "?ks \<noteq> []" using p by (auto simp: filter_empty_conv)
    ultimately show ?thesis using st(1) le by (simp split: if_splits)
  qed
  with st show ?thesis by auto
qed

theorem GetKeyStatus_next_fresh_witness:
  "\<exists>st s'. run_state (GetKeyStatus 7) (session_on demo_keys []) = (Inr st, s') \<and> 1 \<le> ks_NextOneTimePrekeyKeyID st"
proof -
  obtain st s' where r: "run_state (GetKeyStatus 7) (session_on demo_keys []) = (Inr st, s')"
    by (simp add: GetKeyStatus_def sql_simps session_on_def demo_keys_def demo_device_def empty_tables_def Let_def)
  from GetKeyStatus_next_fresh [OF _ r] r show ?thesis
    by (auto simp: session_on_def demo_keys_def empty_tables_def int64_def)
qed

text \<open>The directory's lookup of one device's bundle rejects every request: the format with
  which it parses the user id uses a character-class verb that Go's scanner does not have.\<close>

theorem GetBundle_always_rejects:
  "run_state (GetBundle E S userID deviceID) s = (Inl ErrInvalidUserID, s)"
  by (simp add: GetBundle_invalid)

text \<open>The Signal device id of a UUID is in the range 1 to 16383 that the protocol allows.\<close>

theorem UUIDToSignalDeviceID_range: "1 \<le> UUIDToSignalDeviceID i \<and> UUIDToSignalDeviceID i \<le> 16383"
proof -
  have "0 \<le> uint (drop_bit 96 i) mod 16383" and "uint (drop_bit 96 i) mod 16383 < 16383" by simp_all
  then show ?thesis unfolding UUIDToSignalDeviceID_def by auto
qed

end
