(* ===== verification/Races.thy ===== *)
theory Races
  imports Keydir "HOL-Library.Multiset"
begin

text \<open>
  Requests on the key directory that run at the same time (\<open>src/server/internal/keydir/keydir.go\<close>).
  \<open>Keydir\<close> runs an operation as a whole; here each statement is a step of its own, and an upload
  has its check and its inserts apart, because the code uses no transaction. A fetch is two steps:
  the statement \<open>UPDATE ... WHERE id = (SELECT ... LIMIT 1)\<close> takes no lock in its sub-select, so that
  at PostgreSQL's default isolation level two of them choose the same row, and the one that waited
  for the row tests only \<open>id = ...\<close> again.

  Shown: every run of the directory's operations is a run of the steps with one request at a time;
  a one-time prekey is given to at most as many clients as there are fetches at a time, which two
  fetches reach; and the number of unconsumed prekeys of a device is bounded by the quota times
  the uploads at a time, which two uploads reach.
\<close>

section \<open>Requests in flight\<close>

text \<open>The sub-select of the claim, and the update of the row it chose.\<close>

definition pick_prekey :: "uuid \<Rightarrow> tables \<Rightarrow> int option" where
  "pick_prekey dev t = (case sort_key o_key_id (free_keys dev t) of [] \<Rightarrow> None | p # _ \<Rightarrow> Some (o_id p))"

definition take_prekey :: "int \<Rightarrow> tables \<Rightarrow> (db_err + bytes \<times> int) \<times> tables" where
  "take_prekey i t =
     (case filter (\<lambda>p. o_id p = i) (tb_otpks t) of
        [] \<Rightarrow> (Inl NoRows, t)
      | p # _ \<Rightarrow> (Inr (o_prekey p, o_key_id p), t\<lparr>tb_otpks :=
          map (\<lambda>q. if o_id q = i then q\<lparr>o_consumed := Some (tb_now t)\<rparr> else q) (tb_otpks t)\<rparr>))"

text \<open>
  A request between two statements: an upload that passed the check, with the ids of the keys it
  has still to insert, and a fetch that has chosen a row.
\<close>

datatype request = Adding uuid "int list" | Taking int

primrec adds_to :: "uuid \<Rightarrow> request \<Rightarrow> bool" where
  "adds_to dev (Adding d ks) \<longleftrightarrow> d = dev"
| "adds_to dev (Taking i) \<longleftrightarrow> False"

primrec is_fetch :: "request \<Rightarrow> bool" where
  "is_fetch (Adding d ks) \<longleftrightarrow> False"
| "is_fetch (Taking i) \<longleftrightarrow> True"

primrec left_for :: "uuid \<Rightarrow> request \<Rightarrow> nat" where
  "left_for dev (Adding d ks) = (if d = dev then length ks else 0)"
| "left_for dev (Taking i) = 0"

definition uploads :: "uuid \<Rightarrow> request multiset \<Rightarrow> nat" where
  "uploads dev M = size (filter_mset (adds_to dev) M)"

definition fetches :: "request multiset \<Rightarrow> nat" where
  "fetches M = size (filter_mset is_fetch M)"

definition pending :: "uuid \<Rightarrow> request multiset \<Rightarrow> nat" where
  "pending dev M = sum_mset (image_mset (left_for dev) M)"

lemma in_flight_simps [simp]:
  "uploads dev {#} = 0" "uploads dev (add_mset r M) = (if adds_to dev r then Suc (uploads dev M) else uploads dev M)"
  "fetches {#} = 0" "fetches (add_mset r M) = (if is_fetch r then Suc (fetches M) else fetches M)"
  "pending dev {#} = 0" "pending dev (add_mset r M) = left_for dev r + pending dev M"
  by (simp_all add: uploads_def fetches_def pending_def)

text \<open>
  The tables, the requests in flight and the rows given to clients. At most \<open>K\<close> uploads of a device
  and at most \<open>F\<close> fetches are in flight. A request may leave at any time: it has finished, or failed.
  \<open>lost\<close> is an update whose answer does not arrive.
\<close>

type_synonym races = "tables \<times> request multiset \<times> int multiset"

inductive race_step :: "nat \<Rightarrow> nat \<Rightarrow> races \<Rightarrow> races \<Rightarrow> bool" for K F where
  admit: "int (length (free_keys dev t)) + int (length ks) \<le> MaxOneTimePrekeysPerDevice \<Longrightarrow> uploads dev M < K
    \<Longrightarrow> race_step K F (t, M, h) (t, add_mset (Adding dev ks) M, h)"
| sign: "race_step K F (t, M, h) (snd (upd_signed_prekey user dev spk sig spkID t), M, h)"
| add: "race_step K F (t, add_mset (Adding dev (k # ks)) M, h)
    (snd (ins_otpk_if_absent dev k key t), add_mset (Adding dev ks) M, h)"
| leave: "race_step K F (t, add_mset r M, h) (t, M, h)"
| pick: "pick_prekey dev t = Some i \<Longrightarrow> fetches M < F \<Longrightarrow> race_step K F (t, M, h) (t, add_mset (Taking i) M, h)"
| take: "take_prekey i t = (Inr x, t') \<Longrightarrow> race_step K F (t, add_mset (Taking i) M, h) (t', M, add_mset i h)"
| lost: "race_step K F (t, add_mset (Taking i) M, h) (snd (take_prekey i t), M, h)"
| clean: "race_step K F (t, M, h) (t\<lparr>tb_otpks := filter (\<lambda>p. \<not> old_consumed t p) (tb_otpks t)\<rparr>, M, h)"
| tick: "race_step K F (t, M, h) (t\<lparr>tb_now := now\<rparr>, M, h)"

section \<open>The claim is its two steps\<close>

lemma pick_prekey_SomeD:
  assumes "pick_prekey dev t = Some i"
  obtains p where "p \<in> set (tb_otpks t)" "o_id p = i" "o_device p = dev" "o_consumed p = None"
proof (cases "sort_key o_key_id (free_keys dev t)")
  case Nil
  with assms show thesis by (simp add: pick_prekey_def)
next
  case (Cons p ps)
  then have "p \<in> set (free_keys dev t)" by (metis list.set_intros(1) set_sort)
  with Cons assms that show thesis by (auto simp: pick_prekey_def free_keys_def)
qed

lemma take_prekey_cases:
  obtains "take_prekey i t = (Inl NoRows, t)"
  | p where "p \<in> set (tb_otpks t)" "o_id p = i"
    "take_prekey i t = (Inr (o_prekey p, o_key_id p), t\<lparr>tb_otpks :=
       map (\<lambda>q. if o_id q = i then q\<lparr>o_consumed := Some (tb_now t)\<rparr> else q) (tb_otpks t)\<rparr>)"
proof (cases "filter (\<lambda>p. o_id p = i) (tb_otpks t)")
  case Nil
  with that(1) show thesis by (simp add: take_prekey_def)
next
  case (Cons p ps)
  then have "p \<in> set (filter (\<lambda>p. o_id p = i) (tb_otpks t))" by simp
  then have "p \<in> set (tb_otpks t)" "o_id p = i" by simp_all
  then show thesis by (rule that(2)) (simp add: take_prekey_def Cons)
qed

lemma claim_pick_take:
  assumes "otpk_inv t"
  shows "claim_prekey dev t = (case pick_prekey dev t of None \<Rightarrow> (Inl NoRows, t) | Some i \<Rightarrow> take_prekey i t)"
proof (cases "sort_key o_key_id (free_keys dev t)")
  case Nil
  then show ?thesis by (simp add: claim_prekey_def pick_prekey_def)
next
  case (Cons p ps)
  then have "p \<in> set (free_keys dev t)" by (metis list.set_intros(1) set_sort)
  then have p: "p \<in> set (tb_otpks t)" by (simp add: free_keys_def)
  have same: "q = p" if "q \<in> set (tb_otpks t)" "o_id q = o_id p" for q
    using assms that p by (auto simp: otpk_inv_def intro: distinct_map_eq)
  show ?thesis
  proof (cases rule: take_prekey_cases [of "o_id p" t])
    case 1
    with p show ?thesis by (auto simp: take_prekey_def filter_empty_conv split: list.splits)
  next
    case (2 q)
    with same have "q = p" by blast
    with 2 Cons show ?thesis by (simp add: claim_prekey_def pick_prekey_def)
  qed
qed

section \<open>One-time prekeys\<close>

lemma spent_take: "spent i d k t \<Longrightarrow> spent i d k (snd (take_prekey j t))"
  by (rule take_prekey_cases [of j t]) (auto simp: spent_def inv_consume)

lemma inv_take: "otpk_inv t \<Longrightarrow> otpk_inv (snd (take_prekey j t))"
  by (rule take_prekey_cases [of j t]) (simp_all add: inv_consume)

lemma inv_others:
  "otpk_inv t \<Longrightarrow> otpk_inv (t\<lparr>tb_otpks := filter P (tb_otpks t)\<rparr>)"
  "otpk_inv t \<Longrightarrow> otpk_inv (t\<lparr>tb_now := now\<rparr>)"
  "otpk_inv t \<Longrightarrow> otpk_inv (snd (upd_signed_prekey user dev spk sig spkID t))"
  by (auto simp: otpk_inv_def distinct_map_filterI upd_signed_prekey_def)

text \<open>A row that was given to a client.\<close>

definition used_up :: "int \<Rightarrow> tables \<Rightarrow> bool" where
  "used_up i t \<longleftrightarrow> (\<exists>d k. spent i d k t)"

lemma used_up_kept:
  "used_up i t \<Longrightarrow> used_up i (snd (take_prekey j t))"
  "used_up i t \<Longrightarrow> used_up i (snd (ins_otpk_if_absent dev k key t))"
  "used_up i t \<Longrightarrow> used_up i (t\<lparr>tb_otpks := filter P (tb_otpks t)\<rparr>)"
  "used_up i t \<Longrightarrow> used_up i (t\<lparr>tb_now := now\<rparr>)"
  "used_up i t \<Longrightarrow> used_up i (snd (upd_signed_prekey user dev spk sig spkID t))"
  by (auto simp: used_up_def upd_signed_prekey_def intro: spent_take spent_ins spent_filter spent_other)

lemma take_uses_up:
  assumes "otpk_inv t" and "take_prekey i t = (Inr x, t')"
  shows "used_up i t'"
proof (cases rule: take_prekey_cases [of i t])
  case (2 p)
  define f where "f q = (if o_id q = i then q\<lparr>o_consumed := Some (tb_now t)\<rparr> else q)" for q :: otpk_row
  have t': "t' = t\<lparr>tb_otpks := map f (tb_otpks t)\<rparr>" using 2 assms(2) by (simp add: f_def [abs_def])
  have same: "q = p" if "q \<in> set (tb_otpks t)" "o_id q = i" for q
    using distinct_map_eq [of o_id "tb_otpks t" q p] assms(1) that 2(1,2) by (simp add: otpk_inv_def)
  have "o_id (f q) = i \<Longrightarrow> o_id q = i" for q by (simp add: f_def split: if_splits)
  moreover have "o_consumed (f p) \<noteq> None \<and> o_device (f p) = o_device p \<and> o_key_id (f p) = o_key_id p"
    using 2(2) by (simp add: f_def)
  ultimately have "\<forall>q \<in> set (tb_otpks t'). o_id q = i \<longrightarrow> o_consumed q \<noteq> None \<and> o_device q = o_device p \<and> o_key_id q = o_key_id p"
    using same by (simp add: t') metis
  moreover have "otpk_inv t'" unfolding t' f_def [abs_def] by (rule inv_consume) (rule assms(1))
  moreover have "i < seq_otpks t'" using assms(1) 2(1,2) by (auto simp: t' otpk_inv_def)
  ultimately show ?thesis by (auto simp: used_up_def spent_def)
qed (use assms in simp)

text \<open>What holds of the rows given so far: with the fetches that have chosen the row they are at
  most \<open>F\<close>, and a row that was given is never chosen again.\<close>

definition given_inv :: "nat \<Rightarrow> races \<Rightarrow> bool" where
  "given_inv F c \<longleftrightarrow> (case c of (t, M, h) \<Rightarrow> otpk_inv t \<and> fetches M \<le> F
     \<and> (\<forall>i. count h i + count M (Taking i) \<le> F) \<and> (\<forall>i. i \<in># h \<longrightarrow> used_up i t))"

lemma count_fetches: "count M (Taking i) \<le> fetches M"
  by (induction M) auto

lemma given_inv_step:
  assumes "race_step K F c c'" and "given_inv F c"
  shows "given_inv F c'"
  using assms
proof (induction rule: race_step.induct)
  case (pick dev t i M h)
  from pick(1) obtain p where p: "p \<in> set (tb_otpks t)" "o_id p = i" "o_consumed p = None" by (rule pick_prekey_SomeD)
  then have "\<not> used_up i t" by (auto simp: spent_def used_up_def)
  with pick(3) have "i \<notin># h" by (auto simp: given_inv_def)
  then have "count h i + count (add_mset (Taking i) M) (Taking i) \<le> F"
    using pick(2) count_fetches [of M i] by (simp add: not_in_iff)
  with pick(2,3) show ?case by (auto simp: given_inv_def)
next
  case (take i t x t' M h)
  have t': "t' = snd (take_prekey i t)" using take(1) by simp
  have inv: "otpk_inv t" using take(2) by (simp add: given_inv_def)
  have "count (add_mset i h) j + count M (Taking j) = count h j + count (add_mset (Taking i) M) (Taking j)" for j
    by simp
  then have "\<forall>j. count (add_mset i h) j + count M (Taking j) \<le> F" using take(2) by (simp only: given_inv_def prod.case) simp
  moreover have "\<forall>j. j \<in># add_mset i h \<longrightarrow> used_up j t'"
    using take(2) take_uses_up [OF inv take(1)] used_up_kept(1) [of _ t i] t' by (auto simp: given_inv_def)
  ultimately show ?case using take(2) inv_take [OF inv, of i] t' by (simp add: given_inv_def)
next
  case (lost t i M h)
  have "count h j + count M (Taking j) \<le> F" for j
    using lost by (auto simp: given_inv_def split: if_splits dest!: spec [of _ j])
  with lost show ?case by (auto simp: given_inv_def intro: used_up_kept inv_take)
next
  case (leave t r M h)
  have "count h j + count M (Taking j) \<le> F" for j
    using leave by (auto simp: given_inv_def split: if_splits dest!: spec [of _ j])
  with leave show ?case by (auto simp: given_inv_def split: if_splits)
next
  case (add t dev k ks M h key)
  then show ?case by (auto simp: given_inv_def snd_if_absent inv_ins_otpk intro: used_up_kept(2) [unfolded snd_if_absent])
qed (auto simp: given_inv_def intro: inv_others used_up_kept)

lemma given_inv_steps: "(race_step K F)\<^sup>*\<^sup>* c c' \<Longrightarrow> given_inv F c \<Longrightarrow> given_inv F c'"
  by (induction rule: rtranclp_induct) (auto intro: given_inv_step)

section \<open>The quota\<close>

lemma free_keys_fewer:
  "length (free_keys dev (snd (take_prekey i t))) \<le> length (free_keys dev t)"
  "length (free_keys dev (t\<lparr>tb_otpks := filter P (tb_otpks t)\<rparr>)) \<le> length (free_keys dev t)"
  by (rule take_prekey_cases [of i t])
    (auto simp: free_keys_def comp_def intro!: length_filter_mono split: if_splits)

lemma free_keys_same [simp]:
  "free_keys dev (t\<lparr>tb_now := now\<rparr>) = free_keys dev t"
  "free_keys dev (snd (upd_signed_prekey user d spk sig spkID t)) = free_keys dev t"
  by (simp_all add: free_keys_def upd_signed_prekey_def)

text \<open>Every upload in flight was admitted, and the keys there are with those to come are bounded.\<close>

definition load_inv :: "nat \<Rightarrow> races \<Rightarrow> bool" where
  "load_inv K c \<longleftrightarrow> (case c of (t, M, h) \<Rightarrow> \<forall>dev. uploads dev M \<le> K
     \<and> (\<forall>r \<in># M. left_for dev r \<le> 500) \<and> length (free_keys dev t) + pending dev M \<le> 500 * K)"

lemma pending_le: "\<forall>r \<in># M. left_for dev r \<le> 500 \<Longrightarrow> pending dev M \<le> 500 * uploads dev M"
proof (induction M)
  case (add r M)
  then show ?case by (cases r) auto
qed simp

lemma load_inv_fewer:
  assumes "load_inv K (t, M, h)" and "\<And>dev. length (free_keys dev t') \<le> length (free_keys dev t)"
  shows "load_inv K (t', M, h')"
proof -
  have "length (free_keys dev t') + pending dev M \<le> 500 * K" for dev
    using assms(1) assms(2) [of dev] by (auto simp: load_inv_def dest!: spec [of _ dev])
  with assms(1) show ?thesis by (simp add: load_inv_def)
qed

lemma load_inv_leave:
  assumes "load_inv K (t, add_mset r M, h)"
  shows "load_inv K (t, M, h)"
proof -
  have "uploads dev M \<le> K \<and> length (free_keys dev t) + pending dev M \<le> 500 * K" for dev
    using assms by (auto simp: load_inv_def split: if_splits dest!: spec [of _ dev])
  with assms show ?thesis by (simp add: load_inv_def)
qed

lemma load_inv_step:
  assumes "race_step K F c c'" and "load_inv K c"
  shows "load_inv K c'"
  using assms
proof (induction rule: race_step.induct)
  case (admit dev t ks M h)
  have n: "length (free_keys dev t) + length ks \<le> 500" using admit(1) by (simp add: MaxOneTimePrekeysPerDevice_def)
  have "pending dev M \<le> 500 * uploads dev M" using admit(3) by (intro pending_le) (simp add: load_inv_def)
  with n admit(2) have "length (free_keys dev t) + (length ks + pending dev M) \<le> 500 * K" by linarith
  with n admit(2,3) show ?case by (auto simp: load_inv_def)
next
  case (add t dev k ks M h key)
  have "length (free_keys d (snd (ins_otpk_if_absent dev k key t))) + pending d (add_mset (Adding dev ks) M) \<le> 500 * K" for d
    using add free_keys_ins [of d dev k key t] by (auto simp: load_inv_def split: if_splits dest!: spec [of _ d])
  moreover have "left_for d (Adding dev ks) \<le> 500" for d
    using add by (auto simp: load_inv_def dest!: spec [of _ d])
  ultimately show ?case using add by (auto simp: load_inv_def)
next
  case (leave t r M h)
  then show ?case by (rule load_inv_leave)
next
  case (take i t x t' M h)
  have "t' = snd (take_prekey i t)" using take(1) by simp
  with load_inv_fewer [OF load_inv_leave [OF take(2)]] free_keys_fewer(1) show ?case by simp
next
  case (lost t i M h)
  with load_inv_fewer [OF load_inv_leave [OF lost]] free_keys_fewer(1) show ?case by simp
next
  case (clean t M h)
  with load_inv_fewer [OF clean] free_keys_fewer(2) show ?case by simp
qed (auto simp: load_inv_def)

lemma load_inv_steps: "(race_step K F)\<^sup>*\<^sup>* c c' \<Longrightarrow> load_inv K c \<Longrightarrow> load_inv K c'"
  by (induction rule: rtranclp_induct) (auto intro: load_inv_step)

section \<open>The operations are runs of the steps\<close>

lemma race_first: "race_step K F a b \<Longrightarrow> (race_step K F)\<^sup>*\<^sup>* b c \<Longrightarrow> (race_step K F)\<^sup>*\<^sup>* a c"
  by (rule converse_rtranclp_into_rtranclp)

lemma race_leave: "(race_step K F)\<^sup>*\<^sup>* (t, add_mset r M, h) (t, M, h)"
  by (rule r_into_rtranclp) (rule race_step.leave)

lemma put_prekey_tabs:
  assumes "run_state (put_prekey c dev pk) s = (r, s')"
  shows "tabs s' = tabs s \<or> (\<exists>key. tabs s' = snd (ins_otpk_if_absent dev (pk_KeyID pk) key (tabs s)))"
proof -
  obtain x s1 where x: "run_state (Encrypt c (pk_Key pk)) s = (x, s1)" by fastforce
  note t1 = conjunct1 [OF col.enc_tabs [OF x]]
  show ?thesis
  proof (cases x)
    case (Inl e)
    with x t1 assms show ?thesis by (simp add: put_prekey_def)
  next
    case (Inr key)
    obtain y s2 where y: "run_state (stmt (ins_otpk_if_absent dev (pk_KeyID pk) key)) s1 = (y, s2)" by fastforce
    with x Inr assms have "s' = s2" by (simp add: put_prekey_def)
    with stmt_tabs [OF y] t1 show ?thesis by auto
  qed
qed

lemma put_prekey_InrD:
  assumes "run_state (put_prekey c dev pk) s = (Inr u, s')"
  shows "\<exists>key. tabs s' = snd (ins_otpk_if_absent dev (pk_KeyID pk) key (tabs s))"
proof -
  obtain x s1 where x: "run_state (Encrypt c (pk_Key pk)) s = (x, s1)" by fastforce
  with assms obtain key where key: "x = Inr key" by (cases x) (auto simp: put_prekey_def)
  obtain y s2 where y: "run_state (stmt (ins_otpk_if_absent dev (pk_KeyID pk) key)) s1 = (y, s2)" by fastforce
  with assms x key obtain v where "y = Inr v" "s' = s2" by (cases y) (auto simp: put_prekey_def)
  with stmt_InrD [of "ins_otpk_if_absent dev (pk_KeyID pk) key" s1] y conjunct1 [OF col.enc_tabs [OF x]] show ?thesis
    by (metis snd_conv)
qed

lemma put_prekeys_path:
  assumes "run_state (for_err (put_prekey c dev) pks) s = (r, s')"
  shows "(race_step K F)\<^sup>*\<^sup>* (tabs s, add_mset (Adding dev (map pk_KeyID pks)) M, h) (tabs s', M, h)"
  using assms
proof (induction pks arbitrary: s)
  case Nil
  then show ?case by (simp add: race_leave)
next
  case (Cons pk pks)
  obtain x s1 where x: "run_state (put_prekey c dev pk) s = (x, s1)" by fastforce
  let ?c = "(tabs s, add_mset (Adding dev (map pk_KeyID (pk # pks))) M, h)"
  have add: "race_step K F ?c (snd (ins_otpk_if_absent dev (pk_KeyID pk) key (tabs s)), add_mset (Adding dev (map pk_KeyID pks)) M, h)" for key
    unfolding list.map by (rule race_step.add)
  show ?case
  proof (cases x)
    case (Inl e)
    with Cons.prems x have "s' = s1" by simp
    from put_prekey_tabs [OF x] show ?thesis
    proof
      assume "tabs s1 = tabs s"
      with \<open>s' = s1\<close> show ?thesis by (simp add: race_leave)
    next
      assume "\<exists>key. tabs s1 = snd (ins_otpk_if_absent dev (pk_KeyID pk) key (tabs s))"
      with \<open>s' = s1\<close> race_first [OF add race_leave] show ?thesis by auto
    qed
  next
    case (Inr u)
    with Cons.prems x have "run_state (for_err (put_prekey c dev) pks) s1 = (r, s')" by simp
    note rest = Cons.IH [OF this]
    obtain key where "tabs s1 = snd (ins_otpk_if_absent dev (pk_KeyID pk) key (tabs s))"
      using put_prekey_InrD [OF x [unfolded Inr]] by blast
    with rest add [of key] show ?thesis by (simp add: race_first)
  qed
qed

text \<open>The tables reached from \<open>t\<close> with no request in flight at the end.\<close>

definition reached :: "nat \<Rightarrow> nat \<Rightarrow> tables \<Rightarrow> int multiset \<Rightarrow> tables \<Rightarrow> bool" where
  "reached K F t h t' \<longleftrightarrow> otpk_inv t' \<and> (\<exists>h'. (race_step K F)\<^sup>*\<^sup>* (t, {#}, h) (t', {#}, h'))"

lemma reached_step: "reached K F t h t1 \<Longrightarrow> (\<And>h1. race_step K F (t1, {#}, h1) (t2, {#}, h1)) \<Longrightarrow> otpk_inv t2 \<Longrightarrow> reached K F t h t2"
  unfolding reached_def by (meson rtranclp.rtrancl_into_rtrancl)

lemma inv_race_step: "race_step K F c c' \<Longrightarrow> otpk_inv (fst c) \<Longrightarrow> otpk_inv (fst c')"
proof (induction rule: race_step.induct)
  case (take i t x t' M h)
  with inv_take [of t i] show ?case by simp
qed (auto simp: snd_if_absent intro: inv_ins_otpk inv_take inv_others)

lemma inv_race: "(race_step K F)\<^sup>*\<^sup>* c c' \<Longrightarrow> otpk_inv (fst c) \<Longrightarrow> otpk_inv (fst c')"
  by (induction rule: rtranclp_induct) (auto intro: inv_race_step)

text \<open>A claim that is answered is a choice and an update, and its row is the one the answer is from.\<close>

lemma claim_path:
  assumes "0 < F" "otpk_inv t" "claim_prekey dev t = (Inr x, t')"
  shows "\<exists>p \<in> set (tb_otpks t). o_device p = dev \<and> x = (o_prekey p, o_key_id p)
    \<and> (\<forall>h. (race_step K F)\<^sup>*\<^sup>* (t, {#}, h) (t', {#}, add_mset (o_id p) h))"
proof -
  from assms(3) obtain i where i: "pick_prekey dev t = Some i" "take_prekey i t = (Inr x, t')"
    by (simp add: claim_pick_take [OF assms(2)] split: option.splits)
  from i(1) obtain p where p: "p \<in> set (tb_otpks t)" "o_id p = i" "o_device p = dev" by (rule pick_prekey_SomeD)
  have "race_step K F (t, {#}, h) (t, {#Taking i#}, h)" for h by (rule race_step.pick [OF i(1)]) (simp add: assms(1))
  moreover have "race_step K F (t, {#Taking i#}, h) (t', {#}, add_mset i h)" for h by (rule race_step.take [OF i(2)])
  ultimately have path: "(race_step K F)\<^sup>*\<^sup>* (t, {#}, h) (t', {#}, add_mset i h)" for h by (blast intro: race_first)
  show ?thesis
  proof (cases rule: take_prekey_cases [of i t])
    case (2 q)
    then have "q = p" using distinct_map_eq [of o_id "tb_otpks t" q p] assms(2) p by (simp add: otpk_inv_def)
    with 2 i(2) p path show ?thesis by (intro bexI [of _ p]) simp_all
  qed (use i(2) in simp)
qed

lemma reached_claim:
  assumes "0 < F" "reached K F t h t1"
  shows "reached K F t h (snd (claim_prekey dev t1))"
proof (cases "fst (claim_prekey dev t1)")
  case (Inl e)
  then have "snd (claim_prekey dev t1) = t1" by (auto simp: claim_prekey_def split: list.splits)
  with assms show ?thesis by simp
next
  case (Inr x)
  from assms(2) obtain h1 where h1: "otpk_inv t1" "(race_step K F)\<^sup>*\<^sup>* (t, {#}, h) (t1, {#}, h1)" by (auto simp: reached_def)
  from Inr have "claim_prekey dev t1 = (Inr x, snd (claim_prekey dev t1))" by (metis prod.collapse)
  then obtain p :: otpk_row where "\<forall>h. (race_step K F)\<^sup>*\<^sup>* (t1, {#}, h) (snd (claim_prekey dev t1), {#}, add_mset (o_id p) h)"
    using claim_path [OF assms(1) h1(1), where K = K] by blast
  with h1 inv_claim [OF h1(1)] show ?thesis by (auto simp: reached_def intro: rtranclp_trans)
qed

lemma reached_inv: "reached K F t h t' \<Longrightarrow> otpk_inv t'"
  by (simp add: reached_def)

lemma reached_put_signed_prekey:
  "keeps (on_tabs (reached K F t h)) (put_signed_prekey E c user dev spk sig spkID signKey)"
  by (rule keeps_put_signed_prekey) (rule reached_step, assumption, rule race_step.sign, intro inv_others, erule reached_inv)

lemma reached_UpdateKeys:
  assumes "0 < K" "reached K F t h (tabs s)"
    and r: "run_state (UpdateKeys E S user dev spk sig spkID prekeys signKey) s = (r, s')"
  shows "reached K F t h (tabs s')"
proof -
  obtain x s1 where x: "run_state (put_signed_prekey E (kd_enc S) user dev spk sig spkID signKey) s = (x, s1)" by fastforce
  have r1: "reached K F t h (tabs s1)" using tripleD [OF reached_put_signed_prekey _ x] assms(2) by (simp add: on_tabs_def)
  obtain n s2 where n: "run_state (query_row (\<lambda>t. [int (length (free_keys dev t))])) s1 = (n, s2)" by fastforce
  note t2 = query_row_tabs [OF n]
  show ?thesis
  proof (cases "s' = s1 \<or> s' = s2")
    case True
    with r1 t2 show ?thesis by auto
  next
    case False
    with r x n obtain k where k: "n = Inr k" "\<not> k + int (length prekeys) > MaxOneTimePrekeysPerDevice"
      and f: "run_state (for_err (put_prekey (kd_enc S) dev) prekeys) s2 = (r, s')"
      by (auto simp: UpdateKeys_def split: sum.splits if_splits)
    have "k = int (length (free_keys dev (tabs s2)))" using query_row_InrD n k(1) t2 by fastforce
    with k assms(1) have "race_step K F (tabs s2, {#}, h') (tabs s2, {#Adding dev (map pk_KeyID prekeys)#}, h')" for h'
      by (intro race_step.admit) auto
    from race_first [OF this put_prekeys_path [OF f]]
    have p: "(race_step K F)\<^sup>*\<^sup>* (tabs s2, {#}, h') (tabs s', {#}, h')" for h' .
    with r1 t2 inv_race [OF p] show ?thesis unfolding reached_def by (metis fst_conv rtranclp_trans)
  qed
qed

lemma reached_keydir_step:
  assumes "keydir_step s s'" and "0 < K" "0 < F" "reached K F t h (tabs s)"
  shows "reached K F t h (tabs s')"
  using assms
proof (induction rule: keydir_step.induct)
  case (get_user E S userID s r s')
  have "keeps (on_tabs (reached K F t h)) (GetBundleForUser E S userID)"
    by (intro keeps_GetBundleForUser reached_claim get_user)
  from tripleD [OF this _ get_user(1)] get_user(4) show ?case by (simp add: on_tabs_def)
next
  case (get_device E S userID deviceID s q s')
  then show ?case by (simp add: GetBundle_invalid)
next
  case (put E S user dev spk sig spkID prekeys signKey s u s')
  from reached_UpdateKeys [OF put(2,4,1)] show ?case .
next
  case (clean s n s')
  have "keeps (on_tabs (reached K F t h)) CleanupOldConsumedPrekeys"
    by (rule keeps_Cleanup) (rule reached_step, assumption, rule race_step.clean, intro inv_others, erule reached_inv)
  from tripleD [OF this _ clean(1)] clean(4) show ?case by (simp add: on_tabs_def)
next
  case (tick s' now s)
  have "reached K F t h ((tabs s)\<lparr>tb_now := now\<rparr>)"
    using tick(4) by (rule reached_step) (rule race_step.tick, intro inv_others reached_inv [OF tick(4)])
  with tick(1) show ?case by simp
qed

lemma reached_keydir_steps:
  assumes "keydir_step\<^sup>*\<^sup>* s s'" and "0 < K" "0 < F" "reached K F t h (tabs s)"
  shows "reached K F t h (tabs s')"
  using assms(1,4) by (induction rule: rtranclp_induct) (auto intro: reached_keydir_step assms(2,3))

section \<open>Two fetches, and two uploads, at a time\<close>

lemma demo_pick: "pick_prekey 7 demo_keys = Some 1"
  by (simp add: pick_prekey_def free_keys_def demo_keys_def empty_tables_def)

lemma demo_take:
  "take_prekey 1 demo_keys = (Inr (''k1'', 1), snd (take_prekey 1 demo_keys))"
  "take_prekey 1 (snd (take_prekey 1 demo_keys)) = (Inr (''k1'', 1), snd (take_prekey 1 demo_keys))"
  by (simp_all add: take_prekey_def demo_keys_def empty_tables_def)

lemma same_prekey_twice:
  "(race_step 1 2)\<^sup>*\<^sup>* (demo_keys, {#}, {#}) (snd (take_prekey 1 demo_keys), {#}, {#1, 1#})"
proof -
  let ?t = "snd (take_prekey 1 demo_keys)"
  have "race_step 1 2 (demo_keys, {#}, {#}) (demo_keys, {#Taking 1#}, {#})" by (rule race_step.pick [OF demo_pick]) simp
  moreover have "race_step 1 2 (demo_keys, {#Taking 1#}, {#}) (demo_keys, {#Taking 1, Taking 1#}, {#})"
    by (rule race_step.pick [OF demo_pick]) simp
  moreover have "race_step 1 2 (demo_keys, {#Taking 1, Taking 1#}, {#}) (?t, {#Taking 1#}, {#1#})"
    by (rule race_step.take [OF demo_take(1)])
  moreover have "race_step 1 2 (?t, {#Taking 1#}, {#1#}) (?t, {#}, {#1, 1#})"
    by (rule race_step.take [OF demo_take(2)])
  ultimately show ?thesis by (blast intro: race_first)
qed

lemma inserts_path:
  assumes "distinct ks" "dev \<in> d_id ` set (tb_devices t)" "\<forall>p \<in> set (tb_otpks t). o_device p = dev \<longrightarrow> o_key_id p \<notin> set ks"
  shows "\<exists>t'. (race_step K F)\<^sup>*\<^sup>* (t, add_mset (Adding dev ks) M, h) (t', M, h)
    \<and> length (free_keys dev t') = length (free_keys dev t) + length ks \<and> tb_devices t' = tb_devices t
    \<and> (\<forall>p \<in> set (tb_otpks t'). o_device p = dev \<longrightarrow> o_key_id p \<in> set ks \<or> p \<in> set (tb_otpks t))"
  using assms
proof (induction ks arbitrary: t)
  case Nil
  then show ?case by (intro exI [of _ t]) (simp add: race_leave)
next
  case (Cons k ks)
  let ?t = "snd (ins_otpk_if_absent dev k [] t)"
  let ?p = "\<lparr> o_id = seq_otpks t, o_device = dev, o_key_id = k, o_prekey = [], o_consumed = None \<rparr>"
  have "\<not> list_ex (\<lambda>p. o_device p = dev \<and> o_key_id p = k) (tb_otpks t)" using Cons.prems(3) by (auto simp: list_ex_iff)
  then have t: "tb_otpks ?t = tb_otpks t @ [?p]" "tb_devices ?t = tb_devices t"
    using Cons.prems(2) by (simp_all add: snd_if_absent ins_otpk_def Let_def)
  have "distinct ks" "dev \<in> d_id ` set (tb_devices ?t)" "\<forall>p \<in> set (tb_otpks ?t). o_device p = dev \<longrightarrow> o_key_id p \<notin> set ks"
    using Cons.prems by (auto simp: t)
  from Cons.IH [OF this] obtain t' where t': "(race_step K F)\<^sup>*\<^sup>* (?t, add_mset (Adding dev ks) M, h) (t', M, h)"
      "length (free_keys dev t') = length (free_keys dev ?t) + length ks" "tb_devices t' = tb_devices ?t"
      "\<forall>p \<in> set (tb_otpks t'). o_device p = dev \<longrightarrow> o_key_id p \<in> set ks \<or> p \<in> set (tb_otpks ?t)" by blast
  have "o_key_id p \<in> set (k # ks) \<or> p \<in> set (tb_otpks t)" if "p \<in> set (tb_otpks t')" "o_device p = dev" for p
  proof (cases "p = ?p")
    case False
    with bspec [OF t'(4) that(1)] that(2) t(1) show ?thesis by auto
  qed simp
  with race_first [OF race_step.add t'(1)] t'(2,3) t show ?case
    by (intro exI [of _ t']) (simp add: free_keys_def)
qed

lemma GetBundleForUser_path:
  assumes "run_state (GetBundleForUser E S userID) s = (Inr (b, dev), s')" "bu_OneTimePrekey b = Some k"
    and "otpk_inv (tabs s)" "0 < F"
  shows "\<exists>p \<in> set (tb_otpks (tabs s)). o_device p = dev \<and> o_key_id p = pk_KeyID k
    \<and> (\<forall>h. (race_step K F)\<^sup>*\<^sup>* (tabs s, {#}, h) (tabs s', {#}, add_mset (o_id p) h))"
proof -
  obtain q s1 where q: "run_state (query_row (first_device E (bare_name userID))) s = (q, s1)" by fastforce
  with assms(1) obtain d b0 where d: "q = Inr d" "dev = d_id d" and b0: "decrypt_bundle (kd_enc S) d = Inr b0"
    and a: "run_state (add_prekey (kd_enc S) (d_id d) b0) s1 = (Inr b, s')"
    by (auto simp: GetBundleForUser_def Let_def split: if_splits sum.splits prod.splits)
  obtain x s2 where x: "run_state (stmt (claim_prekey dev)) s1 = (x, s2)" by fastforce
  with a d(2) assms(2) decrypt_bundle_None [OF b0] obtain key keyID where kk: "x = Inr (key, keyID)" "s' = s2" "pk_KeyID k = keyID"
    by (auto simp: add_prekey_def split: sum.splits prod.splits)
  have c: "claim_prekey dev (tabs s) = (Inr (key, keyID), tabs s')"
    using stmt_InrD [of "claim_prekey dev" s1] x kk query_row_tabs [OF q] by simp
  from claim_path [OF assms(4,3) c, where K = K] kk show ?thesis by auto
qed

text \<open>C9: a one-time prekey under concurrent fetches: however the statements of uploads, fetches,
  clean-ups interleave, with failures at any place, each row is given to at most as many clients as
  there are fetches in flight at a time: to one when fetches do not overlap, and the code does not
  prevent more (the witness runs two).\<close>

theorem prekey_given_at_most:
  assumes "(race_step K F)\<^sup>*\<^sup>* (t, {#}, {#}) (t', M, h)" and "otpk_inv t"
  shows "count h i \<le> F"
proof -
  have "given_inv F (t, {#}, {#})" using assms(2) by (simp add: given_inv_def)
  from given_inv_steps [OF assms(1) this] have "count h i + count M (Taking i) \<le> F" by (simp add: given_inv_def)
  then show ?thesis by simp
qed

theorem prekey_given_at_most_witness:
  "(race_step 1 2)\<^sup>*\<^sup>* (demo_keys, {#}, {#}) (snd (take_prekey 1 demo_keys), {#}, {#1, 1#})
    \<and> count {#1, 1 :: int#} 1 = 2 \<and> count {#1, 1 :: int#} 1 \<le> (2 :: nat)"
  using prekey_given_at_most [OF same_prekey_twice, of 1] same_prekey_twice by simp

text \<open>The quota under concurrent uploads: with at most \<open>K\<close> uploads of a device in flight at a time,
  it never has more than \<open>K\<close> times the quota of unconsumed prekeys, in any interleaving and with
  failures at any place; for one upload at a time that is the quota, and the code does not prevent
  more (the witness runs two, which leave 1000 keys).\<close>

theorem concurrent_quota:
  assumes "(race_step K F)\<^sup>*\<^sup>* (t, {#}, h) (t', M, h')" and "quota_ok t" and "0 < K"
  shows "int (length (free_keys dev t')) \<le> int K * MaxOneTimePrekeysPerDevice"
proof -
  have "length (free_keys d t) \<le> 500 * K" for d
  proof -
    have "int (length (free_keys d t)) \<le> 500" using assms(2) by (simp add: quota_ok_def MaxOneTimePrekeysPerDevice_def)
    then show ?thesis using assms(3) by linarith
  qed
  then have "load_inv K (t, {#}, h)" by (simp add: load_inv_def)
  from load_inv_steps [OF assms(1) this] have "length (free_keys dev t') \<le> 500 * K" by (auto simp: load_inv_def dest!: spec [of _ dev])
  then show ?thesis by (simp add: MaxOneTimePrekeysPerDevice_def)
qed

lemma two_uploads_of:
  fixes ks ls :: "int list"
  assumes "distinct ks" "distinct ls" "set ks \<inter> set ls = {}" "length ks = 500" "length ls = 500"
  shows "\<exists>t'. (race_step 2 1)\<^sup>*\<^sup>* (demo_keys\<lparr>tb_otpks := []\<rparr>, {#}, {#}) (t', {#}, {#}) \<and> length (free_keys 7 t') = 1000"
proof -
  let ?t = "demo_keys\<lparr>tb_otpks := []\<rparr>" and ?a = "Adding 7 ks" and ?b = "Adding 7 ls"
  have d: "7 \<in> d_id ` set (tb_devices ?t)" by (simp add: demo_keys_def demo_device_def)
  have a: "race_step 2 1 (?t, {#}, {#}) (?t, {#?a#}, {#})"
    by (rule race_step.admit) (simp_all add: free_keys_def MaxOneTimePrekeysPerDevice_def assms)
  have b: "race_step 2 1 (?t, {#?a#}, {#}) (?t, {#?b, ?a#}, {#})"
    by (rule race_step.admit) (simp_all add: free_keys_def MaxOneTimePrekeysPerDevice_def assms)
  obtain t1 where t1: "(race_step 2 1)\<^sup>*\<^sup>* (?t, {#?b, ?a#}, {#}) (t1, {#?a#}, {#})" "length (free_keys 7 t1) = 500"
      "tb_devices t1 = tb_devices ?t" "\<forall>p \<in> set (tb_otpks t1). o_device p = 7 \<longrightarrow> o_key_id p \<in> set ls"
    using inserts_path [of ls 7 ?t 2 1 "{#?a#}" "{#}"] d assms by (auto simp: free_keys_def)
  have "\<forall>p \<in> set (tb_otpks t1). o_device p = 7 \<longrightarrow> o_key_id p \<notin> set ks" using t1(4) assms(3) by blast
  with inserts_path [of ks 7 t1 2 1 "{#}" "{#}"] d t1(2,3) assms obtain t2
    where "(race_step 2 1)\<^sup>*\<^sup>* (t1, {#?a#}, {#}) (t2, {#}, {#})" "length (free_keys 7 t2) = 1000" by auto
  with race_first [OF a race_first [OF b t1(1)]] show ?thesis by (blast intro: rtranclp_trans)
qed

lemma two_uploads:
  "\<exists>t'. (race_step 2 1)\<^sup>*\<^sup>* (demo_keys\<lparr>tb_otpks := []\<rparr>, {#}, {#}) (t', {#}, {#}) \<and> length (free_keys 7 t') = 1000"
proof (rule two_uploads_of)
  show "set [1..500] \<inter> set [501..1000] = {}" by (simp only: set_upto atLeastAtMost_iff disjoint_iff) linarith
  show "length [1..500] = 500" "length [501..1000] = 500" by (subst length_upto, simp)+
qed (rule distinct_upto)+

theorem concurrent_quota_witness:
  "\<exists>t'. (race_step 2 1)\<^sup>*\<^sup>* (demo_keys\<lparr>tb_otpks := []\<rparr>, {#}, {#}) (t', {#}, {#}) \<and> length (free_keys 7 t') = 1000
    \<and> int (length (free_keys 7 t')) \<le> int 2 * MaxOneTimePrekeysPerDevice"
proof -
  obtain t' where t': "(race_step 2 1)\<^sup>*\<^sup>* (demo_keys\<lparr>tb_otpks := []\<rparr>, {#}, {#}) (t', {#}, {#})" "length (free_keys 7 t') = 1000"
    using two_uploads by blast
  have "quota_ok (demo_keys\<lparr>tb_otpks := []\<rparr>)" by (simp add: quota_ok_def free_keys_def MaxOneTimePrekeysPerDevice_def)
  from concurrent_quota [OF t'(1) this, of 7] t' show ?thesis by auto
qed

text \<open>C10: the operations of the directory, run one after the other under any faults, are runs of the
  statements of the interleaved model, with no request left in flight; and a fetch that returns a
  one-time prekey is there a step that gives exactly the row of that key.\<close>

theorem keydir_is_interleaving:
  assumes "keydir_step\<^sup>*\<^sup>* s s'" and "otpk_inv (tabs s)" "0 < K" "0 < F"
  shows "(\<exists>h'. (race_step K F)\<^sup>*\<^sup>* (tabs s, {#}, h) (tabs s', {#}, h'))
    \<and> (run_state (GetBundleForUser E S userID) s' = (Inr (b, dev), s'') \<and> bu_OneTimePrekey b = Some k
       \<longrightarrow> (\<exists>p \<in> set (tb_otpks (tabs s')). o_device p = dev \<and> o_key_id p = pk_KeyID k
            \<and> (\<forall>h'. (race_step K F)\<^sup>*\<^sup>* (tabs s', {#}, h') (tabs s'', {#}, add_mset (o_id p) h'))))"
proof -
  have "reached K F (tabs s) h (tabs s)" using assms(2) by (auto simp: reached_def)
  from reached_keydir_steps [OF assms(1,3,4) this] have r: "reached K F (tabs s) h (tabs s')" .
  then have inv: "otpk_inv (tabs s')" by (rule reached_inv)
  show ?thesis using r GetBundleForUser_path [OF _ _ inv assms(4)] by (auto simp: reached_def)
qed

theorem keydir_is_interleaving_witness:
  "\<exists>s1 b s2 (p :: otpk_row). keydir_step\<^sup>*\<^sup>* (session_on demo_keys []) s1
    \<and> run_state (GetBundleForUser demo_env demo_dir ''@ann:a.org'') s1 = (Inr (b, 7), s2)
    \<and> (\<exists>h. (race_step 1 1)\<^sup>*\<^sup>* (demo_keys, {#}, {#}) (tabs s1, {#}, h)) \<and> o_key_id p = 2
    \<and> (race_step 1 1)\<^sup>*\<^sup>* (tabs s1, {#}, {#}) (tabs s2, {#}, {#o_id p#})"
proof -
  obtain b1 s1 b s2 where g: "run_state (GetBundleForUser demo_env demo_dir ''@ann:a.org'') (session_on demo_keys []) = (Inr (b1, 7), s1)"
      "run_state (GetBundleForUser demo_env demo_dir ''@ann:a.org'') s1 = (Inr (b, 7), s2)"
      "bu_OneTimePrekey b = Some \<lparr> pk_Key = ''k2'', pk_KeyID = 2 \<rparr>"
    using demo_first by blast
  have st: "keydir_step\<^sup>*\<^sup>* (session_on demo_keys []) s1" using keydir_step.get_user [OF g(1)] by blast
  have "otpk_inv (tabs (session_on demo_keys []))" by (simp add: session_on_def)
  from keydir_is_interleaving [OF st this, of 1 1 "{#}" demo_env demo_dir "''@ann:a.org''" b 7 s2 "\<lparr> pk_Key = ''k2'', pk_KeyID = 2 \<rparr>"] g(2,3)
  have "\<exists>h. (race_step 1 1)\<^sup>*\<^sup>* (demo_keys, {#}, {#}) (tabs s1, {#}, h)"
    "\<exists>p :: otpk_row. o_key_id p = 2 \<and> (\<forall>h'. (race_step 1 1)\<^sup>*\<^sup>* (tabs s1, {#}, h') (tabs s2, {#}, add_mset (o_id p) h'))"
    by (auto simp: session_on_def)
  with st g(2) show ?thesis by blast
qed

end
