(* ===== verification/Auth.thy ===== *)
theory Auth
  imports Keydir
begin

text \<open>
  Package \<open>auth\<close> (\<open>src/server/internal/auth/auth.go\<close>): accounts, devices, access tokens,
  encrypted key backups and the sessions of users whose home is another server. A JSON web
  token is what the environment's \<open>jwt_sign\<close> makes of a set of claims; \<open>jwt_parse\<close> gives the
  claims back if the signature, the algorithm and the expiry are in order. A nil and an empty
  byte slice are not told apart in this package.
\<close>

section \<open>Accounts\<close>

definition tokenExpiryHours :: int where "tokenExpiryHours = 24"
definition wsTokenExpirySec :: int where "wsTokenExpirySec = 60"
definition tokenAudience :: string where "tokenAudience = ''api''"

record auth =
  au_domain :: string
  au_jwt :: bytes
  au_enc :: cipher

datatype auth_err = ErrUsernameTaken | ErrInvalidToken | ErrInvalidCredentials | ErrTooManyPrekeys
  | ErrDeviceKeysRequired | ErrHash | ErrSign | ErrRandom | AuthEnc enc_err | AuthDB db_err

record register_input =
  ri_Username :: string
  ri_Password :: string
  ri_DeviceID :: uuid
  ri_IdentityKey :: bytes
  ri_SignedPrekey :: bytes
  ri_SignedPrekeySig :: bytes
  ri_SignedPrekeyID :: int
  ri_OneTimePrekeys :: "prekey_item list"
  ri_KeysBackupSalt :: bytes
  ri_KeysBackupBlob :: bytes

text \<open>Statements; a failed insert into \<open>users\<close> has used up a value of the sequence.\<close>

definition ins_user :: "string \<Rightarrow> string \<Rightarrow> bytes \<Rightarrow> tables \<Rightarrow> (db_err + int) \<times> tables" where
  "ins_user username domain ph t0 =
     (let t = t0\<lparr>seq_users := seq_users t0 + 1\<rparr> in
      if list_ex (\<lambda>u. u_domain u = domain \<and> u_username u = username) (tb_users t) then (Inl UniqueViolation, t)
      else (Inr (seq_users t0), t\<lparr>tb_users := tb_users t @
        [\<lparr> u_id = seq_users t0, u_username = username, u_domain = domain, u_password_hash = Some ph \<rparr>]\<rparr>))"

definition ins_device :: "uuid \<Rightarrow> int \<Rightarrow> bytes \<Rightarrow> bytes \<Rightarrow> bytes \<Rightarrow> int \<Rightarrow> tables \<Rightarrow> (db_err + unit) \<times> tables" where
  "ins_device dev user ik spk sig spkID t =
     (if dev \<in> d_id ` set (tb_devices t) then (Inl UniqueViolation, t)
      else if user \<notin> u_id ` set (tb_users t) then (Inl ForeignKeyViolation, t)
      else (Inr (), t\<lparr>tb_devices := tb_devices t @
        [\<lparr> d_id = dev, d_user = user, d_identity_key = ik, d_signed_prekey = spk, d_signed_prekey_sig = sig,
           d_signed_prekey_id = spkID, d_name = None, d_created = tb_now t, d_updated = tb_now t \<rparr>]\<rparr>))"

definition ins_token :: "int \<Rightarrow> uuid \<Rightarrow> bytes \<Rightarrow> uuid \<Rightarrow> tables \<Rightarrow> (db_err + unit) \<times> tables" where
  "ins_token user dev h jti t0 =
     (let t = t0\<lparr>seq_tokens := seq_tokens t0 + 1\<rparr> in
      if Some jti \<in> a_jti ` set (tb_tokens t) then (Inl UniqueViolation, t)
      else if user \<notin> u_id ` set (tb_users t) \<or> dev \<notin> d_id ` set (tb_devices t) then (Inl ForeignKeyViolation, t)
      else (Inr (), t\<lparr>tb_tokens := tb_tokens t @
        [\<lparr> a_id = seq_tokens t0, a_user = user, a_device = dev, a_hash = h, a_jti = Some jti,
           a_expires = tb_now t + 24 * 3600 * 1000000, a_revoked = None \<rparr>]\<rparr>))"

definition register_prekey :: "cipher \<Rightarrow> uuid \<Rightarrow> prekey_item \<Rightarrow> (sess, auth_err + unit) state" where
  "register_prekey c dev pk = do {
     x \<leftarrow> Encrypt c (pk_Key pk);
     case x of
       Inl e \<Rightarrow> ret (Inl (AuthEnc e))
     | Inr key \<Rightarrow> do {
         y \<leftarrow> stmt (ins_otpk dev (pk_KeyID pk) key);
         ret (case y of Inl e \<Rightarrow> Inl (AuthDB e) | Inr _ \<Rightarrow> Inr ()) } }"

definition encrypt3 :: "cipher \<Rightarrow> bytes \<Rightarrow> bytes \<Rightarrow> bytes \<Rightarrow> (sess, auth_err + bytes \<times> bytes \<times> bytes) state" where
  "encrypt3 c ik spk sig = do {
     x \<leftarrow> Encrypt c ik;
     case x of Inl e \<Rightarrow> ret (Inl (AuthEnc e)) | Inr ik' \<Rightarrow> do {
     y \<leftarrow> Encrypt c spk;
     case y of Inl e \<Rightarrow> ret (Inl (AuthEnc e)) | Inr spk' \<Rightarrow> do {
     z \<leftarrow> Encrypt c sig;
     ret (case z of Inl e \<Rightarrow> Inl (AuthEnc e) | Inr sig' \<Rightarrow> Inr (ik', spk', sig')) } } }"

definition register_body :: "env \<Rightarrow> auth \<Rightarrow> register_input \<Rightarrow> (sess, auth_err + int) state" where
  "register_body E S inp =
     (case bcrypt_hash E (ri_Password inp) of
        None \<Rightarrow> ret (Inl ErrHash)
      | Some ph \<Rightarrow> do {
          x \<leftarrow> Encrypt (au_enc S) ph;
          case x of Inl e \<Rightarrow> ret (Inl (AuthEnc e)) | Inr stored \<Rightarrow> do {
          u \<leftarrow> stmt (ins_user (ri_Username inp) (au_domain S) stored);
          case u of Inl e \<Rightarrow> ret (Inl (AuthDB e)) | Inr uid \<Rightarrow> do {
          k \<leftarrow> encrypt3 (au_enc S) (ri_IdentityKey inp) (ri_SignedPrekey inp) (ri_SignedPrekeySig inp);
          case k of Inl e \<Rightarrow> ret (Inl e) | Inr (ik, spk, sig) \<Rightarrow> do {
          d \<leftarrow> stmt (ins_device (ri_DeviceID inp) uid ik spk sig (ri_SignedPrekeyID inp));
          case d of Inl e \<Rightarrow> ret (Inl (AuthDB e)) | Inr _ \<Rightarrow>
          if int (length (ri_OneTimePrekeys inp)) > MaxOneTimePrekeysPerDevice then ret (Inl ErrTooManyPrekeys)
          else do {
            p \<leftarrow> for_err (register_prekey (au_enc S) (ri_DeviceID inp)) (ri_OneTimePrekeys inp);
            ret (case p of Inl e \<Rightarrow> Inl e | Inr _ \<Rightarrow> Inr uid) } } } } })"

section \<open>Key backups\<close>

definition put_salt :: "int \<Rightarrow> bytes \<Rightarrow> tables \<Rightarrow> (db_err + unit) \<times> tables" where
  "put_salt user salt t =
     (if user \<in> bs_user ` set (tb_salts t)
      then (Inr (), t\<lparr>tb_salts := map (\<lambda>b. if bs_user b = user then b\<lparr>bs_salt := salt\<rparr> else b) (tb_salts t)\<rparr>)
      else if user \<notin> u_id ` set (tb_users t) then (Inl ForeignKeyViolation, t)
      else (Inr (), t\<lparr>tb_salts := tb_salts t @ [\<lparr> bs_user = user, bs_salt = salt \<rparr>]\<rparr>))"

definition put_backup :: "int \<Rightarrow> bytes \<Rightarrow> tables \<Rightarrow> (db_err + unit) \<times> tables" where
  "put_backup user blob t =
     (if user \<in> kb_user ` set (tb_backups t)
      then (Inr (), t\<lparr>tb_backups := map (\<lambda>b. if kb_user b = user then b\<lparr>kb_bundle := blob\<rparr> else b) (tb_backups t)\<rparr>)
      else if user \<notin> u_id ` set (tb_users t) then (Inl ForeignKeyViolation, t)
      else (Inr (), t\<lparr>tb_backups := tb_backups t @ [\<lparr> kb_user = user, kb_bundle = blob \<rparr>]\<rparr>))"

definition StoreKeyBackup :: "auth \<Rightarrow> int \<Rightarrow> bytes \<Rightarrow> bytes \<Rightarrow> (sess, auth_err + unit) state" where
  "StoreKeyBackup S user salt blob = in_tx AuthDB (do {
     x \<leftarrow> Encrypt (au_enc S) salt;
     case x of Inl e \<Rightarrow> ret (Inl (AuthEnc e)) | Inr salt' \<Rightarrow> do {
     y \<leftarrow> Encrypt (au_enc S) blob;
     case y of Inl e \<Rightarrow> ret (Inl (AuthEnc e)) | Inr blob' \<Rightarrow> do {
     a \<leftarrow> stmt (put_salt user salt');
     case a of Inl e \<Rightarrow> ret (Inl (AuthDB e)) | Inr _ \<Rightarrow> do {
     b \<leftarrow> stmt (put_backup user blob');
     ret (case b of Inl e \<Rightarrow> Inl (AuthDB e) | Inr _ \<Rightarrow> Inr ()) } } } })"

definition GetKeyBackup :: "auth \<Rightarrow> int \<Rightarrow> (sess, auth_err + bytes \<times> bytes) state" where
  "GetKeyBackup S user = do {
     q \<leftarrow> query_row (\<lambda>t. [(bs_salt b, kb_bundle k). b \<leftarrow> tb_salts t, k \<leftarrow> tb_backups t,
            kb_user k = bs_user b \<and> bs_user b = user]);
     ret (case q of
       Inl e \<Rightarrow> Inl (AuthDB e)
     | Inr (salt, blob) \<Rightarrow>
         (case Decrypt (au_enc S) salt of Inl e \<Rightarrow> Inl (AuthEnc e) | Inr salt' \<Rightarrow>
         (case Decrypt (au_enc S) blob of Inl e \<Rightarrow> Inl (AuthEnc e) | Inr blob' \<Rightarrow> Inr (salt', blob')))) }"

section \<open>Tokens\<close>

text \<open>\<open>jwt.NewNumericDate\<close> keeps whole seconds.\<close>

definition access_claims :: "env \<Rightarrow> auth \<Rightarrow> int \<Rightarrow> uuid \<Rightarrow> uuid \<Rightarrow> int \<Rightarrow> claims" where
  "access_claims E S user dev jti now = Map.empty(
     ''user_id'' \<mapsto> CNum user, ''device_id'' \<mapsto> CStr (uuid_str E dev), ''jti'' \<mapsto> CStr (uuid_str E jti),
     ''typ'' \<mapsto> CStr ''access'', ''iss'' \<mapsto> CStr (au_domain S), ''aud'' \<mapsto> CStr tokenAudience,
     ''exp'' \<mapsto> CNum (unix (now + tokenExpiryHours * 3600 * 1000000000)))"

definition issueToken :: "env \<Rightarrow> auth \<Rightarrow> int \<Rightarrow> uuid \<Rightarrow> (sess, auth_err + string \<times> uuid) state" where
  "issueToken E S user dev = do {
     jti \<leftarrow> uuid_new;
     now \<leftarrow> time_now;
     ret (case jwt_sign E (au_jwt S) (access_claims E S user dev jti now) of
       None \<Rightarrow> Inl ErrSign
     | Some tok \<Rightarrow> Inr (tok, jti)) }"

text \<open>The end of \<open>Register\<close> and \<open>Login\<close>: the token's row is written, its error ignored.\<close>

definition grant_token :: "env \<Rightarrow> auth \<Rightarrow> int \<Rightarrow> uuid \<Rightarrow> (sess, auth_err + string) state" where
  "grant_token E S user dev = do {
     i \<leftarrow> issueToken E S user dev;
     case i of
       Inl e \<Rightarrow> ret (Inl e)
     | Inr (tok, jti) \<Rightarrow> do {
         x \<leftarrow> Encrypt (au_enc S) (sha256 E tok);
         case x of
           Inl e \<Rightarrow> ret (Inl (AuthEnc e))
         | Inr h \<Rightarrow> do {
             _ \<leftarrow> stmt (ins_token user dev h jti);
             ret (Inr tok) } } }"

definition Register :: "env \<Rightarrow> auth \<Rightarrow> register_input \<Rightarrow> (sess, auth_err + string \<times> uuid \<times> string) state" where
  "Register E S inp = do {
     q \<leftarrow> query_row (\<lambda>t. [list_ex (\<lambda>u. u_domain u = au_domain S \<and> u_username u = ri_Username inp) (tb_users t)]);
     case q of
       Inl e \<Rightarrow> ret (Inl (AuthDB e))
     | Inr exists \<Rightarrow>
         if exists then ret (Inl ErrUsernameTaken)
         else do {
           r \<leftarrow> in_tx AuthDB (register_body E S inp);
           case r of
             Inl e \<Rightarrow> ret (Inl e)
           | Inr uid \<Rightarrow> do {
               _ \<leftarrow> (if ri_KeysBackupSalt inp \<noteq> [] \<and> ri_KeysBackupBlob inp \<noteq> []
                     then StoreKeyBackup S uid (ri_KeysBackupSalt inp) (ri_KeysBackupBlob inp) else ret (Inr ()));
               t \<leftarrow> grant_token E S uid (ri_DeviceID inp);
               ret (case t of
                 Inl e \<Rightarrow> Inl e
               | Inr tok \<Rightarrow> Inr (''@'' @ ri_Username inp @ '':'' @ au_domain S, ri_DeviceID inp, tok)) } } }"

definition str_claim :: "claims \<Rightarrow> string \<Rightarrow> string" where
  "str_claim c k = (case c k of Some (CStr s) \<Rightarrow> s | _ \<Rightarrow> '''')"

definition num_claim :: "claims \<Rightarrow> string \<Rightarrow> int" where
  "num_claim c k = (case c k of Some (CNum n) \<Rightarrow> n | _ \<Rightarrow> 0)"

text \<open>The last lines of both validations; a device id that does not parse is the nil UUID.\<close>

definition claimed :: "env \<Rightarrow> claims \<Rightarrow> int \<times> uuid" where
  "claimed E c = (num_claim c ''user_id'', case uuid_parse E (str_claim c ''device_id'') of None \<Rightarrow> 0 | Some d \<Rightarrow> d)"

definition live_token :: "uuid \<Rightarrow> tables \<Rightarrow> bool" where
  "live_token jti t \<longleftrightarrow>
     list_ex (\<lambda>a. a_jti a = Some jti \<and> a_revoked a = None \<and> a_expires a > tb_now t) (tb_tokens t)"

definition ValidateToken :: "env \<Rightarrow> auth \<Rightarrow> string \<Rightarrow> (sess, auth_err + int \<times> uuid) state" where
  "ValidateToken E S tok = do {
     now \<leftarrow> time_now;
     case jwt_parse E (au_jwt S) now tok of
       None \<Rightarrow> ret (Inl ErrInvalidToken)
     | Some c \<Rightarrow>
         if str_claim c ''jti'' = '''' then ret (Inl ErrInvalidToken)
         else (case uuid_parse E (str_claim c ''jti'') of
           None \<Rightarrow> ret (Inl ErrInvalidToken)
         | Some jti \<Rightarrow> do {
             q \<leftarrow> query_row (\<lambda>t. [live_token jti t]);
             ret (if q \<noteq> Inr True then Inl ErrInvalidToken
               else if str_claim c ''typ'' \<noteq> '''' \<and> str_claim c ''typ'' \<noteq> ''access'' then Inl ErrInvalidToken
               else if str_claim c ''iss'' \<noteq> '''' \<and> str_claim c ''iss'' \<noteq> au_domain S then Inl ErrInvalidToken
               else if str_claim c ''aud'' \<noteq> '''' \<and> str_claim c ''aud'' \<noteq> tokenAudience then Inl ErrInvalidToken
               else Inr (claimed E c)) }) }"

section \<open>Login\<close>

record login_input =
  li_Username :: string
  li_Password :: string
  li_DeviceID :: uuid
  li_RequestKeysRestore :: bool
  li_IdentityKey :: bytes
  li_SignedPrekey :: bytes
  li_SignedPrekeySig :: bytes
  li_SignedPrekeyID :: int
  li_OneTimePrekeys :: "prekey_item list"

record login_result =
  lr_UserID :: string
  lr_DeviceID :: uuid
  lr_Token :: string
  lr_KeysBackup :: "(bytes \<times> bytes) option"

definition password_ok :: "env \<Rightarrow> bytes \<Rightarrow> string \<Rightarrow> bool" where
  "password_ok E ph pw \<longleftrightarrow> (if ph \<noteq> [] then bcrypt_ok E ph pw else pw = '''')"

text \<open>
  The keys a new device gets: its own, or with \<open>RequestKeysRestore\<close> those of some device of the
  user (the query has no order; here the oldest row), empty when there is none or the query fails.
\<close>

definition new_device_keys :: "auth \<Rightarrow> int \<Rightarrow> login_input \<Rightarrow> (sess, auth_err + bytes \<times> bytes \<times> bytes \<times> int) state" where
  "new_device_keys S uid inp =
     (if li_IdentityKey inp \<noteq> [] then do {
        k \<leftarrow> encrypt3 (au_enc S) (li_IdentityKey inp) (li_SignedPrekey inp) (li_SignedPrekeySig inp);
        ret (case k of Inl e \<Rightarrow> Inl e | Inr (ik, spk, sig) \<Rightarrow> Inr (ik, spk, sig, li_SignedPrekeyID inp)) }
      else if li_RequestKeysRestore inp then do {
        q \<leftarrow> query_row (\<lambda>t. filter (\<lambda>d. d_user d = uid) (tb_devices t));
        ret (Inr (case q of
          Inl _ \<Rightarrow> ([], [], [], li_SignedPrekeyID inp)
        | Inr d \<Rightarrow> (d_identity_key d, d_signed_prekey d, d_signed_prekey_sig d, d_signed_prekey_id d))) }
      else ret (Inr ([], [], [], li_SignedPrekeyID inp)))"

definition login_prekey :: "cipher \<Rightarrow> uuid \<Rightarrow> prekey_item \<Rightarrow> (sess, auth_err + unit) state" where
  "login_prekey c dev pk = do {
     x \<leftarrow> Encrypt c (pk_Key pk);
     case x of
       Inl e \<Rightarrow> ret (Inl (AuthEnc e))
     | Inr key \<Rightarrow> do {
         _ \<leftarrow> stmt (ins_otpk dev (pk_KeyID pk) key);
         ret (Inr ()) } }"

definition add_device :: "auth \<Rightarrow> int \<Rightarrow> login_input \<Rightarrow> (sess, auth_err + unit) state" where
  "add_device S uid inp = do {
     k \<leftarrow> new_device_keys S uid inp;
     case k of
       Inl e \<Rightarrow> ret (Inl e)
     | Inr (ik, spk, sig, spkID) \<Rightarrow>
         if ik = [] then ret (Inl ErrDeviceKeysRequired)
         else do {
           d \<leftarrow> stmt (ins_device (li_DeviceID inp) uid ik spk sig spkID);
           case d of
             Inl e \<Rightarrow> ret (Inl (AuthDB e))
           | Inr _ \<Rightarrow>
               if int (length (li_OneTimePrekeys inp)) > MaxOneTimePrekeysPerDevice then ret (Inl ErrTooManyPrekeys)
               else for_err (login_prekey (au_enc S) (li_DeviceID inp)) (li_OneTimePrekeys inp) } }"

definition login_user :: "env \<Rightarrow> auth \<Rightarrow> login_input \<Rightarrow> (sess, auth_err + int) state" where
  "login_user E S inp = do {
     q \<leftarrow> query_row (\<lambda>t. map (\<lambda>u. (u_id u, case u_password_hash u of None \<Rightarrow> [] | Some h \<Rightarrow> h))
            (filter (\<lambda>u. u_username u = li_Username inp \<and> u_domain u = au_domain S) (tb_users t)));
     ret (case q of
       Inl e \<Rightarrow> Inl (if e = NoRows then ErrInvalidCredentials else AuthDB e)
     | Inr (uid, h) \<Rightarrow>
         (case Decrypt (au_enc S) h of
            Inl _ \<Rightarrow> Inl ErrInvalidCredentials
          | Inr ph \<Rightarrow> if password_ok E ph (li_Password inp) then Inr uid else Inl ErrInvalidCredentials)) }"

definition Login :: "env \<Rightarrow> auth \<Rightarrow> login_input \<Rightarrow> (sess, auth_err + login_result) state" where
  "Login E S inp = do {
     u \<leftarrow> login_user E S inp;
     case u of
       Inl e \<Rightarrow> ret (Inl e)
     | Inr uid \<Rightarrow> do {
         x \<leftarrow> query_row (\<lambda>t. [list_ex (\<lambda>d. d_user d = uid \<and> d_id d = li_DeviceID inp) (tb_devices t)]);
         case x of
           Inl e \<Rightarrow> ret (Inl (AuthDB e))
         | Inr devExists \<Rightarrow> do {
             a \<leftarrow> (if devExists then ret (Inr ()) else add_device S uid inp);
             case a of
               Inl e \<Rightarrow> ret (Inl e)
             | Inr _ \<Rightarrow> do {
                 t \<leftarrow> grant_token E S uid (li_DeviceID inp);
                 case t of
                   Inl e \<Rightarrow> ret (Inl e)
                 | Inr tok \<Rightarrow> do {
                     b \<leftarrow> (if li_RequestKeysRestore inp then do {
                              k \<leftarrow> GetKeyBackup S uid;
                              ret (case k of Inl _ \<Rightarrow> None | Inr sb \<Rightarrow> Some sb) }
                           else ret None);
                     ret (Inr \<lparr> lr_UserID = ''@'' @ li_Username inp @ '':'' @ au_domain S,
                       lr_DeviceID = li_DeviceID inp, lr_Token = tok, lr_KeysBackup = b \<rparr>) } } } } }"

section \<open>WebSocket tokens, revocation, devices\<close>

definition IssueWSToken :: "env \<Rightarrow> auth \<Rightarrow> int \<Rightarrow> uuid \<Rightarrow> (sess, auth_err + string) state" where
  "IssueWSToken E S user dev = do {
     now \<leftarrow> time_now;
     ret (case jwt_sign E (au_jwt S) (Map.empty(
         ''user_id'' \<mapsto> CNum user, ''device_id'' \<mapsto> CStr (uuid_str E dev), ''typ'' \<mapsto> CStr ''ws'',
         ''iss'' \<mapsto> CStr (au_domain S), ''aud'' \<mapsto> CStr tokenAudience,
         ''exp'' \<mapsto> CNum (unix (now + wsTokenExpirySec * 1000000000)))) of
       None \<Rightarrow> Inl ErrSign | Some t \<Rightarrow> Inr t) }"

definition ValidateWSToken :: "env \<Rightarrow> auth \<Rightarrow> string \<Rightarrow> (sess, auth_err + int \<times> uuid) state" where
  "ValidateWSToken E S tok = do {
     now \<leftarrow> time_now;
     ret (case jwt_parse E (au_jwt S) now tok of
       None \<Rightarrow> Inl ErrInvalidToken
     | Some c \<Rightarrow>
         if str_claim c ''typ'' \<noteq> ''ws'' then Inl ErrInvalidToken
         else if str_claim c ''iss'' \<noteq> '''' \<and> str_claim c ''iss'' \<noteq> au_domain S then Inl ErrInvalidToken
         else if str_claim c ''aud'' \<noteq> '''' \<and> str_claim c ''aud'' \<noteq> tokenAudience then Inl ErrInvalidToken
         else Inr (claimed E c)) }"

definition revoke_jti :: "uuid \<Rightarrow> int \<Rightarrow> tables \<Rightarrow> (db_err + unit) \<times> tables" where
  "revoke_jti jti user t = (Inr (), t\<lparr>tb_tokens := map (\<lambda>a.
     if a_jti a = Some jti \<and> a_user a = user \<and> a_revoked a = None then a\<lparr>a_revoked := Some (tb_now t)\<rparr> else a) (tb_tokens t)\<rparr>)"

definition RevokeToken :: "env \<Rightarrow> auth \<Rightarrow> string \<Rightarrow> (sess, auth_err + unit) state" where
  "RevokeToken E S tok = do {
     v \<leftarrow> ValidateToken E S tok;
     case v of
       Inl e \<Rightarrow> ret (Inl e)
     | Inr (user, _) \<Rightarrow> do {
         now \<leftarrow> time_now;
         case jwt_parse E (au_jwt S) now tok of
           None \<Rightarrow> ret (Inl ErrInvalidToken)
         | Some c \<Rightarrow>
             if str_claim c ''jti'' = '''' then ret (Inl ErrInvalidToken)
             else (case uuid_parse E (str_claim c ''jti'') of
               None \<Rightarrow> ret (Inl ErrInvalidToken)
             | Some jti \<Rightarrow> do {
                 x \<leftarrow> stmt (revoke_jti jti user);
                 ret (case x of Inl e \<Rightarrow> Inl (AuthDB e) | Inr _ \<Rightarrow> Inr ()) }) } }"

definition GetUsername :: "auth \<Rightarrow> int \<Rightarrow> (sess, auth_err + string) state" where
  "GetUsername S user = do {
     q \<leftarrow> query_row (\<lambda>t. map u_username (filter (\<lambda>u. u_id u = user \<and> u_domain u = au_domain S) (tb_users t)));
     ret (case q of Inl e \<Rightarrow> Inl (AuthDB e) | Inr n \<Rightarrow> Inr n) }"

record device_info =
  di_DeviceID :: string
  di_Name :: string
  di_CreatedAt :: int
  di_IsCurrent :: bool

definition ListDevices :: "env \<Rightarrow> int \<Rightarrow> uuid \<Rightarrow> (sess, auth_err + device_info list) state" where
  "ListDevices E user current = do {
     q \<leftarrow> query (\<lambda>t. sort_key (\<lambda>d. - d_created d) (filter (\<lambda>d. d_user d = user) (tb_devices t)));
     ret (case q of
       Inl e \<Rightarrow> Inl (AuthDB e)
     | Inr (rows, broken) \<Rightarrow> if broken then Inl (AuthDB Conn)
         else Inr (map (\<lambda>d. \<lparr> di_DeviceID = uuid_str E (d_id d),
           di_Name = (case d_name d of None \<Rightarrow> '''' | Some n \<Rightarrow> n), di_CreatedAt = d_created d,
           di_IsCurrent = (d_id d = current) \<rparr>) rows)) }"

text \<open>
  A rune of a string as Go's \<open>range\<close> reads it: the number of bytes of the well-formed UTF-8
  sequence at its head, 0 when there is none (then the rune is U+FFFD and one byte is skipped).
\<close>

definition in_range :: "nat \<Rightarrow> nat \<Rightarrow> char \<Rightarrow> bool" where
  "in_range lo hi c \<longleftrightarrow> lo \<le> of_char c \<and> of_char c \<le> hi"

fun rune_len :: "string \<Rightarrow> nat" where
  "rune_len [] = 0"
| "rune_len (a # s) =
     (if in_range 0 0x7F a then 1
      else if in_range 0xC2 0xDF a then (case s of b # _ \<Rightarrow> if in_range 0x80 0xBF b then 2 else 0 | _ \<Rightarrow> 0)
      else if in_range 0xE0 0xEF a then
        (case s of b # c # _ \<Rightarrow>
           if in_range (if in_range 0xE0 0xE0 a then 0xA0 else 0x80) (if in_range 0xED 0xED a then 0x9F else 0xBF) b
              \<and> in_range 0x80 0xBF c then 3 else 0 | _ \<Rightarrow> 0)
      else if in_range 0xF0 0xF4 a then
        (case s of b # c # d # _ \<Rightarrow>
           if in_range (if in_range 0xF0 0xF0 a then 0x90 else 0x80) (if in_range 0xF4 0xF4 a then 0x8F else 0xBF) b
              \<and> in_range 0x80 0xBF c \<and> in_range 0x80 0xBF d then 4 else 0 | _ \<Rightarrow> 0)
      else 0)"

function take_name :: "string \<Rightarrow> string \<Rightarrow> string" where
  "take_name buf s =
     (if s = [] then buf
      else (let n = rune_len s; r = (if n = 0 then [CHR 0xEF, CHR 0xBF, CHR 0xBD] else take n s);
                rest = drop (max 1 n) s in
        if n = 1 \<and> of_char (hd s) < (32 :: nat) then take_name buf rest
        else if length buf \<ge> 64 then buf
        else take_name (buf @ r) rest))"
  by pat_completeness auto
termination
  by (relation "measure (\<lambda>(buf, s). length s)") auto

declare take_name.simps [simp del]

definition sanitizeDeviceName :: "string \<Rightarrow> string" where
  "sanitizeDeviceName s = take_name [] (TrimSpace s)"

definition RenameDevice :: "int \<Rightarrow> uuid \<Rightarrow> string \<Rightarrow> (sess, auth_err + unit) state" where
  "RenameDevice user dev name = do {
     x \<leftarrow> stmt (\<lambda>t. (Inr (), t\<lparr>tb_devices := map (\<lambda>d. if d_id d = dev \<and> d_user d = user
            then d\<lparr>d_name := Some (sanitizeDeviceName name), d_updated := tb_now t\<rparr> else d) (tb_devices t)\<rparr>));
     ret (case x of Inl e \<Rightarrow> Inl (AuthDB e) | Inr _ \<Rightarrow> Inr ()) }"

definition revoke_device_tokens :: "int \<Rightarrow> uuid \<Rightarrow> tables \<Rightarrow> (db_err + unit) \<times> tables" where
  "revoke_device_tokens user dev t = (Inr (), t\<lparr>tb_tokens := map (\<lambda>a.
     if a_user a = user \<and> a_device a = dev \<and> a_revoked a = None then a\<lparr>a_revoked := Some (tb_now t)\<rparr> else a) (tb_tokens t)\<rparr>)"

text \<open>\<open>DELETE FROM devices\<close> with the \<open>ON DELETE CASCADE\<close> of the tables that refer to it.\<close>

definition del_device :: "uuid \<Rightarrow> int \<Rightarrow> tables \<Rightarrow> (db_err + unit) \<times> tables" where
  "del_device dev user t =
     (if list_ex (\<lambda>d. d_id d = dev \<and> d_user d = user) (tb_devices t)
      then (Inr (), t\<lparr>tb_devices := filter (\<lambda>d. \<not> (d_id d = dev \<and> d_user d = user)) (tb_devices t),
             tb_otpks := filter (\<lambda>p. o_device p \<noteq> dev) (tb_otpks t),
             tb_tokens := filter (\<lambda>a. a_device a \<noteq> dev) (tb_tokens t),
             tb_push := filter (\<lambda>p. pu_device p \<noteq> dev) (tb_push t),
             tb_vpeers := filter (\<lambda>p. vp_device p \<noteq> dev) (tb_vpeers t)\<rparr>)
      else (Inr (), t))"

definition RevokeDevice :: "int \<Rightarrow> uuid \<Rightarrow> (sess, auth_err + unit) state" where
  "RevokeDevice user dev = do {
     x \<leftarrow> stmt (revoke_device_tokens user dev);
     case x of
       Inl e \<Rightarrow> ret (Inl (AuthDB e))
     | Inr _ \<Rightarrow> do {
         y \<leftarrow> stmt (del_device dev user);
         ret (case y of Inl e \<Rightarrow> Inl (AuthDB e) | Inr _ \<Rightarrow> Inr ()) } }"

definition stale_token :: "tables \<Rightarrow> token_row \<Rightarrow> bool" where
  "stale_token t a \<longleftrightarrow> a_expires a < tb_now t
     \<or> (case a_revoked a of None \<Rightarrow> False | Some at \<Rightarrow> at < tb_now t - 7 * 24 * 3600 * 1000000)"

definition CleanupExpiredTokens :: "(sess, auth_err + int) state" where
  "CleanupExpiredTokens = do {
     x \<leftarrow> stmt (\<lambda>t. (Inr (int (length (filter (stale_token t) (tb_tokens t)))),
            t\<lparr>tb_tokens := filter (\<lambda>a. \<not> stale_token t a) (tb_tokens t)\<rparr>));
     ret (case x of Inl e \<Rightarrow> Inl (AuthDB e) | Inr n \<Rightarrow> Inr n) }"

section \<open>Sessions of users from other servers\<close>

record proxy_session =
  px_HomeDomain :: string
  px_HomeToken :: string
  px_UserID :: string
  px_DeviceID :: string

definition CreateProxySession :: "env \<Rightarrow> string \<Rightarrow> string \<Rightarrow> string \<Rightarrow> string \<Rightarrow> int \<Rightarrow> (sess, auth_err + string) state" where
  "CreateProxySession E homeDomain homeToken userID deviceID expiresIn = do {
     r \<leftarrow> rand_read 32;
     case r of
       None \<Rightarrow> ret (Inl ErrRandom)
     | Some b \<Rightarrow> do {
         now \<leftarrow> time_now;
         x \<leftarrow> stmt (\<lambda>t. if sha256 E b \<in> ps_hash ` set (tb_proxy t) then (Inl UniqueViolation, t)
                else (Inr (), t\<lparr>tb_proxy := tb_proxy t @ [\<lparr> ps_hash = sha256 E b, ps_home_domain = homeDomain,
                  ps_home_token = homeToken, ps_user = userID, ps_device = deviceID,
                  ps_expires = (now + expiresIn) div 1000 \<rparr>]\<rparr>));
         ret (case x of Inl e \<Rightarrow> Inl (AuthDB e) | Inr _ \<Rightarrow> Inr (hex_encode b)) } }"

definition GetProxySessionByToken :: "env \<Rightarrow> string \<Rightarrow> (sess, auth_err + proxy_session) state" where
  "GetProxySessionByToken E token =
     (case hex_decode token of
        None \<Rightarrow> ret (Inl ErrInvalidToken)
      | Some b \<Rightarrow>
          if length b \<noteq> 32 then ret (Inl ErrInvalidToken)
          else do {
            q \<leftarrow> query_row (\<lambda>t. filter (\<lambda>p. ps_hash p = sha256 E b) (tb_proxy t));
            case q of
              Inl e \<Rightarrow> ret (Inl (if e = NoRows then ErrInvalidToken else AuthDB e))
            | Inr p \<Rightarrow> do {
                now \<leftarrow> time_now;
                if now > ps_expires p * 1000 then do {
                  _ \<leftarrow> stmt (\<lambda>t. (Inr (), t\<lparr>tb_proxy := filter (\<lambda>p. ps_hash p \<noteq> sha256 E b) (tb_proxy t)\<rparr>));
                  ret (Inl ErrInvalidToken) }
                else ret (Inr \<lparr> px_HomeDomain = ps_home_domain p, px_HomeToken = ps_home_token p,
                  px_UserID = ps_user p, px_DeviceID = ps_device p \<rparr>) } })"

section \<open>Registration is all or nothing\<close>

text \<open>The tables a registration writes in its transaction.\<close>

definition accounts :: "tables \<Rightarrow> user_row list \<times> device_row list \<times> otpk_row list" where
  "accounts t = (tb_users t, tb_devices t, tb_otpks t)"

definition registered :: "env \<Rightarrow> auth \<Rightarrow> register_input \<Rightarrow> int \<Rightarrow> tables \<Rightarrow> tables \<Rightarrow> bool" where
  "registered E S inp uid t0 t \<longleftrightarrow> (\<exists>h d ps. accounts t = (tb_users t0 @
        [\<lparr> u_id = uid, u_username = ri_Username inp, u_domain = au_domain S, u_password_hash = Some h \<rparr>],
        tb_devices t0 @ [d], tb_otpks t0 @ ps)
     \<and> d_id d = ri_DeviceID inp \<and> d_user d = uid \<and> d_signed_prekey_id d = ri_SignedPrekeyID inp
     \<and> map o_key_id ps = map pk_KeyID (ri_OneTimePrekeys inp) \<and> (\<forall>p \<in> set ps. o_device p = ri_DeviceID inp \<and> o_consumed p = None)
     \<and> length ps \<le> 500
     \<and> (cipher_ok (au_enc S) \<longrightarrow> (\<exists>ph. bcrypt_hash E (ri_Password inp) = Some ph \<and> Decrypt (au_enc S) h = Inr ph)))"

lemma encrypt3_tabs: "run_state (encrypt3 c ik spk sig) s = (r, s') \<Longrightarrow> tabs s' = tabs s"
  by (auto simp: encrypt3_def split: prod.splits sum.splits dest!: col.enc_tabs)

lemma register_prekey_InrD:
  assumes "run_state (register_prekey c dev pk) s = (Inr x, s')"
  shows "\<exists>p. tb_otpks (tabs s') = tb_otpks (tabs s) @ [p] \<and> o_device p = dev \<and> o_consumed p = None \<and> o_key_id p = pk_KeyID pk
    \<and> tb_users (tabs s') = tb_users (tabs s) \<and> tb_devices (tabs s') = tb_devices (tabs s)"
proof -
  obtain k s1 y where k: "run_state (Encrypt c (pk_Key pk)) s = (Inr k, s1)"
    and y: "run_state (stmt (ins_otpk dev (pk_KeyID pk) k)) s1 = (Inr y, s')"
    using assms by (auto simp: register_prekey_def split: prod.splits sum.splits)
  from stmt_InrD [OF y] have "tabs s' = snd (ins_otpk dev (pk_KeyID pk) k (tabs s1))"
    "fst (ins_otpk dev (pk_KeyID pk) k (tabs s1)) = Inr y" by simp_all
  with col.enc_tabs [OF k] show ?thesis by (auto simp: ins_otpk_def Let_def split: if_splits)
qed

lemma register_prekeys_InrD:
  assumes "run_state (for_err (register_prekey c dev) pks) s = (Inr x, s')"
  shows "\<exists>ps. tb_otpks (tabs s') = tb_otpks (tabs s) @ ps \<and> map o_key_id ps = map pk_KeyID pks
    \<and> (\<forall>p \<in> set ps. o_device p = dev \<and> o_consumed p = None)
    \<and> tb_users (tabs s') = tb_users (tabs s) \<and> tb_devices (tabs s') = tb_devices (tabs s)"
  using assms
proof (induction pks arbitrary: s)
  case Nil
  then show ?case by simp
next
  case (Cons pk pks)
  then obtain y s1 where 1: "run_state (register_prekey c dev pk) s = (Inr y, s1)"
    and 2: "run_state (for_err (register_prekey c dev) pks) s1 = (Inr x, s')"
    by (auto split: prod.splits sum.splits)
  from register_prekey_InrD [OF 1] obtain p where p: "tb_otpks (tabs s1) = tb_otpks (tabs s) @ [p]" "o_device p = dev"
    "o_consumed p = None" "o_key_id p = pk_KeyID pk" "tb_users (tabs s1) = tb_users (tabs s)" "tb_devices (tabs s1) = tb_devices (tabs s)"
    by blast
  from Cons.IH [OF 2] obtain ps where "tb_otpks (tabs s') = tb_otpks (tabs s1) @ ps" "map o_key_id ps = map pk_KeyID pks"
    "\<forall>p \<in> set ps. o_device p = dev \<and> o_consumed p = None"
    "tb_users (tabs s') = tb_users (tabs s1)" "tb_devices (tabs s') = tb_devices (tabs s1)" by blast
  with p show ?case by (intro exI [of _ "p # ps"]) auto
qed

lemma register_body_InrD:
  assumes "run_state (register_body E S inp) s = (Inr uid, s')"
  shows "registered E S inp uid (tabs s) (tabs s')"
proof -
  let ?c = "au_enc S"
  from assms obtain ph where ph: "bcrypt_hash E (ri_Password inp) = Some ph" by (auto simp: register_body_def split: option.splits)
  obtain x s1 where x: "run_state (Encrypt ?c ph) s = (x, s1)" by fastforce
  with assms ph obtain h where h: "x = Inr h" by (cases x) (auto simp: register_body_def)
  obtain u s2 where u: "run_state (stmt (ins_user (ri_Username inp) (au_domain S) h)) s1 = (u, s2)" by fastforce
  with assms ph x h obtain uid' where uid': "u = Inr uid'" by (cases u) (auto simp: register_body_def)
  obtain k s3 where k: "run_state (encrypt3 ?c (ri_IdentityKey inp) (ri_SignedPrekey inp) (ri_SignedPrekeySig inp)) s2 = (k, s3)" by fastforce
  with assms ph x h u uid' obtain ik spk sig where keys: "k = Inr (ik, spk, sig)" by (cases k) (auto simp: register_body_def)
  obtain d s4 where d: "run_state (stmt (ins_device (ri_DeviceID inp) uid' ik spk sig (ri_SignedPrekeyID inp))) s3 = (d, s4)" by fastforce
  with assms ph x h u uid' k keys obtain d' where d': "d = Inr d'" by (cases d) (auto simp: register_body_def)
  obtain p s5 where p: "run_state (for_err (register_prekey ?c (ri_DeviceID inp)) (ri_OneTimePrekeys inp)) s4 = (p, s5)" by fastforce
  have fin: "\<not> int (length (ri_OneTimePrekeys inp)) > MaxOneTimePrekeysPerDevice" "p = Inr ()" "s' = s5" "uid = uid'"
    using assms ph x h u uid' k keys d d' p by (auto simp: register_body_def split: if_splits sum.splits)
  have t1: "tabs s1 = tabs s" using col.enc_tabs [OF x] by simp
  have "ins_user (ri_Username inp) (au_domain S) h (tabs s) = (Inr uid, tabs s2)"
    using stmt_InrD [OF u [unfolded uid']] fin(4) t1 by simp
  then have t2: "tb_users (tabs s2) = tb_users (tabs s) @ [\<lparr> u_id = uid, u_username = ri_Username inp, u_domain = au_domain S, u_password_hash = Some h \<rparr>]"
    "tb_devices (tabs s2) = tb_devices (tabs s)" "tb_otpks (tabs s2) = tb_otpks (tabs s)"
    by (auto simp: ins_user_def Let_def split: if_splits dest!: sym [of _ "tabs s2"])
  have t3: "tabs s3 = tabs s2" by (rule encrypt3_tabs [OF k])
  have "ins_device (ri_DeviceID inp) uid ik spk sig (ri_SignedPrekeyID inp) (tabs s2) = (Inr d', tabs s4)"
    using stmt_InrD [OF d [unfolded d']] fin(4) t3 by simp
  then obtain dr where t4: "tb_devices (tabs s4) = tb_devices (tabs s2) @ [dr]" "d_id dr = ri_DeviceID inp" "d_user dr = uid"
    "d_signed_prekey_id dr = ri_SignedPrekeyID inp" "tb_users (tabs s4) = tb_users (tabs s2)" "tb_otpks (tabs s4) = tb_otpks (tabs s2)"
    by (auto simp: ins_device_def split: if_splits dest!: sym [of _ "tabs s4"])
  from register_prekeys_InrD [OF p [unfolded fin(2)]] obtain ps where t5: "tb_otpks (tabs s') = tb_otpks (tabs s4) @ ps"
    "map o_key_id ps = map pk_KeyID (ri_OneTimePrekeys inp)" "\<forall>p \<in> set ps. o_device p = ri_DeviceID inp \<and> o_consumed p = None"
    "tb_users (tabs s') = tb_users (tabs s4)" "tb_devices (tabs s') = tb_devices (tabs s4)" using fin(3) by blast
  have "length ps \<le> 500" using fin(1) map_eq_imp_length_eq [OF t5(2)] by (simp add: MaxOneTimePrekeysPerDevice_def)
  moreover have "cipher_ok ?c \<longrightarrow> Decrypt ?c h = Inr ph" using col.enc_dec x h by blast
  ultimately show ?thesis using t2 t4 t5 ph unfolding registered_def accounts_def by auto
qed

lemma accounts_restore [simp]: "accounts (restore snap cur) = accounts snap"
  by (simp add: accounts_def restore_def)

lemma keeps_StoreKeyBackup: "keeps (on_tabs (\<lambda>t. accounts t = A)) (StoreKeyBackup S user salt blob)"
  unfolding StoreKeyBackup_def
  by (intro triple_intros) (auto simp: put_salt_def put_backup_def accounts_def restore_def)

lemma keeps_issueToken [triple_intros]: "keeps (on_tabs P) (issueToken E S user dev)"
  unfolding issueToken_def by (intro triple_intros)

lemma keeps_grant_token: "keeps (on_tabs (\<lambda>t. accounts t = A)) (grant_token E S user dev)"
  unfolding grant_token_def by (intro triple_intros) (auto simp: ins_token_def Let_def accounts_def)

definition register_outcome :: "env \<Rightarrow> auth \<Rightarrow> register_input \<Rightarrow> tables \<Rightarrow> tables \<Rightarrow> bool" where
  "register_outcome E S inp t0 t \<longleftrightarrow> accounts t = accounts t0 \<or> (\<exists>uid. registered E S inp uid t0 t)"

lemma register_outcome_cong: "accounts t = accounts t' \<Longrightarrow> register_outcome E S inp t0 t = register_outcome E S inp t0 t'"
  by (simp add: register_outcome_def registered_def)

lemma registered_cong: "accounts t = accounts t0 \<Longrightarrow> registered E S inp uid t t' = registered E S inp uid t0 t'"
  by (simp add: registered_def accounts_def)

lemma triple_register_tx:
  "triple (on_tabs (\<lambda>t. accounts t = accounts t0)) (in_tx AuthDB (register_body E S inp)) (\<lambda>_. on_tabs (register_outcome E S inp t0))"
proof (rule triple_in_tx)
  show "triple (on_tabs (\<lambda>t. accounts t = accounts t0)) (register_body E S inp)
      (\<lambda>r s. \<forall>x. r = Inr x \<longrightarrow> register_outcome E S inp t0 (tabs s))"
  proof (rule tripleI, intro allI impI)
    fix s r s' uid
    assume "on_tabs (\<lambda>t. accounts t = accounts t0) s" "run_state (register_body E S inp) s = (r, s')" "r = Inr uid"
    then show "register_outcome E S inp t0 (tabs s')"
      using register_body_InrD [of E S inp s uid s'] registered_cong [of "tabs s" t0 E S inp uid "tabs s'"]
      by (auto simp: on_tabs_def register_outcome_def)
  qed
qed (simp_all add: register_outcome_def)

lemma triple_Register:
  "triple (on_tabs (\<lambda>t. accounts t = accounts t0)) (Register E S inp) (\<lambda>_. on_tabs (register_outcome E S inp t0))"
  unfolding Register_def
proof (rule triple_bind [OF keeps_query_row], intro triple_case_sum triple_if triple_ret)
  have k: "keeps (on_tabs (register_outcome E S inp t0)) m" if "\<And>A. keeps (on_tabs (\<lambda>t. accounts t = A)) m" for m :: "(sess, 'x) state"
  proof (rule tripleI)
    fix s r s' assume "on_tabs (register_outcome E S inp t0) s" "run_state m s = (r, s')"
    with tripleD [OF that [of "accounts (tabs s)"], of s r s'] register_outcome_cong [of "tabs s'" "tabs s" E S inp t0]
    show "on_tabs (register_outcome E S inp t0) s'" by (simp add: on_tabs_def)
  qed
  show "triple (on_tabs (\<lambda>t. accounts t = accounts t0)) (do {
           r \<leftarrow> in_tx AuthDB (register_body E S inp);
           case r of
             Inl e \<Rightarrow> ret (Inl e)
           | Inr uid \<Rightarrow> do {
               _ \<leftarrow> (if ri_KeysBackupSalt inp \<noteq> [] \<and> ri_KeysBackupBlob inp \<noteq> []
                     then StoreKeyBackup S uid (ri_KeysBackupSalt inp) (ri_KeysBackupBlob inp) else ret (Inr ()));
               t \<leftarrow> grant_token E S uid (ri_DeviceID inp);
               ret (case t of
                 Inl e \<Rightarrow> Inl e
               | Inr tok \<Rightarrow> Inr (''@'' @ ri_Username inp @ '':'' @ au_domain S, ri_DeviceID inp, tok)) } })
     (\<lambda>_. on_tabs (register_outcome E S inp t0))"
    by (rule triple_bind [OF triple_register_tx])
       (intro triple_intros k keeps_StoreKeyBackup keeps_grant_token keeps_ret)
qed (simp_all add: on_tabs_def register_outcome_def)

section \<open>The life of a token\<close>

text \<open>
  What the code relies on of the two libraries: a signed set of claims parses back to itself
  until it expires (numbers are exact up to 53 bits), and not after; a UUID prints as a
  non-empty string that parses back.
\<close>

definition json_exact :: "claims \<Rightarrow> bool" where
  "json_exact c \<longleftrightarrow> (\<forall>k n. c k = Some (CNum n) \<longrightarrow> \<bar>n\<bar> \<le> 2 ^ 53)"

definition jwt_law :: "env \<Rightarrow> bool" where
  "jwt_law E \<longleftrightarrow> (\<forall>k c tok now. jwt_sign E k c = Some tok \<longrightarrow> json_exact c \<longrightarrow>
     jwt_parse E k now tok = (case c ''exp'' of
       Some (CNum n) \<Rightarrow> if now < n * 1000000000 then Some c else None | _ \<Rightarrow> Some c))"

definition uuid_law :: "env \<Rightarrow> bool" where
  "uuid_law E \<longleftrightarrow> (\<forall>u. uuid_parse E (uuid_str E u) = Some u \<and> uuid_str E u \<noteq> '''')"

lemma access_claims_simps [simp]:
  "str_claim (access_claims E S user dev jti now) ''jti'' = uuid_str E jti"
  "str_claim (access_claims E S user dev jti now) ''typ'' = ''access''"
  "str_claim (access_claims E S user dev jti now) ''iss'' = au_domain S"
  "str_claim (access_claims E S user dev jti now) ''aud'' = tokenAudience"
  "uuid_law E \<Longrightarrow> claimed E (access_claims E S user dev jti now) = (user, dev)"
  "access_claims E S user dev jti now ''exp'' = Some (CNum (unix (now + tokenExpiryHours * 3600 * 1000000000)))"
  by (simp_all add: str_claim_def access_claims_def claimed_def num_claim_def uuid_law_def)

lemma access_claims_exact:
  "\<bar>user\<bar> \<le> 2 ^ 53 \<Longrightarrow> \<bar>unix (now + tokenExpiryHours * 3600 * 1000000000)\<bar> \<le> 2 ^ 53 \<Longrightarrow>
    json_exact (access_claims E S user dev jti now)"
  by (auto simp: json_exact_def access_claims_def split: if_splits)

lemma ValidateToken_any:
  "run_state (ValidateToken E S tok) s = (r, s') \<Longrightarrow> tabs s' = tabs s \<and> go_now s' = go_now s
    \<and> (\<forall>x. r = Inr x \<longrightarrow> (\<exists>c jti. jwt_parse E (au_jwt S) (go_now s) tok = Some c \<and> str_claim c ''jti'' \<noteq> ''''
         \<and> uuid_parse E (str_claim c ''jti'') = Some jti \<and> live_token jti (tabs s) \<and> x = claimed E c
         \<and> str_claim c ''typ'' \<in> {'''', ''access''}))"
  by (auto simp: ValidateToken_def sql_simps query_row_def split: option.splits if_splits prod.splits list.splits)

lemma grant_token_InrD:
  assumes "run_state (grant_token E S user dev) s = (Inr tok, s')"
  shows "jwt_sign E (au_jwt S) (access_claims E S user dev (uuids s (upos s)) (go_now s)) = Some tok"
  using assms by (auto simp: grant_token_def issueToken_def sql_simps split: option.splits sum.splits prod.splits)

lemma grant_token_live:
  assumes "run_state (grant_token E S user dev) s = (Inr tok, s')" and "faults s = []"
    and "Some (uuids s (upos s)) \<notin> a_jti ` set (tb_tokens (tabs s))"
    and "user \<in> u_id ` set (tb_users (tabs s))" and "dev \<in> d_id ` set (tb_devices (tabs s))"
  shows "\<exists>a \<in> set (tb_tokens (tabs s')). a_jti a = Some (uuids s (upos s)) \<and> a_revoked a = None \<and> a_user a = user
    \<and> a_device a = dev \<and> a_expires a = tb_now (tabs s) + 24 * 3600 * 1000000 \<and> faults s' = [] \<and> go_now s' = go_now s"
proof -
  let ?s = "s\<lparr>upos := Suc (upos s)\<rparr>" and ?jti = "uuids s (upos s)"
  obtain x s1 where x: "run_state (Encrypt (au_enc S) (sha256 E tok)) ?s = (x, s1)" by fastforce
  with assms(1) grant_token_InrD [OF assms(1)] obtain h where h: "x = Inr h"
    and fin: "s' = snd (run_state (stmt (ins_token user dev h ?jti)) s1)"
    by (cases x) (auto simp: grant_token_def issueToken_def sql_simps split: prod.splits)
  from col.enc_tabs [OF x] have "tabs s1 = tabs s" "faults s1 = []" "go_now s1 = go_now s" using assms(2) by simp_all
  with fin assms(3-5) show ?thesis by (simp add: sql_simps ins_token_def Let_def)
qed

lemma issued_token_valid:
  assumes "jwt_law E" and "uuid_law E"
    and "jwt_sign E (au_jwt S) (access_claims E S user dev jti now) = Some tok"
    and "json_exact (access_claims E S user dev jti now)"
    and "go_now s < unix (now + tokenExpiryHours * 3600 * 1000000000) * 1000000000"
    and "faults s = []" and "live_token jti (tabs s)"
  shows "run_state (ValidateToken E S tok) s = (Inr (user, dev), s)"
proof -
  have "jwt_parse E (au_jwt S) (go_now s) tok = Some (access_claims E S user dev jti now)"
    using assms(1,3-5) by (simp add: jwt_law_def)
  with assms(2,6,7) show ?thesis by (simp add: ValidateToken_def sql_simps uuid_law_def)
qed

lemma live_token_iff:
  "live_token jti t \<longleftrightarrow> (\<exists>a \<in> set (tb_tokens t). a_jti a = Some jti \<and> a_revoked a = None \<and> a_expires a > tb_now t)"
  by (simp add: live_token_def list_ex_iff)

lemma RevokeToken_InrD:
  assumes "run_state (RevokeToken E S tok) s = (Inr x, s')"
  obtains c jti where "jwt_parse E (au_jwt S) (go_now s) tok = Some c" and "uuid_parse E (str_claim c ''jti'') = Some jti"
    and "tabs s' = snd (revoke_jti jti (num_claim c ''user_id'') (tabs s))"
proof -
  obtain v s1 where v: "run_state (ValidateToken E S tok) s = (v, s1)" by fastforce
  note va = ValidateToken_any [OF v]
  from assms v obtain y where y: "v = Inr y" by (cases v) (auto simp: RevokeToken_def)
  with va obtain c jti where c: "jwt_parse E (au_jwt S) (go_now s) tok = Some c" "str_claim c ''jti'' \<noteq> ''''"
    "uuid_parse E (str_claim c ''jti'') = Some jti" "y = claimed E c" by blast
  obtain z s2 where z: "run_state (stmt (revoke_jti jti (num_claim c ''user_id''))) s1 = (z, s2)" by fastforce
  have "z = Inr () \<and> s' = s2"
    using assms v y c va z by (cases z) (auto simp: RevokeToken_def sql_simps claimed_def)
  then have "tabs s' = snd (revoke_jti jti (num_claim c ''user_id'') (tabs s))" using stmt_InrD [of _ s1 "()" s2] z va by (metis snd_conv)
  with c that show thesis by blast
qed

section \<open>Properties\<close>

text \<open>
  An environment that satisfies both laws: UUIDs print bit by bit, and the one token that can
  be signed is that of user 1 on device 7.
\<close>

definition demo_auth :: auth where
  "demo_auth = \<lparr> au_domain = ''a.org'', au_jwt = ''key'', au_enc = None \<rparr>"

definition bits_env :: env where
  "bits_env = demo_env\<lparr>
     uuid_str := (\<lambda>u. map (\<lambda>i. if bit u i then CHR ''1'' else CHR ''0'') [0..<128]),
     uuid_parse := (\<lambda>s. Some (horner_sum of_bool 2 (map (\<lambda>c. c = CHR ''1'') s)))\<rparr>"

definition token_env :: env where
  "token_env =
     (let c = access_claims bits_env demo_auth 1 7 1 1700000000000000000 in
      bits_env\<lparr>jwt_sign := (\<lambda>k c'. if c' = c then Some ''T'' else None),
        jwt_parse := (\<lambda>k now tok. if tok = ''T'' \<and> now < 1700086400 * 1000000000 then Some c else None)\<rparr>)"

lemma token_env_uuid: "uuid_str token_env = uuid_str bits_env" "uuid_parse token_env = uuid_parse bits_env"
  by (simp_all add: token_env_def Let_def)

lemma token_uuid_law [simp]: "uuid_law token_env"
proof -
  have "horner_sum of_bool 2 (map (bit u) [0..<128]) = (u :: uuid)" for u
    using horner_sum_bit_eq_take_bit [of u 128] by (simp add: take_bit_length_eq [where 'a = 128, simplified])
  moreover have "(\<lambda>c. c = CHR ''1'') \<circ> (\<lambda>i. if bit u i then CHR ''1'' else CHR ''0'') = bit u" for u :: uuid
    by (auto simp: fun_eq_iff)
  ultimately show ?thesis by (simp add: uuid_law_def token_env_uuid bits_env_def)
qed

lemma token_claims: "access_claims token_env = access_claims bits_env"
  by (intro ext) (simp add: access_claims_def token_env_uuid)

lemma token_jwt_law [simp]: "jwt_law token_env"
  by (auto simp: jwt_law_def token_env_def Let_def unix_def tokenExpiryHours_def)

definition demo_register :: register_input where
  "demo_register = \<lparr> ri_Username = ''ann'', ri_Password = ''pw'', ri_DeviceID = 7, ri_IdentityKey = ''I'', ri_SignedPrekey = ''S'',
     ri_SignedPrekeySig = ''G'', ri_SignedPrekeyID = 1, ri_OneTimePrekeys = [\<lparr> pk_Key = ''k'', pk_KeyID = 1 \<rparr>],
     ri_KeysBackupSalt = [], ri_KeysBackupBlob = [] \<rparr>"

lemma demo_registered:
  "\<exists>s'. run_state (Register token_env demo_auth demo_register) (session_on empty_tables []) = (Inr (''@ann:a.org'', 7, ''T''), s')
    \<and> (\<forall>u \<in> set (tb_users (tabs s')). u_id u = 1) \<and> tb_now (tabs s') = 0"
proof -
  have "jwt_sign token_env ''key'' (access_claims token_env demo_auth 1 7 1 1700000000000000000) = Some ''T''"
    by (simp add: token_claims) (simp add: token_env_def Let_def)
  moreover have "bcrypt_hash token_env ''pw'' = Some ''$pw''" by (simp add: token_env_def bits_env_def demo_env_def Let_def)
  ultimately show ?thesis
    by (simp add: Register_def register_body_def in_tx_def in_tx_then_def grant_token_def issueToken_def register_prekey_def
        encrypt3_def Encrypt_def demo_auth_def demo_register_def ins_user_def ins_device_def ins_otpk_def ins_token_def
        MaxOneTimePrekeysPerDevice_def sql_simps session_on_def empty_tables_def Let_def)
qed

text \<open>C18: registration is all or nothing: whatever the database does to its statements, the
  accounts, devices and one-time prekeys afterwards are either the old ones or the old ones
  with the new user, his device and all his prekeys (at most 500), whose stored password
  hash decrypts to the hash of his password.\<close>

theorem Register_atomic:
  assumes "run_state (Register E S inp) s = (r, s')"
  shows "register_outcome E S inp (tabs s) (tabs s')"
  using tripleD [OF triple_Register _ assms, of "tabs s"] by (simp add: on_tabs_def)

theorem Register_atomic_witness:
  "register_outcome token_env demo_auth demo_register empty_tables
     (tabs (snd (run_state (Register token_env demo_auth demo_register) (session_on empty_tables [Answered, Answered, Answered, Refused]))))"
  using Register_atomic [of token_env demo_auth demo_register "session_on empty_tables [Answered, Answered, Answered, Refused]"]
  by (simp add: session_on_def prod_eq_iff)

text \<open>
  Without faults, an operation that does not touch the tokens leaves the clock, the source of
  UUIDs and the tokens as they are.
\<close>

definition calm :: "sess \<Rightarrow> sess \<Rightarrow> bool" where
  "calm s0 s \<longleftrightarrow> faults s = [] \<and> go_now s = go_now s0 \<and> uuids s = uuids s0 \<and> upos s = upos s0
     \<and> tb_tokens (tabs s) = tb_tokens (tabs s0) \<and> tb_now (tabs s) = tb_now (tabs s0)"

lemma calm_Encrypt: "keeps (calm s0) (Encrypt c p)"
  by (rule tripleI) (auto simp: calm_def dest!: col.enc_tabs)

lemma calm_stmt:
  "(\<And>t. tb_tokens (snd (f t)) = tb_tokens t \<and> tb_now (snd (f t)) = tb_now t) \<Longrightarrow> keeps (calm s0) (stmt f)"
  by (rule tripleI) (auto simp: calm_def sql_simps split: prod.splits, (metis snd_conv)+)

lemma calm_query_row: "keeps (calm s0) (query_row q)"
  by (rule tripleI) (auto simp: calm_def sql_simps)

lemma run_in_tx_then:
  assumes "faults s = []" and "run_state body s = (r, s1)" and "faults s1 = []"
  shows "run_state (in_tx_then w fin body) s =
    (case r of Inl e \<Rightarrow> (Inl e, s1\<lparr>tabs := restore (tabs s) (tabs s1)\<rparr>) | Inr x \<Rightarrow> (fin (Inr ()) x, s1))"
  using assms by (auto simp: in_tx_then_def sql_simps split: sum.splits)

lemma calm_in_tx: "keeps (calm s0) body \<Longrightarrow> keeps (calm s0) (in_tx w body)"
proof (rule tripleI)
  fix s r s' assume k: "keeps (calm s0) body" and c: "calm s0 s" and r: "run_state (in_tx w body) s = (r, s')"
  obtain x s1 where x: "run_state body s = (x, s1)" by fastforce
  have c1: "calm s0 s1" by (rule tripleD [OF k c x])
  with c r x show "calm s0 s'"
    by (cases x) (auto simp: in_tx_def run_in_tx_then calm_def restore_def)
qed

lemma calm_encrypt3: "keeps (calm s0) (encrypt3 c ik spk sig)"
  unfolding encrypt3_def by (intro triple_intros calm_Encrypt)

lemma calm_register_prekey: "keeps (calm s0) (register_prekey c dev pk)"
  unfolding register_prekey_def by (intro triple_intros calm_Encrypt calm_stmt) (auto simp: ins_otpk_def Let_def)

lemma calm_register_body: "keeps (calm s0) (register_body E S inp)"
  unfolding register_body_def
  by (intro triple_intros calm_Encrypt calm_stmt calm_encrypt3 calm_register_prekey)
     (auto simp: ins_user_def ins_device_def Let_def)

lemma calm_StoreKeyBackup: "keeps (calm s0) (StoreKeyBackup S user salt blob)"
  unfolding StoreKeyBackup_def
  by (intro calm_in_tx triple_intros calm_Encrypt calm_stmt) (auto simp: put_salt_def put_backup_def)

lemma Register_InrD:
  assumes f: "faults s = []" and r: "run_state (Register E S inp) s = (Inr (name, dev, tok), s')"
  obtains uid sa where "calm s sa" and "registered E S inp uid (tabs s) (tabs sa)"
    and "run_state (grant_token E S uid (ri_DeviceID inp)) sa = (Inr tok, s')" and "dev = ri_DeviceID inp"
proof -
  have "calm s s" using f by (simp add: calm_def)
  obtain b s1 where b: "run_state (register_body E S inp) s = (b, s1)" by fastforce
  have c1: "calm s s1" by (rule tripleD [OF calm_register_body \<open>calm s s\<close> b])
  then have tx: "run_state (in_tx AuthDB (register_body E S inp)) s =
      (case b of Inl e \<Rightarrow> (Inl e, s1\<lparr>tabs := restore (tabs s) (tabs s1)\<rparr>) | Inr x \<Rightarrow> (Inr x, s1))"
    using f b by (simp add: in_tx_def run_in_tx_then calm_def split: sum.split)
  from r f tx obtain uid where uid: "b = Inr uid" by (cases b) (auto simp: Register_def sql_simps split: if_splits)
  let ?k = "if ri_KeysBackupSalt inp \<noteq> [] \<and> ri_KeysBackupBlob inp \<noteq> []
     then StoreKeyBackup S uid (ri_KeysBackupSalt inp) (ri_KeysBackupBlob inp) else ret (Inr ())"
  obtain x sa where x: "run_state ?k s1 = (x, sa)" by fastforce
  have "keeps (calm s) ?k" by (intro triple_if keeps_ret calm_StoreKeyBackup)
  then have "calm s sa" using c1 x tripleD by metis
  moreover have "keeps (on_tabs (\<lambda>t. accounts t = accounts (tabs s1))) ?k" by (intro triple_if keeps_ret keeps_StoreKeyBackup)
  then have "accounts (tabs sa) = accounts (tabs s1)" using tripleD [OF _ _ x] by (fastforce simp: on_tabs_def)
  then have "registered E S inp uid (tabs s) (tabs sa)"
    using register_body_InrD [OF b [unfolded uid]] by (simp add: registered_def)
  moreover have "run_state (grant_token E S uid (ri_DeviceID inp)) sa = (Inr tok, s')" "dev = ri_DeviceID inp"
    using r f tx uid x by (auto simp: Register_def sql_simps split: if_splits prod.splits sum.splits)
  ultimately show thesis using that by blast
qed

text \<open>A registered user is logged in: without faults, the token registration returns
  validates as the new user's id and device, at any time in the next 24 hours and in any state
  with the same tokens. The hypotheses are the laws of the token and UUID libraries, a fresh
  token id and ids and times within the 53 bits JSON numbers keep.\<close>

theorem Register_token_valid:
  assumes "jwt_law E" and "uuid_law E" and "faults s = []"
    and "run_state (Register E S inp) s = (Inr (name, dev, tok), s')"
    and "Some (uuids s (upos s)) \<notin> a_jti ` set (tb_tokens (tabs s))"
    and "\<forall>u \<in> set (tb_users (tabs s')). \<bar>u_id u\<bar> \<le> 2 ^ 53" and "\<bar>unix (go_now s + 86400000000000)\<bar> \<le> 2 ^ 53"
    and "tb_tokens (tabs s2) = tb_tokens (tabs s')" and "faults s2 = []"
    and "go_now s2 < unix (go_now s + 86400000000000) * 1000000000" and "tb_now (tabs s2) < tb_now (tabs s) + 86400000000"
  shows "\<exists>u \<in> set (tb_users (tabs s')). u_username u = ri_Username inp \<and> u_domain u = au_domain S
    \<and> dev = ri_DeviceID inp \<and> run_state (ValidateToken E S tok) s2 = (Inr (u_id u, dev), s2)"
  using Register_InrD [OF assms(3,4)]
proof cases
  case (1 uid sa)
  let ?jti = "uuids s (upos s)"
  have c: "uuids sa = uuids s" "upos sa = upos s" "go_now sa = go_now s" "faults sa = []"
    "tb_tokens (tabs sa) = tb_tokens (tabs s)" "tb_now (tabs sa) = tb_now (tabs s)" using 1(1) by (auto simp: calm_def)
  from 1(2) obtain h d ps where acc: "accounts (tabs sa) = (tb_users (tabs s) @
        [\<lparr> u_id = uid, u_username = ri_Username inp, u_domain = au_domain S, u_password_hash = Some h \<rparr>],
        tb_devices (tabs s) @ [d], tb_otpks (tabs s) @ ps)" "d_id d = ri_DeviceID inp" by (auto simp: registered_def)
  then have ids: "uid \<in> u_id ` set (tb_users (tabs sa))" "ri_DeviceID inp \<in> d_id ` set (tb_devices (tabs sa))"
    by (force simp: accounts_def)+
  from grant_token_live [OF 1(3) c(4)] ids assms(5) c obtain a where a: "a \<in> set (tb_tokens (tabs s'))" "a_jti a = Some ?jti"
    "a_revoked a = None" "a_expires a = tb_now (tabs s) + 24 * 3600 * 1000000" by auto
  have acc': "accounts (tabs s') = accounts (tabs sa)"
    using tripleD [OF keeps_grant_token _ 1(3), of "accounts (tabs sa)"] by (simp add: on_tabs_def)
  let ?u = "\<lparr> u_id = uid, u_username = ri_Username inp, u_domain = au_domain S, u_password_hash = Some h \<rparr>"
  have u: "?u \<in> set (tb_users (tabs s'))" using acc acc' by (simp add: accounts_def)
  then have "\<bar>uid\<bar> \<le> 2 ^ 53" using assms(6) by force
  then have ex: "json_exact (access_claims E S uid (ri_DeviceID inp) ?jti (go_now s))"
    using assms(7) by (intro access_claims_exact) (simp_all add: tokenExpiryHours_def)
  have "live_token ?jti (tabs s2)" using a assms(8,11) by (auto simp: live_token_iff)
  from issued_token_valid [OF assms(1,2) _ ex _ assms(9) this] grant_token_InrD [OF 1(3)] c assms(10)
  have "run_state (ValidateToken E S tok) s2 = (Inr (uid, ri_DeviceID inp), s2)" by (simp add: tokenExpiryHours_def)
  with u 1(4) show ?thesis by (intro bexI [OF _ u]) simp
qed

theorem Register_token_valid_witness:
  "\<exists>s' u. run_state (Register token_env demo_auth demo_register) (session_on empty_tables []) = (Inr (''@ann:a.org'', 7, ''T''), s')
    \<and> u \<in> set (tb_users (tabs s'))
    \<and> run_state (ValidateToken token_env demo_auth ''T'') (session_on (tabs s') []) = (Inr (u_id u, 7), session_on (tabs s') [])"
proof -
  let ?s = "session_on empty_tables []"
  obtain s' where r: "run_state (Register token_env demo_auth demo_register) ?s = (Inr (''@ann:a.org'', 7, ''T''), s')"
    and u: "\<forall>u \<in> set (tb_users (tabs s')). u_id u = 1" "tb_now (tabs s') = 0"
    using demo_registered by blast
  have "\<exists>u \<in> set (tb_users (tabs s')). u_username u = ri_Username demo_register \<and> u_domain u = au_domain demo_auth
    \<and> 7 = ri_DeviceID demo_register
    \<and> run_state (ValidateToken token_env demo_auth ''T'') (session_on (tabs s') []) = (Inr (u_id u, 7), session_on (tabs s') [])"
    by (rule Register_token_valid [OF token_jwt_law token_uuid_law _ r])
       (use u in \<open>simp_all add: session_on_def empty_tables_def unix_def\<close>)
  with r show ?thesis by blast
qed

text \<open>A session in which user 1 is logged in on device 7 with the token above.\<close>

definition demo_token_row :: token_row where
  "demo_token_row = \<lparr> a_id = 1, a_user = 1, a_device = 7, a_hash = ''h'', a_jti = Some 1, a_expires = 100, a_revoked = None \<rparr>"

definition demo_session :: sess where
  "demo_session = session_on (demo_keys\<lparr>tb_tokens := [demo_token_row]\<rparr>) []"

lemma demo_parse: "jwt_parse token_env ''key'' (go_now demo_session) ''T'' = Some (access_claims token_env demo_auth 1 7 1 1700000000000000000)"
  by (simp add: token_claims) (simp add: token_env_def demo_session_def session_on_def Let_def)

lemma demo_live: "live_token 1 (tabs demo_session)"
  by (simp add: live_token_iff demo_session_def session_on_def demo_token_row_def demo_keys_def empty_tables_def)

lemma demo_uuid: "uuid_parse token_env (uuid_str token_env u) = Some u" "uuid_str token_env u \<noteq> ''''"
  using token_uuid_law unfolding uuid_law_def by blast+

lemma demo_valid: "run_state (ValidateToken token_env demo_auth ''T'') demo_session = (Inr (1, 7), demo_session)"
proof -
  have "faults demo_session = []" "au_jwt demo_auth = ''key''" by (simp_all add: demo_session_def session_on_def demo_auth_def)
  then show ?thesis using demo_live demo_uuid by (simp add: ValidateToken_def sql_simps demo_parse)
qed

lemma demo_revoke: "\<exists>s'. run_state (RevokeToken token_env demo_auth ''T'') demo_session = (Inr (), s')"
proof -
  have "faults demo_session = []" "au_jwt demo_auth = ''key''" by (simp_all add: demo_session_def session_on_def demo_auth_def)
  then show ?thesis using demo_uuid by (simp add: RevokeToken_def demo_valid sql_simps demo_parse revoke_jti_def)
qed



lemma del_device_tokens:
  "\<forall>a \<in> set (tb_tokens (snd (del_device dev user (snd (revoke_device_tokens user dev T))))). a_user a = user \<and> a_device a = dev \<longrightarrow> a_revoked a \<noteq> None"
  by (cases "list_ex (\<lambda>d. d_id d = dev \<and> d_user d = user) (tb_devices T)")
     (simp_all add: del_device_def revoke_device_tokens_def ball_Un)

lemma del_device_devices: "\<forall>d \<in> set (tb_devices (snd (del_device dev user T))). \<not> (d_id d = dev \<and> d_user d = user)"
  by (auto simp: del_device_def list_ex_iff)

lemma del_device_cascade:
  "\<exists>d \<in> set (tb_devices T). d_id d = dev \<and> d_user d = user \<Longrightarrow>
    (\<forall>p \<in> set (tb_otpks (snd (del_device dev user T))). o_device p \<noteq> dev)
    \<and> (\<forall>a \<in> set (tb_tokens (snd (del_device dev user T))). a_device a \<noteq> dev)"
  by (simp add: del_device_def list_ex_iff)

text \<open>C22: revoking a device logs it out: once it has reported success, under any faults, no
  token validates through a row of that user and device, the device is not in the directory
  any more, and if it was the user's, neither are its one-time prekeys.\<close>

theorem RevokeDevice_effective:
  assumes "run_state (RevokeDevice user dev) s = (Inr (), s1)"
  shows "(\<forall>a \<in> set (tb_tokens (tabs s1)). a_user a = user \<and> a_device a = dev \<longrightarrow> a_revoked a \<noteq> None)
    \<and> (\<forall>d \<in> set (tb_devices (tabs s1)). \<not> (d_id d = dev \<and> d_user d = user))
    \<and> ((\<exists>d \<in> set (tb_devices (tabs s)). d_id d = dev \<and> d_user d = user) \<longrightarrow>
        (\<forall>p \<in> set (tb_otpks (tabs s1)). o_device p \<noteq> dev) \<and> (\<forall>a \<in> set (tb_tokens (tabs s1)). a_device a \<noteq> dev))"
proof -
  obtain x sa where x: "run_state (stmt (revoke_device_tokens user dev)) s = (x, sa)" by fastforce
  with assms obtain u where u: "x = Inr u" by (cases x) (auto simp: RevokeDevice_def)
  obtain y sb where y: "run_state (stmt (del_device dev user)) sa = (y, sb)" by fastforce
  with assms x u have "y = Inr ()" "s1 = sb" by (cases y; auto simp: RevokeDevice_def)+
  with stmt_InrD [of "del_device dev user" sa "()" sb] y have "tabs s1 = snd (del_device dev user (tabs sa))" by simp
  moreover have "tabs sa = snd (revoke_device_tokens user dev (tabs s))"
    using stmt_InrD [OF x [unfolded u]] by simp
  ultimately have t: "tabs s1 = snd (del_device dev user (snd (revoke_device_tokens user dev (tabs s))))" by simp
  have "\<forall>a \<in> set (tb_tokens (tabs s1)). a_user a = user \<and> a_device a = dev \<longrightarrow> a_revoked a \<noteq> None"
    unfolding t by (rule del_device_tokens)
  moreover have "\<forall>d \<in> set (tb_devices (tabs s1)). \<not> (d_id d = dev \<and> d_user d = user)"
    unfolding t by (rule del_device_devices)
  moreover have "(\<forall>p \<in> set (tb_otpks (tabs s1)). o_device p \<noteq> dev) \<and> (\<forall>a \<in> set (tb_tokens (tabs s1)). a_device a \<noteq> dev)"
    if "\<exists>d \<in> set (tb_devices (tabs s)). d_id d = dev \<and> d_user d = user"
    unfolding t using that by (intro del_device_cascade) (simp add: revoke_device_tokens_def)
  ultimately show ?thesis by blast
qed

theorem RevokeDevice_effective_witness:
  "\<exists>s1. run_state (RevokeDevice 1 7) demo_session = (Inr (), s1) \<and> (\<forall>d \<in> set (tb_devices (tabs s1)). \<not> (d_id d = 7 \<and> d_user d = 1))"
proof -
  have "\<exists>s1. run_state (RevokeDevice 1 7) demo_session = (Inr (), s1)"
    by (simp add: RevokeDevice_def demo_session_def session_on_def sql_simps revoke_device_tokens_def del_device_def
        Let_def)
  then obtain s1 where r: "run_state (RevokeDevice 1 7) demo_session = (Inr (), s1)" by blast
  from RevokeDevice_effective [OF r] r show ?thesis by blast
qed

text \<open>The two kinds of token are kept apart: a WebSocket token never validates as an access
  token and an access token never as a WebSocket token, under any faults and at any time.\<close>

theorem token_kinds_apart:
  assumes "jwt_law E" and "\<bar>user\<bar> \<le> 2 ^ 53" and "\<bar>unix (go_now s + 86400000000000)\<bar> \<le> 2 ^ 53" and "\<bar>unix (go_now s + 60000000000)\<bar> \<le> 2 ^ 53"
  shows "(run_state (IssueWSToken E S user dev) s = (Inr wt, s1) \<longrightarrow> fst (run_state (ValidateToken E S wt) s2) = Inl ErrInvalidToken)
    \<and> (run_state (grant_token E S user dev) s = (Inr tok, s3) \<longrightarrow> fst (run_state (ValidateWSToken E S tok) s4) = Inl ErrInvalidToken)"
proof (intro conjI impI)
  let ?c = "Map.empty(
         ''user_id'' \<mapsto> CNum user, ''device_id'' \<mapsto> CStr (uuid_str E dev), ''typ'' \<mapsto> CStr ''ws'',
         ''iss'' \<mapsto> CStr (au_domain S), ''aud'' \<mapsto> CStr tokenAudience,
         ''exp'' \<mapsto> CNum (unix (go_now s + wsTokenExpirySec * 1000000000)))"
  assume "run_state (IssueWSToken E S user dev) s = (Inr wt, s1)"
  then have "jwt_sign E (au_jwt S) ?c = Some wt" by (auto simp: IssueWSToken_def sql_simps split: option.splits)
  moreover have "json_exact ?c" using assms(2,4) by (auto simp: json_exact_def wsTokenExpirySec_def split: if_splits)
  ultimately have "jwt_parse E (au_jwt S) (go_now s2) wt \<in> {Some ?c, None}" using assms(1) by (simp add: jwt_law_def)
  moreover have "str_claim ?c ''jti'' = ''''" by (simp add: str_claim_def)
  ultimately show "fst (run_state (ValidateToken E S wt) s2) = Inl ErrInvalidToken"
    by (auto simp: ValidateToken_def sql_simps)
next
  let ?c = "access_claims E S user dev (uuids s (upos s)) (go_now s)"
  assume "run_state (grant_token E S user dev) s = (Inr tok, s3)"
  note sign = grant_token_InrD [OF this]
  have "json_exact ?c" using assms(2,3) by (intro access_claims_exact) (simp_all add: tokenExpiryHours_def)
  with sign assms(1) have "jwt_parse E (au_jwt S) (go_now s4) tok \<in> {Some ?c, None}" by (simp add: jwt_law_def)
  then show "fst (run_state (ValidateWSToken E S tok) s4) = Inl ErrInvalidToken"
    by (auto simp: ValidateWSToken_def sql_simps)
qed

theorem token_kinds_apart_witness:
  "fst (run_state (ValidateWSToken token_env demo_auth ''T'') demo_session) = Inl ErrInvalidToken"
proof -
  have "run_state (grant_token token_env demo_auth 1 7) (session_on demo_keys [])
      = (Inr ''T'', snd (run_state (grant_token token_env demo_auth 1 7) (session_on demo_keys [])))"
    by (simp add: grant_token_def issueToken_def sql_simps session_on_def token_claims)
       (simp add: token_env_def Let_def demo_auth_def sql_simps Encrypt_def ins_token_def)
  then show ?thesis
    using token_kinds_apart [OF token_jwt_law, of 1 "session_on demo_keys []" demo_auth 7 _ _ _ "''T''" _ demo_session]
    by (simp add: session_on_def unix_def)
qed

section \<open>Passwords, backups, sessions\<close>

text \<open>
  What a login may do to the directory: the users stay as they are and the devices grow by
  devices of that user with the id of the login only.
\<close>

definition login_frame :: "int \<Rightarrow> uuid \<Rightarrow> tables \<Rightarrow> tables \<Rightarrow> bool" where
  "login_frame uid dev t0 t \<longleftrightarrow> tb_users t = tb_users t0
     \<and> (\<exists>ds. tb_devices t = tb_devices t0 @ ds \<and> (\<forall>d \<in> set ds. d_id d = dev \<and> d_user d = uid))"

lemma login_frame_simps [simp]:
  "login_frame uid dev t t"
  "login_frame uid dev t0 (t\<lparr>tb_tokens := a\<rparr>) = login_frame uid dev t0 t"
  "login_frame uid dev t0 (t\<lparr>seq_tokens := b\<rparr>) = login_frame uid dev t0 t"
  "login_frame uid dev t0 (t\<lparr>tb_otpks := c\<rparr>) = login_frame uid dev t0 t"
  "login_frame uid dev t0 (t\<lparr>seq_otpks := e\<rparr>) = login_frame uid dev t0 t"
  by (simp_all add: login_frame_def)

lemma login_frame_ins_device:
  "login_frame uid dev t0 t \<Longrightarrow> login_frame uid dev t0 (snd (ins_device dev uid ik spk sig spkID t))"
  by (auto simp: login_frame_def ins_device_def)

lemma login_user_InrD:
  assumes "run_state (login_user E S inp) s = (Inr uid, s')"
  shows "tabs s' = tabs s \<and> (\<exists>u \<in> set (tb_users (tabs s)). u_id u = uid \<and> u_username u = li_Username inp \<and> u_domain u = au_domain S
    \<and> (\<exists>ph. Decrypt (au_enc S) (case u_password_hash u of None \<Rightarrow> [] | Some h \<Rightarrow> h) = Inr ph \<and> password_ok E ph (li_Password inp)))"
proof -
  let ?q = "\<lambda>t. map (\<lambda>u. (u_id u, case u_password_hash u of None \<Rightarrow> [] | Some h \<Rightarrow> h))
            (filter (\<lambda>u. u_username u = li_Username inp \<and> u_domain u = au_domain S) (tb_users t))"
  obtain x s1 where q: "run_state (query_row ?q) s = (x, s1)" by fastforce
  with assms obtain h ph where h: "x = Inr (uid, h)" "s' = s1" "Decrypt (au_enc S) h = Inr ph" "password_ok E ph (li_Password inp)"
    by (auto simp: login_user_def split: sum.splits if_splits)
  from query_row_InrD [OF q [unfolded h(1)]] obtain xs where "?q (tabs s) = (uid, h) # xs" ..
  then have "(uid, h) \<in> set (?q (tabs s))" by simp
  then show ?thesis using h query_row_tabs [OF q] by auto
qed

lemma add_device_frame:
  "triple (on_tabs (login_frame uid (li_DeviceID inp) t0)) (add_device S uid inp) (\<lambda>_. on_tabs (login_frame uid (li_DeviceID inp) t0))"
  unfolding add_device_def new_device_keys_def login_prekey_def encrypt3_def
  by (intro triple_intros) (auto intro: login_frame_ins_device simp: ins_otpk_def Let_def)

lemma login_prekey_keeps: "keeps (on_tabs (\<lambda>t. P (tb_devices t))) (login_prekey c dev pk)"
  unfolding login_prekey_def by (intro triple_intros) (auto simp: ins_otpk_def Let_def)

lemma keeps_tabsD: "keeps (on_tabs P) m \<Longrightarrow> run_state m s = (r, s') \<Longrightarrow> P (tabs s) \<Longrightarrow> P (tabs s')"
  by (auto simp: triple_def on_tabs_def)

lemma add_device_InrD:
  assumes "run_state (add_device S uid inp) s = (Inr x, s')"
  shows "\<exists>d \<in> set (tb_devices (tabs s')). d_id d = li_DeviceID inp \<and> d_user d = uid"
proof -
  let ?P = "\<lambda>D. \<exists>d \<in> set D. d_id d = li_DeviceID inp \<and> d_user d = uid"
  from assms obtain ik spk sig n s1 d s2 where d: "run_state (stmt (ins_device (li_DeviceID inp) uid ik spk sig n)) s1 = (Inr d, s2)"
    and f: "run_state (for_err (login_prekey (au_enc S) (li_DeviceID inp)) (li_OneTimePrekeys inp)) s2 = (Inr x, s')"
    by (auto simp: add_device_def split: prod.splits sum.splits if_splits)
  have "keeps (on_tabs (\<lambda>t. ?P (tb_devices t))) (for_err (login_prekey (au_enc S) (li_DeviceID inp)) (li_OneTimePrekeys inp))"
    by (intro triple_intros login_prekey_keeps)
  then show ?thesis
    by (rule keeps_tabsD [OF _ f]) (use stmt_InrD [OF d] in \<open>auto simp: ins_device_def split: if_splits dest: sym\<close>)
qed

lemma Login_InrD:
  assumes "run_state (Login E S inp) s = (Inr r, s')"
  shows "lr_UserID r = ''@'' @ li_Username inp @ '':'' @ au_domain S \<and> lr_DeviceID r = li_DeviceID inp
    \<and> (\<exists>u \<in> set (tb_users (tabs s)). u_username u = li_Username inp \<and> u_domain u = au_domain S
        \<and> (\<exists>ph. Decrypt (au_enc S) (case u_password_hash u of None \<Rightarrow> [] | Some h \<Rightarrow> h) = Inr ph \<and> password_ok E ph (li_Password inp))
        \<and> login_frame (u_id u) (li_DeviceID inp) (tabs s) (tabs s')
        \<and> (\<exists>d \<in> set (tb_devices (tabs s')). d_id d = li_DeviceID inp \<and> d_user d = u_id u))"
proof -
  obtain x s1 where x: "run_state (login_user E S inp) s = (x, s1)" by fastforce
  with assms obtain uid where uid: "x = Inr uid" by (cases x) (auto simp: Login_def)
  note u = login_user_InrD [OF x [unfolded uid]]
  let ?q = "\<lambda>t. [list_ex (\<lambda>d. d_user d = uid \<and> d_id d = li_DeviceID inp) (tb_devices t)]"
  let ?F = "login_frame uid (li_DeviceID inp) (tabs s)"
  let ?has = "\<lambda>t. \<exists>d \<in> set (tb_devices t). d_id d = li_DeviceID inp \<and> d_user d = uid"
  obtain y s2 where y: "run_state (query_row ?q) s1 = (y, s2)" by fastforce
  with assms x uid obtain de where de: "y = Inr de" by (cases y) (auto simp: Login_def)
  obtain z s3 where z: "run_state (if de then ret (Inr ()) else add_device S uid inp) s2 = (z, s3)" by fastforce
  with assms x uid y de have z': "z = Inr ()" by (cases z) (auto simp: Login_def)
  obtain w s4 where w: "run_state (grant_token E S uid (li_DeviceID inp)) s3 = (w, s4)" by fastforce
  with assms x uid y de z z' obtain tok where tok: "w = Inr tok" by (cases w) (auto simp: Login_def)
  have s2: "tabs s2 = tabs s" using query_row_tabs [OF y] u by simp
  have dev: "de \<Longrightarrow> ?has (tabs s2)" using query_row_InrD [OF y [unfolded de]] query_row_tabs [OF y] by (auto simp: list_ex_iff)
  have "?F (tabs s3) \<and> ?has (tabs s3)"
  proof (cases de)
    case True then show ?thesis using z dev s2 by simp
  next
    case False
    with z z' have a: "run_state (add_device S uid inp) s2 = (Inr (), s3)" by simp
    have "on_tabs ?F s3" by (rule tripleD [OF add_device_frame _ a]) (simp add: on_tabs_def s2)
    then show ?thesis using add_device_InrD [OF a] by (simp add: on_tabs_def)
  qed
  moreover have "keeps (on_tabs (\<lambda>t. ?F t \<and> ?has t)) (grant_token E S uid (li_DeviceID inp))"
    unfolding grant_token_def by (intro triple_intros) (auto simp: ins_token_def Let_def)
  ultimately have "?F (tabs s4) \<and> ?has (tabs s4)" by (rule keeps_tabsD [OF _ w, rotated])
  moreover have "tabs s' = tabs s4 \<and> lr_UserID r = ''@'' @ li_Username inp @ '':'' @ au_domain S \<and> lr_DeviceID r = li_DeviceID inp"
    using assms x uid y de z z' w tok
    by (auto simp: Login_def GetKeyBackup_def split: prod.splits if_splits dest: query_row_tabs)
  moreover from u obtain v where "v \<in> set (tb_users (tabs s))" "u_id v = uid" "u_username v = li_Username inp" "u_domain v = au_domain S"
    "\<exists>ph. Decrypt (au_enc S) (case u_password_hash v of None \<Rightarrow> [] | Some h \<Rightarrow> h) = Inr ph \<and> password_ok E ph (li_Password inp)" by blast
  ultimately show ?thesis by (intro conjI bexI [of _ v]) auto
qed


definition demo_login :: login_input where
  "demo_login = \<lparr> li_Username = ''ann'', li_Password = '''', li_DeviceID = 7, li_RequestKeysRestore = False, li_IdentityKey = [],
     li_SignedPrekey = [], li_SignedPrekeySig = [], li_SignedPrekeyID = 0, li_OneTimePrekeys = [] \<rparr>"

lemma demo_logged_in: "\<exists>r s'. run_state (Login token_env demo_auth demo_login) (session_on demo_keys []) = (Inr r, s')"
proof -
  have "jwt_sign token_env ''key'' (access_claims token_env demo_auth 1 7 1 1700000000000000000) = Some ''T''"
    by (simp add: token_claims) (simp add: token_env_def Let_def)
  then show ?thesis
    by (simp add: Login_def login_user_def grant_token_def issueToken_def Encrypt_def Decrypt_def demo_auth_def demo_login_def
        demo_keys_def demo_device_def ins_token_def password_ok_def empty_tables_def session_on_def sql_simps Let_def)
qed


text \<open>
  The last write of a backup, read back. Both tables have at most one row per user
  (\<open>user_id\<close> is their primary key).
\<close>

definition backups_inv :: "tables \<Rightarrow> bool" where
  "backups_inv t \<longleftrightarrow> distinct (map bs_user (tb_salts t)) \<and> distinct (map kb_user (tb_backups t))"

lemma filter_distinct_key: "distinct (map k xs) \<Longrightarrow> x \<in> set xs \<Longrightarrow> filter (\<lambda>y. k y = k x) xs = [x]"
  by (induction xs) (auto simp: filter_empty_conv, metis image_eqI)

lemma put_salt_row:
  assumes "put_salt user salt t = (Inr x, t')" "distinct (map bs_user (tb_salts t))"
  shows "filter (\<lambda>b. bs_user b = user) (tb_salts t') = [\<lparr> bs_user = user, bs_salt = salt \<rparr>]
    \<and> tb_backups t' = tb_backups t"
proof (cases "user \<in> bs_user ` set (tb_salts t)")
  case True
  then obtain b where b: "b \<in> set (tb_salts t)" "bs_user b = user" by auto
  with filter_distinct_key [OF assms(2) b(1)] assms(1) True show ?thesis
    by (auto simp: put_salt_def filter_map o_def)
next
  case False
  then have "filter (\<lambda>b. bs_user b = user) (tb_salts t) = []" by (auto simp: filter_empty_conv)
  with False assms(1) show ?thesis by (auto simp: put_salt_def split: if_splits)
qed

lemma put_backup_row:
  assumes "put_backup user blob t = (Inr x, t')" "distinct (map kb_user (tb_backups t))"
  shows "filter (\<lambda>b. kb_user b = user) (tb_backups t') = [\<lparr> kb_user = user, kb_bundle = blob \<rparr>]
    \<and> tb_salts t' = tb_salts t"
proof (cases "user \<in> kb_user ` set (tb_backups t)")
  case True
  then obtain b where b: "b \<in> set (tb_backups t)" "kb_user b = user" by auto
  with filter_distinct_key [OF assms(2) b(1)] assms(1) True show ?thesis
    by (auto simp: put_backup_def filter_map o_def)
next
  case False
  then have "filter (\<lambda>b. kb_user b = user) (tb_backups t) = []" by (auto simp: filter_empty_conv)
  with False assms(1) show ?thesis by (auto simp: put_backup_def split: if_splits)
qed

lemma backup_join:
  "[(bs_salt b, kb_bundle k). b \<leftarrow> xs, k \<leftarrow> ys, kb_user k = bs_user b \<and> bs_user b = user]
    = [(bs_salt b, kb_bundle k). b \<leftarrow> filter (\<lambda>b. bs_user b = user) xs, k \<leftarrow> filter (\<lambda>k. kb_user k = user) ys]"
proof -
  have *: "concat (map (\<lambda>k. if kb_user k = u then [(a, kb_bundle k)] else []) ys)
      = map (\<lambda>k. (a, kb_bundle k)) (filter (\<lambda>k. kb_user k = u) ys)" for a :: bytes and u
    by (induction ys) simp_all
  show ?thesis by (induction xs) (auto simp: *)
qed

lemma in_tx_InrD:
  assumes "run_state (in_tx w body) s = (Inr x, s')"
  obtains fs sa where "run_state body (s\<lparr>faults := fs\<rparr>) = (Inr x, sa)" "tabs s' = tabs sa"
proof -
  obtain b s1 where b: "run_state tx_begin s = (b, s1)" by fastforce
  then have "\<exists>fs. s1 = s\<lparr>faults := fs\<rparr>"
    by (cases "faults s") (auto simp: tx_begin_def stmt_def Let_def split: fault.splits intro: exI [of _ "faults s"])
  moreover obtain r s2 where r: "run_state body s1 = (r, s2)" by fastforce
  moreover from assms b have "\<exists>snap. b = Inr snap" by (cases b) (auto simp: in_tx_def in_tx_then_def)
  ultimately show ?thesis using assms b
    by (cases r) (auto simp: in_tx_def in_tx_then_def tx_commit_def Let_def split: list.splits fault.splits sum.splits prod.splits intro: that)
qed

text \<open>A key backup comes back as it was stored: once storing it has reported success, under
  any faults, reading it gives the salt and the blob, also after the rows of other users or
  other tables have changed.\<close>

theorem KeyBackup_roundtrip:
  assumes "cipher_ok (au_enc S)" "backups_inv (tabs s)"
    and "run_state (StoreKeyBackup S user salt blob) s = (Inr (), s1)"
    and "filter (\<lambda>b. bs_user b = user) (tb_salts (tabs s2)) = filter (\<lambda>b. bs_user b = user) (tb_salts (tabs s1))"
    and "filter (\<lambda>b. kb_user b = user) (tb_backups (tabs s2)) = filter (\<lambda>b. kb_user b = user) (tb_backups (tabs s1))"
    and "faults s2 = []"
  shows "run_state (GetKeyBackup S user) s2 = (Inr (salt, blob), s2)"
proof -
  from assms(3) obtain fs sf where
    b: "run_state (do {
     x \<leftarrow> Encrypt (au_enc S) salt;
     case x of Inl e \<Rightarrow> ret (Inl (AuthEnc e)) | Inr salt' \<Rightarrow> do {
     y \<leftarrow> Encrypt (au_enc S) blob;
     case y of Inl e \<Rightarrow> ret (Inl (AuthEnc e)) | Inr blob' \<Rightarrow> do {
     a \<leftarrow> stmt (put_salt user salt');
     case a of Inl e \<Rightarrow> ret (Inl (AuthDB e)) | Inr _ \<Rightarrow> do {
     b \<leftarrow> stmt (put_backup user blob');
     ret (case b of Inl e \<Rightarrow> Inl (AuthDB e) | Inr _ \<Rightarrow> Inr ()) } } } }) (s\<lparr>faults := fs\<rparr>) = (Inr (), sf)" and t: "tabs s1 = tabs sf"
    unfolding StoreKeyBackup_def by (rule in_tx_InrD)
  obtain x sa where x: "run_state (Encrypt (au_enc S) salt) (s\<lparr>faults := fs\<rparr>) = (x, sa)" by fastforce
  with b obtain es where es: "x = Inr es" by (cases x) auto
  obtain y sb where y: "run_state (Encrypt (au_enc S) blob) sa = (y, sb)" by fastforce
  with b x es obtain eb where eb: "y = Inr eb" by (cases y) auto
  obtain z sc where z: "run_state (stmt (put_salt user es)) sb = (z, sc)" by fastforce
  with b x es y eb have z': "z = Inr ()" by (cases z) auto
  obtain w sd where w: "run_state (stmt (put_backup user eb)) sc = (w, sd)" by fastforce
  with b x es y eb z z' have w': "w = Inr ()" "tabs sd = tabs s1" using t by (cases w; auto)+
  have t0: "tabs sb = tabs s" using col.enc_tabs [OF x] col.enc_tabs [OF y] by simp
  have 1: "filter (\<lambda>b. bs_user b = user) (tb_salts (tabs sc)) = [\<lparr> bs_user = user, bs_salt = es \<rparr>]"
      "tb_backups (tabs sc) = tb_backups (tabs s)"
    using put_salt_row [OF stmt_InrD [OF z [unfolded z']]] assms(2) t0 unfolding backups_inv_def by simp_all
  with put_backup_row [OF stmt_InrD [OF w [unfolded w'(1)]]] assms(2)
  have 2: "filter (\<lambda>b. kb_user b = user) (tb_backups (tabs s1)) = [\<lparr> kb_user = user, kb_bundle = eb \<rparr>]"
    "tb_salts (tabs s1) = tb_salts (tabs sc)"
    unfolding backups_inv_def by (simp_all add: w'(2))
  with 1 assms(4,5) have "filter (\<lambda>b. bs_user b = user) (tb_salts (tabs s2)) = [\<lparr> bs_user = user, bs_salt = es \<rparr>]"
    "filter (\<lambda>b. kb_user b = user) (tb_backups (tabs s2)) = [\<lparr> kb_user = user, kb_bundle = eb \<rparr>]" by simp_all
  moreover have "Decrypt (au_enc S) es = Inr salt" "Decrypt (au_enc S) eb = Inr blob"
    using col.enc_dec [OF x [unfolded es] assms(1)] col.enc_dec [OF y [unfolded eb] assms(1)] by simp_all
  ultimately show ?thesis using assms(6) unfolding GetKeyBackup_def backup_join by (simp add: sql_simps)
qed

theorem KeyBackup_roundtrip_witness:
  "\<exists>s1. run_state (StoreKeyBackup demo_auth 1 ''s'' ''b'') (session_on demo_keys []) = (Inr (), s1)
    \<and> run_state (GetKeyBackup demo_auth 1) s1 = (Inr (''s'', ''b''), s1)"
proof -
  have "\<exists>s1. run_state (StoreKeyBackup demo_auth 1 ''s'' ''b'') (session_on demo_keys []) = (Inr (), s1) \<and> faults s1 = []"
    by (simp add: StoreKeyBackup_def in_tx_def in_tx_then_def put_salt_def put_backup_def Encrypt_def demo_auth_def
        demo_keys_def empty_tables_def session_on_def sql_simps)
  then obtain s1 where r: "run_state (StoreKeyBackup demo_auth 1 ''s'' ''b'') (session_on demo_keys []) = (Inr (), s1)"
    and f: "faults s1 = []" by blast
  have "run_state (GetKeyBackup demo_auth 1) s1 = (Inr (''s'', ''b''), s1)"
    by (rule KeyBackup_roundtrip [OF _ _ r refl refl f])
       (simp_all add: demo_auth_def backups_inv_def demo_keys_def empty_tables_def session_on_def cipher_ok_def)
  with r show ?thesis by blast
qed

lemma rand_read_frame: "run_state (rand_read n) s = (r, s') \<Longrightarrow> tabs s' = tabs s \<and> go_now s' = go_now s \<and> (\<forall>b. r = Some b \<longrightarrow> length b = n)"
  by (auto simp: sql_simps split: option.splits)

text \<open>A session for a user of another server lasts as long as it should: once it has been
  created, its token gives the session back until the expiry (kept to the microsecond), and
  later it is refused and its row is removed.\<close>

theorem ProxySession_lifetime:
  assumes "run_state (CreateProxySession E homeDomain homeToken userID deviceID expiresIn) s = (Inr tok, s1)"
    and "tb_proxy (tabs s2) = tb_proxy (tabs s1)" and "faults s2 = []"
  shows "(go_now s2 \<le> (go_now s + expiresIn) div 1000 * 1000 \<longrightarrow>
       run_state (GetProxySessionByToken E tok) s2 = (Inr \<lparr> px_HomeDomain = homeDomain, px_HomeToken = homeToken,
         px_UserID = userID, px_DeviceID = deviceID \<rparr>, s2))
    \<and> (go_now s2 > (go_now s + expiresIn) div 1000 * 1000 \<longrightarrow>
       (\<exists>s3. run_state (GetProxySessionByToken E tok) s2 = (Inl ErrInvalidToken, s3) \<and> tb_proxy (tabs s3) = tb_proxy (tabs s)))"
proof -
  obtain x sa where x: "run_state (rand_read 32) s = (x, sa)" by fastforce
  with assms(1) obtain b where b: "x = Some b" by (cases x) (auto simp: CreateProxySession_def)
  note fr = rand_read_frame [OF x]
  let ?row = "\<lparr> ps_hash = sha256 E b, ps_home_domain = homeDomain,
                  ps_home_token = homeToken, ps_user = userID, ps_device = deviceID,
                  ps_expires = (go_now s + expiresIn) div 1000 \<rparr>"
  let ?f = "\<lambda>t. if sha256 E b \<in> ps_hash ` set (tb_proxy t) then (Inl UniqueViolation, t)
                else (Inr (), t\<lparr>tb_proxy := tb_proxy t @ [?row]\<rparr>)"
  obtain y sb where y: "run_state (stmt ?f) sa = (y, sb)" by fastforce
  with assms(1) x b fr have y': "y = Inr ()" "tok = hex_encode b" "s1 = sb"
    by (cases y; auto simp: CreateProxySession_def sql_simps)+
  from stmt_InrD [OF y [unfolded y'(1)]] y'(3) fr
  have p: "tb_proxy (tabs s1) = tb_proxy (tabs s) @ [?row]" "sha256 E b \<notin> ps_hash ` set (tb_proxy (tabs s))"
    by (auto split: if_splits dest: sym)
  from p(2) have e: "filter (\<lambda>p. ps_hash p = sha256 E b) (tb_proxy (tabs s)) = []"
    "filter (\<lambda>p. ps_hash p \<noteq> sha256 E b) (tb_proxy (tabs s)) = tb_proxy (tabs s)"
    by (force simp: filter_empty_conv filter_id_conv image_iff)+
  have "length b = 32" using fr b by simp
  then show ?thesis using assms(2,3) p(1) e y'(2)
    by (auto simp: GetProxySessionByToken_def hex_decode_encode sql_simps)
qed

theorem ProxySession_lifetime_witness:
  "\<exists>tok s1. run_state (CreateProxySession demo_env ''b.org'' ''t'' ''@ann:b.org'' ''d'' 5000) (session_on empty_tables []) = (Inr tok, s1)
    \<and> run_state (GetProxySessionByToken demo_env tok) s1 = (Inr \<lparr> px_HomeDomain = ''b.org'', px_HomeToken = ''t'',
         px_UserID = ''@ann:b.org'', px_DeviceID = ''d'' \<rparr>, s1)"
proof -
  have "\<exists>tok s1. run_state (CreateProxySession demo_env ''b.org'' ''t'' ''@ann:b.org'' ''d'' 5000) (session_on empty_tables []) = (Inr tok, s1)
      \<and> faults s1 = [] \<and> go_now s1 = 1700000000000000000"
    by (simp add: CreateProxySession_def sql_simps session_on_def empty_tables_def)
  then obtain tok s1 where r: "run_state (CreateProxySession demo_env ''b.org'' ''t'' ''@ann:b.org'' ''d'' 5000) (session_on empty_tables []) = (Inr tok, s1)"
    "faults s1 = []" "go_now s1 = 1700000000000000000" by blast
  from ProxySession_lifetime [OF r(1) refl r(2)] r show ?thesis by (simp add: session_on_def)
qed

text \<open>
  The bound of \<open>sanitizeDeviceName\<close> is tested before a rune is written, so that the name can
  have up to 67 bytes.
\<close>

lemma rune_len_le: "rune_len s \<le> 4"
  by (cases s) (simp_all split: list.split)

lemma take_name_le: "length buf \<le> 67 \<Longrightarrow> length (take_name buf s) \<le> 67"
proof (induction buf s rule: take_name.induct)
  case (1 buf s)
  let ?n = "rune_len s" and ?r = "if rune_len s = 0 then [CHR 0xEF, CHR 0xBF, CHR 0xBD] else take (rune_len s) s"
  have "length ?r \<le> 4" using rune_len_le [of s] by (simp add: min.coboundedI2)
  then have "length buf < 64 \<Longrightarrow> length (buf @ ?r) \<le> 67" by simp
  then show ?case
    using 1 by (subst take_name.simps) (auto simp: Let_def)
qed

lemma sanitizeDeviceName_le: "length (sanitizeDeviceName s) \<le> 67"
  by (simp add: sanitizeDeviceName_def take_name_le)

end
