(* ===== verification/Stream.thy ===== *)
theory Stream
  imports Auth
begin

text \<open>
  Package \<open>stream\<close> (\<open>src/server/internal/stream/hub.go\<close>), the hub that tells connected
  WebSocket clients about messages, typing, deliveries and reads, and the handler that
  connects a client (\<open>src/server/internal/api/handlers_websocket.go\<close>). A client pointer is an
  index into the clients allocated so far, a Go channel with capacity \<open>n\<close> a list of at most
  \<open>n\<close> values; a JSON payload is the datatype value it encodes. The goroutines are the steps of
  a cluster of hubs that share one Redis: a step holds the lock for as long as it touches the
  maps.
\<close>

section \<open>Events and clients\<close>

record event =
  ev_Recipient :: string
  ev_EventID :: string

record typing_event =
  te_Recipient :: string
  te_Sender :: string
  te_Typing :: bool
  te_Room :: string

record client =
  cl_Recipient :: string
  cl_Sender :: string

datatype ws_msg = NewMessage string | TypingMsg string bool "string option" | DeliveryMsg string string | ReadMsg string string

text \<open>A message of Redis: the channel and the payload.\<close>

datatype redis_msg = OnNotify event | OnTyping typing_event | OnDelivery string string string | OnRead string string string

record hub =
  hb_clients :: "string \<Rightarrow> nat list option"
  hb_objs :: "client list"
  hb_send :: "nat \<Rightarrow> ws_msg list"
  hb_broadcast :: "event list"
  hb_typing :: "typing_event list"
  hb_redis :: bool
  hb_inbox :: "redis_msg list"
  hb_stopped :: bool

text \<open>\<open>up\<close>: the URL parses and the server answers the ping.\<close>

definition NewHubWithRedis :: "(string \<Rightarrow> bool) \<Rightarrow> string \<Rightarrow> hub" where
  "NewHubWithRedis up redisURL = \<lparr> hb_clients = Map.empty, hb_objs = [], hb_send = (\<lambda>_. []), hb_broadcast = [], hb_typing = [],
     hb_redis = (redisURL \<noteq> '''' \<and> up redisURL), hb_inbox = [], hb_stopped = False \<rparr>"

definition NewHub :: hub where
  "NewHub = NewHubWithRedis (\<lambda>_. False) ''''"

text \<open>A send in a \<open>select\<close> with an empty default: dropped when the buffer is full.\<close>

definition try_send :: "nat \<Rightarrow> 'a \<Rightarrow> 'a list \<Rightarrow> 'a list" where
  "try_send cap x buf = (if length buf < cap then buf @ [x] else buf)"

definition push_clients :: "string \<Rightarrow> ws_msg \<Rightarrow> hub \<Rightarrow> hub" where
  "push_clients recipient msg h =
     (case hb_clients h recipient of
        None \<Rightarrow> h
      | Some cs \<Rightarrow> h\<lparr>hb_send := (\<lambda>c. if c \<in> set cs then try_send 256 msg (hb_send h c) else hb_send h c)\<rparr>)"

definition pushToLocal :: "event \<Rightarrow> hub \<Rightarrow> hub" where
  "pushToLocal ev h = h\<lparr>hb_broadcast := try_send 256 ev (hb_broadcast h)\<rparr>"

definition pushReadToLocal :: "string \<Rightarrow> string \<Rightarrow> string \<Rightarrow> hub \<Rightarrow> hub" where
  "pushReadToLocal recipient eventID readAt = push_clients recipient (ReadMsg eventID readAt)"

definition pushDeliveryToLocal :: "string \<Rightarrow> string \<Rightarrow> string \<Rightarrow> hub \<Rightarrow> hub" where
  "pushDeliveryToLocal recipient eventID status = push_clients recipient (DeliveryMsg eventID status)"

definition pushTypingToLocal :: "typing_event \<Rightarrow> hub \<Rightarrow> hub" where
  "pushTypingToLocal te h = h\<lparr>hb_typing := try_send 64 te (hb_typing h)\<rparr>"

definition typing_payload :: "typing_event \<Rightarrow> ws_msg" where
  "typing_payload te = TypingMsg (te_Sender te) (te_Typing te) (if te_Room te \<noteq> '''' then Some (te_Room te) else None)"

text \<open>One round of \<open>Run\<close>, for either channel, and one of \<open>runRedisSubscriber\<close>; \<open>None\<close> when the
  case of the \<open>select\<close> is not ready.\<close>

definition run_broadcast :: "hub \<Rightarrow> hub option" where
  "run_broadcast h = (case hb_broadcast h of
     [] \<Rightarrow> None
   | ev # evs \<Rightarrow> if hb_stopped h then None
       else Some (push_clients (ev_Recipient ev) (NewMessage (ev_EventID ev)) (h\<lparr>hb_broadcast := evs\<rparr>)))"

definition run_typing :: "hub \<Rightarrow> hub option" where
  "run_typing h = (case hb_typing h of
     [] \<Rightarrow> None
   | te # tes \<Rightarrow> if hb_stopped h then None
       else Some (push_clients (te_Recipient te) (typing_payload te) (h\<lparr>hb_typing := tes\<rparr>)))"

definition runRedisSubscriber :: "hub \<Rightarrow> hub option" where
  "runRedisSubscriber h = (case hb_inbox h of
     [] \<Rightarrow> None
   | m # ms \<Rightarrow> if hb_stopped h then None
       else (let h1 = h\<lparr>hb_inbox := ms\<rparr> in
         Some (case m of
           OnTyping te \<Rightarrow> pushTypingToLocal te h1
         | OnDelivery r e st \<Rightarrow> pushDeliveryToLocal r e st h1
         | OnRead r e at \<Rightarrow> pushReadToLocal r e at h1
         | OnNotify ev \<Rightarrow> pushToLocal ev h1)))"

section \<open>Calls\<close>

text \<open>A call gives what it publishes to Redis and the hub after it.\<close>

definition NotifyRead :: "string \<Rightarrow> string \<Rightarrow> string \<Rightarrow> hub \<Rightarrow> redis_msg list \<times> hub" where
  "NotifyRead senderAddr eventID readAt h =
     (if hb_redis h then [OnRead senderAddr eventID readAt] else [], pushReadToLocal senderAddr eventID readAt h)"

definition NotifyDelivery :: "string \<Rightarrow> string \<Rightarrow> string \<Rightarrow> hub \<Rightarrow> redis_msg list \<times> hub" where
  "NotifyDelivery senderAddr eventID status h =
     (if hb_redis h then [OnDelivery senderAddr eventID status] else [], pushDeliveryToLocal senderAddr eventID status h)"

definition Notify :: "string \<Rightarrow> string \<Rightarrow> hub \<Rightarrow> redis_msg list \<times> hub" where
  "Notify recipient eventID h =
     (let ev = \<lparr> ev_Recipient = recipient, ev_EventID = eventID \<rparr> in
      (if hb_redis h then [OnNotify ev] else [], pushToLocal ev h))"

definition notifyTyping :: "string \<Rightarrow> string \<Rightarrow> bool \<Rightarrow> string \<Rightarrow> hub \<Rightarrow> redis_msg list \<times> hub" where
  "notifyTyping recipient sender typing room h =
     (let te = \<lparr> te_Recipient = recipient, te_Sender = sender, te_Typing = typing, te_Room = room \<rparr> in
      (if hb_redis h then [OnTyping te] else [], pushTypingToLocal te h))"

definition NotifyTyping :: "string \<Rightarrow> string \<Rightarrow> bool \<Rightarrow> hub \<Rightarrow> redis_msg list \<times> hub" where
  "NotifyTyping recipient sender typing = notifyTyping recipient sender typing ''''"

definition NotifyTypingToMember :: "string \<Rightarrow> string \<Rightarrow> bool \<Rightarrow> string \<Rightarrow> hub \<Rightarrow> redis_msg list \<times> hub" where
  "NotifyTypingToMember memberAddr sender typing roomAddr = notifyTyping memberAddr sender typing roomAddr"

definition Register_client :: "string \<Rightarrow> string \<Rightarrow> hub \<Rightarrow> nat \<times> hub" where
  "Register_client recipient sender h =
     (let c = length (hb_objs h); old = (case hb_clients h recipient of None \<Rightarrow> [] | Some cs \<Rightarrow> cs) in
      (c, h\<lparr>hb_objs := hb_objs h @ [\<lparr> cl_Recipient = recipient, cl_Sender = sender \<rparr>],
            hb_send := (hb_send h)(c := []),
            hb_clients := (hb_clients h)(recipient \<mapsto> old @ [c])\<rparr>))"

definition Unregister :: "nat \<Rightarrow> hub \<Rightarrow> hub" where
  "Unregister c h =
     (let r = cl_Recipient (hb_objs h ! c) in
      case hb_clients h r of
        None \<Rightarrow> h
      | Some cs \<Rightarrow>
          (let m = filter (\<lambda>d. d \<noteq> c) cs in
           h\<lparr>hb_clients := (if m = [] then (hb_clients h)(r := None) else (hb_clients h)(r \<mapsto> m))\<rparr>))"

definition Close :: "hub \<Rightarrow> hub" where
  "Close h = h\<lparr>hb_stopped := True\<rparr>"

section \<open>Connecting a client\<close>

record ws_request =
  wr_protocol :: string
  wr_as :: string

fun first_bearer :: "string list \<Rightarrow> string" where
  "first_bearer [] = ''''"
| "first_bearer (q # ps) =
     (let p = TrimSpace q in if HasPrefix p ''bearer.'' \<and> length p > 7 then drop 7 p else first_bearer ps)"

definition extractWSToken :: "ws_request \<Rightarrow> string" where
  "extractWSToken r = first_bearer (SplitC (CHR '','') (wr_protocol r))"

text \<open>
  The handler up to the loop that reads from the connection: the status it answers, or the
  client it registered. \<open>upgraded\<close> says whether the upgrade of the connection succeeds.
\<close>

definition serveWs :: "env \<Rightarrow> auth \<Rightarrow> string \<Rightarrow> bool \<Rightarrow> ws_request \<Rightarrow> sess \<Rightarrow> hub \<Rightarrow> (nat + nat) \<times> sess \<times> hub" where
  "serveWs E S domain upgraded r s h =
     (let wsToken = extractWSToken r in
      if wsToken = '''' then (Inl 401, s, h)
      else (case run_state (ValidateWSToken E S wsToken) s of
        (Inl _, s1) \<Rightarrow> (Inl 401, s1, h)
      | (Inr (userID, _), s1) \<Rightarrow>
          if wr_as r = '''' then (Inl 400, s1, h)
          else (case run_state (GetUsername S userID) s1 of
            (u, s2) \<Rightarrow>
              if \<not> upgraded then (Inl 400, s2, h)
              else (let userAddr = ''@'' @ (case u of Inl _ \<Rightarrow> '''' | Inr n \<Rightarrow> n) @ '':'' @ domain;
                        (c, h1) = Register_client (wr_as r) userAddr h in
                    (Inr c, s2, h1)))))"

section \<open>A cluster of hubs\<close>

datatype call = CallNotify string string | CallTyping string string bool string | CallDelivery string string string
  | CallRead string string string

fun hub_call :: "call \<Rightarrow> hub \<Rightarrow> redis_msg list \<times> hub" where
  "hub_call (CallNotify r e) h = Notify r e h"
| "hub_call (CallTyping r s t room) h = notifyTyping r s t room h"
| "hub_call (CallDelivery r e st) h = NotifyDelivery r e st h"
| "hub_call (CallRead r e at) h = NotifyRead r e at h"

text \<open>Whom a call is for, and what he is to be sent.\<close>

fun posting :: "call \<Rightarrow> string \<times> ws_msg" where
  "posting (CallNotify r e) = (r, NewMessage e)"
| "posting (CallTyping r s t room) = (r, TypingMsg s t (if room \<noteq> '''' then Some room else None))"
| "posting (CallDelivery r e st) = (r, DeliveryMsg e st)"
| "posting (CallRead r e at) = (r, ReadMsg e at)"

definition publish :: "redis_msg list \<Rightarrow> hub list \<Rightarrow> hub list" where
  "publish ms hs = map (\<lambda>h. if hb_redis h then h\<lparr>hb_inbox := hb_inbox h @ ms\<rparr> else h) hs"

text \<open>The hubs and, as a ghost, the calls made so far. A publication may get lost.\<close>

record cluster =
  nodes :: "hub list"
  calls :: "call list"

inductive cluster_step :: "cluster \<Rightarrow> cluster \<Rightarrow> bool" where
  call: "i < length (nodes C) \<Longrightarrow> hub_call c (nodes C ! i) = (ms, h) \<Longrightarrow>
     cluster_step C \<lparr> nodes = (if lost then (nodes C)[i := h] else publish ms ((nodes C)[i := h])), calls = calls C @ [c] \<rparr>"
| broadcast: "i < length (nodes C) \<Longrightarrow> run_broadcast (nodes C ! i) = Some h \<Longrightarrow> cluster_step C (C\<lparr>nodes := (nodes C)[i := h]\<rparr>)"
| typing: "i < length (nodes C) \<Longrightarrow> run_typing (nodes C ! i) = Some h \<Longrightarrow> cluster_step C (C\<lparr>nodes := (nodes C)[i := h]\<rparr>)"
| subscriber: "i < length (nodes C) \<Longrightarrow> runRedisSubscriber (nodes C ! i) = Some h \<Longrightarrow> cluster_step C (C\<lparr>nodes := (nodes C)[i := h]\<rparr>)"
| register: "i < length (nodes C) \<Longrightarrow> Register_client r sender (nodes C ! i) = (c, h) \<Longrightarrow> cluster_step C (C\<lparr>nodes := (nodes C)[i := h]\<rparr>)"
| unregister: "i < length (nodes C) \<Longrightarrow> c < length (hb_objs (nodes C ! i)) \<Longrightarrow>
     cluster_step C (C\<lparr>nodes := (nodes C)[i := Unregister c (nodes C ! i)]\<rparr>)"
| writer: "i < length (nodes C) \<Longrightarrow> hb_send (nodes C ! i) c = m # ms \<Longrightarrow>
     cluster_step C (C\<lparr>nodes := (nodes C)[i := (nodes C ! i)\<lparr>hb_send := (hb_send (nodes C ! i))(c := ms)\<rparr>]\<rparr>)"
| close: "i < length (nodes C) \<Longrightarrow> cluster_step C (C\<lparr>nodes := (nodes C)[i := Close (nodes C ! i)]\<rparr>)"

inductive_cases cluster_stepE: "cluster_step C D"

text \<open>The messages a buffer or channel holds were posted, and to the one they are kept for.\<close>

fun redis_post :: "redis_msg \<Rightarrow> string \<times> ws_msg" where
  "redis_post (OnNotify ev) = (ev_Recipient ev, NewMessage (ev_EventID ev))"
| "redis_post (OnTyping te) = (te_Recipient te, typing_payload te)"
| "redis_post (OnDelivery r e st) = (r, DeliveryMsg e st)"
| "redis_post (OnRead r e at) = (r, ReadMsg e at)"

definition hub_posts :: "(string \<times> ws_msg) set \<Rightarrow> hub \<Rightarrow> bool" where
  "hub_posts P h \<longleftrightarrow>
     (\<forall>c < length (hb_objs h). \<forall>m \<in> set (hb_send h c). (cl_Recipient (hb_objs h ! c), m) \<in> P)
     \<and> (\<forall>ev \<in> set (hb_broadcast h). redis_post (OnNotify ev) \<in> P)
     \<and> (\<forall>te \<in> set (hb_typing h). redis_post (OnTyping te) \<in> P)
     \<and> (\<forall>m \<in> set (hb_inbox h). redis_post m \<in> P)"

definition hub_wf :: "hub \<Rightarrow> bool" where
  "hub_wf h \<longleftrightarrow>
     (\<forall>r cs. hb_clients h r = Some cs \<longrightarrow> cs \<noteq> [] \<and> distinct cs \<and> (\<forall>c \<in> set cs. c < length (hb_objs h) \<and> cl_Recipient (hb_objs h ! c) = r))
     \<and> (\<forall>c. length (hb_send h c) \<le> 256) \<and> (\<forall>c \<ge> length (hb_objs h). hb_send h c = [])
     \<and> length (hb_broadcast h) \<le> 256 \<and> length (hb_typing h) \<le> 64"

lemma set_try_send: "set (try_send n x b) \<subseteq> insert x (set b)"
  by (auto simp: try_send_def)

lemma length_try_send: "length b \<le> n \<Longrightarrow> length (try_send n x b) \<le> n"
  by (auto simp: try_send_def)

lemma hub_wf_client:
  assumes "hub_wf h" "hb_clients h r = Some cs" "c \<in> set cs"
  shows "c < length (hb_objs h)" "cl_Recipient (hb_objs h ! c) = r"
  using assms unfolding hub_wf_def by blast+

lemma push_clients_wf:
  assumes "hub_wf h"
  shows "hub_wf (push_clients r m h)"
proof (cases "hb_clients h r")
  case (Some cs)
  let ?send = "\<lambda>c. if c \<in> set cs then try_send 256 m (hb_send h c) else hb_send h c"
  have "\<forall>c. length (?send c) \<le> 256" using assms by (simp add: hub_wf_def length_try_send)
  moreover have "\<forall>c \<ge> length (hb_objs h). ?send c = []"
  proof (intro allI impI)
    fix c assume c: "length (hb_objs h) \<le> c"
    then have "c \<notin> set cs" using hub_wf_client(1) [OF assms Some, of c] by auto
    then show "?send c = []" using assms c by (simp add: hub_wf_def)
  qed
  ultimately show ?thesis using assms Some by (simp add: hub_wf_def push_clients_def)
qed (simp add: assms push_clients_def)

lemma push_clients_posts:
  assumes "hub_wf h" "hub_posts P h" "(r, m) \<in> P"
  shows "hub_posts P (push_clients r m h)"
proof (cases "hb_clients h r")
  case (Some cs)
  have "(cl_Recipient (hb_objs h ! c), x) \<in> P"
    if c: "c < length (hb_objs h)" "x \<in> set (if c \<in> set cs then try_send 256 m (hb_send h c) else hb_send h c)" for c x
  proof (cases "c \<in> set cs \<and> x = m")
    case True
    then show ?thesis using hub_wf_client(2) [OF assms(1) Some] assms(3) by simp
  next
    case False
    then have "x \<in> set (hb_send h c)" using c(2) set_try_send [of 256 m "hb_send h c"] by (auto split: if_splits)
    then show ?thesis using assms(2) c(1) by (simp add: hub_posts_def)
  qed
  then show ?thesis using assms(2) Some by (simp add: hub_posts_def push_clients_def)
qed (simp add: assms push_clients_def)

lemma hub_posts_mono: "hub_posts P h \<Longrightarrow> P \<subseteq> Q \<Longrightarrow> hub_posts Q h"
  unfolding hub_posts_def by blast

lemma pushToLocal_wf: "hub_wf h \<Longrightarrow> hub_wf (pushToLocal ev h)"
  by (simp add: hub_wf_def pushToLocal_def length_try_send)

lemma pushTypingToLocal_wf: "hub_wf h \<Longrightarrow> hub_wf (pushTypingToLocal te h)"
  by (simp add: hub_wf_def pushTypingToLocal_def length_try_send)

lemma pushToLocal_posts: "hub_posts P h \<Longrightarrow> redis_post (OnNotify ev) \<in> P \<Longrightarrow> hub_posts P (pushToLocal ev h)"
  using set_try_send [of 256 ev "hb_broadcast h"] by (auto simp: hub_posts_def pushToLocal_def)

lemma pushTypingToLocal_posts: "hub_posts P h \<Longrightarrow> redis_post (OnTyping te) \<in> P \<Longrightarrow> hub_posts P (pushTypingToLocal te h)"
  using set_try_send [of 64 te "hb_typing h"] by (auto simp: hub_posts_def pushTypingToLocal_def)

lemmas push_wf = push_clients_wf pushToLocal_wf pushTypingToLocal_wf
lemmas push_posts = push_clients_posts pushToLocal_posts pushTypingToLocal_posts
lemmas hub_call_defs = Notify_def notifyTyping_def NotifyDelivery_def NotifyRead_def pushDeliveryToLocal_def pushReadToLocal_def Let_def

lemma hub_call_ok:
  assumes "hub_call c h = (ms, h')" "hub_wf h" "hub_posts P h" "posting c \<in> P"
  shows "hub_wf h' \<and> hub_posts P h' \<and> (\<forall>m \<in> set ms. redis_post m \<in> P)"
  using assms
  by (cases c) (auto simp: hub_call_defs push_wf typing_payload_def split: if_splits intro!: push_posts)

lemma run_broadcast_ok:
  assumes "run_broadcast h = Some h'" "hub_wf h" "hub_posts P h"
  shows "hub_wf h' \<and> hub_posts P h'"
proof -
  from assms(1) obtain ev evs where e: "hb_broadcast h = ev # evs" "h' = push_clients (ev_Recipient ev) (NewMessage (ev_EventID ev)) (h\<lparr>hb_broadcast := evs\<rparr>)"
    by (auto simp: run_broadcast_def split: list.splits if_splits)
  have "hub_wf (h\<lparr>hb_broadcast := evs\<rparr>)" "hub_posts P (h\<lparr>hb_broadcast := evs\<rparr>)" "(ev_Recipient ev, NewMessage (ev_EventID ev)) \<in> P"
    using assms(2,3) e(1) by (auto simp: hub_wf_def hub_posts_def)
  then show ?thesis using e(2) push_clients_wf push_clients_posts by simp
qed

lemma run_typing_ok:
  assumes "run_typing h = Some h'" "hub_wf h" "hub_posts P h"
  shows "hub_wf h' \<and> hub_posts P h'"
proof -
  from assms(1) obtain te tes where e: "hb_typing h = te # tes" "h' = push_clients (te_Recipient te) (typing_payload te) (h\<lparr>hb_typing := tes\<rparr>)"
    by (auto simp: run_typing_def split: list.splits if_splits)
  have "hub_wf (h\<lparr>hb_typing := tes\<rparr>)" "hub_posts P (h\<lparr>hb_typing := tes\<rparr>)" "(te_Recipient te, typing_payload te) \<in> P"
    using assms(2,3) e(1) by (auto simp: hub_wf_def hub_posts_def)
  then show ?thesis using e(2) push_clients_wf push_clients_posts by simp
qed

lemma runRedisSubscriber_ok:
  assumes "runRedisSubscriber h = Some h'" "hub_wf h" "hub_posts P h"
  shows "hub_wf h' \<and> hub_posts P h'"
proof -
  from assms(1) obtain m ms where e: "hb_inbox h = m # ms" by (auto simp: runRedisSubscriber_def split: list.splits)
  have "hub_wf (h\<lparr>hb_inbox := ms\<rparr>)" "hub_posts P (h\<lparr>hb_inbox := ms\<rparr>)" "redis_post m \<in> P"
    using assms(2,3) e by (auto simp: hub_wf_def hub_posts_def)
  with assms(1) e show ?thesis
    by (cases m) (auto simp: runRedisSubscriber_def Let_def pushDeliveryToLocal_def pushReadToLocal_def push_wf
        split: if_splits intro!: push_posts)
qed

lemma Register_client_ok:
  assumes "Register_client r sender h = (c, h')" "hub_wf h" "hub_posts P h"
  shows "hub_wf h' \<and> hub_posts P h'"
proof
  define old where "old = (case hb_clients h r of None \<Rightarrow> [] | Some cs \<Rightarrow> cs)"
  have h': "h' = h\<lparr>hb_objs := hb_objs h @ [\<lparr> cl_Recipient = r, cl_Sender = sender \<rparr>],
      hb_send := (hb_send h)(length (hb_objs h) := []), hb_clients := (hb_clients h)(r \<mapsto> old @ [length (hb_objs h)])\<rparr>"
    using assms(1) by (auto simp: Register_client_def Let_def old_def)
  have old: "distinct old" "\<forall>c \<in> set old. c < length (hb_objs h) \<and> cl_Recipient (hb_objs h ! c) = r"
    using assms(2) by (cases "hb_clients h r"; simp add: hub_wf_def old_def)+
  have "cs \<noteq> [] \<and> distinct cs \<and> (\<forall>c \<in> set cs. c < length (hb_objs h') \<and> cl_Recipient (hb_objs h' ! c) = r')"
    if cs: "hb_clients h' r' = Some cs" for r' cs
  proof (cases "r' = r")
    case True
    then show ?thesis using cs old unfolding h' by (auto simp: nth_append)
  next
    case False
    with cs have "hb_clients h r' = Some cs" by (simp add: h')
    then have "cs \<noteq> [] \<and> distinct cs \<and> (\<forall>c \<in> set cs. c < length (hb_objs h) \<and> cl_Recipient (hb_objs h ! c) = r')"
      using assms(2) unfolding hub_wf_def by blast
    then show ?thesis by (simp add: h' nth_append less_SucI)
  qed
  moreover have "\<forall>c. length (hb_send h' c) \<le> 256" "\<forall>c \<ge> length (hb_objs h'). hb_send h' c = []"
    "length (hb_broadcast h') \<le> 256" "length (hb_typing h') \<le> 64"
    using assms(2) by (simp_all add: h' hub_wf_def)
  ultimately show "hub_wf h'" unfolding hub_wf_def by blast
  show "hub_posts P h'" using assms(3) by (simp add: h' hub_posts_def nth_append less_Suc_eq)
qed

lemma hub_wf_new_clients:
  assumes "hub_wf h" and "\<And>r cs. M r = Some cs \<Longrightarrow>
    cs \<noteq> [] \<and> distinct cs \<and> (\<forall>c \<in> set cs. c < length (hb_objs h) \<and> cl_Recipient (hb_objs h ! c) = r)"
  shows "hub_wf (h\<lparr>hb_clients := M\<rparr>)"
  using assms by (simp add: hub_wf_def)

lemma Unregister_ok:
  assumes "hub_wf h" "hub_posts P h"
  shows "hub_wf (Unregister c h) \<and> hub_posts P (Unregister c h)"
proof (cases "hb_clients h (cl_Recipient (hb_objs h ! c))")
  case (Some cs)
  let ?r = "cl_Recipient (hb_objs h ! c)" and ?m = "filter (\<lambda>d. d \<noteq> c) cs"
  let ?M = "if ?m = [] then (hb_clients h)(?r := None) else (hb_clients h)(?r \<mapsto> ?m)"
  have u: "Unregister c h = h\<lparr>hb_clients := ?M\<rparr>" using Some by (simp add: Unregister_def Let_def)
  have "cs' \<noteq> [] \<and> distinct cs' \<and> (\<forall>c \<in> set cs'. c < length (hb_objs h) \<and> cl_Recipient (hb_objs h ! c) = r')"
    if "?M r' = Some cs'" for r' cs'
  proof (cases "r' = ?r")
    case True
    with that have "cs' = ?m" "?m \<noteq> []" by (auto split: if_splits)
    moreover have "distinct cs \<and> (\<forall>c \<in> set cs. c < length (hb_objs h) \<and> cl_Recipient (hb_objs h ! c) = ?r)"
      using assms(1) Some unfolding hub_wf_def by blast
    ultimately show ?thesis using True by simp
  next
    case False
    with that have "hb_clients h r' = Some cs'" by (auto split: if_splits)
    then show ?thesis using assms(1) unfolding hub_wf_def by blast
  qed
  then have "hub_wf (h\<lparr>hb_clients := ?M\<rparr>)" by (rule hub_wf_new_clients [OF assms(1)])
  then show ?thesis using assms(2) unfolding u by (simp add: hub_posts_def)
qed (simp add: assms Unregister_def)

definition cluster_inv :: "cluster \<Rightarrow> bool" where
  "cluster_inv C \<longleftrightarrow> (\<forall>h \<in> set (nodes C). hub_wf h \<and> hub_posts (posting ` set (calls C)) h)"

lemma cluster_inv_node:
  assumes "cluster_inv C" "i < length (nodes C)"
  shows "hub_wf (nodes C ! i)" "hub_posts (posting ` set (calls C)) (nodes C ! i)"
  using assms by (auto simp: cluster_inv_def)

lemma cluster_inv_update:
  assumes "cluster_inv C" "hub_wf h \<and> hub_posts (posting ` set (calls C)) h"
  shows "cluster_inv (C\<lparr>nodes := (nodes C)[i := h]\<rparr>)"
  using assms set_update_subset_insert [of "nodes C" i h] by (auto simp: cluster_inv_def)

lemma publish_ok:
  assumes "\<forall>h \<in> set hs. hub_wf h \<and> hub_posts P h" "\<forall>m \<in> set ms. redis_post m \<in> P"
  shows "\<forall>h \<in> set (publish ms hs). hub_wf h \<and> hub_posts P h"
proof
  fix g assume "g \<in> set (publish ms hs)"
  then obtain h where h: "h \<in> set hs" "g = (if hb_redis h then h\<lparr>hb_inbox := hb_inbox h @ ms\<rparr> else h)"
    by (auto simp: publish_def)
  moreover have "hub_wf (h\<lparr>hb_inbox := hb_inbox h @ ms\<rparr>)" using assms(1) h(1) by (simp add: hub_wf_def)
  moreover have "hub_posts P (h\<lparr>hb_inbox := hb_inbox h @ ms\<rparr>)" using assms h(1) by (simp add: hub_posts_def ball_Un)
  ultimately show "hub_wf g \<and> hub_posts P g" using assms(1) by simp
qed

lemma hub_write_ok:
  assumes "hb_send h c = m # ms" "hub_wf h" "hub_posts P h"
  shows "hub_wf (h\<lparr>hb_send := (hb_send h)(c := ms)\<rparr>) \<and> hub_posts P (h\<lparr>hb_send := (hb_send h)(c := ms)\<rparr>)"
proof
  have "length (hb_send h c) \<le> 256" "c \<ge> length (hb_objs h) \<longrightarrow> hb_send h c = []" using assms(2) by (simp_all add: hub_wf_def)
  then show "hub_wf (h\<lparr>hb_send := (hb_send h)(c := ms)\<rparr>)" using assms(1,2) by (simp add: hub_wf_def)
  have "x \<in> set (((hb_send h)(c := ms)) d) \<Longrightarrow> x \<in> set (hb_send h d)" for x d using assms(1) by (auto split: if_splits)
  then show "hub_posts P (h\<lparr>hb_send := (hb_send h)(c := ms)\<rparr>)" using assms(3) unfolding hub_posts_def by simp
qed

lemma cluster_step_inv:
  assumes "cluster_step C D" "cluster_inv C"
  shows "cluster_inv D"
  using assms
proof (induction rule: cluster_step.induct)
  case (call i C c ms h lost)
  let ?P = "posting ` set (calls C @ [c])"
  have "\<forall>h \<in> set (nodes C). hub_wf h \<and> hub_posts ?P h"
    using call.prems hub_posts_mono [of "posting ` set (calls C)" _ ?P] by (auto simp: cluster_inv_def)
  moreover from this have "hub_wf h \<and> hub_posts ?P h \<and> (\<forall>m \<in> set ms. redis_post m \<in> ?P)"
    using call.hyps by (intro hub_call_ok [OF call.hyps(2)]) auto
  ultimately have "\<forall>h \<in> set ((nodes C)[i := h]). hub_wf h \<and> hub_posts ?P h" "\<forall>m \<in> set ms. redis_post m \<in> ?P"
    using set_update_subset_insert [of "nodes C" i h] by auto
  then show ?case using publish_ok [of "(nodes C)[i := h]" ?P ms] by (simp add: cluster_inv_def)
next
  case (broadcast i C h)
  show ?case by (rule cluster_inv_update [OF broadcast.prems run_broadcast_ok])
      (use broadcast cluster_inv_node in auto)
next
  case (typing i C h)
  show ?case by (rule cluster_inv_update [OF typing.prems run_typing_ok]) (use typing cluster_inv_node in auto)
next
  case (subscriber i C h)
  show ?case by (rule cluster_inv_update [OF subscriber.prems runRedisSubscriber_ok]) (use subscriber cluster_inv_node in auto)
next
  case (register i C r sender c h)
  show ?case by (rule cluster_inv_update [OF register.prems Register_client_ok]) (use register cluster_inv_node in auto)
next
  case (unregister i C c)
  show ?case by (rule cluster_inv_update [OF unregister.prems Unregister_ok]) (use unregister cluster_inv_node in auto)
next
  case (writer i C c m ms)
  show ?case by (rule cluster_inv_update [OF writer.prems hub_write_ok]) (use writer cluster_inv_node in auto)
next
  case (close i C)
  from cluster_inv_node [OF close.prems close.hyps] show ?case
    by (intro cluster_inv_update [OF close.prems]) (simp add: hub_wf_def hub_posts_def Close_def)
qed

definition fresh_cluster :: "hub list \<Rightarrow> cluster" where
  "fresh_cluster hs = \<lparr> nodes = hs, calls = [] \<rparr>"

lemma NewHub_ok: "hub_wf (NewHubWithRedis up url) \<and> hub_posts P (NewHubWithRedis up url)"
  by (simp add: hub_wf_def hub_posts_def NewHubWithRedis_def)

lemma cluster_reach_inv: "cluster_step\<^sup>*\<^sup>* C D \<Longrightarrow> cluster_inv C \<Longrightarrow> cluster_inv D"
  by (induction rule: rtranclp_induct) (auto intro: cluster_step_inv)

lemma fresh_cluster_inv: "\<forall>h \<in> set hs. \<exists>up url. h = NewHubWithRedis up url \<Longrightarrow> cluster_inv (fresh_cluster hs)"
  using NewHub_ok by (auto simp: cluster_inv_def fresh_cluster_def)

text \<open>C15: no notification reaches the wrong address: in every state a cluster of new hubs can
  get to, with any interleaving of calls, of the goroutines of every node and of lost
  publications, whatever waits in the buffer of a client was posted by a call for the address
  the client registered; the buffers keep to their capacities.\<close>

theorem stream_no_misdelivery:
  assumes "\<forall>h \<in> set hs. \<exists>up url. h = NewHubWithRedis up url"
    and "cluster_step\<^sup>*\<^sup>* (fresh_cluster hs) C"
    and "h \<in> set (nodes C)" and "c < length (hb_objs h)" and "m \<in> set (hb_send h c)"
  shows "(\<exists>k \<in> set (calls C). posting k = (cl_Recipient (hb_objs h ! c), m))
    \<and> length (hb_send h c) \<le> 256 \<and> length (hb_broadcast h) \<le> 256 \<and> length (hb_typing h) \<le> 64"
proof -
  have "cluster_inv C" using cluster_reach_inv [OF assms(2) fresh_cluster_inv [OF assms(1)]] .
  then have "hub_wf h" "hub_posts (posting ` set (calls C)) h" using assms(3) by (auto simp: cluster_inv_def)
  then show ?thesis using assms(4,5) by (fastforce simp: hub_wf_def hub_posts_def)
qed

text \<open>One client of \<open>r\<close> on a hub with or without Redis.\<close>

definition one_client :: "bool \<Rightarrow> string \<Rightarrow> hub" where
  "one_client redis r = snd (Register_client r r (NewHubWithRedis (\<lambda>_. redis) ''redis://''))"

lemmas one_client_defs = one_client_def Register_client_def NewHubWithRedis_def Notify_def pushToLocal_def try_send_def
  run_broadcast_def push_clients_def runRedisSubscriber_def publish_def Let_def

theorem stream_no_misdelivery_witness:
  "\<exists>C h. cluster_step\<^sup>*\<^sup>* (fresh_cluster [NewHub]) C \<and> h \<in> set (nodes C)
    \<and> hb_send h 0 = [ReadMsg ''e'' ''t''] \<and> (\<exists>k \<in> set (calls C). posting k = (''r'', ReadMsg ''e'' ''t''))"
proof -
  let ?h0 = "NewHubWithRedis (\<lambda>_. False) ''''" and ?k = "CallRead ''r'' ''e'' ''t''"
  let ?h1 = "snd (Register_client ''r'' ''r'' ?h0)"
  let ?h2 = "snd (hub_call ?k ?h1)"
  let ?C1 = "(fresh_cluster [NewHub])\<lparr>nodes := [?h1]\<rparr>" and ?C2 = "\<lparr> nodes = [?h2], calls = [?k] \<rparr>"
  have "cluster_step (fresh_cluster [NewHub]) ?C1"
    using cluster_step.register [of 0 "fresh_cluster [NewHub]" "''r''" "''r''" "fst (Register_client ''r'' ''r'' ?h0)" ?h1]
    by (simp add: fresh_cluster_def NewHub_def)
  moreover have "cluster_step ?C1 ?C2"
    using cluster_step.call [of 0 ?C1 ?k "fst (hub_call ?k ?h1)" ?h2 True]
    by (simp add: fresh_cluster_def)
  ultimately have r: "cluster_step\<^sup>*\<^sup>* (fresh_cluster [NewHub]) ?C2" by (meson converse_rtranclp_into_rtranclp rtranclp.rtrancl_refl)
  have s: "hb_send ?h2 0 = [ReadMsg ''e'' ''t'']" "hb_objs ?h2 = [\<lparr> cl_Recipient = ''r'', cl_Sender = ''r'' \<rparr>]"
    by (simp_all add: hub_call_defs one_client_defs)
  have "\<forall>h \<in> set [NewHub]. \<exists>up url. h = NewHubWithRedis up url" by (auto simp: NewHub_def)
  from stream_no_misdelivery [OF this r, of ?h2 0 "ReadMsg ''e'' ''t''"] s have "\<exists>k \<in> set (calls ?C2). posting k = (''r'', ReadMsg ''e'' ''t'')" by simp
  with r s show ?thesis by (intro exI [of _ ?C2] exI [of _ ?h2]) simp
qed

text \<open>A new message is announced once without Redis: after \<open>Notify\<close> and a round of \<open>Run\<close> on
  a hub with nothing else to announce, every client of the recipient with room in its buffer
  has the event once more and nobody else has anything new.\<close>

theorem Notify_once:
  assumes "\<not> hb_redis h" "\<not> hb_stopped h" "hb_broadcast h = []" and "Notify r e h = (ms, h1)"
  shows "ms = [] \<and> (\<exists>h2. run_broadcast h1 = Some h2 \<and> hb_broadcast h2 = []
    \<and> (\<forall>c. hb_send h2 c = (case hb_clients h r of
          None \<Rightarrow> hb_send h c
        | Some cs \<Rightarrow> if c \<in> set cs \<and> length (hb_send h c) < 256 then hb_send h c @ [NewMessage e] else hb_send h c)))"
  using assms by (auto simp: Notify_def pushToLocal_def try_send_def run_broadcast_def push_clients_def Let_def split: option.split)

theorem Notify_once_witness:
  "\<exists>ms h1. Notify ''r'' ''e'' (one_client False ''r'') = (ms, h1) \<and> ms = []
    \<and> (\<exists>h2. run_broadcast h1 = Some h2 \<and> hb_send h2 0 = [NewMessage ''e''])"
  using Notify_once [of "one_client False ''r''" "''r''" "''e''"] by (simp add: one_client_defs)

text \<open>With Redis the node that announces a message announces it twice to its own clients:
  the publication comes back to the node that made it, beside the local announcement.\<close>

theorem Notify_twice_with_Redis:
  assumes "hb_redis h" "\<not> hb_stopped h" "hb_broadcast h = []" "hb_inbox h = []" "hb_clients h r = Some cs" "c \<in> set cs"
    and "length (hb_send h c) \<le> 254" and "Notify r e h = (ms, h1)" and "publish ms [h1] = [h2]"
  shows "\<exists>h3 h4 h5. run_broadcast h2 = Some h3 \<and> runRedisSubscriber h3 = Some h4 \<and> run_broadcast h4 = Some h5
    \<and> hb_send h5 c = hb_send h c @ [NewMessage e, NewMessage e]"
proof -
  let ?ev = "\<lparr> ev_Recipient = r, ev_EventID = e \<rparr>"
  have h2: "h2 = h\<lparr>hb_broadcast := [?ev], hb_inbox := [OnNotify ?ev]\<rparr>"
    using assms by (auto simp: Notify_def pushToLocal_def try_send_def publish_def Let_def)
  then show ?thesis using assms(2,5-7)
    by (simp add: run_broadcast_def runRedisSubscriber_def push_clients_def pushToLocal_def try_send_def Let_def)
qed

theorem Notify_twice_with_Redis_witness:
  "\<exists>ms h1 h2 h3 h4 h5. Notify ''r'' ''e'' (one_client True ''r'') = (ms, h1) \<and> publish ms [h1] = [h2]
    \<and> run_broadcast h2 = Some h3 \<and> runRedisSubscriber h3 = Some h4 \<and> run_broadcast h4 = Some h5
    \<and> hb_send h5 0 = [NewMessage ''e'', NewMessage ''e'']"
  using Notify_twice_with_Redis [of "one_client True ''r''" "''r''" "[0]" 0 "''e''"] by (simp add: one_client_defs)

lemma Unregister_Register:
  assumes "hub_wf h" "Register_client r sender h = (c, h1)"
  shows "hb_clients (Unregister c h1) = hb_clients h"
proof -
  define old where "old = (case hb_clients h r of None \<Rightarrow> [] | Some cs \<Rightarrow> cs)"
  have "length (hb_objs h) \<notin> set old" "hb_clients h r = (if old = [] then None else Some old)"
    using assms(1) by (cases "hb_clients h r"; auto simp: old_def hub_wf_def)+
  then have f: "filter (\<lambda>d. d \<noteq> length (hb_objs h)) old = old" "hb_clients h r = (if old = [] then None else Some old)"
    by (auto simp: filter_id_conv)
  show ?thesis using assms(2) f(2)
    by (auto simp: Register_client_def Unregister_def Let_def fun_eq_iff f(1) simp flip: old_def)
qed

text \<open>C23: a WebSocket may listen for anybody: whoever has a valid WebSocket token is registered
  for the address given in the request, whose owner the handler does not compare with the user
  of the token, and is then announced what is for that address.\<close>

theorem serveWs_any_address:
  assumes "extractWSToken r \<noteq> ''''" and "run_state (ValidateWSToken E S (extractWSToken r)) s = (Inr (user, dev), s1)"
    and "wr_as r \<noteq> ''''" and "hub_wf h"
  shows "\<exists>c s2 h2. serveWs E S domain True r s h = (Inr c, s2, h2) \<and> hub_wf h2
    \<and> cl_Recipient (hb_objs h2 ! c) = wr_as r \<and> (\<exists>cs. hb_clients h2 (wr_as r) = Some cs \<and> c \<in> set cs)"
proof -
  obtain u s2 where u: "run_state (GetUsername S user) s1 = (u, s2)" by fastforce
  define a where "a = ''@'' @ (case u of Inl _ \<Rightarrow> '''' | Inr n \<Rightarrow> n) @ '':'' @ domain"
  obtain c h2 where c: "Register_client (wr_as r) a h = (c, h2)" by fastforce
  have "hub_wf h2" using Register_client_ok [OF c assms(4), of UNIV] by (simp add: hub_posts_def)
  moreover have "serveWs E S domain True r s h = (Inr c, s2, h2)"
    using assms(1-3) u c by (simp add: serveWs_def Let_def a_def)
  moreover have "cl_Recipient (hb_objs h2 ! c) = wr_as r \<and> (\<exists>cs. hb_clients h2 (wr_as r) = Some cs \<and> c \<in> set cs)"
    using c by (auto simp: Register_client_def Let_def)
  ultimately show ?thesis by blast
qed

definition ws_env :: env where
  "ws_env = demo_env\<lparr>jwt_parse := (\<lambda>k now tok. if tok = ''W'' then Some (Map.empty(
     ''user_id'' \<mapsto> CNum 1, ''device_id'' \<mapsto> CStr ''7'', ''typ'' \<mapsto> CStr ''ws'')) else None)\<rparr>"

definition demo_ws :: ws_request where
  "demo_ws = \<lparr> wr_protocol = ''bearer.W'', wr_as = ''@eve:a.org'' \<rparr>"

lemma demo_ws_token: "extractWSToken demo_ws = ''W''" "wr_as demo_ws = ''@eve:a.org''"
  by code_simp+

theorem serveWs_any_address_witness:
  "\<exists>c s2 h2. serveWs ws_env demo_auth ''a.org'' True demo_ws (session_on demo_keys []) NewHub = (Inr c, s2, h2)
    \<and> cl_Recipient (hb_objs h2 ! c) = ''@eve:a.org''"
proof -
  have "\<exists>dev. run_state (ValidateWSToken ws_env demo_auth ''W'') (session_on demo_keys []) = (Inr (1, dev), session_on demo_keys [])"
    by (simp add: ValidateWSToken_def sql_simps session_on_def ws_env_def str_claim_def claimed_def num_claim_def)
  then obtain dev where v: "run_state (ValidateWSToken ws_env demo_auth (extractWSToken demo_ws)) (session_on demo_keys [])
      = (Inr (1, dev), session_on demo_keys [])" by (auto simp: demo_ws_token)
  have "hub_wf NewHub" using NewHub_ok by (simp add: NewHub_def)
  from serveWs_any_address [OF _ v _ this, of "''a.org''"] show ?thesis by (auto simp: demo_ws_token)
qed

end
