(* ===== verification/Sockets.thy ===== *)
theory Sockets
  imports Stream
begin

text \<open>
  The life of a WebSocket (\<open>serveWs\<close> in \<open>src/server/internal/api/handlers_websocket.go\<close>) beside the hub: the upgrade,
  the goroutine that writes what the hub puts into the client's channel, the loop that reads until
  the connection breaks, and the deferred clean-up. A connection keeps as ghosts what was written to
  it and what the hub tried to send to it.
\<close>

section \<open>Connections\<close>

text \<open>\<open>wc_posted\<close> has every message for the client's address since it registered, with whether the
  channel had room; \<open>wc_failed\<close> is the message whose write failed.\<close>

record wsconn =
  wc_client :: nat
  wc_open :: bool
  wc_reading :: bool
  wc_writing :: bool
  wc_written :: "ws_msg list"
  wc_failed :: "ws_msg option"
  wc_posted :: "(ws_msg \<times> bool) list"

record sockets =
  so_hub :: hub
  so_conns :: "wsconn list"

definition CheckOrigin :: "string \<Rightarrow> bool" where
  "CheckOrigin origin = True"

definition new_conn :: "nat \<Rightarrow> wsconn" where
  "new_conn c = \<lparr> wc_client = c, wc_open = True, wc_reading = True, wc_writing = True, wc_written = [], wc_failed = None, wc_posted = [] \<rparr>"

text \<open>A request: \<open>hijacked\<close> says whether the rest of the upgrade succeeds.\<close>

definition ws_accept :: "env \<Rightarrow> auth \<Rightarrow> string \<Rightarrow> string \<Rightarrow> bool \<Rightarrow> ws_request \<Rightarrow> sess \<Rightarrow> sockets \<Rightarrow> (nat + nat) \<times> sess \<times> sockets" where
  "ws_accept E S domain origin hijacked r s K =
     (case serveWs E S domain (CheckOrigin origin \<and> hijacked) r s (so_hub K) of
        (Inl code, s1, h) \<Rightarrow> (Inl code, s1, K\<lparr>so_hub := h\<rparr>)
      | (Inr c, s1, h) \<Rightarrow> (Inr c, s1, K\<lparr>so_hub := h, so_conns := so_conns K @ [new_conn c]\<rparr>))"

text \<open>
  A round of the writer of connection \<open>k\<close>, \<open>ok\<close> saying whether \<open>WriteMessage\<close> succeeds; \<open>None\<close> when it waits
  for its channel, which nothing closes, or has returned. A write to a closed connection fails.
\<close>

definition write_round :: "bool \<Rightarrow> nat \<Rightarrow> sockets \<Rightarrow> sockets option" where
  "write_round ok k K = (let w = so_conns K ! k; h = so_hub K in
     if \<not> wc_writing w then None
     else (case hb_send h (wc_client w) of
         [] \<Rightarrow> None
       | m # ms \<Rightarrow> Some \<lparr> so_hub = h\<lparr>hb_send := (hb_send h)(wc_client w := ms)\<rparr>,
           so_conns = (so_conns K)[k := (if ok \<and> wc_open w then w\<lparr>wc_written := wc_written w @ [m]\<rparr>
             else w\<lparr>wc_writing := False, wc_failed := Some m\<rparr>)] \<rparr>))"

text \<open>The end of the loop that reads, at the first error, with the deferred calls: frames of the client are
  read and dropped before.\<close>

definition read_end :: "nat \<Rightarrow> sockets \<Rightarrow> sockets option" where
  "read_end k K = (let w = so_conns K ! k in
     if \<not> wc_reading w then None
     else Some \<lparr> so_hub = Unregister (wc_client w) (so_hub K), so_conns = (so_conns K)[k := w\<lparr>wc_reading := False, wc_open := False\<rparr>] \<rparr>)"

section \<open>The hub beside them\<close>

datatype hub_op = OpCall call | OpBroadcast | OpTyping | OpSubscriber | OpPublished redis_msg | OpClose

fun do_op :: "hub_op \<Rightarrow> hub \<Rightarrow> hub option" where
  "do_op (OpCall k) h = Some (snd (hub_call k h))"
| "do_op OpBroadcast h = run_broadcast h"
| "do_op OpTyping h = run_typing h"
| "do_op OpSubscriber h = runRedisSubscriber h"
| "do_op (OpPublished m) h = Some (h\<lparr>hb_inbox := hb_inbox h @ [m]\<rparr>)"
| "do_op OpClose h = Some (Close h)"

text \<open>For whom an operation has a message, and which: read from the code of the operation.\<close>

fun op_push :: "hub_op \<Rightarrow> hub \<Rightarrow> (string \<times> ws_msg) option" where
  "op_push (OpCall (CallDelivery r e st)) h = Some (r, DeliveryMsg e st)"
| "op_push (OpCall (CallRead r e at)) h = Some (r, ReadMsg e at)"
| "op_push OpBroadcast h = (case hb_broadcast h of [] \<Rightarrow> None | ev # _ \<Rightarrow> Some (ev_Recipient ev, NewMessage (ev_EventID ev)))"
| "op_push OpTyping h = (case hb_typing h of [] \<Rightarrow> None | te # _ \<Rightarrow> Some (te_Recipient te, typing_payload te))"
| "op_push OpSubscriber h = (case hb_inbox h of
     OnDelivery r e st # _ \<Rightarrow> Some (r, DeliveryMsg e st) | OnRead r e at # _ \<Rightarrow> Some (r, ReadMsg e at) | _ \<Rightarrow> None)"
| "op_push _ h = None"

definition listens :: "hub \<Rightarrow> nat \<Rightarrow> string \<Rightarrow> bool" where
  "listens h c r \<longleftrightarrow> (case hb_clients h r of None \<Rightarrow> False | Some cs \<Rightarrow> c \<in> set cs)"

text \<open>What the hub tries to put into the channel of client \<open>c\<close>.\<close>

definition offered :: "hub_op \<Rightarrow> hub \<Rightarrow> nat \<Rightarrow> ws_msg list" where
  "offered op h c = (case op_push op h of Some (r, m) \<Rightarrow> if listens h c r then [m] else [] | None \<Rightarrow> [])"

definition note_posted :: "hub_op \<Rightarrow> hub \<Rightarrow> wsconn \<Rightarrow> wsconn" where
  "note_posted op h w = w\<lparr>wc_posted := wc_posted w @ map (\<lambda>m. (m, length (hb_send h (wc_client w)) < 256)) (offered op h (wc_client w))\<rparr>"

inductive sock_step :: "sockets \<Rightarrow> sockets \<Rightarrow> bool" where
  connect: "ws_accept E S domain origin hijacked r s K = (a, s', K') \<Longrightarrow> sock_step K K'"
| hub: "do_op op (so_hub K) = Some h \<Longrightarrow> sock_step K \<lparr> so_hub = h, so_conns = map (note_posted op (so_hub K)) (so_conns K) \<rparr>"
| write_msg: "k < length (so_conns K) \<Longrightarrow> write_round ok k K = Some K' \<Longrightarrow> sock_step K K'"
| read_err: "k < length (so_conns K) \<Longrightarrow> read_end k K = Some K' \<Longrightarrow> sock_step K K'"

inductive_cases sock_stepE: "sock_step K K'"

section \<open>Invariant\<close>

definition taken :: "(ws_msg \<times> bool) list \<Rightarrow> ws_msg list" where
  "taken ps = map fst (filter snd ps)"

lemma taken_append [simp]: "taken (ps @ qs) = taken ps @ taken qs" "taken [] = []"
  by (simp_all add: taken_def)

definition conn_inv :: "hub \<Rightarrow> wsconn \<Rightarrow> bool" where
  "conn_inv h w \<longleftrightarrow> wc_client w < length (hb_objs h) \<and> (wc_open w \<longleftrightarrow> wc_reading w) \<and> (wc_writing w \<longleftrightarrow> wc_failed w = None)
     \<and> (\<forall>r. listens h (wc_client w) r \<longrightarrow> wc_reading w)
     \<and> taken (wc_posted w) = wc_written w @ (case wc_failed w of None \<Rightarrow> [] | Some m \<Rightarrow> [m]) @ hb_send h (wc_client w)"

definition sock_inv :: "sockets \<Rightarrow> bool" where
  "sock_inv K \<longleftrightarrow> hub_wf (so_hub K) \<and> distinct (map wc_client (so_conns K)) \<and> (\<forall>w \<in> set (so_conns K). conn_inv (so_hub K) w)"

lemma hub_posts_any [simp]: "hub_posts UNIV h"
  by (simp add: hub_posts_def)

lemma push_clients_frame: "hb_clients (push_clients r m h) = hb_clients h" "hb_objs (push_clients r m h) = hb_objs h"
  "hb_send (push_clients r m h) c = (if listens h c r then try_send 256 m (hb_send h c) else hb_send h c)"
  by (simp_all add: push_clients_def listens_def split: option.splits)

lemma listens_frame: "hb_clients h' = hb_clients h \<Longrightarrow> listens h' = listens h"
  by (simp add: listens_def fun_eq_iff)

lemmas hub_op_defs = hub_call_defs pushToLocal_def pushTypingToLocal_def run_broadcast_def run_typing_def runRedisSubscriber_def Close_def

lemma listens_upd [simp]: "listens (h\<lparr>hb_broadcast := a\<rparr>) = listens h" "listens (h\<lparr>hb_typing := b\<rparr>) = listens h" "listens (h\<lparr>hb_inbox := i\<rparr>) = listens h"
  by (rule listens_frame, simp)+

lemma do_op_push:
  assumes "do_op op h = Some h'"
  shows "hb_clients h' = hb_clients h \<and> hb_objs h' = hb_objs h \<and> hb_send h' c = (case op_push op h of
    None \<Rightarrow> hb_send h c | Some (r, m) \<Rightarrow> if listens h c r then try_send 256 m (hb_send h c) else hb_send h c)"
proof (cases op)
  case (OpCall k)
  then have h': "h' = snd (hub_call k h)" using assms by simp
  show ?thesis unfolding OpCall h' by (cases k) (simp_all add: hub_call_defs pushToLocal_def pushTypingToLocal_def push_clients_frame)
next
  case OpBroadcast
  show ?thesis using assms unfolding OpBroadcast by (cases "hb_broadcast h") (auto simp: run_broadcast_def push_clients_frame split: if_splits)
next
  case OpTyping
  show ?thesis using assms unfolding OpTyping by (cases "hb_typing h") (auto simp: run_typing_def push_clients_frame split: if_splits)
next
  case OpSubscriber
  then obtain m ms where i: "hb_inbox h = m # ms" "\<not> hb_stopped h" using assms by (auto simp: runRedisSubscriber_def split: list.splits if_splits)
  show ?thesis using assms i unfolding OpSubscriber by (cases m) (auto simp: hub_op_defs push_clients_frame)
qed (use assms in \<open>auto simp: Close_def\<close>)

lemma do_op_frame:
  assumes "do_op op h = Some h'"
  shows "hb_clients h' = hb_clients h" "hb_objs h' = hb_objs h" "hb_send h' c = fold (try_send 256) (offered op h c) (hb_send h c)"
  using do_op_push [OF assms, of c] by (auto simp: offered_def split: option.splits)

lemma do_op_wf:
  assumes "do_op op h = Some h'" "hub_wf h"
  shows "hub_wf h'"
proof (cases op)
  case (OpCall k)
  then obtain ms where "hub_call k h = (ms, h')" using assms(1) by (cases "hub_call k h") auto
  then show ?thesis using hub_call_ok [of k h ms h' UNIV] assms(2) by simp
next
  case (OpPublished m)
  then have "h' = h\<lparr>hb_inbox := hb_inbox h @ [m]\<rparr>" using assms(1) by simp
  then show ?thesis using assms(2) by (simp add: hub_wf_def)
next
  case OpClose
  then have "h' = h\<lparr>hb_stopped := True\<rparr>" using assms(1) by (simp add: Close_def)
  then show ?thesis using assms(2) by (simp add: hub_wf_def)
qed (use assms run_broadcast_ok [of h h' UNIV] run_typing_ok [of h h' UNIV] runRedisSubscriber_ok [of h h' UNIV] in auto)

text \<open>Every operation of the hub keeps what a connection knows of its channel.\<close>

lemma taken_offered:
  "fold (try_send 256) (offered op h c) b = b @ taken (map (\<lambda>m. (m, length b < 256)) (offered op h c))"
  by (auto simp: offered_def try_send_def taken_def split: option.splits)

lemma conn_inv_op:
  assumes "do_op op h = Some h'" "conn_inv h w"
  shows "conn_inv h' (note_posted op h w)"
  using assms do_op_frame [OF assms(1)] listens_frame [of h' h]
  by (simp add: conn_inv_def note_posted_def taken_offered)

lemma sock_inv_op:
  assumes "do_op op (so_hub K) = Some h" "sock_inv K"
  shows "sock_inv \<lparr> so_hub = h, so_conns = map (note_posted op (so_hub K)) (so_conns K) \<rparr>"
  using assms conn_inv_op [OF assms(1)] do_op_wf [OF assms(1)] by (simp add: sock_inv_def comp_def note_posted_def)

text \<open>Where one connection and its channel change, the others keep theirs.\<close>

lemma sock_inv_conn:
  assumes "sock_inv K" "k < length (so_conns K)" "hub_wf h" "wc_client w = wc_client (so_conns K ! k)" "conn_inv h w"
    and "\<And>v. wc_client v \<noteq> wc_client w \<Longrightarrow> conn_inv (so_hub K) v \<Longrightarrow> conn_inv h v"
  shows "sock_inv \<lparr> so_hub = h, so_conns = (so_conns K)[k := w] \<rparr>"
proof -
  let ?ws = "so_conns K"
  have m: "map wc_client (?ws[k := w]) = map wc_client ?ws" using assms(2,4) by (metis list_update_id map_update nth_map)
  have "conn_inv h v" if v: "v \<in> set (?ws[k := w])" for v
  proof -
    obtain j where j: "j < length ?ws" "v = ?ws[k := w] ! j" using v by (auto simp: in_set_conv_nth)
    show ?thesis
    proof (cases "j = k")
      case True
      then show ?thesis using j assms(2,5) by simp
    next
      case False
      then have "wc_client v \<noteq> wc_client w" "v \<in> set ?ws"
        using j assms(1,2,4) nth_eq_iff_index_eq [of "map wc_client ?ws" j k] by (auto simp: sock_inv_def)
      then show ?thesis using assms(1,6) by (simp add: sock_inv_def)
    qed
  qed
  then show ?thesis using assms(1,3) m by (simp add: sock_inv_def)
qed

lemma sock_inv_write:
  assumes "write_round ok k K = Some K'" "k < length (so_conns K)" "sock_inv K"
  shows "sock_inv K'"
proof -
  define w h where "w = so_conns K ! k" and "h = so_hub K"
  have w: "wc_writing w" using assms(1) by (auto simp: write_round_def w_def Let_def split: if_splits)
  then obtain m ms where m: "hb_send h (wc_client w) = m # ms"
    using assms(1) by (auto simp: write_round_def w_def h_def Let_def split: list.splits)
  define h' where "h' = h\<lparr>hb_send := (hb_send h)(wc_client w := ms)\<rparr>"
  define w' where "w' = (if ok \<and> wc_open w then w\<lparr>wc_written := wc_written w @ [m]\<rparr> else w\<lparr>wc_writing := False, wc_failed := Some m\<rparr>)"
  have K': "K' = \<lparr> so_hub = h', so_conns = (so_conns K)[k := w'] \<rparr>"
    using assms(1) w m by (simp add: write_round_def Let_def h'_def w'_def flip: w_def h_def)
  have inv: "conn_inv h w" "hub_wf h" using assms(2,3) by (auto simp: sock_inv_def w_def h_def)
  have l: "listens h' = listens h" by (rule listens_frame) (simp add: h'_def)
  have "length ms \<le> 256" using inv(2) m by (metis Suc_leD hub_wf_def length_Cons)
  moreover have "wc_client w < length (hb_objs h)" using inv(1) by (simp add: conn_inv_def)
  ultimately have "hub_wf h'" using inv(2) by (simp add: hub_wf_def h'_def)
  moreover have "conn_inv h' w'" using inv(1) w m l by (auto simp: conn_inv_def w'_def h'_def)
  moreover have "conn_inv h' v" if "wc_client v \<noteq> wc_client w'" "conn_inv (so_hub K) v" for v
    using that l by (simp add: conn_inv_def h'_def w'_def flip: h_def split: if_splits)
  ultimately show ?thesis unfolding K' using sock_inv_conn [OF assms(3,2), of h' w'] by (simp add: w'_def w_def)
qed

text \<open>A client that has left listens nowhere, and the others where they did.\<close>

lemma listens_Unregister:
  assumes "hub_wf h"
  shows "listens (Unregister c h) d r \<longleftrightarrow> listens h d r \<and> d \<noteq> c"
proof (cases "listens h c r")
  case True
  then have r: "r = cl_Recipient (hb_objs h ! c)" using hub_wf_client(2) [OF assms] by (auto simp: listens_def split: option.splits)
  then show ?thesis by (auto simp: listens_def Unregister_def Let_def filter_empty_conv split: option.splits)
next
  case False
  then show ?thesis by (auto simp: listens_def Unregister_def Let_def filter_empty_conv split: option.splits if_splits)
qed

lemma Unregister_frame: "hb_send (Unregister c h) = hb_send h" "hb_objs (Unregister c h) = hb_objs h"
  by (simp_all add: Unregister_def Let_def split: option.splits)

lemma sock_inv_read_end:
  assumes "read_end k K = Some K'" "k < length (so_conns K)" "sock_inv K"
  shows "sock_inv K'"
proof -
  define w h where "w = so_conns K ! k" and "h = so_hub K"
  have K': "K' = \<lparr> so_hub = Unregister (wc_client w) h, so_conns = (so_conns K)[k := w\<lparr>wc_reading := False, wc_open := False\<rparr>] \<rparr>"
    using assms(1) by (simp add: read_end_def Let_def flip: w_def h_def split: if_splits)
  have inv: "conn_inv h w" "hub_wf h" using assms(2,3) by (auto simp: sock_inv_def w_def h_def)
  have "hub_wf (Unregister (wc_client w) h)" using Unregister_ok [OF inv(2), of UNIV] by simp
  moreover have "conn_inv (Unregister (wc_client w) h) v" if "conn_inv h v" "wc_client v \<noteq> wc_client w" for v
    using that by (simp add: conn_inv_def listens_Unregister [OF inv(2)] Unregister_frame)
  moreover have "conn_inv (Unregister (wc_client w) h) (w\<lparr>wc_reading := False, wc_open := False\<rparr>)"
    using inv(1) by (simp add: conn_inv_def listens_Unregister [OF inv(2)] Unregister_frame)
  ultimately show ?thesis unfolding K'
    using sock_inv_conn [OF assms(3,2), of "Unregister (wc_client w) h" "w\<lparr>wc_reading := False, wc_open := False\<rparr>"] by (simp add: w_def h_def)
qed

text \<open>A new client has an empty channel of its own.\<close>

lemma serveWs_hub:
  assumes "serveWs E S domain u r s h = (a, s', h')"
  shows "case a of Inl _ \<Rightarrow> h' = h | Inr c \<Rightarrow> \<exists>addr. Register_client (wr_as r) addr h = (c, h')"
  using assms by (auto simp: serveWs_def Let_def split: if_splits sum.splits prod.splits)

lemma listens_Register:
  assumes "Register_client r addr h = (c, h')" "d \<noteq> c"
  shows "listens h' d x = listens h d x"
  using assms by (cases "x = r") (auto simp: Register_client_def listens_def Let_def split: option.splits)

lemma sock_inv_accept:
  assumes "ws_accept E S domain origin hijacked r s K = (a, s', K')" "sock_inv K"
  shows "sock_inv K'"
proof -
  obtain b s1 h where b: "serveWs E S domain (CheckOrigin origin \<and> hijacked) r s (so_hub K) = (b, s1, h)" by (metis prod_cases3)
  show ?thesis
  proof (cases b)
    case (Inl e)
    then show ?thesis using assms b serveWs_hub [OF b] by (auto simp: ws_accept_def)
  next
    case (Inr c)
    then obtain addr where g: "Register_client (wr_as r) addr (so_hub K) = (c, h)" using serveWs_hub [OF b] by auto
    have K': "K' = K\<lparr>so_hub := h, so_conns := so_conns K @ [new_conn c]\<rparr>" using assms(1) b Inr by (simp add: ws_accept_def)
    have c: "c = length (hb_objs (so_hub K))" "hb_send h = (hb_send (so_hub K))(c := [])" "length (hb_objs h) = Suc c"
      using g by (auto simp: Register_client_def Let_def)
    have old: "conn_inv h v \<and> wc_client v \<noteq> c" if "v \<in> set (so_conns K)" for v
    proof -
      have "conn_inv (so_hub K) v" using assms(2) that by (simp add: sock_inv_def)
      moreover from this have "wc_client v < c" by (simp add: conn_inv_def c(1))
      ultimately show ?thesis using listens_Register [OF g] c by (simp add: conn_inv_def)
    qed
    have "hub_wf h" using Register_client_ok [OF g, of UNIV] assms(2) by (simp add: sock_inv_def)
    moreover have "conn_inv h (new_conn c)" using c by (simp add: conn_inv_def new_conn_def)
    ultimately show ?thesis using assms(2) old unfolding K' by (auto simp: sock_inv_def new_conn_def)
  qed
qed

lemma sock_step_inv: "sock_step K K' \<Longrightarrow> sock_inv K \<Longrightarrow> sock_inv K'"
  by (induction rule: sock_step.induct) (blast intro: sock_inv_accept sock_inv_op sock_inv_write sock_inv_read_end)+

lemma sock_reach_inv: "sock_step\<^sup>*\<^sup>* K K' \<Longrightarrow> sock_inv K \<Longrightarrow> sock_inv K'"
  by (induction rule: rtranclp_induct) (auto intro: sock_step_inv)

definition fresh_sockets :: "hub \<Rightarrow> sockets" where
  "fresh_sockets h = \<lparr> so_hub = h, so_conns = [] \<rparr>"

lemma fresh_sockets_inv: "sock_inv (fresh_sockets (NewHubWithRedis up url))"
  using NewHub_ok by (simp add: fresh_sockets_def sock_inv_def)

section \<open>Properties\<close>

text \<open>C16: what a WebSocket carries: in every state the connections of a new hub can get to, with any interleaving
  of requests, of the hub's goroutines, of writes that succeed or fail and of connections that break, the
  messages written to a connection and those waiting in its channel are exactly the messages for the
  client's address for which the channel had room, once each and in their order, less at most one: the
  one whose write failed, after which nothing is written any more.\<close>

theorem socket_in_order:
  assumes "sock_step\<^sup>*\<^sup>* (fresh_sockets (NewHubWithRedis up url)) K" and "w \<in> set (so_conns K)"
  shows "taken (wc_posted w) = wc_written w @ (case wc_failed w of None \<Rightarrow> [] | Some m \<Rightarrow> [m]) @ hb_send (so_hub K) (wc_client w)
    \<and> (wc_writing w \<longleftrightarrow> wc_failed w = None) \<and> length (hb_send (so_hub K) (wc_client w)) \<le> 256"
proof -
  have "sock_inv K" by (rule sock_reach_inv [OF assms(1) fresh_sockets_inv])
  then show ?thesis using assms(2) by (simp add: sock_inv_def conn_inv_def hub_wf_def)
qed

text \<open>A goroutine that waits on the channel of a client who has left waits for ever.\<close>

definition stranded :: "nat \<Rightarrow> sockets \<Rightarrow> bool" where
  "stranded k K \<longleftrightarrow> k < length (so_conns K) \<and> (let w = so_conns K ! k in
     wc_writing w \<and> \<not> wc_reading w \<and> hb_send (so_hub K) (wc_client w) = [])"

lemma stranded_step:
  assumes "sock_step K K'" "sock_inv K" "stranded k K"
  shows "stranded k K'"
proof -
  define w h where "w = so_conns K ! k" and "h = so_hub K"
  have k: "k < length (so_conns K)" "wc_writing w" "\<not> wc_reading w" "hb_send h (wc_client w) = []" "conn_inv h w"
    using assms(2,3) by (auto simp: stranded_def sock_inv_def w_def h_def Let_def)
  then have gone: "\<not> listens h (wc_client w) r" for r by (auto simp: conn_inv_def)
  have other: "wc_client (so_conns K ! j) \<noteq> wc_client w" if "j < length (so_conns K)" "j \<noteq> k" for j
    using assms(2) that k(1) nth_eq_iff_index_eq [of "map wc_client (so_conns K)" j k] by (auto simp: sock_inv_def w_def)
  from assms(1) show ?thesis
  proof cases
    case (connect E S domain origin hijacked r s a s')
    obtain b s1 h1 where b: "serveWs E S domain (CheckOrigin origin \<and> hijacked) r s h = (b, s1, h1)" by (metis prod_cases3)
    then have "so_conns K' ! k = w \<and> k < length (so_conns K')" "so_hub K' = h1"
      using connect k(1) by (auto simp: ws_accept_def w_def h_def nth_append split: sum.splits)
    moreover have "hb_send h1 (wc_client w) = []"
      using serveWs_hub [OF b] k(4) by (auto simp: Register_client_def Let_def split: sum.splits)
    ultimately show ?thesis using k by (simp add: stranded_def)
  next
    case (hub op h')
    have "offered op h (wc_client w) = []" using gone by (auto simp: offered_def split: option.splits)
    then show ?thesis using hub k do_op_frame(3) [of op h h' "wc_client w"] by (simp add: stranded_def note_posted_def w_def h_def)
  next
    case (write_msg j ok)
    have "j \<noteq> k" using write_msg(2) k by (auto simp: write_round_def w_def h_def)
    then show ?thesis using write_msg k other [of j] by (auto simp: write_round_def stranded_def w_def h_def Let_def split: if_splits list.splits)
  next
    case (read_err j)
    have "j \<noteq> k" using read_err(2) k by (auto simp: read_end_def w_def)
    then show ?thesis using read_err k by (auto simp: read_end_def stranded_def w_def h_def Let_def Unregister_frame split: if_splits)
  qed
qed


text \<open>One WebSocket for \<open>@eve:a.org\<close>, connected to a hub without Redis.\<close>

definition eve_hub :: "string \<Rightarrow> hub" where
  "eve_hub addr = snd (Register_client ''@eve:a.org'' addr (NewHubWithRedis (\<lambda>_. False) ''''))"

definition eve_sockets :: "string \<Rightarrow> sockets" where
  "eve_sockets addr = \<lparr> so_hub = eve_hub addr, so_conns = [new_conn 0] \<rparr>"

lemma eve_connects: "\<exists>addr. sock_step\<^sup>*\<^sup>* (fresh_sockets (NewHubWithRedis (\<lambda>_. False) '''')) (eve_sockets addr)"
proof -
  let ?h = "NewHubWithRedis (\<lambda>_. False) ''''"
  have "\<exists>dev. run_state (ValidateWSToken ws_env demo_auth ''W'') (session_on demo_keys []) = (Inr (1, dev), session_on demo_keys [])"
    by (simp add: ValidateWSToken_def sql_simps session_on_def ws_env_def str_claim_def claimed_def num_claim_def)
  then obtain dev where v: "run_state (ValidateWSToken ws_env demo_auth ''W'') (session_on demo_keys []) = (Inr (1, dev), session_on demo_keys [])" by blast
  obtain u s2 where u: "run_state (GetUsername demo_auth 1) (session_on demo_keys []) = (u, s2)" by fastforce
  obtain addr where "serveWs ws_env demo_auth ''a.org'' True demo_ws (session_on demo_keys []) ?h = (Inr 0, s2, eve_hub addr)"
    using v u by (simp add: serveWs_def Let_def demo_ws_token eve_hub_def Register_client_def NewHubWithRedis_def)
  then have "ws_accept ws_env demo_auth ''a.org'' ''https://b.org'' True demo_ws (session_on demo_keys []) (fresh_sockets ?h) = (Inr 0, s2, eve_sockets addr)"
    by (simp add: ws_accept_def fresh_sockets_def CheckOrigin_def eve_sockets_def)
  then show ?thesis using sock_step.connect r_into_rtranclp by metis
qed

lemmas eve_defs = eve_sockets_def eve_hub_def new_conn_def Register_client_def NewHubWithRedis_def Let_def

text \<open>The hub has a receipt for the client, who is written it.\<close>

theorem socket_in_order_witness:
  "\<exists>K w. sock_step\<^sup>*\<^sup>* (fresh_sockets (NewHubWithRedis (\<lambda>_. False) '''')) K \<and> w \<in> set (so_conns K)
    \<and> wc_posted w = [(ReadMsg ''e'' ''t'', True)] \<and> wc_written w = [ReadMsg ''e'' ''t'']"
proof -
  let ?op = "OpCall (CallRead ''@eve:a.org'' ''e'' ''t'')" and ?m = "ReadMsg ''e'' ''t''"
  obtain addr where c: "sock_step\<^sup>*\<^sup>* (fresh_sockets (NewHubWithRedis (\<lambda>_. False) '''')) (eve_sockets addr)" using eve_connects by blast
  define K1 where "K1 = \<lparr> so_hub = push_clients ''@eve:a.org'' ?m (eve_hub addr), so_conns = [(new_conn 0)\<lparr>wc_posted := [(?m, True)]\<rparr>] \<rparr>"
  define K2 where "K2 = K1\<lparr>so_hub := (so_hub K1)\<lparr>hb_send := (hb_send (so_hub K1))(0 := [])\<rparr>,
    so_conns := [(new_conn 0)\<lparr>wc_posted := [(?m, True)], wc_written := [?m]\<rparr>]\<rparr>"
  have "sock_step (eve_sockets addr) K1"
    using sock_step.hub [of ?op "eve_sockets addr" "push_clients ''@eve:a.org'' ?m (eve_hub addr)"]
    by (simp add: K1_def note_posted_def offered_def listens_def eve_defs hub_call_defs)
  moreover have "write_round True 0 K1 = Some K2"
    by (simp add: K1_def K2_def write_round_def push_clients_def try_send_def eve_defs)
  then have "sock_step K1 K2" by (intro sock_step.write_msg [of 0 K1 True]) (simp add: K1_def)
  ultimately have r: "sock_step\<^sup>*\<^sup>* (fresh_sockets (NewHubWithRedis (\<lambda>_. False) '''')) K2"
    using c by (meson rtranclp.rtrancl_into_rtrancl)
  have "taken (wc_posted w) = wc_written w @ (case wc_failed w of None \<Rightarrow> [] | Some m \<Rightarrow> [m]) @ hb_send (so_hub K2) (wc_client w)" if "w \<in> set (so_conns K2)" for w
    using socket_in_order [OF r that] by simp
  with r show ?thesis by (intro exI [of _ K2]) (simp add: K2_def)
qed


text \<open>After a failed write the client stays registered until its connection breaks: its channel fills up, and
  what comes after is dropped.\<close>

lemma dead_writer_drops:
  assumes "do_op op h = Some h'" "length (hb_send h c) = 256"
  shows "hb_send h' c = hb_send h c"
  unfolding do_op_frame(3) [OF assms(1)] using assms(2) by (auto simp: offered_def try_send_def split: option.splits)

end
