(* ===== verification/Fed_Client.thy ===== *)
theory Fed_Client
  imports Auth
begin

text \<open>
  The transport of package \<open>federation\<close> (\<open>src/server/internal/federation\<close>): the keys of a server
  (\<open>keys.go\<close>), the signature on a request and its verification (\<open>client.go\<close>, \<open>server.go\<close>), the
  discovery of other servers (\<open>discovery.go\<close>) and every call of the client. The network
  answers a request as it likes, depending on all requests before it; JSON documents are read
  and written by parameters. A request is built with \<open>http.NewRequestWithContext\<close> whose error
  the code ignores: a URL it refuses makes the next line dereference nil, which is \<open>FedPanic\<close>.
\<close>

section \<open>Requests\<close>

record http_req =
  hq_method :: string
  hq_url :: string
  hq_header :: "string \<Rightarrow> string"
  hq_body :: string

record http_resp =
  hp_status :: nat
  hp_body :: string

record fed_txn_event =
  xe_EventID :: string
  xe_Type :: string
  xe_Sender :: string
  xe_Recipient :: string
  xe_Timestamp :: int
  xe_Ciphertext :: string
  xe_SessionID :: string

record transaction =
  tx_TransactionID :: string
  tx_Origin :: string
  tx_Destination :: string
  tx_Events :: "fed_txn_event list"

record auth_verify_result =
  av_AccessToken :: string
  av_ExpiresIn :: int
  av_UserID :: string
  av_DeviceID :: string
  av_KeysBackup :: "(string \<times> string) list"

text \<open>
  What the client is given: \<open>url_ok\<close> says which URLs make a request, \<open>http_do\<close> answers one
  (\<open>None\<close>: no answer); the decoders read the first JSON value of a body (\<open>dec_\<close>) or the whole
  body (\<open>unm_\<close>) into the fields the code asks for, \<open>None\<close> being an error.
\<close>

record net =
  url_ok :: "string \<Rightarrow> bool"
  http_do :: "http_req list \<Rightarrow> http_req \<Rightarrow> http_resp option"
  dec_endpoint :: "string \<Rightarrow> string option"
  unm_server_key :: "string \<Rightarrow> string option"
  dec_servers :: "string \<Rightarrow> string list option"
  dec_devices :: "string \<Rightarrow> string list option"
  dec_lookup :: "string \<Rightarrow> (string \<times> string) option"
  unm_auth :: "string \<Rightarrow> auth_verify_result option"
  json_txn :: "transaction \<Rightarrow> string"
  unm_txn :: "string \<Rightarrow> transaction option"

datatype fed_err = FedNoAnswer | FedStatus nat string | FedJson | FedBadKey | FedPanic

record server_keys =
  PublicKey :: bytes
  PrivateKey :: bytes

record fed_client =
  fc_domain :: string
  fc_mainDomain :: string
  fc_keys :: server_keys

text \<open>The clock, the cache of endpoints with their expiry, and the requests made so far.\<close>

record netst =
  ns_now :: int
  ns_cache :: "string \<Rightarrow> (string \<times> int) option"
  ns_sent :: "http_req list"

definition http_call :: "net \<Rightarrow> http_req \<Rightarrow> (netst, fed_err + http_resp) state" where
  "http_call N r = (if url_ok N (hq_url r)
     then State (\<lambda>s. (case http_do N (ns_sent s) r of None \<Rightarrow> Inl FedNoAnswer | Some a \<Rightarrow> Inr a, s\<lparr>ns_sent := ns_sent s @ [r]\<rparr>))
     else ret (Inl FedPanic))"

definition no_header :: "string \<Rightarrow> string" where
  "no_header = (\<lambda>_. '''')"

section \<open>Keys and signatures\<close>

definition SignPayload :: "env \<Rightarrow> server_keys \<Rightarrow> bytes \<Rightarrow> bytes" where
  "SignPayload E k payload = ed_sign E (PrivateKey k) payload"

definition PublicKeyBase64 :: "server_keys \<Rightarrow> string" where
  "PublicKeyBase64 k = b64_encode (PublicKey k)"

text \<open>
  The body of \<open>LoadServerKeys\<close>, which runs once: the keys of the file (its two base64 fields, if
  it can be read and is JSON) when they have the right lengths, else new ones, and what is
  then written to the file. \<open>None\<close> when no key can be generated.
\<close>

definition LoadServerKeys :: "(string \<times> string) option \<Rightarrow> (bytes \<times> bytes) option \<Rightarrow> (server_keys \<times> (string \<times> string) option) option" where
  "LoadServerKeys file gen =
     (let fresh = (case gen of
          None \<Rightarrow> None
        | Some (pub, priv) \<Rightarrow> Some (\<lparr> PublicKey = pub, PrivateKey = priv \<rparr>, Some (b64_encode pub, b64_encode priv))) in
      case file of
        None \<Rightarrow> fresh
      | Some (p, q) \<Rightarrow>
          (let pub = b64_bytes p; priv = b64_bytes q in
           if length pub = 32 \<and> length priv = 64 then Some (\<lparr> PublicKey = pub, PrivateKey = priv \<rparr>, None)
           else fresh))"

definition scheme :: "string \<Rightarrow> string" where
  "scheme domain = (if HasPrefix domain ''localhost'' \<or> HasPrefix domain ''127.'' then ''http'' else ''https'')"

definition signed_dest :: "string \<Rightarrow> string" where
  "signed_dest url =
     (if HasPrefix url ''https://'' then hd (SplitN2 (CHR ''/'') (drop 8 url))
      else if HasPrefix url ''http://'' then hd (SplitN2 (CHR ''/'') (drop 7 url))
      else '''')"

definition signed_path :: "string \<Rightarrow> string" where
  "signed_path url =
     (case Index url ''://'' of
        None \<Rightarrow> ''/''
      | Some idx \<Rightarrow>
          (let rest = drop (idx + 3) url in
           case Index rest ''/'' of None \<Rightarrow> ''/'' | Some slash \<Rightarrow> ''/'' @ drop (slash + 1) rest))"

definition body_hash :: "env \<Rightarrow> string \<Rightarrow> string" where
  "body_hash E body = (if body \<noteq> '''' then hex_encode (sha256 E body) else '''')"

definition s2s_payload :: "string \<Rightarrow> string \<Rightarrow> string \<Rightarrow> string \<Rightarrow> string \<Rightarrow> string \<Rightarrow> string" where
  "s2s_payload origin dest ts meth path hash =
     origin @ [CHR 0x0A] @ dest @ [CHR 0x0A] @ ts @ [CHR 0x0A] @ meth @ [CHR 0x0A] @ path @ [CHR 0x0A] @ hash"

definition signRequest :: "env \<Rightarrow> fed_client \<Rightarrow> int \<Rightarrow> string \<Rightarrow> string \<Rightarrow> string \<Rightarrow> string \<Rightarrow> string" where
  "signRequest E c now meth url body =
     (let timestamp = Itoa (unix now); dest = signed_dest url;
          payload = s2s_payload (fc_domain c) dest timestamp meth (signed_path url) (body_hash E body);
          sig = SignPayload E (fc_keys c) payload in
      (no_header)(''X-Server-Origin'' := fc_domain c, ''X-Server-Destination'' := dest,
        ''X-Server-Timestamp'' := timestamp, ''X-Server-Signature'' := b64_encode sig))"

text \<open>A request as the handler of a server sees it: the path is decoded, the query is not.\<close>

record srv_req =
  sr_method :: string
  sr_path :: string
  sr_rawquery :: string
  sr_header :: "string \<Rightarrow> string"
  sr_body :: string

datatype verify_err = ErrMissingHeaders | ErrTimestamp | ErrWindow | ErrBase64 | ErrSignature

definition VerifyRequest :: "env \<Rightarrow> int \<Rightarrow> srv_req \<Rightarrow> bytes \<Rightarrow> bytes \<Rightarrow> verify_err option" where
  "VerifyRequest E now r body originPublicKey =
     (let origin = sr_header r ''X-Server-Origin''; dest = sr_header r ''X-Server-Destination'';
          ts = sr_header r ''X-Server-Timestamp''; sig = sr_header r ''X-Server-Signature'' in
      if origin = '''' \<or> dest = '''' \<or> ts = '''' \<or> sig = '''' then Some ErrMissingHeaders
      else (case ParseInt ts of (timestamp, ok) \<Rightarrow>
        if \<not> ok then Some ErrTimestamp
        else if wrap64 (unix now - timestamp) > 300 \<or> wrap64 (timestamp - unix now) > 300 then Some ErrWindow
        else (let path = sr_path r @ (if sr_rawquery r \<noteq> '''' then ''?'' @ sr_rawquery r else '''');
                  payload = s2s_payload origin dest ts (sr_method r) path (body_hash E body) in
              case b64_decode sig of
                None \<Rightarrow> Some ErrBase64
              | Some sigBytes \<Rightarrow> if ed_verify E originPublicKey payload sigBytes then None else Some ErrSignature)))"

section \<open>Discovery\<close>

definition FetchServerKey :: "net \<Rightarrow> string \<Rightarrow> (netst, fed_err + bytes) state" where
  "FetchServerKey N domain = do {
     a \<leftarrow> http_call N \<lparr> hq_method = ''GET'', hq_url = scheme domain @ ''://'' @ domain @ ''/.well-known/federation'',
            hq_header = no_header, hq_body = '''' \<rparr>;
     ret (case a of
       Inl e \<Rightarrow> Inl e
     | Inr resp \<Rightarrow>
         if hp_status resp \<noteq> 200 then Inl (FedStatus (hp_status resp) '''')
         else (case unm_server_key N (hp_body resp) of
           None \<Rightarrow> Inl FedJson
         | Some k \<Rightarrow>
             (case b64_decode k of
                None \<Rightarrow> Inl FedBadKey
              | Some key \<Rightarrow> if length key \<noteq> 32 then Inl FedBadKey else Inr key))) }"

definition discoveryCacheTTL :: int where "discoveryCacheTTL = 5 * 60 * 1000000000"

definition discover :: "net \<Rightarrow> string \<Rightarrow> string \<Rightarrow> (netst, fed_err + string) state" where
  "discover N domain remoteDomain = do {
     a \<leftarrow> http_call N \<lparr> hq_method = ''GET'', hq_url = scheme remoteDomain @ ''://'' @ remoteDomain @ ''/.well-known/federation'',
            hq_header = no_header, hq_body = '''' \<rparr>;
     case a of
       Inl e \<Rightarrow> ret (Inl e)
     | Inr resp \<Rightarrow>
         (let base = scheme remoteDomain @ ''://'' @ remoteDomain @ ''/federation/v1'';
              endpoint = (if hp_status resp = 200
                then (case dec_endpoint N (hp_body resp) of Some e \<Rightarrow> if e \<noteq> '''' then e else base | None \<Rightarrow> base)
                else base) in
          do {
            s \<leftarrow> State_Monad.get;
            _ \<leftarrow> State_Monad.set (s\<lparr>ns_cache := (ns_cache s)(domain \<mapsto> (endpoint, ns_now s + discoveryCacheTTL))\<rparr>);
            ret (Inr endpoint) }) }"

definition resolveEndpoint :: "env \<Rightarrow> net \<Rightarrow> string \<Rightarrow> (netst, fed_err + string) state" where
  "resolveEndpoint E N remoteDomain = do {
     s \<leftarrow> State_Monad.get;
     let domain = ToLower E (TrimSpace remoteDomain);
     case ns_cache s domain of
       Some (endpoint, expires) \<Rightarrow> if ns_now s < expires then ret (Inr endpoint) else discover N domain remoteDomain
     | None \<Rightarrow> discover N domain remoteDomain }"

definition FetchServersList :: "env \<Rightarrow> net \<Rightarrow> string \<Rightarrow> (netst, fed_err + string list) state" where
  "FetchServersList E N hubDomain = do {
     a \<leftarrow> http_call N \<lparr> hq_method = ''GET'', hq_url = scheme hubDomain @ ''://'' @ hubDomain @ ''/.well-known/federation-servers'',
            hq_header = no_header, hq_body = '''' \<rparr>;
     ret (case a of
       Inl e \<Rightarrow> Inl e
     | Inr resp \<Rightarrow>
         if hp_status resp \<noteq> 200 then Inl (FedStatus (hp_status resp) '''')
         else (case dec_servers N (hp_body resp) of
           None \<Rightarrow> Inl FedJson
         | Some out \<Rightarrow> Inr (filter (\<lambda>d. d \<noteq> '''') (map (\<lambda>s. ToLower E (TrimSpace s)) out)))) }"

section \<open>Calls\<close>

text \<open>The signed request all calls make; \<open>ctype\<close> when the call sets \<open>Content-Type\<close>.\<close>

definition signed_call :: "env \<Rightarrow> net \<Rightarrow> fed_client \<Rightarrow> string \<Rightarrow> string \<Rightarrow> string \<Rightarrow> bool \<Rightarrow> (netst, fed_err + http_resp) state" where
  "signed_call E N c meth url body ctype = do {
     s \<leftarrow> State_Monad.get;
     let h = signRequest E c (ns_now s) meth url body;
     http_call N \<lparr> hq_method = meth, hq_url = url,
       hq_header = (if ctype then h(''Content-Type'' := ''application/json'') else h), hq_body = body \<rparr> }"

text \<open>A call whose answer is only a status.\<close>

definition post_signed :: "env \<Rightarrow> net \<Rightarrow> fed_client \<Rightarrow> string \<Rightarrow> string \<Rightarrow> (netst, fed_err + unit) state" where
  "post_signed E N c url body = do {
     a \<leftarrow> signed_call E N c ''POST'' url body True;
     ret (case a of
       Inl e \<Rightarrow> Inl e
     | Inr resp \<Rightarrow> if hp_status resp \<noteq> 200 then Inl (FedStatus (hp_status resp) (hp_body resp)) else Inr ()) }"

definition Register_peer :: "env \<Rightarrow> net \<Rightarrow> fed_client \<Rightarrow> string \<Rightarrow> (netst, fed_err + unit) state" where
  "Register_peer E N c hubDomain = do {
     x \<leftarrow> resolveEndpoint E N hubDomain;
     case x of
       Inl e \<Rightarrow> ret (Inl e)
     | Inr endpoint \<Rightarrow> post_signed E N c (TrimSuffix endpoint ''/'' @ ''/register'')
         (''{\"domain\":\"'' @ ReplaceAll (fc_domain c) [CHR 0x22] [CHR 0x5C, CHR 0x22] @ ''\"}'') }"

definition FetchDeviceList :: "env \<Rightarrow> net \<Rightarrow> fed_client \<Rightarrow> string \<Rightarrow> string \<Rightarrow> (netst, fed_err + string list) state" where
  "FetchDeviceList E N c remoteDomain userID = do {
     x \<leftarrow> resolveEndpoint E N remoteDomain;
     case x of
       Inl e \<Rightarrow> ret (Inl e)
     | Inr endpoint \<Rightarrow> do {
         a \<leftarrow> signed_call E N c ''GET'' (TrimSuffix endpoint ''/'' @ ''/keys/devices/'' @ PathEscape userID) '''' False;
         ret (case a of
           Inl e \<Rightarrow> Inl e
         | Inr resp \<Rightarrow>
             if hp_status resp \<noteq> 200 then Inl (FedStatus (hp_status resp) (hp_body resp))
             else (case dec_devices N (hp_body resp) of
               None \<Rightarrow> Inl FedJson
             | Some ds \<Rightarrow> Inr (filter (\<lambda>d. d \<noteq> '''') ds))) } }"

definition FetchKeys :: "env \<Rightarrow> net \<Rightarrow> fed_client \<Rightarrow> string \<Rightarrow> string \<Rightarrow> string \<Rightarrow> (netst, fed_err + string) state" where
  "FetchKeys E N c remoteDomain userID deviceID = do {
     x \<leftarrow> resolveEndpoint E N remoteDomain;
     case x of
       Inl e \<Rightarrow> ret (Inl e)
     | Inr endpoint \<Rightarrow> do {
         a \<leftarrow> signed_call E N c ''GET''
                (TrimSuffix endpoint ''/'' @ ''/keys/bundle/'' @ PathEscape userID @ ''/'' @ PathEscape deviceID) '''' False;
         ret (case a of
           Inl e \<Rightarrow> Inl e
         | Inr resp \<Rightarrow>
             if hp_status resp \<noteq> 200 then Inl (FedStatus (hp_status resp) (hp_body resp)) else Inr (hp_body resp)) } }"

definition SendTransaction :: "env \<Rightarrow> net \<Rightarrow> fed_client \<Rightarrow> string \<Rightarrow> transaction \<Rightarrow> (netst, fed_err + unit) state" where
  "SendTransaction E N c remoteDomain txn =
     (let targetDomain = (if fc_mainDomain c \<noteq> '''' \<and> remoteDomain \<noteq> fc_domain c then fc_mainDomain c else remoteDomain);
          txn' = txn\<lparr>tx_Origin := fc_domain c, tx_Destination := remoteDomain\<rparr> in
      do {
        x \<leftarrow> resolveEndpoint E N targetDomain;
        case x of
          Inl e \<Rightarrow> ret (Inl e)
        | Inr endpoint \<Rightarrow> post_signed E N c (TrimSuffix endpoint ''/'' @ ''/transaction'') (json_txn N txn') })"

definition ForwardTransaction :: "env \<Rightarrow> net \<Rightarrow> fed_client \<Rightarrow> string \<Rightarrow> transaction \<Rightarrow> (netst, fed_err + unit) state" where
  "ForwardTransaction E N c targetDomain txn = do {
     x \<leftarrow> resolveEndpoint E N targetDomain;
     case x of
       Inl e \<Rightarrow> ret (Inl e)
     | Inr endpoint \<Rightarrow> post_signed E N c (TrimSuffix endpoint ''/'' @ ''/transaction'') (json_txn N txn) }"

definition UserLookup :: "env \<Rightarrow> net \<Rightarrow> fed_client \<Rightarrow> string \<Rightarrow> string \<Rightarrow> (netst, fed_err + (string \<times> string) option) state" where
  "UserLookup E N c remoteDomain username = do {
     x \<leftarrow> resolveEndpoint E N remoteDomain;
     case x of
       Inl e \<Rightarrow> ret (if e = FedPanic then Inl FedPanic else Inr None)
     | Inr endpoint \<Rightarrow>
         (let urlStr = TrimSuffix endpoint ''/'' @ ''/users/lookup?username='' @ QueryEscape username in
          if \<not> url_ok N urlStr then ret (Inr None)
          else do {
            a \<leftarrow> signed_call E N c ''GET'' urlStr '''' False;
            ret (case a of
              Inl e \<Rightarrow> Inr None
            | Inr resp \<Rightarrow>
                if hp_status resp \<noteq> 200 then Inr None
                else (case dec_lookup N (hp_body resp) of
                  None \<Rightarrow> Inr None
                | Some (u, d) \<Rightarrow> if u = '''' \<or> d = '''' then Inr None else Inr (Some (u, d)))) }) }"

definition AuthVerify :: "env \<Rightarrow> net \<Rightarrow> fed_client \<Rightarrow> string \<Rightarrow> string \<Rightarrow> (netst, fed_err + auth_verify_result) state" where
  "AuthVerify E N c remoteDomain body = do {
     x \<leftarrow> resolveEndpoint E N remoteDomain;
     case x of
       Inl e \<Rightarrow> ret (Inl e)
     | Inr endpoint \<Rightarrow> do {
         a \<leftarrow> signed_call E N c ''POST'' (TrimSuffix endpoint ''/'' @ ''/auth/verify'') body True;
         ret (case a of
           Inl e \<Rightarrow> Inl e
         | Inr resp \<Rightarrow>
             if hp_status resp \<noteq> 200 then Inl (FedStatus (hp_status resp) (hp_body resp))
             else (case unm_auth N (hp_body resp) of None \<Rightarrow> Inl FedJson | Some r \<Rightarrow> Inr r)) } }"

section \<open>What a signature covers\<close>

definition ed_law :: "env \<Rightarrow> server_keys \<Rightarrow> bool" where
  "ed_law E k \<longleftrightarrow> (\<forall>m. ed_verify E (PublicKey k) m (ed_sign E (PrivateKey k) m) \<and> ed_sign E (PrivateKey k) m \<noteq> [])"

text \<open>How a request arrives: without the fragment of the URL, the path decoded, the query apart.\<close>

definition receive :: "http_req \<Rightarrow> srv_req" where
  "receive r =
     (let target = signed_path (takeWhile (\<lambda>c. c \<noteq> CHR ''#'') (hq_url r));
          path = takeWhile (\<lambda>c. c \<noteq> CHR ''?'') target in
      \<lparr> sr_method = hq_method r, sr_path = (case PathUnescape path of None \<Rightarrow> path | Some p \<Rightarrow> p),
        sr_rawquery = drop (Suc (length path)) target, sr_header = hq_header r, sr_body = hq_body r \<rparr>)"

text \<open>A URL as the client builds it.\<close>

definition plain_url :: "string \<Rightarrow> string \<Rightarrow> string \<Rightarrow> string \<Rightarrow> string" where
  "plain_url sch host p q = sch @ ''://'' @ host @ ''/'' @ p @ (if q = '''' then '''' else ''?'' @ q)"

definition plain_parts :: "string \<Rightarrow> string \<Rightarrow> string \<Rightarrow> string \<Rightarrow> bool" where
  "plain_parts sch host p q \<longleftrightarrow> sch \<in> {''http'', ''https''} \<and> host \<noteq> '''' \<and> CHR ''/'' \<notin> set host
     \<and> set host \<inter> set ''#?'' = {} \<and> set p \<inter> set ''#?%'' = {} \<and> CHR ''#'' \<notin> set q"

lemma Index_scheme: "sch \<in> {''http'', ''https''} \<Longrightarrow> Index (sch @ ''://'' @ s) ''://'' = Some (length sch)"
  by auto

lemma signed_dest_plain: "plain_parts sch host p q \<Longrightarrow> signed_dest (plain_url sch host p q) = host"
  by (auto simp: plain_parts_def plain_url_def signed_dest_def SplitN2_first)

lemma signed_path_plain:
  assumes "plain_parts sch host p q"
  shows "signed_path (plain_url sch host p q) = ''/'' @ p @ (if q = '''' then '''' else ''?'' @ q)"
proof -
  let ?s = "host @ CHR ''/'' # p @ (if q = '''' then '''' else ''?'' @ q)"
  have "Index (plain_url sch host p q) ''://'' = Some (length sch)" "drop (length sch + 3) (plain_url sch host p q) = ?s"
    using assms Index_scheme [of sch ?s] by (auto simp: plain_parts_def plain_url_def)
  moreover have "Index ?s ''/'' = Some (length host)" using assms by (simp add: plain_parts_def Index_char_first)
  ultimately show ?thesis by (simp add: signed_path_def)
qed

lemma receive_plain:
  assumes "plain_parts sch host p q"
  shows "receive \<lparr> hq_method = m, hq_url = plain_url sch host p q, hq_header = h, hq_body = b \<rparr>
    = \<lparr> sr_method = m, sr_path = ''/'' @ p, sr_rawquery = q, sr_header = h, sr_body = b \<rparr>"
proof -
  have 1: "takeWhile (\<lambda>c. c \<noteq> CHR ''#'') (plain_url sch host p q) = plain_url sch host p q"
    using assms by (auto simp: takeWhile_eq_all_conv plain_parts_def plain_url_def)
  have "CHR ''?'' \<notin> set p" "CHR ''%'' \<notin> set p" using assms by (auto simp: plain_parts_def)
  then have "takeWhile (\<lambda>c. c \<noteq> CHR ''?'') (''/'' @ p @ (if q = '''' then '''' else ''?'' @ q)) = ''/'' @ p"
    "PathUnescape (''/'' @ p) = Some (''/'' @ p)"
    by (auto simp: takeWhile_append PathUnescape_plain)
  then show ?thesis unfolding receive_def Let_def http_req.simps 1 signed_path_plain [OF assms] by simp
qed

lemma wrap64_near: "\<bar>x\<bar> \<le> 300 \<Longrightarrow> wrap64 x = x"
  by (rule wrap64_id) (auto simp: int64_def)

lemma Itoa_nonempty: "Itoa i \<noteq> []"
  by (simp add: Itoa_def)

lemma signed_headers_verify:
  assumes "ed_law E (fc_keys c)" "fc_domain c \<noteq> ''''" "int64 (unix t1)" "\<bar>unix t2 - unix t1\<bar> \<le> 300" "plain_parts sch host p q"
    and "\<And>n. n \<in> {''X-Server-Origin'', ''X-Server-Destination'', ''X-Server-Timestamp'', ''X-Server-Signature''} \<Longrightarrow>
      h n = signRequest E c t1 m (plain_url sch host p q) body n"
  shows "VerifyRequest E t2 (receive \<lparr> hq_method = m, hq_url = plain_url sch host p q, hq_header = h, hq_body = body \<rparr>) body
    (PublicKey (fc_keys c)) = None"
proof -
  have "wrap64 (unix t2 - unix t1) \<le> 300" "wrap64 (unix t1 - unix t2) \<le> 300" using assms(4) by (simp_all add: wrap64_near)
  moreover have "host \<noteq> ''''" using assms(5) by (simp add: plain_parts_def)
  ultimately show ?thesis
    using assms(1-3) unfolding receive_plain [OF assms(5)]
    by (simp add: VerifyRequest_def Let_def assms(6) signRequest_def signed_dest_plain [OF assms(5)] signed_path_plain [OF assms(5)]
        ParseInt_Itoa Itoa_nonempty b64_encode_nonempty ed_law_def SignPayload_def no_header_def)
qed

text \<open>What a server signs another accepts: a request signed with \<open>signRequest\<close> for a URL of
  the form the client builds, without a percent sign in the path, verifies under the key of
  the sender as long as the two clocks differ by at most 300 seconds.\<close>

theorem signed_request_verifies:
  assumes "ed_law E (fc_keys c)" and "fc_domain c \<noteq> ''''" and "int64 (unix t1)" and "\<bar>unix t2 - unix t1\<bar> \<le> 300"
    and "plain_parts sch host p q"
  shows "VerifyRequest E t2 (receive \<lparr> hq_method = m, hq_url = plain_url sch host p q,
      hq_header = signRequest E c t1 m (plain_url sch host p q) body, hq_body = body \<rparr>) body (PublicKey (fc_keys c)) = None"
  using assms by (rule signed_headers_verify) (rule refl)

definition demo_client :: fed_client where
  "demo_client = \<lparr> fc_domain = ''a.org'', fc_mainDomain = '''', fc_keys = \<lparr> PublicKey = ''k'', PrivateKey = ''k'' \<rparr> \<rparr>"

lemma demo_ed_law: "ed_law demo_env (fc_keys demo_client)"
  by (simp add: ed_law_def demo_env_def demo_client_def)

theorem signed_request_verifies_witness:
  "VerifyRequest demo_env 1700000100000000000 (receive \<lparr> hq_method = ''POST'', hq_url = plain_url ''https'' ''b.org'' ''x'' ''y=1'',
      hq_header = signRequest demo_env demo_client 1700000000000000000 ''POST'' (plain_url ''https'' ''b.org'' ''x'' ''y=1'') ''hi'',
      hq_body = ''hi'' \<rparr>) ''hi'' ''k'' = None"
  using signed_request_verifies [OF demo_ed_law, of 1700000000000000000 1700000100000000000 "''https''" "''b.org''" "''x''" "''y=1''"
      "''POST''" "''hi''"]
  by (simp add: demo_client_def int64_def unix_def plain_parts_def)

lemma split_first: "c \<notin> set a \<Longrightarrow> c \<notin> set a' \<Longrightarrow> a @ c # r = a' @ c # r' \<longleftrightarrow> a = a' \<and> r = r'"
proof (induction a arbitrary: a')
  case Nil
  then show ?case by (cases a') auto
next
  case (Cons x a)
  then show ?case by (cases a') auto
qed

lemma split_last:
  assumes "c \<notin> set r" "c \<notin> set r'"
  shows "a @ c # r = a' @ c # r' \<longleftrightarrow> a = a' \<and> r = r'"
proof -
  have "a @ c # r = a' @ c # r' \<longleftrightarrow> rev (a @ c # r) = rev (a' @ c # r')" by (simp only: rev_is_rev_conv)
  also have "\<dots> \<longleftrightarrow> rev r @ c # rev a = rev r' @ c # rev a'" by simp
  also have "\<dots> \<longleftrightarrow> a = a' \<and> r = r'" using split_first [of c "rev r" "rev r'" "rev a" "rev a'"] assms by auto
  finally show ?thesis .
qed

lemma body_hash_line: "CHR 0x0A \<notin> set (body_hash E b)"
proof -
  have "CHR 0x0A \<noteq> hex_digit n" if "n < 16" for n 
  proof
    assume "CHR 0x0A = hex_digit n"
    then have "visible (CHR 0x0A)" using hex_digit_visible [OF that] by simp
    then show False by (simp add: visible_def)
  qed
  moreover have "(of_char c :: nat) div 16 < 16" "(of_char c :: nat) mod 16 < 16" for c :: char using of_char_div [of c] by simp_all
  ultimately show ?thesis by (auto simp: body_hash_def hex_encode_def)
qed

text \<open>C24: the signed text determines the request: two requests whose origin, destination, time
  and method are header values and tokens (without a line feed) have the same payload only if
  they agree in all of these, in the path with its query and in the hash of the body, even if
  a decoded path has line feeds in it.\<close>

theorem payload_binds:
  assumes "\<forall>x \<in> {o1, d1, t1, m1, o2, d2, t2, m2}. CHR 0x0A \<notin> set x"
  shows "s2s_payload o1 d1 t1 m1 p1 (body_hash E b1) = s2s_payload o2 d2 t2 m2 p2 (body_hash E b2)
    \<longleftrightarrow> (o1, d1, t1, m1, p1, body_hash E b1) = (o2, d2, t2, m2, p2, body_hash E b2)"
  using assms body_hash_line [of E b1] body_hash_line [of E b2] by (simp add: s2s_payload_def split_first split_last)

theorem payload_binds_witness:
  "s2s_payload ''a'' ''b'' ''1'' ''GET'' [CHR 0x0A] (body_hash demo_env '''') \<noteq> s2s_payload ''a'' ''b'' ''1'' ''GET'' '''' (body_hash demo_env ''x'')"
  using payload_binds [of "''a''" "''b''" "''1''" "''GET''" "''a''" "''b''" "''1''" "''GET''" "[CHR 0x0A]" demo_env "''''" "''''" "''x''"]
  by simp

lemma wrap64_shift: "wrap64 (x - 2 ^ 64) = wrap64 x" "wrap64 (x + 2 ^ 64) = wrap64 x"
proof -
  have "(x - 2 ^ 64 + 2 ^ 63) mod 2 ^ 64 = (x + 2 ^ 63) mod (2 ^ 64 :: int)"
    using minus_mod_self2 [of "x + 2 ^ 63" "2 ^ 64"] by (simp add: algebra_simps)
  moreover have "(x + 2 ^ 64 + 2 ^ 63) mod 2 ^ 64 = (x + 2 ^ 63) mod (2 ^ 64 :: int)"
    using mod_add_self2 [of "x + 2 ^ 63" "2 ^ 64"] by (simp add: algebra_simps)
  ultimately show "wrap64 (x - 2 ^ 64) = wrap64 x" "wrap64 (x + 2 ^ 64) = wrap64 x" by (simp_all only: wrap64_def)
qed

text \<open>The window of the verification in 64-bit arithmetic: a request with all headers and a
  number for its time fails the test of the window exactly if the time is more than 300
  seconds away, except for the one time \<open>2^63\<close> seconds before the clock, whose two
  differences wrap so that it passes.\<close>

theorem VerifyRequest_window:
  assumes "0 \<le> unix now" "unix now < 2 ^ 62"
    and "\<forall>n \<in> {''X-Server-Origin'', ''X-Server-Destination'', ''X-Server-Timestamp'', ''X-Server-Signature''}. sr_header r n \<noteq> ''''"
    and "ParseInt (sr_header r ''X-Server-Timestamp'') = (t, True)" and "int64 t"
  shows "VerifyRequest E now r body k = Some ErrWindow \<longleftrightarrow> \<bar>unix now - t\<bar> > 300 \<and> t \<noteq> unix now - 2 ^ 63"
proof -
  have 1: "wrap64 (unix now - t) = (if unix now - t < 2 ^ 63 then unix now - t else unix now - t - 2 ^ 64)"
    using assms(1,2,5) wrap64_shift(1) [of "unix now - t"] wrap64_id [of "unix now - t"] wrap64_id [of "unix now - t - 2 ^ 64"]
    by (auto simp: int64_def)
  have 2: "wrap64 (t - unix now) = (if - (2 ^ 63) \<le> t - unix now then t - unix now else t - unix now + 2 ^ 64)"
    using assms(1,2,5) wrap64_shift(2) [of "t - unix now"] wrap64_id [of "t - unix now"] wrap64_id [of "t - unix now + 2 ^ 64"]
    by (auto simp: int64_def)
  have "(wrap64 (unix now - t) > 300 \<or> wrap64 (t - unix now) > 300) \<longleftrightarrow> \<bar>unix now - t\<bar> > 300 \<and> t \<noteq> unix now - 2 ^ 63"
    unfolding 1 2 using assms(1,2,5) by (auto simp: int64_def)
  then show ?thesis using assms(3,4) by (auto simp: VerifyRequest_def Let_def split: option.split)
qed

lemma http_call_frame: "run_state (http_call N r) s = (x, s') \<Longrightarrow> ns_cache s' = ns_cache s \<and> ns_now s' = ns_now s"
  by (auto simp: http_call_def split: if_splits)

lemma discover_InrD:
  assumes "run_state (discover N d rd) s = (Inr ep, s1)"
  shows "ns_cache s1 d = Some (ep, ns_now s + discoveryCacheTTL) \<and> ns_now s1 = ns_now s"
proof -
  let ?req = "\<lparr> hq_method = ''GET'', hq_url = scheme rd @ ''://'' @ rd @ ''/.well-known/federation'', hq_header = no_header, hq_body = '''' \<rparr>"
  obtain x s2 where x: "run_state (http_call N ?req) s = (x, s2)" by fastforce
  with assms obtain resp where "x = Inr resp" by (cases x) (auto simp: discover_def)
  with assms x http_call_frame [OF x] show ?thesis by (simp add: discover_def Let_def) auto
qed

lemma resolveEndpoint_InrD:
  assumes "run_state (resolveEndpoint E N rd) s = (Inr ep, s1)"
  obtains exp where "ns_cache s1 (ToLower E (TrimSpace rd)) = Some (ep, exp)" "ns_now s < exp" "exp \<le> ns_now s + discoveryCacheTTL \<or> s1 = s"
    "ns_now s1 = ns_now s"
proof (cases "run_state (discover N (ToLower E (TrimSpace rd)) rd) s = (Inr ep, s1)")
  case True
  from that [of "ns_now s + discoveryCacheTTL"] discover_InrD [OF True] show ?thesis by (simp add: discoveryCacheTTL_def)
next
  case False
  with assms obtain exp where "ns_cache s (ToLower E (TrimSpace rd)) = Some (ep, exp)" "ns_now s < exp" "s1 = s"
    by (auto simp: resolveEndpoint_def Let_def split: option.splits prod.splits if_splits)
  then show ?thesis using that by auto
qed

text \<open>Endpoints are discovered once: after a server's endpoint has been resolved, any
  spelling of its name with the same lower case and trimming resolves to the same endpoint
  without a request, for the rest of the time the entry is kept, five minutes at most.\<close>

theorem resolveEndpoint_cached:
  assumes "run_state (resolveEndpoint E N rd) s = (Inr ep, s1)" and "ns_cache s = Map.empty"
    and "ToLower E (TrimSpace rd') = ToLower E (TrimSpace rd)"
    and "ns_now s \<le> t" "t < ns_now s + discoveryCacheTTL"
  shows "run_state (resolveEndpoint E N' rd') (s1\<lparr>ns_now := t\<rparr>) = (Inr ep, s1\<lparr>ns_now := t\<rparr>)
    \<and> (\<exists>q. ns_sent s1 = ns_sent s @ [q] \<and> hq_method q = ''GET'' \<and> hq_url q = scheme rd @ ''://'' @ rd @ ''/.well-known/federation'')"
proof -
  let ?d = "ToLower E (TrimSpace rd)"
  let ?req = "\<lparr> hq_method = ''GET'', hq_url = scheme rd @ ''://'' @ rd @ ''/.well-known/federation'', hq_header = no_header, hq_body = '''' \<rparr>"
  from assms(1,2) have d: "run_state (discover N ?d rd) s = (Inr ep, s1)" by (simp add: resolveEndpoint_def Let_def)
  obtain x s2 where x: "run_state (http_call N ?req) s = (x, s2)" by fastforce
  with d obtain resp where "x = Inr resp" by (cases x) (auto simp: discover_def)
  with d x have "ns_sent s1 = ns_sent s @ [?req]"
    by (auto simp: discover_def Let_def http_call_def split: if_splits)
  moreover have "run_state (resolveEndpoint E N' rd') (s1\<lparr>ns_now := t\<rparr>) = (Inr ep, s1\<lparr>ns_now := t\<rparr>)"
    using discover_InrD [OF d] assms(3-5) by (simp add: resolveEndpoint_def Let_def)
  ultimately show ?thesis by simp
qed

theorem VerifyRequest_window_witness:
  "VerifyRequest demo_env 1700000000000000000 \<lparr> sr_method = ''GET'', sr_path = ''/'', sr_rawquery = '''',
     sr_header = (\<lambda>_. Itoa (1700000000 - 2 ^ 63)), sr_body = '''' \<rparr> '''' ''k'' \<noteq> Some ErrWindow"
proof -
  let ?r = "\<lparr> sr_method = ''GET'', sr_path = ''/'', sr_rawquery = '''', sr_header = (\<lambda>_. Itoa (1700000000 - 2 ^ 63)), sr_body = '''' \<rparr>"
  have i: "int64 (1700000000 - 2 ^ 63)" by (simp add: int64_def)
  have "VerifyRequest demo_env 1700000000000000000 ?r '''' ''k'' = Some ErrWindow
      \<longleftrightarrow> \<bar>unix 1700000000000000000 - (1700000000 - 2 ^ 63)\<bar> > 300 \<and> 1700000000 - 2 ^ 63 \<noteq> unix 1700000000000000000 - 2 ^ 63"
    by (rule VerifyRequest_window [OF _ _ _ _ i]) (simp_all only: srv_req.simps ParseInt_Itoa [OF i] Itoa_nonempty, simp_all add: unix_def)
  then show ?thesis by (simp add: unix_def)
qed

text \<open>A network that answers every request with status 200 and an empty body.\<close>

definition demo_net :: net where
  "demo_net = \<lparr> url_ok = (\<lambda>_. True), http_do = (\<lambda>_ _. Some \<lparr> hp_status = 200, hp_body = '''' \<rparr>), dec_endpoint = (\<lambda>_. None),
     unm_server_key = (\<lambda>_. None), dec_servers = (\<lambda>_. None), dec_devices = (\<lambda>_. None), dec_lookup = (\<lambda>_. None), unm_auth = (\<lambda>_. None),
     json_txn = (\<lambda>_. ''''), unm_txn = (\<lambda>_. None) \<rparr>"

definition demo_netst :: netst where
  "demo_netst = \<lparr> ns_now = 1700000000000000000, ns_cache = Map.empty, ns_sent = [] \<rparr>"

lemma demo_names: "ToLower demo_env (TrimSpace ''B.org '') = ''b.org''" "ToLower demo_env (TrimSpace ''b.org'') = ''b.org''"
  by code_simp+

theorem resolveEndpoint_cached_witness:
  "\<exists>s1. run_state (resolveEndpoint demo_env demo_net ''b.org'') demo_netst = (Inr ''https://b.org/federation/v1'', s1)
    \<and> run_state (resolveEndpoint demo_env demo_net ''B.org '') (s1\<lparr>ns_now := 1700000100000000000\<rparr>)
      = (Inr ''https://b.org/federation/v1'', s1\<lparr>ns_now := 1700000100000000000\<rparr>)"
proof -
  have "\<exists>s1. run_state (resolveEndpoint demo_env demo_net ''b.org'') demo_netst = (Inr ''https://b.org/federation/v1'', s1)"
    by (simp add: resolveEndpoint_def discover_def http_call_def demo_net_def demo_netst_def scheme_def Let_def)
  then obtain s1 where r: "run_state (resolveEndpoint demo_env demo_net ''b.org'') demo_netst = (Inr ''https://b.org/federation/v1'', s1)" ..
  have "run_state (resolveEndpoint demo_env demo_net ''B.org '') (s1\<lparr>ns_now := 1700000100000000000\<rparr>)
      = (Inr ''https://b.org/federation/v1'', s1\<lparr>ns_now := 1700000100000000000\<rparr>)"
    using resolveEndpoint_cached [OF r, of "''B.org ''" 1700000100000000000] by (simp add: demo_names demo_netst_def discoveryCacheTTL_def)
  with r show ?thesis by blast
qed

text \<open>The keys of a server outlive a restart: what was generated and written is read back.\<close>

lemma LoadServerKeys_again:
  assumes "LoadServerKeys file gen = Some (k, w)" and "\<And>p q. gen = Some (p, q) \<Longrightarrow> length p = 32 \<and> length q = 64"
  shows "LoadServerKeys (if w = None then file else w) gen' = Some (k, None)"
  using assms by (auto simp: LoadServerKeys_def Let_def split: option.splits if_splits)

text \<open>What a call that posts has sent when it reports success.\<close>

definition sent_ok :: "net \<Rightarrow> http_req \<Rightarrow> netst \<Rightarrow> bool" where
  "sent_ok N q s1 \<longleftrightarrow> (\<exists>before resp. ns_sent s1 = before @ [q] \<and> http_do N before q = Some resp \<and> hp_status resp = 200)"

lemma post_signed_InrD:
  assumes "run_state (post_signed E N c url body) s = (Inr (), s1)"
  shows "sent_ok N \<lparr> hq_method = ''POST'', hq_url = url,
    hq_header = (signRequest E c (ns_now s) ''POST'' url body)(''Content-Type'' := ''application/json''), hq_body = body \<rparr> s1"
  using assms
  by (auto simp: post_signed_def signed_call_def http_call_def sent_ok_def Let_def split: if_splits option.splits)

lemma SendTransaction_InrD:
  assumes "run_state (SendTransaction E N c remote txn) s = (Inr (), s1)"
  obtains ep s0 where
    "run_state (resolveEndpoint E N (if fc_mainDomain c \<noteq> '''' \<and> remote \<noteq> fc_domain c then fc_mainDomain c else remote)) s = (Inr ep, s0)"
    "run_state (post_signed E N c (TrimSuffix ep ''/'' @ ''/transaction'') (json_txn N (txn\<lparr>tx_Origin := fc_domain c, tx_Destination := remote\<rparr>))) s0
      = (Inr (), s1)"
    "ns_now s0 = ns_now s"
proof -
  let ?t = "if fc_mainDomain c \<noteq> '''' \<and> remote \<noteq> fc_domain c then fc_mainDomain c else remote"
  obtain x s0 where x: "run_state (resolveEndpoint E N ?t) s = (x, s0)" by fastforce
  with assms obtain ep where ep: "x = Inr ep" by (cases x) (auto simp: SendTransaction_def Let_def)
  from resolveEndpoint_InrD [OF x [unfolded ep]] have "ns_now s0 = ns_now s" .
  with that x ep assms show ?thesis by (auto simp: SendTransaction_def Let_def)
qed

lemma SendTransaction_sent:
  assumes "run_state (SendTransaction E N c remote txn) s = (Inr (), s1)"
  defines "q \<equiv> last (ns_sent s1)"
  shows "sent_ok N q s1" "hq_body q = json_txn N (txn\<lparr>tx_Origin := fc_domain c, tx_Destination := remote\<rparr>)"
    "hq_header q ''X-Server-Origin'' = fc_domain c"
    "ed_law E (fc_keys c) \<Longrightarrow> fc_domain c \<noteq> '''' \<Longrightarrow> int64 (unix (ns_now s)) \<Longrightarrow> \<bar>unix t - unix (ns_now s)\<bar> \<le> 300 \<Longrightarrow>
      plain_parts sch host p '''' \<Longrightarrow> hq_url q = plain_url sch host p '''' \<Longrightarrow>
      VerifyRequest E t (receive q) (hq_body q) (PublicKey (fc_keys c)) = None"
proof -
  let ?b = "json_txn N (txn\<lparr>tx_Origin := fc_domain c, tx_Destination := remote\<rparr>)"
  from SendTransaction_InrD [OF assms(1)] obtain ep s0
    where p: "run_state (post_signed E N c (TrimSuffix ep ''/'' @ ''/transaction'') ?b) s0 = (Inr (), s1)" and n: "ns_now s0 = ns_now s" .
  let ?u = "TrimSuffix ep ''/'' @ ''/transaction''"
  let ?q = "\<lparr> hq_method = ''POST'', hq_url = ?u,
    hq_header = (signRequest E c (ns_now s) ''POST'' ?u ?b)(''Content-Type'' := ''application/json''), hq_body = ?b \<rparr>"
  have "sent_ok N ?q s1" using post_signed_InrD [OF p] n by simp
  then have q: "q = ?q" by (auto simp: q_def sent_ok_def)
  with \<open>sent_ok N ?q s1\<close> show "sent_ok N q s1" by simp
  show "hq_body q = ?b" "hq_header q ''X-Server-Origin'' = fc_domain c" by (simp_all add: q signRequest_def Let_def)
  assume a: "ed_law E (fc_keys c)" "fc_domain c \<noteq> ''''" "int64 (unix (ns_now s))" "\<bar>unix t - unix (ns_now s)\<bar> \<le> 300"
    and pp: "plain_parts sch host p ''''" and "hq_url q = plain_url sch host p ''''"
  then have u: "?u = plain_url sch host p ''''" by (simp add: q)
  show "VerifyRequest E t (receive q) (hq_body q) (PublicKey (fc_keys c)) = None"
    unfolding q u http_req.simps by (rule signed_headers_verify [OF a pp]) auto
qed

text \<open>A transaction that was sent arrives as it was meant and verifies: when \<open>SendTransaction\<close>
  reports success, the last request made was answered with 200; its body is the transaction
  with this server as origin and the remote server as destination; and whoever receives it
  within 300 seconds verifies it with the key of this server, provided that the endpoint is
  a plain URL.\<close>

theorem SendTransaction_verifies:
  assumes "run_state (SendTransaction E N c remote txn) s = (Inr (), s1)"
    and "ed_law E (fc_keys c)" and "fc_domain c \<noteq> ''''" and "int64 (unix (ns_now s))" and "\<bar>unix t - unix (ns_now s)\<bar> \<le> 300"
    and "\<And>txn. unm_txn N (json_txn N txn) = Some txn"
  shows "\<exists>q. sent_ok N q s1 \<and> unm_txn N (hq_body q) = Some (txn\<lparr>tx_Origin := fc_domain c, tx_Destination := remote\<rparr>)
    \<and> (\<forall>sch host p. plain_parts sch host p '''' \<and> hq_url q = plain_url sch host p '''' \<longrightarrow>
        VerifyRequest E t (receive q) (hq_body q) (PublicKey (fc_keys c)) = None)"
proof -
  note q = SendTransaction_sent [OF assms(1)]
  show ?thesis using q(1) q(2) assms(6) q(4) [OF assms(2-5)] by (intro exI [of _ "last (ns_sent s1)"]) auto
qed

text \<open>One concrete encoding of transactions with its decoder, in place of JSON: the fields in
  hexadecimal, each ended by a dot, a time in unary, counted from 1700000000.\<close>

definition event_fields :: "fed_txn_event \<Rightarrow> string list" where
  "event_fields e = [xe_EventID e, xe_Type e, xe_Sender e, xe_Recipient e, unary (xe_Timestamp e - 1700000000), xe_Ciphertext e, xe_SessionID e]"

definition demo_json :: "transaction \<Rightarrow> string" where
  "demo_json t = dotted (tx_TransactionID t # tx_Origin t # tx_Destination t # concat (map event_fields (tx_Events t)))"

fun parse_events :: "string list \<Rightarrow> fed_txn_event list" where
  "parse_events (a # b # c # d # e # f # g # r) = \<lparr> xe_EventID = a, xe_Type = b, xe_Sender = c, xe_Recipient = d,
     xe_Timestamp = of_unary e + 1700000000, xe_Ciphertext = f, xe_SessionID = g \<rparr> # parse_events r"
| "parse_events _ = []"

definition demo_unjson :: "string \<Rightarrow> transaction option" where
  "demo_unjson s = (case undotted s of
     i # orig # dest # r \<Rightarrow> Some \<lparr> tx_TransactionID = i, tx_Origin = orig, tx_Destination = dest, tx_Events = parse_events r \<rparr>
   | _ \<Rightarrow> None)"

lemma parse_events_fields [simp]: "parse_events (concat (map event_fields es)) = es"
  by (induction es) (simp_all add: event_fields_def)

lemma demo_json_law: "demo_unjson (demo_json t) = Some t"
  by (simp add: demo_unjson_def demo_json_def)

definition json_net :: net where
  "json_net = demo_net\<lparr>json_txn := demo_json, unm_txn := demo_unjson\<rparr>"

definition demo_txn :: transaction where
  "demo_txn = \<lparr> tx_TransactionID = ''t1'', tx_Origin = '''', tx_Destination = '''', tx_Events = [\<lparr> xe_EventID = ''e1'', xe_Type = ''m.message'',
     xe_Sender = ''@ann:a.org'', xe_Recipient = ''@bob:b.org'', xe_Timestamp = 1700000000, xe_Ciphertext = ''AAAA'', xe_SessionID = ''s'' \<rparr>] \<rparr>"

lemma demo_url: "plain_parts ''https'' ''b.org'' ''federation/v1/transaction'' ''''"
  "plain_url ''https'' ''b.org'' ''federation/v1/transaction'' '''' = ''https://b.org/federation/v1/transaction''"
  "TrimSuffix ''https://b.org/federation/v1'' ''/'' = ''https://b.org/federation/v1''"
  by (simp_all add: plain_parts_def plain_url_def) code_simp

lemma demo_posted:
  "\<exists>s1. run_state (SendTransaction demo_env json_net demo_client ''b.org'' demo_txn) demo_netst = (Inr (), s1)
    \<and> hq_url (last (ns_sent s1)) = ''https://b.org/federation/v1/transaction''"
  by (simp add: SendTransaction_def resolveEndpoint_def discover_def http_call_def post_signed_def signed_call_def
      demo_client_def json_net_def demo_net_def demo_netst_def scheme_def Let_def demo_url demo_names)

theorem SendTransaction_verifies_witness:
  "\<exists>s1 q. run_state (SendTransaction demo_env json_net demo_client ''b.org'' demo_txn) demo_netst = (Inr (), s1)
    \<and> sent_ok json_net q s1 \<and> VerifyRequest demo_env 1700000100000000000 (receive q) (hq_body q) ''k'' = None"
proof -
  from demo_posted obtain s1 where r: "run_state (SendTransaction demo_env json_net demo_client ''b.org'' demo_txn) demo_netst = (Inr (), s1)"
    and u: "hq_url (last (ns_sent s1)) = ''https://b.org/federation/v1/transaction''" by blast
  have "\<exists>q. sent_ok json_net q s1 \<and> unm_txn json_net (hq_body q) = Some (demo_txn\<lparr>tx_Origin := fc_domain demo_client, tx_Destination := ''b.org''\<rparr>)
    \<and> (\<forall>sch host p. plain_parts sch host p '''' \<and> hq_url q = plain_url sch host p '''' \<longrightarrow>
        VerifyRequest demo_env 1700000100000000000 (receive q) (hq_body q) (PublicKey (fc_keys demo_client)) = None)"
    by (rule SendTransaction_verifies [OF r demo_ed_law])
       (simp_all add: demo_client_def demo_netst_def unix_def int64_def json_net_def demo_json_law)
  then obtain q where q: "sent_ok json_net q s1" "plain_parts ''https'' ''b.org'' ''federation/v1/transaction'' '''' \<and>
      hq_url q = plain_url ''https'' ''b.org'' ''federation/v1/transaction'' '''' \<longrightarrow>
      VerifyRequest demo_env 1700000100000000000 (receive q) (hq_body q) (PublicKey (fc_keys demo_client)) = None" by blast
  moreover have "hq_url q = ''https://b.org/federation/v1/transaction''" using q(1) u by (auto simp: sent_ok_def)
  ultimately show ?thesis using r by (auto simp: demo_url demo_client_def)
qed

end
