(* ===== verification/Fed_Security.thy ===== *)
theory Fed_Security
  imports Fed_Client
begin

text \<open>
  The admission rules of package \<open>federation\<close> (\<open>src/server/internal/federation/security.go\<close>): the
  lists of blocked and allowed domains, the trust a domain earns by successful transactions
  and the limits of a transaction. The file system is a map from paths to contents.
\<close>

section \<open>Lists of domains\<close>

definition DefaultMaxBodySize :: int where "DefaultMaxBodySize = 2 ^ 20"
definition MaxEvents :: nat where "MaxEvents = 100"
definition MaxEventIDLen :: nat where "MaxEventIDLen = 128"
definition MaxTransactionIDLen :: nat where "MaxTransactionIDLen = 128"
definition MaxUserIDLen :: nat where "MaxUserIDLen = 256"
definition MaxCiphertextLen :: nat where "MaxCiphertextLen = 64 * 2 ^ 10"
definition MaxSessionIDLen :: nat where "MaxSessionIDLen = 64"
definition TimestampWindow :: int where "TimestampWindow = 5 * 60"

record sec_config =
  RateLimit :: int
  cfg_MaxBodySize :: int
  AllowlistMode :: string
  AllowlistPath :: string
  AllowlistTrustThreshold :: int
  BlocklistPath :: string
  BlocklistURL :: string
  BlocklistReload :: int

definition DefaultSecurityConfig :: sec_config where
  "DefaultSecurityConfig = \<lparr> RateLimit = 100, cfg_MaxBodySize = DefaultMaxBodySize, AllowlistMode = ''auto'', AllowlistPath = '''',
     AllowlistTrustThreshold = 0, BlocklistPath = '''', BlocklistURL = '''', BlocklistReload = 6 * 3600 * 1000000000 \<rparr>"

record security =
  sec_cfg :: sec_config
  sec_blocklist :: "string set"
  sec_allowlist :: "string set"
  sec_successCount :: "string \<Rightarrow> int"

text \<open>
  What the service reads: the file system, the answer to a GET of the blocklist's URL, the
  decoder of a JSON list of strings, \<open>url.Parse\<close> as far as its scheme and host name are used,
  and whether a host is an IP address that is loopback, private or link-local.
\<close>

record sec_world =
  files :: "string \<Rightarrow> string option"
  http_get :: "string \<Rightarrow> string option"
  unm_strings :: "string \<Rightarrow> string list option"
  url_parse :: "string \<Rightarrow> (string \<times> string) option"
  internal_ip :: "string \<Rightarrow> bool"

definition list_lines :: "env \<Rightarrow> string \<Rightarrow> string list" where
  "list_lines E data = filter (\<lambda>d. d \<noteq> '''' \<and> \<not> HasPrefix d ''#'') (map (\<lambda>l. TrimSpace (ToLower E l)) (SplitC (CHR 0x0A) data))"

definition norm_name :: "env \<Rightarrow> string \<Rightarrow> string" where
  "norm_name E d = ToLower E (TrimSpace d)"

definition isBlocklistURLAllowed :: "env \<Rightarrow> sec_world \<Rightarrow> string \<Rightarrow> bool" where
  "isBlocklistURLAllowed E W rawURL =
     (case url_parse W (TrimSpace rawURL) of
        None \<Rightarrow> False
      | Some (sch, hostname) \<Rightarrow>
          if sch \<noteq> ''https'' \<and> sch \<noteq> ''http'' then False
          else (let host = ToLower E hostname in
            if host = '''' \<or> host = ''localhost'' \<or> host = ''127.0.0.1'' \<or> host = ''::1'' then False
            else \<not> internal_ip W host))"

definition blocked_by_file :: "env \<Rightarrow> sec_world \<Rightarrow> sec_config \<Rightarrow> string list" where
  "blocked_by_file E W cfg =
     (if BlocklistPath cfg \<noteq> '''' then (case files W (BlocklistPath cfg) of None \<Rightarrow> [] | Some data \<Rightarrow> list_lines E data) else [])"

definition blocked_by_url :: "env \<Rightarrow> sec_world \<Rightarrow> sec_config \<Rightarrow> string list" where
  "blocked_by_url E W cfg =
     (if BlocklistURL cfg \<noteq> '''' \<and> isBlocklistURLAllowed E W (BlocklistURL cfg)
      then (case http_get W (BlocklistURL cfg) of
          None \<Rightarrow> []
        | Some body \<Rightarrow>
            (let data = take (2 ^ 20) body in
             case unm_strings W data of Some l \<Rightarrow> map (norm_name E) l | None \<Rightarrow> list_lines E data))
      else [])"

definition loadBlocklist :: "env \<Rightarrow> sec_world \<Rightarrow> security \<Rightarrow> security" where
  "loadBlocklist E W s = s\<lparr>sec_blocklist := set (blocked_by_file E W (sec_cfg s)) \<union> set (blocked_by_url E W (sec_cfg s))\<rparr>"

definition loadAllowlist :: "env \<Rightarrow> sec_world \<Rightarrow> security \<Rightarrow> security" where
  "loadAllowlist E W s =
     (let cfg = sec_cfg s in
      s\<lparr>sec_allowlist := (if AllowlistPath cfg \<noteq> '''' \<and> (AllowlistMode cfg = ''manual'' \<or> AllowlistMode cfg = ''auto'')
        then (case files W (AllowlistPath cfg) of None \<Rightarrow> {} | Some data \<Rightarrow> set (list_lines E data)) else {})\<rparr>)"

lemma load_cfg [simp]:
  "sec_cfg (loadAllowlist E W s) = sec_cfg s" "sec_cfg (loadBlocklist E W s) = sec_cfg s"
  "sec_successCount (loadAllowlist E W s) = sec_successCount s" "sec_successCount (loadBlocklist E W s) = sec_successCount s"
  "sec_blocklist (loadAllowlist E W s) = sec_blocklist s"
  by (simp_all add: loadAllowlist_def Let_def) (simp_all add: loadBlocklist_def)

lemma loadBlocklist_none:
  "BlocklistPath (sec_cfg s) = '''' \<Longrightarrow> BlocklistURL (sec_cfg s) = '''' \<Longrightarrow> sec_blocklist (loadBlocklist E W s) = {}"
  by (simp add: loadBlocklist_def blocked_by_file_def blocked_by_url_def)

text \<open>The goroutine that reloads the blocklist is a repetition of \<open>loadBlocklist\<close>.\<close>

definition NewSecurityService :: "env \<Rightarrow> sec_world \<Rightarrow> sec_config \<Rightarrow> security" where
  "NewSecurityService E W cfg =
     (let cfg' = (if AllowlistTrustThreshold cfg < 1 then cfg\<lparr>AllowlistTrustThreshold := 1\<rparr> else cfg) in
      loadAllowlist E W (loadBlocklist E W
        \<lparr> sec_cfg = cfg', sec_blocklist = {}, sec_allowlist = {}, sec_successCount = (\<lambda>_. 0) \<rparr>))"

definition MaxBodySize :: "security \<Rightarrow> int" where
  "MaxBodySize s = (if cfg_MaxBodySize (sec_cfg s) > 0 then cfg_MaxBodySize (sec_cfg s) else DefaultMaxBodySize)"

definition IsBlocked :: "env \<Rightarrow> security \<Rightarrow> string \<Rightarrow> bool" where
  "IsBlocked E s domain \<longleftrightarrow> norm_name E domain \<in> sec_blocklist s"

definition IsAllowed :: "env \<Rightarrow> security \<Rightarrow> string \<Rightarrow> bool" where
  "IsAllowed E s domain \<longleftrightarrow> AllowlistMode (sec_cfg s) = ''open'' \<or> norm_name E domain \<in> sec_allowlist s"

definition RecordSuccessfulTransaction :: "env \<Rightarrow> string \<Rightarrow> security \<Rightarrow> bool \<times> security" where
  "RecordSuccessfulTransaction E domain s =
     (if AllowlistMode (sec_cfg s) \<noteq> ''auto'' \<or> IsAllowed E s domain then (False, s)
      else (let d = norm_name E domain in
        if d = '''' then (False, s)
        else (let s' = s\<lparr>sec_successCount := (sec_successCount s)(d := sec_successCount s d + 1)\<rparr> in
              (sec_successCount s' d \<ge> AllowlistTrustThreshold (sec_cfg s), s'))))"

definition CheckAllowlistForTransaction :: "env \<Rightarrow> security \<Rightarrow> string \<Rightarrow> bool" where
  "CheckAllowlistForTransaction E s domain =
     (if AllowlistMode (sec_cfg s) = ''open'' then True
      else if IsAllowed E s domain then True
      else if AllowlistMode (sec_cfg s) = ''manual'' then False
      else True)"

datatype allow_err = ErrEmptyDomain | ErrOpenFile

text \<open>\<open>can_open\<close>: the file can be opened for appending. An error of the write is ignored.\<close>

definition AddToAllowlist :: "env \<Rightarrow> bool \<Rightarrow> string \<Rightarrow> security \<times> sec_world \<Rightarrow> allow_err option \<times> security \<times> sec_world" where
  "AddToAllowlist E can_open domain sw =
     (let (s, W) = sw; d = norm_name E domain; cfg = sec_cfg s in
      if d = '''' then (Some ErrEmptyDomain, s, W)
      else if d \<in> sec_allowlist s then (None, s, W)
      else (let s' = s\<lparr>sec_allowlist := insert d (sec_allowlist s)\<rparr> in
        if AllowlistPath cfg \<noteq> '''' \<and> AllowlistMode cfg = ''auto'' then
          if \<not> can_open then (Some ErrOpenFile, s', W)
          else (let old = (case files W (AllowlistPath cfg) of None \<Rightarrow> '''' | Some data \<Rightarrow> data) in
                (None, s', W\<lparr>files := (files W)(AllowlistPath cfg \<mapsto> old @ d @ [CHR 0x0A])\<rparr>))
        else (None, s', W)))"

section \<open>Limits of a transaction\<close>

datatype txn_err = TxnIDTooLong | TxnIDRequired | TooManyEvents | EventsRequired | EventIDTooLong nat | SenderTooLong nat
  | RecipientTooLong nat | CiphertextTooLong nat | SessionIDTooLong nat | TimestampOutOfWindow nat

definition check_event :: "int \<Rightarrow> nat \<Rightarrow> fed_txn_event \<Rightarrow> txn_err option" where
  "check_event now i e =
     (if length (xe_EventID e) > MaxEventIDLen then Some (EventIDTooLong i)
      else if length (xe_Sender e) > MaxUserIDLen then Some (SenderTooLong i)
      else if length (xe_Recipient e) > MaxUserIDLen then Some (RecipientTooLong i)
      else if length (xe_Ciphertext e) > MaxCiphertextLen * 2 then Some (CiphertextTooLong i)
      else if length (xe_SessionID e) > MaxSessionIDLen then Some (SessionIDTooLong i)
      else (let diff = wrap64 (now - xe_Timestamp e) in
        if diff < -60 \<or> diff > TimestampWindow + 60 then Some (TimestampOutOfWindow i) else None))"

fun check_events :: "int \<Rightarrow> nat \<Rightarrow> fed_txn_event list \<Rightarrow> txn_err option" where
  "check_events now i [] = None"
| "check_events now i (e # es) = (case check_event now i e of Some x \<Rightarrow> Some x | None \<Rightarrow> check_events now (i + 1) es)"

definition ValidateTransaction :: "transaction \<Rightarrow> int \<Rightarrow> txn_err option" where
  "ValidateTransaction req now =
     (if length (tx_TransactionID req) > MaxTransactionIDLen then Some TxnIDTooLong
      else if tx_TransactionID req = '''' then Some TxnIDRequired
      else if length (tx_Events req) > MaxEvents then Some TooManyEvents
      else if length (tx_Events req) = 0 then Some EventsRequired
      else check_events now 0 (tx_Events req))"

definition event_within :: "int \<Rightarrow> fed_txn_event \<Rightarrow> bool" where
  "event_within now e \<longleftrightarrow> length (xe_EventID e) \<le> 128 \<and> length (xe_Sender e) \<le> 256 \<and> length (xe_Recipient e) \<le> 256
     \<and> length (xe_Ciphertext e) \<le> 131072 \<and> length (xe_SessionID e) \<le> 64
     \<and> now - 360 \<le> xe_Timestamp e \<and> xe_Timestamp e \<le> now + 60"

lemma wrap64_window:
  assumes "0 \<le> now" "now < 2 ^ 62" "int64 t"
  shows "- 60 \<le> wrap64 (now - t) \<and> wrap64 (now - t) \<le> 360 \<longleftrightarrow> now - 360 \<le> t \<and> t \<le> now + 60"
proof (cases "now - t < 2 ^ 63")
  case True
  then have "wrap64 (now - t) = now - t" using assms by (intro wrap64_id) (auto simp: int64_def)
  then show ?thesis by auto
next
  case False
  then have "wrap64 (now - t) = now - t - 2 ^ 64"
    using assms wrap64_shift(1) [of "now - t"] wrap64_id [of "now - t - 2 ^ 64"] by (auto simp: int64_def)
  then show ?thesis using False assms by (auto simp: int64_def)
qed

lemma check_event_exact:
  assumes "0 \<le> now" "now < 2 ^ 62" "int64 (xe_Timestamp e)"
  shows "check_event now i e = None \<longleftrightarrow> event_within now e"
  using wrap64_window [OF assms]
  by (auto simp: check_event_def event_within_def Let_def MaxEventIDLen_def MaxUserIDLen_def MaxCiphertextLen_def MaxSessionIDLen_def TimestampWindow_def)

lemma check_events_exact:
  assumes "0 \<le> now" "now < 2 ^ 62"
  shows "\<forall>e \<in> set es. int64 (xe_Timestamp e) \<Longrightarrow> check_events now i es = None \<longleftrightarrow> (\<forall>e \<in> set es. event_within now e)"
proof (induction es arbitrary: i)
  case (Cons e es)
  then show ?case using check_event_exact [OF assms, of e i] by (auto split: option.split)
qed simp



section \<open>Trust\<close>

fun successes :: "env \<Rightarrow> string \<Rightarrow> nat \<Rightarrow> security \<Rightarrow> bool list" where
  "successes E domain 0 s = []"
| "successes E domain (Suc n) s =
     (case RecordSuccessfulTransaction E domain s of (add, s') \<Rightarrow> add # successes E domain n s')"

definition trusted_at :: "security \<Rightarrow> int \<Rightarrow> bool" where
  "trusted_at s k \<longleftrightarrow> AllowlistMode (sec_cfg s) = ''auto'' \<and> k \<ge> AllowlistTrustThreshold (sec_cfg s)"

lemma RecordSuccessfulTransaction_step:
  assumes "\<not> IsAllowed E s domain" "norm_name E domain \<noteq> ''''"
  obtains s' where "RecordSuccessfulTransaction E domain s = (trusted_at s (sec_successCount s (norm_name E domain) + 1), s')"
    "trusted_at s' = trusted_at s" "\<not> IsAllowed E s' domain"
    "AllowlistMode (sec_cfg s) = ''auto'' \<Longrightarrow> sec_successCount s' (norm_name E domain) = sec_successCount s (norm_name E domain) + 1"
    "AllowlistMode (sec_cfg s') = AllowlistMode (sec_cfg s)"
proof (cases "AllowlistMode (sec_cfg s) = ''auto''")
  case True
  then show ?thesis using assms
    by (intro that [of "s\<lparr>sec_successCount := (sec_successCount s)(norm_name E domain := sec_successCount s (norm_name E domain) + 1)\<rparr>"])
       (simp_all add: RecordSuccessfulTransaction_def IsAllowed_def trusted_at_def Let_def fun_eq_iff)
next
  case False
  then show ?thesis using assms by (intro that [of s]) (simp_all add: RecordSuccessfulTransaction_def trusted_at_def)
qed

lemma successes_trusted:
  assumes "\<not> IsAllowed E s domain" "norm_name E domain \<noteq> ''''"
  shows "successes E domain n s = map (\<lambda>k. trusted_at s (sec_successCount s (norm_name E domain) + 1 + int k)) [0..<n]"
  using assms
proof (induction n arbitrary: s)
  case (Suc n)
  from RecordSuccessfulTransaction_step [OF Suc.prems] obtain s' where
    r: "RecordSuccessfulTransaction E domain s = (trusted_at s (sec_successCount s (norm_name E domain) + 1), s')"
    "trusted_at s' = trusted_at s" "\<not> IsAllowed E s' domain"
    "AllowlistMode (sec_cfg s) = ''auto'' \<Longrightarrow> sec_successCount s' (norm_name E domain) = sec_successCount s (norm_name E domain) + 1"
    "AllowlistMode (sec_cfg s') = AllowlistMode (sec_cfg s)" by blast
  have "trusted_at s' (sec_successCount s' (norm_name E domain) + 1 + int k)
      = trusted_at s (sec_successCount s (norm_name E domain) + 1 + int (Suc k))" for k
    using r(2,4) by (cases "AllowlistMode (sec_cfg s) = ''auto''") (auto simp: trusted_at_def algebra_simps)
  then have "successes E domain n s' = map (\<lambda>k. trusted_at s (sec_successCount s (norm_name E domain) + 1 + int (Suc k))) [0..<n]"
    using Suc.IH [OF r(3) Suc.prems(2)] by simp
  then show ?case unfolding map_upt_Suc successes.simps r(1) by simp
qed simp

text \<open>Trust is earned: in \<open>auto\<close> mode a domain that is not on the allowlist and has no success
  yet is proposed for it by exactly the successes from the threshold on, and the threshold of
  a new service is at least one; in the other modes no success proposes it.\<close>

theorem trust_threshold:
  assumes "\<not> IsAllowed E s domain" and "norm_name E domain \<noteq> ''''" and "sec_successCount s (norm_name E domain) = 0"
  shows "successes E domain n s
      = map (\<lambda>k. AllowlistMode (sec_cfg s) = ''auto'' \<and> 1 + int k \<ge> AllowlistTrustThreshold (sec_cfg s)) [0..<n]
    \<and> AllowlistTrustThreshold (sec_cfg (NewSecurityService E W cfg)) \<ge> 1"
proof
  show "successes E domain n s
      = map (\<lambda>k. AllowlistMode (sec_cfg s) = ''auto'' \<and> 1 + int k \<ge> AllowlistTrustThreshold (sec_cfg s)) [0..<n]"
    using successes_trusted [OF assms(1,2)] assms(3) by (simp add: trusted_at_def)
  show "AllowlistTrustThreshold (sec_cfg (NewSecurityService E W cfg)) \<ge> 1"
    by (simp add: NewSecurityService_def Let_def)
qed

definition demo_world :: sec_world where
  "demo_world = \<lparr> files = Map.empty, http_get = (\<lambda>_. None), unm_strings = (\<lambda>_. None), url_parse = (\<lambda>_. None), internal_ip = (\<lambda>_. False) \<rparr>"

definition demo_sec :: security where
  "demo_sec = NewSecurityService demo_env demo_world
     (DefaultSecurityConfig\<lparr>AllowlistTrustThreshold := 2, AllowlistPath := ''allow.txt''\<rparr>)"

lemmas demo_sec_defs = demo_sec_def demo_world_def NewSecurityService_def DefaultSecurityConfig_def loadAllowlist_def loadBlocklist_none

lemma demo_norm: "norm_name demo_env ''B.org '' = ''b.org''" "norm_name demo_env ''b.org'' = ''b.org''"
  using demo_names by (simp_all add: norm_name_def)

lemma demo_sec_fields: "sec_allowlist demo_sec = {}" "sec_blocklist demo_sec = {}" "sec_successCount demo_sec = (\<lambda>_. 0)"
  "AllowlistMode (sec_cfg demo_sec) = ''auto''" "AllowlistTrustThreshold (sec_cfg demo_sec) = 2" "AllowlistPath (sec_cfg demo_sec) = ''allow.txt''"
  by (simp_all add: demo_sec_defs)

theorem trust_threshold_witness: "successes demo_env ''B.org '' 3 demo_sec = [False, True, True]"
proof -
  have "\<not> IsAllowed demo_env demo_sec ''B.org ''" by (simp add: IsAllowed_def demo_sec_fields)
  from trust_threshold [OF this, of 3 demo_world DefaultSecurityConfig] show ?thesis
    by (simp add: demo_norm demo_sec_fields upt_rec)
qed

lemma SplitC_append_sep: "SplitC c (x @ c # y) = SplitC c x @ SplitC c y"
  by (induction x) (auto split: list.splits)

lemma list_lines_append:
  assumes "old = '''' \<or> last old = CHR 0x0A" "CHR 0x0A \<notin> set d" "TrimSpace (ToLower E d) = d" "d \<noteq> ''''" "\<not> HasPrefix d ''#''"
  shows "set (list_lines E (old @ d @ [CHR 0x0A])) = insert d (set (list_lines E old))"
proof (cases "old = ''''")
  case True
  have "SplitC (CHR 0x0A) (d @ [CHR 0x0A]) = [d, []]" using SplitC_append [OF assms(2), of "[]"] by simp
  then show ?thesis using True assms(3-5) by (simp add: list_lines_def)
next
  case False
  then obtain x where x: "old = x @ [CHR 0x0A]" using assms(1) by (metis append_butlast_last_id)
  have "SplitC (CHR 0x0A) (old @ d @ [CHR 0x0A]) = SplitC (CHR 0x0A) x @ [d, []]" "SplitC (CHR 0x0A) old = SplitC (CHR 0x0A) x @ [[]]"
    using SplitC_append_sep [of "CHR 0x0A" x "d @ [CHR 0x0A]"] SplitC_append_sep [of "CHR 0x0A" x "[]"] SplitC_append [OF assms(2), of "[]"]
    by (simp_all add: x)
  then show ?thesis using assms(3-5) by (simp add: list_lines_def)
qed

lemma visible_ascii: "list_all visible s \<Longrightarrow> is_ascii s"
  by (auto simp: list_all_iff is_ascii_def visible_def)

lemma visible_lower: "visible c \<Longrightarrow> visible (ascii_lower c)"
  by (auto simp: visible_def ascii_lower_def Let_def)

lemma norm_name_stable:
  assumes "list_all visible (TrimSpace domain)"
  shows "TrimSpace (ToLower E (norm_name E domain)) = norm_name E domain" "list_all visible (norm_name E domain)"
proof -
  have a: "is_ascii (TrimSpace domain)" by (rule visible_ascii [OF assms])
  then show v: "list_all visible (norm_name E domain)"
    using assms by (simp add: norm_name_def ToLower_def list_all_iff visible_lower)
  show "TrimSpace (ToLower E (norm_name E domain)) = norm_name E domain"
    using TrimSpace_all_visible [OF v] ToLower_ascii_idem [OF a] by (simp add: norm_name_def)
qed

text \<open>What \<open>AddToAllowlist\<close> leaves, when the domain is new and the list is kept in a file.\<close>

lemma AddToAllowlist_new:
  assumes "norm_name E domain \<noteq> ''''" "norm_name E domain \<notin> sec_allowlist s" "AllowlistPath (sec_cfg s) = p" "p \<noteq> ''''" "AllowlistMode (sec_cfg s) = ''auto''"
  shows "AddToAllowlist E True domain (s, W) = (None, s\<lparr>sec_allowlist := insert (norm_name E domain) (sec_allowlist s)\<rparr>,
    W\<lparr>files := (files W)(p \<mapsto> (case files W p of None \<Rightarrow> '''' | Some data \<Rightarrow> data) @ norm_name E domain @ [CHR 0x0A])\<rparr>)"
  using assms by (simp add: AddToAllowlist_def Let_def)

definition allow_file :: "sec_world \<Rightarrow> string \<Rightarrow> string" where
  "allow_file W p = (case files W p of None \<Rightarrow> '''' | Some data \<Rightarrow> data)"

lemma loadAllowlist_file:
  "AllowlistPath (sec_cfg s) \<noteq> '''' \<Longrightarrow> AllowlistMode (sec_cfg s) = ''auto'' \<Longrightarrow>
    sec_allowlist (loadAllowlist E W s) = set (list_lines E (allow_file W (AllowlistPath (sec_cfg s))))"
  by (auto simp: loadAllowlist_def allow_file_def list_lines_def split: option.split)

text \<open>The allowlist survives a restart: once a new domain has been added in \<open>auto\<close> mode, a
  service that loads the file again allows it under every spelling with the same
  normal form and allows nothing else that it did not allow before, provided that the file
  was empty or ended in a line feed (else the new domain runs into its last line).\<close>

theorem allowlist_survives_restart:
  assumes "AllowlistMode cfg = ''auto''" "AllowlistPath cfg = p" "p \<noteq> ''''" "sec_cfg s = cfg"
    and "norm_name E domain \<noteq> ''''" "norm_name E domain \<notin> sec_allowlist s"
    and "list_all visible (TrimSpace domain)" "\<not> HasPrefix (norm_name E domain) ''#''"
    and "allow_file W p = '''' \<or> last (allow_file W p) = CHR 0x0A"
    and "AddToAllowlist E True domain (s, W) = (r, s', W')"
  shows "r = None \<and> IsAllowed E s' domain
    \<and> (\<forall>d. IsAllowed E (NewSecurityService E W' cfg) d \<longleftrightarrow> norm_name E d = norm_name E domain \<or> IsAllowed E (NewSecurityService E W cfg) d)"
proof -
  let ?d = "norm_name E domain"
  have w: "r = None" "s' = s\<lparr>sec_allowlist := insert ?d (sec_allowlist s)\<rparr>" "allow_file W' p = allow_file W p @ ?d @ [CHR 0x0A]"
    using AddToAllowlist_new [OF assms(5,6), of p W] assms by (auto simp: allow_file_def)
  have v: "CHR 0x0A \<notin> set ?d" using norm_name_stable(2) [OF assms(7), of E] by (auto simp: list_all_iff visible_def)
  have "set (list_lines E (allow_file W' p)) = insert ?d (set (list_lines E (allow_file W p)))"
    unfolding w(3) by (rule list_lines_append [OF assms(9) v norm_name_stable(1) [OF assms(7)] assms(5,8)])
  moreover have "sec_allowlist (NewSecurityService E V cfg) = set (list_lines E (allow_file V p))" for V
    using assms(1-3) unfolding NewSecurityService_def Let_def by (subst loadAllowlist_file) auto
  moreover have "AllowlistMode (sec_cfg (NewSecurityService E V cfg)) = ''auto''" for V
    using assms(1) by (simp add: NewSecurityService_def Let_def)
  ultimately show ?thesis using w(1,2) by (auto simp: IsAllowed_def)
qed

theorem allowlist_survives_restart_witness:
  "\<exists>s' W'. AddToAllowlist demo_env True ''B.org '' (demo_sec, demo_world) = (None, s', W')
    \<and> IsAllowed demo_env (NewSecurityService demo_env W' (sec_cfg demo_sec)) ''b.org''"
proof -
  obtain r s' W' where a: "AddToAllowlist demo_env True ''B.org '' (demo_sec, demo_world) = (r, s', W')" by (metis prod_cases3)
  have "list_all visible (TrimSpace ''B.org '')" by code_simp
  moreover have "allow_file demo_world ''allow.txt'' = ''''" by (simp add: allow_file_def demo_world_def)
  ultimately have "r = None \<and> IsAllowed demo_env s' ''B.org ''
    \<and> (\<forall>d. IsAllowed demo_env (NewSecurityService demo_env W' (sec_cfg demo_sec)) d \<longleftrightarrow>
        norm_name demo_env d = norm_name demo_env ''B.org '' \<or> IsAllowed demo_env (NewSecurityService demo_env demo_world (sec_cfg demo_sec)) d)"
    by (intro allowlist_survives_restart [OF _ _ _ refl _ _ _ _ _ a, of "''allow.txt''"]) (simp_all add: demo_sec_fields demo_norm)
  with a show ?thesis by (simp add: demo_norm)
qed

text \<open>The line feed matters: a file that was edited by hand and lacks the last one loses both names.\<close>

lemma allowlist_run_together:
  "list_lines demo_env (''c.org'' @ ''b.org'' @ [CHR 0x0A]) = [''c.orgb.org'']"
proof -
  have "SplitC (CHR 0x0A) (''c.orgb.org'' @ [CHR 0x0A]) = [''c.orgb.org'', []]" by simp
  moreover have "TrimSpace (ToLower demo_env ''c.orgb.org'') = ''c.orgb.org''" by code_simp
  ultimately show ?thesis by (simp add: list_lines_def)
qed

end
