(* ===== verification/Fed_Handlers.thy ===== *)
theory Fed_Handlers
  imports Fed_Security Stream Relay
begin

text \<open>
  The HTTP handlers of the federation API (\<open>src/server/internal/api/handlers_federation.go\<close>) and
  the list of known servers (\<open>src/server/internal/api/peer_resolver.go\<close>). A node has a database
  session, a federation client with its network, the admission rules, the files they use and
  a hub; a handler is a program on the node that ends in an answer. Logging, metrics and alerts
  are left out. \<open>Panicked\<close> is a handler that panics, which the recovery middleware turns into a
  status 500.
\<close>

section \<open>Nodes and answers\<close>

datatype 'a answer = Fail nat string | Done 'a | Panicked

record node =
  nd_sess :: sess
  nd_net :: netst
  nd_sec :: "security option"
  nd_world :: sec_world
  nd_can_open :: bool
  nd_hub :: "hub option"
  nd_published :: "redis_msg list"
  nd_servers :: "string \<times> string list \<times> int"

record fed_handler =
  fh_keydir :: keydir
  fh_auth :: "auth option"
  fh_keys :: server_keys
  fh_domain :: string
  fh_maxBody :: int
  fh_client :: "fed_client option"
  fh_mainOnly :: string
  fh_db :: bool

record fed_req =
  fr_srv :: srv_req
  fr_readable :: bool

definition on_sess :: "(sess, 'a) state \<Rightarrow> (node, 'a) state" where
  "on_sess m = State (\<lambda>n. case run_state m (nd_sess n) of (x, s) \<Rightarrow> (x, n\<lparr>nd_sess := s\<rparr>))"

text \<open>The network program sees the clock of the session.\<close>

definition on_net :: "(netst, 'a) state \<Rightarrow> (node, 'a) state" where
  "on_net m = State (\<lambda>n. case run_state m ((nd_net n)\<lparr>ns_now := go_now (nd_sess n)\<rparr>) of (x, s) \<Rightarrow> (x, n\<lparr>nd_net := s\<rparr>))"

definition origin_of :: "fed_req \<Rightarrow> string" where
  "origin_of r = sr_header (fr_srv r) ''X-Server-Origin''"

text \<open>The two checks every handler makes of a signed request: the key of the origin, the signature.\<close>

definition with_origin :: "env \<Rightarrow> net \<Rightarrow> string \<Rightarrow> fed_req \<Rightarrow> string \<Rightarrow> (node, 'a answer) state \<Rightarrow> (node, 'a answer) state" where
  "with_origin E N origin r body k = do {
     x \<leftarrow> on_net (FetchServerKey N origin);
     case x of
       Inl e \<Rightarrow> ret (if e = FedPanic then Panicked else Fail 401 ''invalid_origin'')
     | Inr originKey \<Rightarrow> do {
         n \<leftarrow> State_Monad.get;
         (case VerifyRequest E (go_now (nd_sess n)) (fr_srv r) body originKey of
            Some _ \<Rightarrow> ret (Fail 401 ''invalid_signature'')
          | None \<Rightarrow> k) } }"

definition is_blocked :: "env \<Rightarrow> node \<Rightarrow> string \<Rightarrow> bool" where
  "is_blocked E n origin = (case nd_sec n of None \<Rightarrow> False | Some s \<Rightarrow> IsBlocked E s origin)"

definition body_limit :: "fed_handler \<Rightarrow> nat" where
  "body_limit H = nat (if fh_maxBody H \<le> 0 then DefaultMaxBodySize else fh_maxBody H)"

section \<open>Peers\<close>

text \<open>\<open>INSERT INTO federation_peers ... ON CONFLICT DO UPDATE\<close>, with or without \<open>allowed = TRUE\<close>.\<close>

definition upsert_peer :: "string \<Rightarrow> bool \<Rightarrow> tables \<Rightarrow> (db_err + unit) \<times> tables" where
  "upsert_peer d allow t =
     (let ep = ''https://'' @ d @ ''/federation/v1'' in
      (Inr (), t\<lparr>tb_peers :=
         (if d \<in> fp_domain ` set (tb_peers t)
          then map (\<lambda>p. if fp_domain p = d then p\<lparr>fp_endpoint := ep, fp_allowed := (allow \<or> fp_allowed p)\<rparr> else p) (tb_peers t)
          else tb_peers t @ [\<lparr> fp_domain = d, fp_endpoint = ep, fp_allowed = True \<rparr>])\<rparr>))"

definition wellKnown :: "fed_handler \<Rightarrow> bool \<Rightarrow> string \<Rightarrow> string \<times> string" where
  "wellKnown H tls host =
     (let sch = (if \<not> tls \<and> HasPrefix host ''localhost'' then ''http'' else ''https'') in
      (sch @ ''://'' @ host @ ''/federation/v1'', PublicKeyBase64 (fh_keys H)))"

text \<open>The loop over the rows of \<open>federationServers\<close>: \<open>seen\<close> and \<open>servers\<close> hold the same names.
  \<open>collate\<close> orders the rows by domain in the collation of the database.\<close>

definition federationServers :: "env \<Rightarrow> (peer_row list \<Rightarrow> peer_row list) \<Rightarrow> fed_handler \<Rightarrow> (node, string list answer) state" where
  "federationServers E collate H =
     (let self = ToLower E (fh_domain H) in
      if \<not> fh_db H then ret (Done [self])
      else do {
        q \<leftarrow> on_sess (query (\<lambda>t. collate (filter fp_allowed (tb_peers t))));
        ret (Done (case q of
          Inl _ \<Rightarrow> [self]
        | Inr (rows, _) \<Rightarrow>
            foldl (\<lambda>servers p. let d = ToLower E (TrimSpace (fp_domain p)) in
              if d \<noteq> '''' \<and> d \<noteq> self \<and> d \<notin> set servers then servers @ [d] else servers) [self] rows)) })"

definition register_handler :: "env \<Rightarrow> net \<Rightarrow> fed_handler \<Rightarrow> fed_req \<Rightarrow> (node, unit answer) state" where
  "register_handler E N H r =
     (if sr_method (fr_srv r) \<noteq> ''POST'' then ret (Fail 405 ''method_not_allowed'')
      else if origin_of r = '''' then ret (Fail 400 ''invalid_request'')
      else (let origin = ToLower E (TrimSpace (origin_of r)) in
        if origin = ToLower E (fh_domain H) then ret (Fail 400 ''invalid_request'')
        else with_origin E N origin r (take 256 (sr_body (fr_srv r))) (do {
          _ \<leftarrow> (if fh_db H then on_sess (stmt (upsert_peer origin True)) else ret (Inr ()));
          ret (Done ()) })))"

section \<open>Keys and users\<close>

definition unescaped :: "string \<Rightarrow> string" where
  "unescaped s = (case PathUnescape s of None \<Rightarrow> s | Some u \<Rightarrow> u)"

definition getKeys :: "env \<Rightarrow> fed_handler \<Rightarrow> string \<Rightarrow> string \<Rightarrow> (node, key_bundle answer) state" where
  "getKeys E H userID deviceID =
     (if userID = '''' \<or> deviceID = '''' then ret (Fail 400 ''invalid_request'')
      else do {
        b \<leftarrow> on_sess (GetBundle E (fh_keydir H) (unescaped userID) (unescaped deviceID));
        ret (case b of Inl _ \<Rightarrow> Fail 404 ''not_found'' | Inr bundle' \<Rightarrow> Done bundle') })"

definition getDevices :: "env \<Rightarrow> fed_handler \<Rightarrow> string \<Rightarrow> (node, (string \<times> int option) list answer) state" where
  "getDevices E H userID0 =
     (if userID0 = '''' then ret (Fail 400 ''invalid_request'')
      else (let userID = unescaped userID0;
                foreign = (case Index userID '':'' of
                    None \<Rightarrow> False
                  | Some idx \<Rightarrow> ToLower E (TrimSpace (drop (idx + 1) userID)) \<noteq> ToLower E (fh_domain H)) in
        if foreign then ret (Fail 403 ''wrong_domain'')
        else do {
          d \<leftarrow> on_sess (ListDevicesForUser E (fh_keydir H) userID);
          ret (case d of
            Inl _ \<Rightarrow> Fail 404 ''not_found''
          | Inr ids \<Rightarrow> Done (map (\<lambda>i. (i, map_option UUIDToSignalDeviceID (uuid_parse E i))) ids)) }))"

record auth_verify_req =
  aq_UserID :: string
  aq_Password :: string
  aq_DeviceID :: string
  aq_RequestKeysRestore :: bool
  aq_Keys :: "(string \<times> (string \<times> string \<times> int) \<times> (string \<times> int) list) option"

definition login_of :: "string \<Rightarrow> uuid \<Rightarrow> auth_verify_req \<Rightarrow> login_input" where
  "login_of username dev req =
     (let base = \<lparr> li_Username = username, li_Password = aq_Password req, li_DeviceID = dev,
        li_RequestKeysRestore = aq_RequestKeysRestore req, li_IdentityKey = [], li_SignedPrekey = [], li_SignedPrekeySig = [],
        li_SignedPrekeyID = 0, li_OneTimePrekeys = [] \<rparr> in
      case aq_Keys req of
        None \<Rightarrow> base
      | Some (ik, (spk, sig, kid), otpks) \<Rightarrow> base\<lparr>li_IdentityKey := b64_bytes ik, li_SignedPrekey := b64_bytes spk,
          li_SignedPrekeySig := b64_bytes sig, li_SignedPrekeyID := kid,
          li_OneTimePrekeys := map (\<lambda>(k, i). \<lparr> pk_Key = b64_bytes k, pk_KeyID = i \<rparr>) otpks\<rparr>)"

text \<open>\<open>unm\<close> is \<open>json.Unmarshal\<close> into an \<open>authVerifyRequest\<close>.\<close>

definition authVerify_body :: "env \<Rightarrow> (string \<Rightarrow> auth_verify_req option) \<Rightarrow> fed_handler \<Rightarrow> auth \<Rightarrow> string \<Rightarrow> (node, login_result answer) state" where
  "authVerify_body E unm H S body =
     (case unm body of
        None \<Rightarrow> ret (Fail 400 ''invalid_request'')
      | Some req \<Rightarrow>
          (let u = TrimSpace (aq_UserID req) in
           if u = '''' \<or> \<not> HasPrefix u ''@'' then ret (Fail 400 ''invalid_request'')
           else (case SplitN2 (CHR '':'') (drop 1 u) of
             [p0, p1] \<Rightarrow>
               (let username = TrimSpace p0; domain = ToLower E (TrimSpace p1) in
                if domain \<noteq> fh_domain H then ret (Fail 403 ''wrong_domain'')
                else (case uuid_parse E (aq_DeviceID req) of
                  None \<Rightarrow> ret (Fail 400 ''invalid_request'')
                | Some dev \<Rightarrow> do {
                    l \<leftarrow> on_sess (Login E S (login_of username dev req));
                    ret (case l of
                      Inl e \<Rightarrow> if e = ErrInvalidCredentials then Fail 401 ''invalid_credentials'' else Fail 500 ''internal_error''
                    | Inr res \<Rightarrow> Done res) }))
           | _ \<Rightarrow> ret (Fail 400 ''invalid_request''))))"

definition authVerify :: "env \<Rightarrow> net \<Rightarrow> (string \<Rightarrow> auth_verify_req option) \<Rightarrow> fed_handler \<Rightarrow> fed_req \<Rightarrow> (node, login_result answer) state" where
  "authVerify E N unm H r =
     (case fh_auth H of
        None \<Rightarrow> ret (Fail 500 ''internal_error'')
      | Some S \<Rightarrow>
          if origin_of r = '''' then ret (Fail 400 ''invalid_request'')
          else if \<not> fr_readable r then ret (Fail 400 ''invalid_request'')
          else do {
            n \<leftarrow> State_Monad.get;
            let body = take (body_limit H) (sr_body (fr_srv r));
            if is_blocked E n (origin_of r) then ret (Fail 403 ''blocked'')
            else with_origin E N (origin_of r) r body (authVerify_body E unm H S body) })"

text \<open>\<open>username\<close> is the query parameter; a NULL id is not possible.\<close>

definition usersLookup :: "env \<Rightarrow> net \<Rightarrow> fed_handler \<Rightarrow> string \<Rightarrow> fed_req \<Rightarrow> (node, (string \<times> string) answer) state" where
  "usersLookup E N H query_username r =
     (if sr_method (fr_srv r) \<noteq> ''GET'' then ret (Fail 405 ''method_not_allowed'')
      else (let username = TrimSpace query_username in
        if username = '''' then ret (Fail 400 ''invalid_request'')
        else if origin_of r = '''' then ret (Fail 400 ''invalid_request'')
        else do {
          n \<leftarrow> State_Monad.get;
          if is_blocked E n (origin_of r) then ret (Fail 403 ''blocked'')
          else with_origin E N (origin_of r) r '''' (
            if \<not> fh_db H then ret (Fail 500 ''internal_error'')
            else do {
              q \<leftarrow> on_sess (query_row (\<lambda>t. map (\<lambda>u. (u_id u, u_domain u))
                     (filter (\<lambda>u. u_username u = username \<and> u_domain u = fh_domain H) (tb_users t))));
              ret (case q of
                Inl _ \<Rightarrow> Fail 404 ''not_found''
              | Inr (i, d) \<Rightarrow> if i = 0 then Fail 404 ''not_found'' else Done (''@'' @ username @ '':'' @ d, d)) }) }))"

section \<open>Transactions\<close>

datatype txn_answer = Accepted "string list" "string list" | Relayed

definition fed_event_of :: "fed_txn_event \<Rightarrow> fed_event" where
  "fed_event_of e = \<lparr> fe_EventID = xe_EventID e, fe_Type = xe_Type e, fe_Sender = xe_Sender e, fe_Recipient = xe_Recipient e,
     fe_SenderDevice = xe_Sender e, fe_Ciphertext = Some (b64_bytes (xe_Ciphertext e)), fe_SessionID = xe_SessionID e,
     fe_Timestamp = xe_Timestamp e \<rparr>"

text \<open>Trust after a valid transaction of a domain that is not allowed yet.\<close>

definition record_trust :: "env \<Rightarrow> string \<Rightarrow> (node, unit) state" where
  "record_trust E origin = State (\<lambda>n. ((),
     case nd_sec n of
       None \<Rightarrow> n
     | Some s \<Rightarrow>
         if IsAllowed E s origin then n
         else (case RecordSuccessfulTransaction E origin s of
           (add, s1) \<Rightarrow>
             if add then (case AddToAllowlist E (nd_can_open n) origin (s1, nd_world n) of
               (_, s2, W) \<Rightarrow> n\<lparr>nd_sec := Some s2, nd_world := W\<rparr>)
             else n\<lparr>nd_sec := Some s1\<rparr>)))"

text \<open>The notifications of the loop over \<open>accepted\<close>: the \<open>i\<close>-th accepted id goes to the recipient of
  the \<open>i\<close>-th event.\<close>

definition notify_pairs :: "fed_event list \<Rightarrow> string list \<Rightarrow> (string \<times> string) list" where
  "notify_pairs events accepted = zip (map fe_Recipient events) accepted"

fun notify_all :: "(string \<times> string) list \<Rightarrow> node \<Rightarrow> node" where
  "notify_all [] n = n"
| "notify_all ((rcp, eid) # ps) n =
     (case nd_hub n of
        None \<Rightarrow> n
      | Some h \<Rightarrow> (case Notify rcp eid h of
          (ms, h') \<Rightarrow> notify_all ps (n\<lparr>nd_hub := Some h', nd_published := nd_published n @ ms\<rparr>)))"

definition deliver_txn :: "env \<Rightarrow> string \<Rightarrow> transaction \<Rightarrow> (node, txn_answer answer) state" where
  "deliver_txn E origin req =
     (let events = map fed_event_of (tx_Events req) in
      do {
        _ \<leftarrow> record_trust E origin;
        a \<leftarrow> on_sess (AcceptTransaction events);
        _ \<leftarrow> State (\<lambda>n. ((), notify_all (notify_pairs events (fst a)) n));
        ret (Done (Accepted (fst a) (snd a))) })"

definition relay_txn :: "env \<Rightarrow> net \<Rightarrow> fed_handler \<Rightarrow> transaction \<Rightarrow> (node, txn_answer answer) state" where
  "relay_txn E N H req =
     (case fh_client H of
        None \<Rightarrow> ret (Fail 403 ''wrong_destination'')
      | Some c \<Rightarrow> do {
          x \<leftarrow> on_net (ForwardTransaction E N c (tx_Destination req) req);
          ret (case x of
            Inl e \<Rightarrow> if e = FedPanic then Panicked else Fail 502 ''relay_failed''
          | Inr _ \<Rightarrow> Done Relayed) })"

definition transaction_body :: "env \<Rightarrow> net \<Rightarrow> fed_handler \<Rightarrow> string \<Rightarrow> string \<Rightarrow> (node, txn_answer answer) state" where
  "transaction_body E N H origin body =
     (case unm_txn N body of
        None \<Rightarrow> ret (Fail 400 ''invalid_request'')
      | Some req \<Rightarrow> do {
          n \<leftarrow> State_Monad.get;
          if nd_sec n \<noteq> None \<and> ValidateTransaction req (unix (go_now (nd_sess n))) \<noteq> None then ret (Fail 400 ''invalid_request'')
          else do {
            _ \<leftarrow> (if fh_db H then on_sess (stmt (upsert_peer (ToLower E (TrimSpace origin)) False)) else ret (Inr ()));
            if tx_Destination req \<noteq> fh_domain H then relay_txn E N H req
            else deliver_txn E origin req } })"

definition transaction_handler :: "env \<Rightarrow> net \<Rightarrow> fed_handler \<Rightarrow> fed_req \<Rightarrow> (node, txn_answer answer) state" where
  "transaction_handler E N H r =
     (let origin = origin_of r in
      if origin = '''' then ret (Fail 400 ''invalid_request'')
      else if fh_mainOnly H \<noteq> '''' \<and> origin \<noteq> fh_mainOnly H then ret (Fail 403 ''main_only'')
      else if \<not> fr_readable r then ret (Fail 400 ''invalid_request'')
      else do {
        n \<leftarrow> State_Monad.get;
        let body = take (body_limit H) (sr_body (fr_srv r));
        if is_blocked E n origin then ret (Fail 403 ''blocked'')
        else if (case nd_sec n of None \<Rightarrow> False | Some s \<Rightarrow> \<not> CheckAllowlistForTransaction E s origin) then ret (Fail 403 ''not_allowed'')
        else with_origin E N origin r body (transaction_body E N H origin body) })"

section \<open>Known servers\<close>

text \<open>
  \<open>getFederationPeers\<close>: the configured peers, those of the database and those of the discovery
  hub, whose list is kept for an hour. The result is the set of keys of the Go map.
\<close>

definition serversCacheTTL :: int where "serversCacheTTL = 3600 * 1000000000"

definition usable_peers :: "string \<Rightarrow> string list \<Rightarrow> string set" where
  "usable_peers myLower ds = set (filter (\<lambda>d. d \<noteq> '''' \<and> d \<noteq> myLower) ds)"

definition hub_peers :: "env \<Rightarrow> net \<Rightarrow> string \<Rightarrow> string \<Rightarrow> bool \<Rightarrow> (node, fed_err + string set) state" where
  "hub_peers E N hub_name myLower db = do {
     n \<leftarrow> State_Monad.get;
     case nd_servers n of (cached, lst, expiry) \<Rightarrow>
     if cached = hub_name \<and> go_now (nd_sess n) < expiry then ret (Inr (set (filter (\<lambda>s. s \<noteq> myLower) lst)))
     else do {
       x \<leftarrow> on_net (FetchServersList E N hub_name);
       case x of
         Inl e \<Rightarrow> ret (if e = FedPanic then Inl FedPanic else Inr {})
       | Inr found \<Rightarrow> do {
           n1 \<leftarrow> State_Monad.get;
           _ \<leftarrow> State_Monad.set (n1\<lparr>nd_servers := (hub_name, found, go_now (nd_sess n1) + serversCacheTTL)\<rparr>);
           _ \<leftarrow> (if db then mfold (\<lambda>_ s. on_sess (stmt (upsert_peer s False))) (Inr ()) (filter (\<lambda>s. s \<noteq> myLower) found) else ret (Inr ()));
           ret (Inr (set (filter (\<lambda>s. s \<noteq> myLower) found))) } } }"

definition getFederationPeers :: "env \<Rightarrow> net \<Rightarrow> bool \<Rightarrow> bool \<Rightarrow> string list \<Rightarrow> string \<Rightarrow> string \<Rightarrow> (node, fed_err + string set) state" where
  "getFederationPeers E N db has_client fedPeers discoveryHub myDomain =
     (let myLower = ToLower E (TrimSpace myDomain); hub_name = ToLower E (TrimSpace discoveryHub);
          configured = usable_peers myLower (map (\<lambda>p. ToLower E (TrimSpace p)) fedPeers) in
      do {
        stored \<leftarrow> (if db then do {
            q \<leftarrow> on_sess (query (\<lambda>t. filter (\<lambda>p. fp_allowed p \<and> fp_domain p \<noteq> myDomain) (tb_peers t)));
            ret (case q of
              Inl _ \<Rightarrow> {}
            | Inr (rows, _) \<Rightarrow> usable_peers myLower (map (\<lambda>p. ToLower E (TrimSpace (fp_domain p))) rows)) }
          else ret {});
        if hub_name \<noteq> '''' \<and> hub_name \<noteq> myLower \<and> has_client then do {
          x \<leftarrow> hub_peers E N hub_name myLower db;
          ret (case x of Inl e \<Rightarrow> Inl e | Inr found \<Rightarrow> Inr (configured \<union> stored \<union> found)) }
        else ret (Inr (configured \<union> stored)) })"

section \<open>Rules\<close>

lemma run_on_sess: "run_state (on_sess m) n = (case run_state m (nd_sess n) of (x, s) \<Rightarrow> (x, n\<lparr>nd_sess := s\<rparr>))"
  by (simp add: on_sess_def)

lemma run_on_net:
  "run_state (on_net m) n = (case run_state m ((nd_net n)\<lparr>ns_now := go_now (nd_sess n)\<rparr>) of (x, s) \<Rightarrow> (x, n\<lparr>nd_net := s\<rparr>))"
  by (simp add: on_net_def)

definition net_of :: "node \<Rightarrow> netst" where
  "net_of n = (nd_net n)\<lparr>ns_now := go_now (nd_sess n)\<rparr>"

text \<open>What a handler has checked when the rest of it runs.\<close>

definition origin_ok :: "env \<Rightarrow> net \<Rightarrow> string \<Rightarrow> fed_req \<Rightarrow> string \<Rightarrow> node \<Rightarrow> node \<Rightarrow> bool" where
  "origin_ok E N origin r body n n1 \<longleftrightarrow> (\<exists>key net1. run_state (FetchServerKey N origin) (net_of n) = (Inr key, net1)
     \<and> VerifyRequest E (go_now (nd_sess n)) (fr_srv r) body key = None \<and> n1 = n\<lparr>nd_net := net1\<rparr>)"

lemma run_with_origin:
  assumes "run_state (with_origin E N origin r body k) n = (a, n')"
  obtains n1 where "origin_ok E N origin r body n n1" "run_state k n1 = (a, n')"
  | net1 where "n' = n\<lparr>nd_net := net1\<rparr>" "a = Panicked \<or> a = Fail 401 ''invalid_origin'' \<or> a = Fail 401 ''invalid_signature''"
proof -
  obtain x net1 where x: "run_state (FetchServerKey N origin) (net_of n) = (x, net1)" by fastforce
  then have f: "run_state (on_net (FetchServerKey N origin)) n = (x, n\<lparr>nd_net := net1\<rparr>)" by (simp add: run_on_net net_of_def)
  show ?thesis
  proof (cases x)
    case (Inl e)
    with assms f show ?thesis by (intro that(2)) (auto simp: with_origin_def split: if_splits)
  next
    case (Inr key)
    show ?thesis
    proof (cases "VerifyRequest E (go_now (nd_sess n)) (fr_srv r) body key")
      case None
      with assms f x Inr show ?thesis by (intro that(1)) (auto simp: with_origin_def origin_ok_def)
    next
      case (Some e)
      with assms f Inr show ?thesis by (intro that(2)) (auto simp: with_origin_def)
    qed
  qed
qed

lemma with_origin_ok:
  "origin_ok E N origin r body n n1 \<Longrightarrow> run_state (with_origin E N origin r body k) n = run_state k n1"
  by (auto simp: origin_ok_def with_origin_def run_on_net net_of_def)

lemma notify_all_sess [simp]: "nd_sess (notify_all ps n) = nd_sess n"
  by (induction ps n rule: notify_all.induct) (auto split: option.split prod.split)

lemma record_trust_sess: "run_state (record_trust E origin) n = (u, n1) \<Longrightarrow> nd_sess n1 = nd_sess n"
  by (auto simp: record_trust_def split: option.splits if_splits prod.splits)

lemma run_deliver_txn:
  assumes "run_state (deliver_txn E origin req) n = (a, n')"
  obtains acc rej where "a = Done (Accepted acc rej)"
    "run_state (AcceptTransaction (map fed_event_of (tx_Events req))) (nd_sess n) = ((acc, rej), nd_sess n')"
proof -
  obtain n1 where u: "run_state (record_trust E origin) n = ((), n1)" by (simp add: record_trust_def)
  obtain acc rej s where "run_state (AcceptTransaction (map fed_event_of (tx_Events req))) (nd_sess n) = ((acc, rej), s)" by (metis prod.exhaust)
  with that assms u record_trust_sess [OF u] show ?thesis by (auto simp: deliver_txn_def run_on_sess Let_def)
qed

lemma relay_txn_sess: "run_state (relay_txn E N H req) n = (a, n') \<Longrightarrow> nd_sess n' = nd_sess n \<and> (\<forall>acc rej. a \<noteq> Done (Accepted acc rej))"
  by (auto simp: relay_txn_def run_on_net split: option.splits prod.splits sum.splits if_splits)

lemma upsert_peer_frame: "tb_msgs (snd (upsert_peer d b t)) = tb_msgs t" "tb_users (snd (upsert_peer d b t)) = tb_users t"
  by (simp_all add: upsert_peer_def Let_def)

lemma upsert_step:
  assumes "run_state (if db then on_sess (stmt (upsert_peer d b)) else ret (Inr ())) n = (x, n1)"
  shows "tb_msgs (tabs (nd_sess n1)) = tb_msgs (tabs (nd_sess n))" "nd_sec n1 = nd_sec n" "go_now (nd_sess n1) = go_now (nd_sess n)"
proof -
  obtain y s where y: "run_state (stmt (upsert_peer d b)) (nd_sess n) = (y, s)" by fastforce
  have "tb_msgs (tabs s) = tb_msgs (tabs (nd_sess n))" using stmt_tabs [OF y] by (auto simp: upsert_peer_frame)
  moreover have "go_now s = go_now (nd_sess n)" using y by (auto simp: stmt_def Let_def split: list.splits fault.splits prod.splits)
  ultimately show "tb_msgs (tabs (nd_sess n1)) = tb_msgs (tabs (nd_sess n))" "nd_sec n1 = nd_sec n" "go_now (nd_sess n1) = go_now (nd_sess n)"
    using assms y by (auto simp: run_on_sess split: if_splits)
qed

text \<open>The state in which the rest of \<open>transaction\<close> runs, and what it does there.\<close>

lemma transaction_body_cases:
  assumes "run_state (transaction_body E N H origin body) n = (a, n')"
  shows "(\<exists>req acc rej s1. a = Done (Accepted acc rej) \<and> unm_txn N body = Some req \<and> tx_Destination req = fh_domain H
      \<and> (nd_sec n \<noteq> None \<longrightarrow> ValidateTransaction req (unix (go_now (nd_sess n))) = None)
      \<and> tb_msgs (tabs s1) = tb_msgs (tabs (nd_sess n))
      \<and> run_state (AcceptTransaction (map fed_event_of (tx_Events req))) s1 = ((acc, rej), nd_sess n'))
    \<or> (\<forall>acc rej. a \<noteq> Done (Accepted acc rej)) \<and> tb_msgs (tabs (nd_sess n')) = tb_msgs (tabs (nd_sess n))"
proof (cases "unm_txn N body")
  case None
  with assms show ?thesis by (auto simp: transaction_body_def)
next
  case (Some req)
  let ?bad = "nd_sec n \<noteq> None \<and> ValidateTransaction req (unix (go_now (nd_sess n))) \<noteq> None"
  show ?thesis
  proof (cases ?bad)
    case True
    with assms Some show ?thesis by (auto simp: transaction_body_def split: if_splits)
  next
    case ok: False
    obtain x n1 where x: "run_state (if fh_db H then on_sess (stmt (upsert_peer (ToLower E (TrimSpace origin)) False)) else ret (Inr ())) n = (x, n1)"
      by fastforce
    with assms Some ok have r: "run_state (if tx_Destination req \<noteq> fh_domain H then relay_txn E N H req else deliver_txn E origin req) n1 = (a, n')"
      by (auto simp: transaction_body_def)
    note f = upsert_step [OF x]
    show ?thesis
    proof (cases "tx_Destination req = fh_domain H")
      case True
      with r have "run_state (deliver_txn E origin req) n1 = (a, n')" by simp
      from run_deliver_txn [OF this] show ?thesis using f ok Some True by metis
    next
      case False
      with r have "run_state (relay_txn E N H req) n1 = (a, n')" by simp
      from relay_txn_sess [OF this] f show ?thesis by simp
    qed
  qed
qed

definition txn_request :: "fed_handler \<Rightarrow> fed_req \<Rightarrow> string" where
  "txn_request H r = take (body_limit H) (sr_body (fr_srv r))"

lemma transaction_handler_cases:
  assumes "run_state (transaction_handler E N H r) n = (a, n')"
  obtains n1 where "origin_of r \<noteq> ''''" "fh_mainOnly H = '''' \<or> origin_of r = fh_mainOnly H" "\<not> is_blocked E n (origin_of r)"
    "\<forall>s. nd_sec n = Some s \<longrightarrow> CheckAllowlistForTransaction E s (origin_of r)"
    "origin_ok E N (origin_of r) r (txn_request H r) n n1"
    "run_state (transaction_body E N H (origin_of r) (txn_request H r)) n1 = (a, n')"
  | net1 where "n' = n\<lparr>nd_net := net1\<rparr>" "\<forall>x. a \<noteq> Done x"
proof -
  let ?go = "origin_of r \<noteq> '''' \<and> (fh_mainOnly H = '''' \<or> origin_of r = fh_mainOnly H) \<and> fr_readable r \<and> \<not> is_blocked E n (origin_of r)
    \<and> (\<forall>s. nd_sec n = Some s \<longrightarrow> CheckAllowlistForTransaction E s (origin_of r))"
  show ?thesis
  proof (cases ?go)
    case True
    then have w: "run_state (with_origin E N (origin_of r) r (txn_request H r) (transaction_body E N H (origin_of r) (txn_request H r))) n = (a, n')"
      using assms by (auto simp: transaction_handler_def txn_request_def Let_def split: option.splits)
    from run_with_origin [OF w] show ?thesis
    proof cases
      case (1 n1)
      show ?thesis by (rule that(1) [of n1]) (use True 1 in auto)
    next
      case (2 net1)
      then show ?thesis using that(2) by auto
    qed
  next
    case False
    then have "n' = n" "\<forall>x. a \<noteq> Done x" using assms
      by (auto simp: transaction_handler_def Let_def split: if_splits option.splits)
    then show ?thesis using that(2) [of "nd_net n"] by simp
  qed
qed

lemma transaction_Accepted:
  assumes "run_state (transaction_handler E N H r) n = (Done (Accepted acc rej), n')"
  shows "origin_of r \<noteq> '''' \<and> (fh_mainOnly H = '''' \<or> origin_of r = fh_mainOnly H) \<and> \<not> is_blocked E n (origin_of r)
    \<and> (\<forall>s. nd_sec n = Some s \<longrightarrow> CheckAllowlistForTransaction E s (origin_of r))
    \<and> (\<exists>n1. origin_ok E N (origin_of r) r (txn_request H r) n n1)
    \<and> (\<exists>req new. unm_txn N (txn_request H r) = Some req \<and> tx_Destination req = fh_domain H
        \<and> (nd_sec n \<noteq> None \<longrightarrow> ValidateTransaction req (unix (go_now (nd_sess n))) = None)
        \<and> mset acc + mset rej = mset (map xe_EventID (tx_Events req))
        \<and> set acc \<subseteq> m_event_id ` set (tb_msgs (tabs (nd_sess n')))
        \<and> tb_msgs (tabs (nd_sess n')) = tb_msgs (tabs (nd_sess n)) @ new
        \<and> (\<forall>m \<in> set new. \<exists>e \<in> set (tx_Events req). m_event_id m = xe_EventID e \<and> m_sender m = xe_Sender e \<and> m_recipient m = xe_Recipient e))"
  using assms
proof (cases rule: transaction_handler_cases)
  case (1 n1)
  then have n1: "nd_sess n1 = nd_sess n" "nd_sec n1 = nd_sec n" by (auto simp: origin_ok_def)
  from transaction_body_cases [OF 1(6)] n1 obtain req s1 where q: "unm_txn N (txn_request H r) = Some req" "tx_Destination req = fh_domain H"
    "nd_sec n \<noteq> None \<longrightarrow> ValidateTransaction req (unix (go_now (nd_sess n))) = None" "tb_msgs (tabs s1) = tb_msgs (tabs (nd_sess n))"
    "run_state (AcceptTransaction (map fed_event_of (tx_Events req))) s1 = ((acc, rej), nd_sess n')" by auto
  have b: "batch_inv (tb_msgs (tabs s1)) (map fed_event_of (tx_Events req)) (acc, rej) (nd_sess n')"
    by (rule AcceptTransaction_inv [OF q(5)])
  then have "mset acc + mset rej = mset (map xe_EventID (tx_Events req))" "set acc \<subseteq> m_event_id ` set (tb_msgs (tabs (nd_sess n')))"
    by (simp_all add: batch_inv_def comp_def fed_event_of_def)
  moreover from b obtain new where "tb_msgs (tabs (nd_sess n')) = tb_msgs (tabs (nd_sess n)) @ new"
    "\<forall>m \<in> set new. \<exists>e \<in> set (tx_Events req). m_event_id m = xe_EventID e \<and> m_sender m = xe_Sender e \<and> m_recipient m = xe_Recipient e"
    unfolding batch_inv_def q(4) by (auto simp: fed_event_of_def)
  ultimately show ?thesis using 1(1-5) q(1-3) by blast
qed auto

text \<open>C4: what the federation lets in: when \<open>transaction\<close> answers with accepted events, under any
  faults of the database and any network, the origin is named, is the main hub in main-only
  mode, is not blocked and passes the allowlist; the request verifies under the key that the
  origin itself gave out; the transaction is for this server and keeps all limits; every event
  of it is accepted or rejected; what is accepted is in the queue, and what is new there
  comes from the events.\<close>

theorem transaction_gates:
  assumes "run_state (transaction_handler E N H r) n = (Done (Accepted acc rej), n')"
  shows "origin_of r \<noteq> '''' \<and> (fh_mainOnly H = '''' \<or> origin_of r = fh_mainOnly H) \<and> \<not> is_blocked E n (origin_of r)
    \<and> (\<forall>s. nd_sec n = Some s \<longrightarrow> CheckAllowlistForTransaction E s (origin_of r))
    \<and> (\<exists>n1. origin_ok E N (origin_of r) r (txn_request H r) n n1)
    \<and> (\<exists>req new. unm_txn N (txn_request H r) = Some req \<and> tx_Destination req = fh_domain H
        \<and> (nd_sec n \<noteq> None \<longrightarrow> ValidateTransaction req (unix (go_now (nd_sess n))) = None)
        \<and> mset acc + mset rej = mset (map xe_EventID (tx_Events req))
        \<and> set acc \<subseteq> m_event_id ` set (tb_msgs (tabs (nd_sess n')))
        \<and> tb_msgs (tabs (nd_sess n')) = tb_msgs (tabs (nd_sess n)) @ new
        \<and> (\<forall>m \<in> set new. \<exists>e \<in> set (tx_Events req). m_event_id m = xe_EventID e \<and> m_sender m = xe_Sender e \<and> m_recipient m = xe_Recipient e))"
  using assms by (rule transaction_Accepted)

text \<open>What the federation keeps out: a transaction that is not answered with accepted events
  leaves the message queue as it was, under any faults, and one that is refused before its
  signature has been verified leaves everything but the log of requests as it was.\<close>

theorem transaction_refused:
  assumes "run_state (transaction_handler E N H r) n = (a, n')" and "\<forall>acc rej. a \<noteq> Done (Accepted acc rej)"
  shows "tb_msgs (tabs (nd_sess n')) = tb_msgs (tabs (nd_sess n))
    \<and> ((\<nexists>n1. origin_ok E N (origin_of r) r (txn_request H r) n n1) \<longrightarrow> (\<exists>net1. n' = n\<lparr>nd_net := net1\<rparr>) \<and> (\<forall>x. a \<noteq> Done x))"
  using assms(1)
proof (cases rule: transaction_handler_cases)
  case (1 n1)
  then have "nd_sess n1 = nd_sess n" by (auto simp: origin_ok_def)
  with transaction_body_cases [OF 1(6)] assms(2) 1(5) show ?thesis by auto
qed auto

lemma AcceptTransaction_clean:
  assumes "faults s = []" "\<forall>e \<in> set es. fe_Ciphertext e \<noteq> None"
  shows "\<exists>s'. run_state (AcceptTransaction es) s = ((map fe_EventID es, []), s')"
proof -
  let ?x = "(go_now s + defaultTTLDays * 24 * 3600 * 1000000000) div 1000"
  obtain r s' where "run_state (mfold (accept_event ?x) ([], []) es) s = (r, s')" by fastforce
  with accept_event_ok [OF assms, of ?x "[]" "[]"] show ?thesis by (auto simp: AcceptTransaction_def sql_simps)
qed

lemma run_upsert:
  assumes "faults (nd_sess n) = []"
  shows "\<exists>x n1. run_state (if db then on_sess (stmt (upsert_peer d b)) else ret (Inr ())) n = (x, n1) \<and> faults (nd_sess n1) = []"
  using assms by (auto simp: run_on_sess sql_simps upsert_peer_def Let_def)

lemma transaction_accepts:
  assumes "origin_of r \<noteq> ''''" "fh_mainOnly H = '''' \<or> origin_of r = fh_mainOnly H" "fr_readable r" "\<not> is_blocked E n (origin_of r)"
    and "\<forall>s. nd_sec n = Some s \<longrightarrow> CheckAllowlistForTransaction E s (origin_of r)"
    and "origin_ok E N (origin_of r) r (txn_request H r) n n1"
    and "unm_txn N (txn_request H r) = Some req" "tx_Destination req = fh_domain H"
    and "ValidateTransaction req (unix (go_now (nd_sess n))) = None" "faults (nd_sess n) = []"
  shows "\<exists>n'. run_state (transaction_handler E N H r) n = (Done (Accepted (map xe_EventID (tx_Events req)) []), n')"
proof -
  have h: "run_state (transaction_handler E N H r) n = run_state (transaction_body E N H (origin_of r) (txn_request H r)) n1"
    using assms(1-5) with_origin_ok [OF assms(6)] by (auto simp: transaction_handler_def txn_request_def Let_def split: option.split)
  have n1: "nd_sess n1 = nd_sess n" "nd_sec n1 = nd_sec n" using assms(6) by (auto simp: origin_ok_def)
  obtain x n2 where x: "run_state (if fh_db H then on_sess (stmt (upsert_peer (ToLower E (TrimSpace (origin_of r))) False)) else ret (Inr ())) n1 = (x, n2)"
    and f: "faults (nd_sess n2) = []" using run_upsert [of n1] assms(10) n1 by metis
  have "run_state (transaction_body E N H (origin_of r) (txn_request H r)) n1 = run_state (deliver_txn E (origin_of r) req) n2"
    using x assms(7-9) n1 by (auto simp: transaction_body_def)
  moreover obtain a n' where d: "run_state (deliver_txn E (origin_of r) req) n2 = (a, n')" by fastforce
  moreover obtain s' where "run_state (AcceptTransaction (map fed_event_of (tx_Events req))) (nd_sess n2) = ((map fe_EventID (map fed_event_of (tx_Events req)), []), s')"
    using AcceptTransaction_clean [OF f, of "map fed_event_of (tx_Events req)"] by (auto simp: fed_event_of_def)
  ultimately show ?thesis using run_deliver_txn [OF d] h by (auto simp: comp_def fed_event_of_def)
qed

text \<open>Another server cannot fetch the keys of a user of this one: \<open>getKeys\<close> answers every
  request with an error, under any faults, because the key directory takes apart the user id
  with a format that Go's \<open>Sscanf\<close> does not have.\<close>

theorem getKeys_never_answers:
  "\<exists>code name n'. run_state (getKeys E H userID deviceID) n = (Fail code name, n') \<and> code \<in> {400, 404} \<and> nd_sess n' = nd_sess n"
proof (cases "userID = '''' \<or> deviceID = ''''")
  case True
  then show ?thesis by (simp add: getKeys_def)
next
  case False
  have "run_state (GetBundle E (fh_keydir H) (unescaped userID) (unescaped deviceID)) (nd_sess n) = (Inl ErrInvalidUserID, nd_sess n)"
    by (simp add: GetBundle_def Sscanf_char_class)
  with False show ?thesis by (auto simp: getKeys_def run_on_sess)
qed

text \<open>C26: a login through another server is a login: when \<open>authVerify\<close> answers with a session,
  under any faults, the origin is not blocked and signed the request; the user id names this
  server; and the stored hash of that user matches the password; the users are as they were
  and no device but the one named in the request is new.\<close>

theorem authVerify_gates:
  assumes "run_state (authVerify E N unm H r) n = (Done res, n')"
  shows "origin_of r \<noteq> '''' \<and> \<not> is_blocked E n (origin_of r) \<and> (\<exists>n1. origin_ok E N (origin_of r) r (txn_request H r) n n1)
    \<and> (\<exists>S req username dev u. fh_auth H = Some S \<and> unm (txn_request H r) = Some req \<and> uuid_parse E (aq_DeviceID req) = Some dev
        \<and> (\<exists>p0 p1. SplitN2 (CHR '':'') (drop 1 (TrimSpace (aq_UserID req))) = [p0, p1] \<and> username = TrimSpace p0
            \<and> ToLower E (TrimSpace p1) = fh_domain H)
        \<and> u \<in> set (tb_users (tabs (nd_sess n))) \<and> u_username u = username \<and> u_domain u = au_domain S
        \<and> (\<exists>ph. Decrypt (au_enc S) (case u_password_hash u of None \<Rightarrow> [] | Some h \<Rightarrow> h) = Inr ph \<and> password_ok E ph (aq_Password req))
        \<and> login_frame (u_id u) dev (tabs (nd_sess n)) (tabs (nd_sess n')))"
proof -
  from assms obtain S where S: "fh_auth H = Some S" by (cases "fh_auth H") (auto simp: authVerify_def)
  with assms have g: "origin_of r \<noteq> ''''" "\<not> is_blocked E n (origin_of r)" "run_state (with_origin E N (origin_of r) r (txn_request H r)
      (authVerify_body E unm H S (txn_request H r))) n = (Done res, n')"
    by (auto simp: authVerify_def txn_request_def Let_def split: if_splits)
  from run_with_origin [OF g(3)] obtain n1 where n1: "origin_ok E N (origin_of r) r (txn_request H r) n n1"
    and b: "run_state (authVerify_body E unm H S (txn_request H r)) n1 = (Done res, n')" by cases auto
  from n1 have s: "nd_sess n1 = nd_sess n" by (auto simp: origin_ok_def)
  from b obtain req where req: "unm (txn_request H r) = Some req" by (cases "unm (txn_request H r)") (auto simp: authVerify_body_def)
  with b obtain p0 p1 where p: "SplitN2 (CHR '':'') (drop 1 (TrimSpace (aq_UserID req))) = [p0, p1]"
    by (auto simp: authVerify_body_def Let_def split: if_splits list.splits)
  with b req have dm: "ToLower E (TrimSpace p1) = fh_domain H" by (auto simp: authVerify_body_def Let_def split: if_splits)
  with b req p obtain dev where dev: "uuid_parse E (aq_DeviceID req) = Some dev"
    by (cases "uuid_parse E (aq_DeviceID req)") (auto simp: authVerify_body_def Let_def split: if_splits)
  obtain l sl where l: "run_state (Login E S (login_of (TrimSpace p0) dev req)) (nd_sess n) = (l, sl)" by fastforce
  with b req p dm dev s have l': "l = Inr res" "nd_sess n' = sl"
    by (cases l; auto simp: authVerify_body_def Let_def run_on_sess split: if_splits)+
  have lo: "li_Username (login_of (TrimSpace p0) dev req) = TrimSpace p0" "li_Password (login_of (TrimSpace p0) dev req) = aq_Password req"
    "li_DeviceID (login_of (TrimSpace p0) dev req) = dev"
    by (simp_all add: login_of_def Let_def split: option.split prod.split)
  from Login_InrD [OF l [unfolded l'(1)]] obtain u where "u \<in> set (tb_users (tabs (nd_sess n)))" "u_username u = TrimSpace p0" "u_domain u = au_domain S"
    "\<exists>ph. Decrypt (au_enc S) (case u_password_hash u of None \<Rightarrow> [] | Some h \<Rightarrow> h) = Inr ph \<and> password_ok E ph (aq_Password req)"
    "login_frame (u_id u) dev (tabs (nd_sess n)) (tabs sl)" unfolding lo by blast
  with g n1 S req p dm dev l'(2) show ?thesis by blast
qed

section \<open>Two servers\<close>

text \<open>Server \<open>a.org\<close>, its key of 32 bytes, and server \<open>b.org\<close>, whose network gives out that key.\<close>

definition key32 :: bytes where
  "key32 = replicate 32 (CHR ''k'')"

definition srv_a :: fed_client where
  "srv_a = \<lparr> fc_domain = ''a.org'', fc_mainDomain = '''', fc_keys = \<lparr> PublicKey = key32, PrivateKey = key32 \<rparr> \<rparr>"

definition net_b :: net where
  "net_b = json_net\<lparr>unm_server_key := (\<lambda>_. Some (b64_encode key32))\<rparr>"

definition node_b :: node where
  "node_b = \<lparr> nd_sess = session_on empty_tables [], nd_net = demo_netst, nd_sec = Some demo_sec, nd_world = demo_world, nd_can_open = True,
     nd_hub = Some NewHub, nd_published = [], nd_servers = ('''', [], 0) \<rparr>"

definition handler_b :: fed_handler where
  "handler_b = \<lparr> fh_keydir = demo_dir, fh_auth = Some demo_auth, fh_keys = \<lparr> PublicKey = key32, PrivateKey = key32 \<rparr>, fh_domain = ''b.org'',
     fh_maxBody = 0, fh_client = None, fh_mainOnly = '''', fh_db = True \<rparr>"

definition url_b :: string where
  "url_b = plain_url ''https'' ''b.org'' ''federation/v1/transaction'' ''''"

text \<open>The request with which \<open>a.org\<close> sends a transaction to \<open>b.org\<close>.\<close>

definition request_b :: "transaction \<Rightarrow> fed_req" where
  "request_b txn = \<lparr> fr_srv = receive \<lparr> hq_method = ''POST'', hq_url = url_b,
       hq_header = signRequest demo_env srv_a 1700000000000000000 ''POST'' url_b (demo_json txn), hq_body = demo_json txn \<rparr>, fr_readable = True \<rparr>"

lemma srv_a_law: "ed_law demo_env (fc_keys srv_a)"
  by (simp add: ed_law_def demo_env_def srv_a_def key32_def)

lemma url_b_plain: "plain_parts ''https'' ''b.org'' ''federation/v1/transaction'' ''''"
  by (rule demo_url(1))

lemma request_b_fields:
  "origin_of (request_b txn) = ''a.org''" "sr_body (fr_srv (request_b txn)) = demo_json txn" "fr_readable (request_b txn)"
  unfolding request_b_def url_b_def receive_plain [OF url_b_plain] by (simp_all add: origin_of_def signRequest_def Let_def srv_a_def)

lemma key_of_a: "run_state (FetchServerKey net_b ''a.org'') s = (Inr key32, s\<lparr>ns_sent := ns_sent s @ [\<lparr> hq_method = ''GET'',
    hq_url = ''https://a.org/.well-known/federation'', hq_header = no_header, hq_body = '''' \<rparr>]\<rparr>)"
proof -
  have "length key32 = 32" by (simp add: key32_def)
  then show ?thesis by (simp add: FetchServerKey_def http_call_def net_b_def json_net_def demo_net_def scheme_def)
qed

lemma request_b_ok:
  assumes "length (demo_json txn) \<le> 2 ^ 20"
  shows "txn_request handler_b (request_b txn) = demo_json txn"
    "\<exists>n1. origin_ok demo_env net_b (origin_of (request_b txn)) (request_b txn) (txn_request handler_b (request_b txn)) node_b n1"
proof -
  have l: "body_limit handler_b = 2 ^ 20" by (simp add: body_limit_def handler_b_def DefaultMaxBodySize_def)
  show b: "txn_request handler_b (request_b txn) = demo_json txn"
    unfolding txn_request_def l request_b_fields using assms by (rule take_all)
  have "VerifyRequest demo_env 1700000000000000000 (fr_srv (request_b txn)) (demo_json txn) (PublicKey (fc_keys srv_a)) = None"
    unfolding request_b_def url_b_def fed_req.simps
    by (rule signed_headers_verify [OF srv_a_law _ _ _ url_b_plain]) (simp_all add: srv_a_def unix_def int64_def)
  then show "\<exists>n1. origin_ok demo_env net_b (origin_of (request_b txn)) (request_b txn) (txn_request handler_b (request_b txn)) node_b n1"
    unfolding b unfolding origin_ok_def request_b_fields(1) key_of_a by (simp add: srv_a_def node_b_def session_on_def)
qed

lemma node_b_accepts:
  assumes "length (demo_json txn) \<le> 2 ^ 20" "tx_Destination txn = ''b.org''" "ValidateTransaction txn 1700000000 = None"
  shows "\<exists>n'. run_state (transaction_handler demo_env net_b handler_b (request_b txn)) node_b
    = (Done (Accepted (map xe_EventID (tx_Events txn)) []), n')"
proof -
  obtain n1 where o: "origin_ok demo_env net_b (origin_of (request_b txn)) (request_b txn) (txn_request handler_b (request_b txn)) node_b n1"
    using request_b_ok(2) [OF assms(1)] ..
  have u: "unm_txn net_b (txn_request handler_b (request_b txn)) = Some txn"
    unfolding request_b_ok(1) [OF assms(1)] by (simp add: net_b_def json_net_def demo_json_law)
  show ?thesis
    by (rule transaction_accepts [OF _ _ _ _ _ o u])
       (use assms(2,3) in \<open>simp_all add: request_b_fields handler_b_def node_b_def is_blocked_def IsBlocked_def demo_sec_fields
          CheckAllowlistForTransaction_def session_on_def unix_def\<close>)
qed

definition txn_b :: transaction where
  "txn_b = demo_txn\<lparr>tx_Origin := ''a.org'', tx_Destination := ''b.org''\<rparr>"

lemma txn_b_valid: "ValidateTransaction txn_b 1700000000 = None" "tx_Destination txn_b = ''b.org''"
  by (simp_all add: txn_b_def demo_txn_def ValidateTransaction_def check_event_def wrap64_def Let_def MaxTransactionIDLen_def MaxEvents_def
      MaxEventIDLen_def MaxUserIDLen_def MaxCiphertextLen_def MaxSessionIDLen_def TimestampWindow_def)

lemma txn_b_short: "length (demo_json txn_b) \<le> 2 ^ 20"
  by (simp add: demo_json_def dotted_def txn_b_def demo_txn_def event_fields_def unary_def)

theorem transaction_gates_witness:
  "\<exists>acc rej n'. run_state (transaction_handler demo_env net_b handler_b (request_b txn_b)) node_b = (Done (Accepted acc rej), n')
    \<and> mset acc + mset rej = {#''e1''#} \<and> set acc \<subseteq> m_event_id ` set (tb_msgs (tabs (nd_sess n')))"
proof -
  have i: "map xe_EventID (tx_Events txn_b) = [''e1'']" by (simp add: txn_b_def demo_txn_def)
  from node_b_accepts [OF txn_b_short txn_b_valid(2,1)] obtain n' where
    r: "run_state (transaction_handler demo_env net_b handler_b (request_b txn_b)) node_b = (Done (Accepted [''e1''] []), n')" unfolding i ..
  from transaction_gates [OF r] have "set [''e1''] \<subseteq> m_event_id ` set (tb_msgs (tabs (nd_sess n')))" by blast
  with r show ?thesis by (intro exI conjI) (assumption | simp)+
qed

text \<open>A transaction for another server, which this one cannot forward.\<close>

definition txn_c :: transaction where
  "txn_c = txn_b\<lparr>tx_Destination := ''c.org''\<rparr>"

theorem transaction_refused_witness:
  "\<exists>n'. run_state (transaction_handler demo_env net_b handler_b \<lparr> fr_srv = (fr_srv (request_b txn_b))\<lparr>sr_header := no_header\<rparr>, fr_readable = True \<rparr>) node_b
      = (Fail 400 ''invalid_request'', n') \<and> tb_msgs (tabs (nd_sess n')) = []"
proof -
  let ?r = "\<lparr> fr_srv = (fr_srv (request_b txn_b))\<lparr>sr_header := no_header\<rparr>, fr_readable = True \<rparr>"
  have r: "run_state (transaction_handler demo_env net_b handler_b ?r) node_b = (Fail 400 ''invalid_request'', node_b)"
    by (simp add: transaction_handler_def origin_of_def no_header_def Let_def)
  from transaction_refused [OF r] have "tb_msgs (tabs (nd_sess node_b)) = tb_msgs (tabs (nd_sess node_b))" by simp
  with r show ?thesis by (simp add: node_b_def session_on_def empty_tables_def)
qed


definition verify_req :: auth_verify_req where
  "verify_req = \<lparr> aq_UserID = ''@ann:a.org'', aq_Password = '''', aq_DeviceID = uuid_str token_env 7, aq_RequestKeysRestore = False, aq_Keys = None \<rparr>"

lemma verify_req_login: "login_of ''ann'' 7 verify_req = demo_login"
  by (simp add: login_of_def verify_req_def demo_login_def)

lemma verify_req_names: "TrimSpace ''@ann:a.org'' = ''@ann:a.org''" "TrimSpace ''ann'' = ''ann''" "TrimSpace ''a.org'' = ''a.org''"
  "SplitN2 (CHR '':'') ''ann:a.org'' = [''ann'', ''a.org'']" "map ascii_lower ''a.org'' = ''a.org''" "is_ascii ''a.org''"
  by code_simp+

theorem authVerify_gates_witness:
  "\<exists>r res n'. run_state (authVerify token_env net_b (\<lambda>_. Some verify_req) (handler_b\<lparr>fh_domain := ''a.org''\<rparr>) r) (node_b\<lparr>nd_sess := session_on demo_keys []\<rparr>)
      = (Done res, n') \<and> tb_users (tabs (nd_sess n')) = tb_users demo_keys"
proof -
  let ?H = "handler_b\<lparr>fh_domain := ''a.org''\<rparr>" and ?n = "node_b\<lparr>nd_sess := session_on demo_keys []\<rparr>"
  let ?q = "\<lparr> hq_method = ''POST'', hq_url = url_b, hq_header = signRequest token_env srv_a 1700000000000000000 ''POST'' url_b ''x'', hq_body = ''x'' \<rparr>"
  let ?r = "\<lparr> fr_srv = receive ?q, fr_readable = True \<rparr>"
  have law: "ed_law token_env (fc_keys srv_a)" using srv_a_law by (simp add: ed_law_def token_env_def bits_env_def Let_def)
  have o: "origin_of ?r = ''a.org''" "sr_body (fr_srv ?r) = ''x''"
    unfolding url_b_def fed_req.simps origin_of_def receive_plain [OF url_b_plain] by (simp_all add: signRequest_def Let_def srv_a_def)
  have b: "txn_request ?H ?r = ''x''" unfolding txn_request_def o(2)
    by (simp add: body_limit_def handler_b_def DefaultMaxBodySize_def)
  have "VerifyRequest token_env 1700000000000000000 (receive ?q) ''x'' (PublicKey (fc_keys srv_a)) = None"
    unfolding url_b_def
    by (rule signed_headers_verify [OF law _ _ _ url_b_plain]) (simp_all add: srv_a_def unix_def int64_def)
  then obtain n1 where n1: "origin_ok token_env net_b ''a.org'' ?r ''x'' ?n n1"
    unfolding origin_ok_def key_of_a by (simp add: srv_a_def session_on_def)
  then have s: "nd_sess n1 = session_on demo_keys []" by (auto simp: origin_ok_def)
  obtain res s' where l: "run_state (Login token_env demo_auth demo_login) (session_on demo_keys []) = (Inr res, s')" using demo_logged_in by blast
  have low: "ToLower token_env ''a.org'' = ''a.org''" using verify_req_names(5,6) by (simp add: ToLower_def)
  have "run_state (authVerify_body token_env (\<lambda>_. Some verify_req) ?H demo_auth ''x'') n1 = (Done res, n1\<lparr>nd_sess := s'\<rparr>)"
    using l demo_uuid(1) by (simp add: authVerify_body_def verify_req_login [symmetric] run_on_sess s Let_def ToLower_def verify_req_names)
      (simp add: verify_req_def verify_req_names run_on_sess s low)
  moreover have "run_state (authVerify token_env net_b (\<lambda>_. Some verify_req) ?H ?r) ?n =
      run_state (with_origin token_env net_b ''a.org'' ?r ''x'' (authVerify_body token_env (\<lambda>_. Some verify_req) ?H demo_auth ''x'')) ?n"
    using o b by (simp add: authVerify_def is_blocked_def node_b_def IsBlocked_def demo_sec_fields txn_request_def Let_def handler_b_def)
  ultimately have r: "run_state (authVerify token_env net_b (\<lambda>_. Some verify_req) ?H ?r) ?n = (Done res, n1\<lparr>nd_sess := s'\<rparr>)"
    using with_origin_ok [OF n1] by metis
  from authVerify_gates [OF r] have "tb_users (tabs s') = tb_users demo_keys"
    by (auto simp: login_frame_def session_on_def)
  with r show ?thesis by (intro exI) auto
qed

section \<open>Announcements and peers\<close>

lemma accepted_in_order:
  assumes "run_state (AcceptTransaction es) s = ((acc, rej), s')"
  shows "rej = [] \<longrightarrow> acc = map fe_EventID es"
proof -
  let ?x = "(go_now s + defaultTTLDays * 24 * 3600 * 1000000000) div 1000"
  have r: "run_state (mfold (accept_event ?x) ([], []) es) s = ((acc, rej), s')"
    using assms by (simp add: AcceptTransaction_def sql_simps)
  have "snd (acc, rej) = [] \<longrightarrow> fst (acc, rej) = map fe_EventID es"
  proof (rule mfold_prefix [where J = "\<lambda>(pre :: fed_event list) a _. snd a = [] \<longrightarrow> fst a = map fe_EventID pre", OF _ _ r])
    fix pre :: "fed_event list" and e a t a' t' assume "snd a = [] \<longrightarrow> fst a = map fe_EventID pre" "run_state (accept_event ?x a e) t = (a', t')"
    then show "snd a' = [] \<longrightarrow> fst a' = map fe_EventID (pre @ [e])"
      by (auto simp: accept_event_def split: prod.splits if_splits sum.splits)
  qed simp
  then show ?thesis by simp
qed

text \<open>New messages are announced to the right address if the whole transaction is accepted:
  then the \<open>i\<close>-th announcement is that of the \<open>i\<close>-th event to its recipient, under any faults.\<close>

theorem notify_right_if_all_accepted:
  assumes "run_state (AcceptTransaction (map fed_event_of (tx_Events req))) s = ((acc, []), s')"
  shows "notify_pairs (map fed_event_of (tx_Events req)) acc = map (\<lambda>e. (xe_Recipient e, xe_EventID e)) (tx_Events req)"
proof -
  have "acc = map fe_EventID (map fed_event_of (tx_Events req))" using accepted_in_order [OF assms] by simp
  then show ?thesis by (simp add: notify_pairs_def zip_map_map comp_def fed_event_of_def zip_same_conv_map)
qed

theorem notify_right_if_all_accepted_witness:
  "\<exists>acc s'. run_state (AcceptTransaction (map fed_event_of (tx_Events txn_b))) (session_on empty_tables []) = ((acc, []), s')
    \<and> notify_pairs (map fed_event_of (tx_Events txn_b)) acc = [(''@bob:b.org'', ''e1'')]"
proof -
  obtain s' where r: "run_state (AcceptTransaction (map fed_event_of (tx_Events txn_b))) (session_on empty_tables [])
      = ((map fe_EventID (map fed_event_of (tx_Events txn_b)), []), s')"
    using AcceptTransaction_clean [of "session_on empty_tables []" "map fed_event_of (tx_Events txn_b)"] by (auto simp: session_on_def fed_event_of_def)
  from notify_right_if_all_accepted [OF r] r show ?thesis by (auto simp: txn_b_def demo_txn_def)
qed

text \<open>After a rejection the rest is announced to the wrong addresses: here the event for \<open>bob\<close> goes
  to \<open>ann\<close>, whose own was rejected by a lost connection.\<close>

lemma notify_wrong_after_rejection:
  fixes e1 e2 :: fed_event
  assumes "fe_EventID e1 = ''e1''" "fe_Recipient e1 = ''@ann:b.org''" "fe_EventID e2 = ''e2''" "fe_Recipient e2 = ''@bob:b.org''"
    and "fe_Ciphertext e2 \<noteq> None"
  shows "\<exists>s'. run_state (AcceptTransaction [e1, e2]) (session_on empty_tables [Answered, Refused]) = (([''e2''], [''e1'']), s')
    \<and> notify_pairs [e1, e2] [''e2''] = [(''@ann:b.org'', ''e2'')]"
  using assms
  by (auto simp: AcceptTransaction_def accept_event_def query_row_def stmt_def time_now_def session_on_def ins_msg_def empty_tables_def
      notify_pairs_def Let_def)

text \<open>Registering makes a peer allowed again that an administrator had disallowed.\<close>

lemma register_allows_again:
  assumes "d \<in> fp_domain ` set (tb_peers t)" "q \<in> set (tb_peers t)" "fp_domain q = d"
  shows "q\<lparr>fp_endpoint := ''https://'' @ d @ ''/federation/v1'', fp_allowed := True\<rparr> \<in> set (tb_peers (snd (upsert_peer d True t)))"
proof -
  let ?f = "\<lambda>p. if fp_domain p = d then p\<lparr>fp_endpoint := ''https://'' @ d @ ''/federation/v1'', fp_allowed := True\<rparr> else p"
  have "tb_peers (snd (upsert_peer d True t)) = map ?f (tb_peers t)"
    unfolding upsert_peer_def Let_def if_P [OF assms(1)] by simp
  moreover have "?f q \<in> ?f ` set (tb_peers t)" using assms(2) by (rule imageI)
  ultimately show ?thesis using assms(3) by (simp only: list.set_map if_True simp_thms)
qed

lemma hub_peers_not_self: "run_state (hub_peers E N hub_name my db) n = (Inr ps, n') \<Longrightarrow> my \<notin> ps"
  by (auto simp: hub_peers_def split: prod.splits if_splits sum.splits)

text \<open>A server is never its own peer.\<close>

lemma getFederationPeers_not_self:
  "run_state (getFederationPeers E N db has_client fedPeers discoveryHub myDomain) n = (Inr ps, n') \<Longrightarrow> ToLower E (TrimSpace myDomain) \<notin> ps"
  by (auto simp: getFederationPeers_def usable_peers_def Let_def split: prod.splits if_splits sum.splits dest!: hub_peers_not_self)

end
