(* ===== verification/Wrappers.thy ===== *)
theory Wrappers
  imports Fed_Handlers
begin

text \<open>
  What the router puts around the handlers: the writer of a response (\<open>api/response.go\<close>), recovery
  from panics and the log of federation requests (\<open>api/federation_middleware.go\<close>,
  \<open>api/federation_metrics.go\<close>), the log of client requests (\<open>anonymityLogger\<close> of \<open>api/router.go\<close>), rate limits
  (\<open>api/ratelimit.go\<close>) and the webhook for alerts (\<open>api/alert.go\<close>). The counters of package
  \<open>httprate\<close> are a parameter, as are the encoder of JSON and whether the webhook can be reached.

  Shown: what a client receives after a panic, that every federation request that ends is logged
  and counted once, which requests share a limit, and that the limit of a server is spent by
  requests that only name it.
\<close>

section \<open>The response\<close>

text \<open>
  \<open>http.ResponseWriter\<close>: the headers a handler has set, what \<open>WriteHeader\<close> sent (a copy of the headers
  at that time; a second call has no effect), and the body. The first \<open>Write\<close> sends status 200.
\<close>

record writer =
  wr_header :: "string \<Rightarrow> string option"
  wr_sent :: "(nat \<times> (string \<Rightarrow> string option)) option"
  wr_body :: string

definition fresh_writer :: writer where
  "fresh_writer = \<lparr> wr_header = Map.empty, wr_sent = None, wr_body = '''' \<rparr>"

definition Set_header :: "string \<Rightarrow> string \<Rightarrow> writer \<Rightarrow> writer" where
  "Set_header k v w = w\<lparr>wr_header := (wr_header w)(k \<mapsto> v)\<rparr>"

definition WriteHeader :: "nat \<Rightarrow> writer \<Rightarrow> writer" where
  "WriteHeader status w = (case wr_sent w of None \<Rightarrow> w\<lparr>wr_sent := Some (status, wr_header w)\<rparr> | Some _ \<Rightarrow> w)"

definition Write :: "string \<Rightarrow> writer \<Rightarrow> writer" where
  "Write body w = (WriteHeader 200 w)\<lparr>wr_body := wr_body w @ body\<rparr>"

text \<open>\<open>ww.Status()\<close> of the wrapped writer: 0 as long as nothing was sent.\<close>

definition Status :: "writer \<Rightarrow> nat" where
  "Status w = (case wr_sent w of None \<Rightarrow> 0 | Some (st, _) \<Rightarrow> st)"

text \<open>\<open>J\<close> is the JSON encoder with its newline: of any value, and of an object of two texts.\<close>

record 'a json_enc =
  enc_value :: "'a \<Rightarrow> string"
  enc_error :: "string \<Rightarrow> string \<Rightarrow> string"

definition writeJSON :: "nat \<Rightarrow> string \<Rightarrow> writer \<Rightarrow> writer" where
  "writeJSON status text w = Write text (WriteHeader status (Set_header ''Content-Type'' ''application/json'' w))"

definition writeError :: "'a json_enc \<Rightarrow> nat \<Rightarrow> string \<Rightarrow> string \<Rightarrow> writer \<Rightarrow> writer" where
  "writeError J status code message = writeJSON status (enc_error J code message)"

lemmas writer_defs = writeError_def writeJSON_def Write_def WriteHeader_def Set_header_def Status_def fresh_writer_def

section \<open>Handlers, logs and metrics\<close>

text \<open>A request, with the address of the connection and the user the token is of (0 for none).\<close>

record web_req =
  wq_method :: string
  wq_path :: string
  wq_header :: "string \<Rightarrow> string"
  wq_remote :: string
  wq_user :: int

datatype log_line =
    LogFederation string string string nat
  | LogPanic string string
  | LogApi string string nat

text \<open>What the wrappers keep beside the state of the handlers: lines logged, alerts posted, and the
  counters of federation requests by domain, path and status.\<close>

record 's surround =
  su_state :: 's
  su_log :: "log_line list"
  su_alerts :: "(string \<times> string \<times> string) list"
  su_count :: "string \<Rightarrow> string \<Rightarrow> string \<Rightarrow> nat"

text \<open>A handler writes a response and changes the state; \<open>True\<close> is a panic.\<close>

type_synonym 's handler = "web_req \<Rightarrow> writer \<times> 's surround \<Rightarrow> bool \<times> writer \<times> 's surround"

definition log_to :: "log_line \<Rightarrow> 's surround \<Rightarrow> 's surround" where
  "log_to l u = u\<lparr>su_log := su_log u @ [l]\<rparr>"

definition recordFederationRequest :: "string \<Rightarrow> string \<Rightarrow> nat \<Rightarrow> 's surround \<Rightarrow> 's surround" where
  "recordFederationRequest dmn path status u =
     u\<lparr>su_count := (\<lambda>d p s. if d = dmn \<and> p = path \<and> s = Itoa (int status) then su_count u d p s + 1 else su_count u d p s)\<rparr>"

definition federationLogger :: "'s handler \<Rightarrow> 's handler" where
  "federationLogger next r x =
     (let origin = (if wq_header r ''X-Server-Origin'' = '''' then ''-'' else wq_header r ''X-Server-Origin'') in
      case next r x of
        (True, y) \<Rightarrow> (True, y)
      | (False, w, u) \<Rightarrow> (False, w, log_to (LogFederation (wq_method r) (wq_path r) origin (Status w))
          (recordFederationRequest origin (wq_path r) (Status w) u)))"

definition federationRecover :: "'a json_enc \<Rightarrow> 's handler \<Rightarrow> 's handler" where
  "federationRecover J next r x =
     (case next r x of
        (False, y) \<Rightarrow> (False, y)
      | (True, w, u) \<Rightarrow> (False, writeError J 500 ''internal_error'' ''Request failed'' (WriteHeader 500 w),
          log_to (LogPanic (wq_header r ''X-Server-Origin'') (wq_path r)) u))"

definition anonymityLogger :: "'s handler \<Rightarrow> 's handler" where
  "anonymityLogger next r x =
     (case next r x of
        (True, y) \<Rightarrow> (True, y)
      | (False, w, u) \<Rightarrow>
          if wq_path r = ''/api/v1/messages/sync'' \<and> Status w = 200 then (False, w, u)
          else (False, w, log_to (LogApi (wq_method r) (wq_path r) (Status w)) u))"

section \<open>Rate limits\<close>

text \<open>Whether the webhook's address makes a request and the request is answered is \<open>reach\<close>; either way
  the caller goes on.\<close>

definition SendFederationAlert :: "(string \<Rightarrow> bool) \<Rightarrow> string \<Rightarrow> string \<Rightarrow> string \<Rightarrow> 's surround \<Rightarrow> 's surround" where
  "SendFederationAlert reach webhookURL event dmn u =
     (if webhookURL = '''' \<or> \<not> reach webhookURL then u else u\<lparr>su_alerts := su_alerts u @ [(webhookURL, event, dmn)]\<rparr>)"

text \<open>
  \<open>httprate.Limit\<close> with its counters \<open>'l\<close>: \<open>lm_ok\<close> says whether a key has requests left, \<open>lm_hit\<close> counts one.
  The functions that compute the keys here do not fail.
\<close>

record 'l limiter =
  lm_ok :: "'l \<Rightarrow> string \<Rightarrow> bool"
  lm_hit :: "'l \<Rightarrow> string \<Rightarrow> 'l"

definition Limit :: "'l limiter \<Rightarrow> (web_req \<Rightarrow> string) \<Rightarrow> 's handler \<Rightarrow> 's handler
    \<Rightarrow> web_req \<Rightarrow> 'l \<Rightarrow> writer \<times> 's surround \<Rightarrow> (bool \<times> writer \<times> 's surround) \<times> 'l" where
  "Limit L key limited next r l x = (if lm_ok L l (key r) then (next r x, lm_hit L l (key r)) else (limited r x, l))"

definition rate_limited :: "'a json_enc \<Rightarrow> string \<Rightarrow> 's handler" where
  "rate_limited J message r x = (False, writeError J 429 ''rate_limited'' message (fst x), snd x)"

definition LimitByIP where
  "LimitByIP J L ip = Limit L (\<lambda>r. ip (wq_remote r)) (rate_limited J ''Too many requests'')"

definition federation_key :: "web_req \<Rightarrow> string" where
  "federation_key r = (let origin = wq_header r ''X-Server-Origin'' in if origin = '''' then ''unknown'' else ''fed:'' @ origin)"

definition federation_limited :: "'a json_enc \<Rightarrow> (string \<Rightarrow> bool) \<Rightarrow> string \<Rightarrow> 's handler" where
  "federation_limited J reach webhook r x =
     (let origin = (if wq_header r ''X-Server-Origin'' = '''' then ''unknown'' else wq_header r ''X-Server-Origin'') in
      (False, writeError J 429 ''rate_limited'' ''Federation rate limit exceeded'' (fst x),
       SendFederationAlert reach webhook ''rate_limit'' origin (snd x)))"

text \<open>The limit of the route for transactions: as configured, or 100.\<close>

definition transaction_limit :: "int \<Rightarrow> int" where
  "transaction_limit fedRateLimit = (if fedRateLimit \<le> 0 then 100 else fedRateLimit)"

definition LimitByFederationDomain where
  "LimitByFederationDomain J reach webhook L = Limit L federation_key (federation_limited J reach webhook)"

definition user_key :: "(string \<Rightarrow> string) \<Rightarrow> web_req \<Rightarrow> string" where
  "user_key ip r = (if wq_user r \<noteq> 0 then ''user:'' @ Itoa (wq_user r) else ip (wq_remote r))"

definition LimitByUser where
  "LimitByUser J L ip = Limit L (user_key ip) (rate_limited J ''Too many requests'')"

text \<open>An answer of a handler, written.\<close>

definition respond :: "'a json_enc \<Rightarrow> (string \<Rightarrow> string) \<Rightarrow> nat \<Rightarrow> 'a answer \<Rightarrow> writer \<Rightarrow> bool \<times> writer" where
  "respond J message status a w = (case a of
     Fail st code \<Rightarrow> (False, writeError J st code (message code) w)
   | Done v \<Rightarrow> (False, writeJSON status (enc_value J v) w)
   | Panicked \<Rightarrow> (True, w))"

section \<open>After a panic\<close>

text \<open>
  The recovery sends the header before the error is written: a response that the handler had not
  begun goes out with status 500 and without the header that says it is JSON; one that it had
  begun keeps its status, and the error is added to its body.
\<close>

lemma panic_reply:
  assumes "next r (w, u) = (True, w', u')"
  shows "\<exists>y u''. federationRecover J next r (w, u) = (False, y, u'')
    \<and> wr_sent y = (case wr_sent w' of None \<Rightarrow> Some (500, wr_header w') | Some z \<Rightarrow> Some z)
    \<and> wr_body y = wr_body w' @ enc_error J ''internal_error'' ''Request failed'' \<and> su_state u'' = su_state u'"
  using assms by (simp add: federationRecover_def writer_defs log_to_def split: option.splits)

lemma panic_reply_type:
  assumes "next r (fresh_writer, u) = (fst (respond J message status Panicked fresh_writer), fresh_writer, u)"
  shows "case federationRecover J next r (fresh_writer, u) of (p, y, u') \<Rightarrow> \<not> p \<and> wr_sent y = Some (500, Map.empty)
    \<and> wr_body y = enc_error J ''internal_error'' ''Request failed''"
  using assms by (simp add: federationRecover_def respond_def writer_defs)

text \<open>An error that a handler reports goes out with its status and as JSON.\<close>

lemma error_reply:
  "respond J message status (Fail st code) fresh_writer
    = (False, \<lparr> wr_header = [''Content-Type'' \<mapsto> ''application/json''], wr_sent = Some (st, [''Content-Type'' \<mapsto> ''application/json'']),
        wr_body = enc_error J code (message code) \<rparr>)"
  by (simp add: respond_def writer_defs)

section \<open>Logs\<close>

text \<open>
  As the router nests them, a federation request never ends in a panic, is logged once with the
  status that was sent and counted once, whether its handler panics or not.
\<close>

lemma federation_logged_once:
  assumes "next r (w, u) = (p, w0, u0)" and "su_log u0 = su_log u" "su_count u0 = su_count u"
    and "federationLogger (federationRecover J next) r (w, u) = (p', w', u')"
  defines "origin \<equiv> if wq_header r ''X-Server-Origin'' = '''' then ''-'' else wq_header r ''X-Server-Origin''"
  shows "\<not> p' \<and> su_state u' = su_state u0
    \<and> su_log u' = su_log u @ (if p then [LogPanic (wq_header r ''X-Server-Origin'') (wq_path r)] else [])
         @ [LogFederation (wq_method r) (wq_path r) origin (Status w')]
    \<and> su_count u' origin (wq_path r) (Itoa (int (Status w'))) = su_count u origin (wq_path r) (Itoa (int (Status w'))) + 1"
  using assms(1-4) unfolding origin_def
  by (cases p) (auto simp: federationLogger_def federationRecover_def Let_def log_to_def recordFederationRequest_def split: prod.splits bool.splits)

text \<open>
  The log of client requests leaves out the user who asks, as its comment says, but not the path:
  for the routes that name a user the path holds the name.
\<close>

lemma anonymityLogger_line:
  assumes "next r (w, u) = (False, w', u')" "wq_path r \<noteq> ''/api/v1/messages/sync''"
  shows "anonymityLogger next r (w, u) = (False, w', u'\<lparr>su_log := su_log u' @ [LogApi (wq_method r) (wq_path r) (Status w')]\<rparr>)"
  using assms by (simp add: anonymityLogger_def log_to_def)

lemma user_asked_for_is_logged:
  assumes "next r (w, u) = (False, w', u')" "wq_path r = ''/api/v1/keys/bundle/'' @ userID"
  shows "\<exists>w' u' st. anonymityLogger next r (w, u) = (False, w', u') \<and> LogApi (wq_method r) (''/api/v1/keys/bundle/'' @ userID) st \<in> set (su_log u')"
proof -
  have "wq_path r \<noteq> ''/api/v1/messages/sync''" by (simp add: assms(2))
  from anonymityLogger_line [of "next" r w u w' u'] this assms show ?thesis by auto
qed

section \<open>Who shares a limit\<close>

lemma federation_key_eq:
  "federation_key r = federation_key r' \<longleftrightarrow> wq_header r ''X-Server-Origin'' = wq_header r' ''X-Server-Origin''"
  by (auto simp: federation_key_def Let_def)

lemma user_key_eq:
  assumes "wq_user r \<noteq> 0" "wq_user r' \<noteq> 0" "int64 (wq_user r)" "int64 (wq_user r')"
  shows "user_key ip r = user_key ip r' \<longleftrightarrow> wq_user r = wq_user r'"
  using assms Itoa_inj by (auto simp: user_key_def)

text \<open>
  The documented behaviour of the limiter inside one window: a key has a number of requests left,
  which its own requests bring down, one at a time.
\<close>

definition within_window :: "'l limiter \<Rightarrow> ('l \<Rightarrow> string \<Rightarrow> nat) \<Rightarrow> bool" where
  "within_window L left \<longleftrightarrow> (\<forall>l k. (lm_ok L l k \<longleftrightarrow> 0 < left l k)
     \<and> (\<forall>k'. left (lm_hit L l k) k' = (if k' = k then left l k - 1 else left l k')))"

text \<open>Requests one after the other through a limited handler, each with a response of its own.\<close>

primrec limited_run where
  "limited_run h [] l u = (l, u)"
| "limited_run h (r # rs) l u = (case h r l (fresh_writer, u) of ((p, w, u'), l') \<Rightarrow> limited_run h rs l' u')"

lemma limited_run_left:
  assumes "within_window L left" "limited_run (Limit L key limited next) rs l u = (l', u')"
  shows "left l' k = left l k - length (filter (\<lambda>r. key r = k) rs)"
  using assms(2)
proof (induction rs arbitrary: l u)
  case (Cons r rs)
  obtain p w u1 l1 where s: "Limit L key limited next r l (fresh_writer, u) = ((p, w, u1), l1)" by (metis prod_cases3 surj_pair)
  with Cons have IH: "left l' k = left l1 k - length (filter (\<lambda>r. key r = k) rs)" by simp
  have "left l1 k = left l k - (if key r = k then 1 else 0)"
    using s assms(1) unfolding Limit_def within_window_def by (auto split: if_splits)
  with IH show ?case by simp
qed simp

text \<open>
  The limit of a server is counted before any signature is checked: whoever sends requests that
  name the server spends it, after which the server's own requests are answered with 429 and reach
  no handler; the limits of other servers stay as they are.
\<close>

lemma forged_requests_block_server:
  fixes J :: "'a json_enc"
  assumes "within_window L left" "d \<noteq> ''''" "\<forall>r \<in> set rs. wq_header r ''X-Server-Origin'' = d" "left l (''fed:'' @ d) \<le> length rs"
    and "limited_run (LimitByFederationDomain J reach webhook L next) rs l u = (l', u')"
  shows "wq_header r ''X-Server-Origin'' = d \<Longrightarrow>
      \<exists>w u''. LimitByFederationDomain J reach webhook L next r l' (fresh_writer, u') = ((False, w, u''), l') \<and> Status w = 429 \<and> su_state u'' = su_state u'"
    and "wq_header r ''X-Server-Origin'' = e \<Longrightarrow> e \<noteq> d \<Longrightarrow> lm_ok L l' (federation_key r) = lm_ok L l (federation_key r)"
proof -
  have k: "federation_key q = ''fed:'' @ d" if "q \<in> set rs" for q using that assms(2,3) by (simp add: federation_key_def)
  note left = limited_run_left [OF assms(1) assms(5) [unfolded LimitByFederationDomain_def]]
  have all: "filter (\<lambda>q. federation_key q = ''fed:'' @ d) rs = rs" using k by (simp add: filter_id_conv)
  show "\<exists>w u''. LimitByFederationDomain J reach webhook L next r l' (fresh_writer, u') = ((False, w, u''), l') \<and> Status w = 429 \<and> su_state u'' = su_state u'"
    if r: "wq_header r ''X-Server-Origin'' = d"
  proof -
    have "federation_key r = ''fed:'' @ d" using r assms(2) by (simp add: federation_key_def)
    moreover have "left l' (''fed:'' @ d) = 0" using left [of "''fed:'' @ d"] all assms(4) by simp
    ultimately have "\<not> lm_ok L l' (federation_key r)" using assms(1) unfolding within_window_def by simp
    then show ?thesis
      by (simp add: LimitByFederationDomain_def Limit_def federation_limited_def Let_def writer_defs SendFederationAlert_def)
  qed
  show "lm_ok L l' (federation_key r) = lm_ok L l (federation_key r)" if r: "wq_header r ''X-Server-Origin'' = e" "e \<noteq> d"
  proof -
    have "federation_key q \<noteq> federation_key r" if "q \<in> set rs" for q using that assms(3) r by (simp add: federation_key_eq)
    then have "filter (\<lambda>q. federation_key q = federation_key r) rs = []" by (simp add: filter_empty_conv)
    with left [of "federation_key r"] have "left l' (federation_key r) = left l (federation_key r)" by simp
    with assms(1) show ?thesis unfolding within_window_def by simp
  qed
qed

text \<open>A limiter that counts: its law holds, so the lemma above speaks of something.\<close>

lemma within_window_counter:
  "within_window \<lparr> lm_ok = (\<lambda>l k. l k < 100), lm_hit = (\<lambda>l k. l(k := l k + 1)) \<rparr> (\<lambda>l k. 100 - l k)"
  by (simp add: within_window_def)

end
