(* ===== verification/Push.thy ===== *)
theory Push
  imports Database Go_Enc
begin

text \<open>
  Package \<open>push\<close> (\<open>src/server/internal/push/service.go\<close>): the web-push subscriptions of the devices
  and the notifications sent to them. A notification is handed to the web-push library in a
  goroutine of its own whose outcome is only logged; the model returns the list of
  notifications.
\<close>

section \<open>Subscriptions\<close>

record push =
  pw_vapidPublic :: string
  pw_vapidPrivate :: string

record push_note =
  pn_endpoint :: string
  pn_p256dh :: string
  pn_auth :: string
  pn_payload :: string

definition Enabled :: "push \<Rightarrow> bool" where
  "Enabled P \<longleftrightarrow> pw_vapidPublic P \<noteq> '''' \<and> pw_vapidPrivate P \<noteq> ''''"

text \<open>\<open>INSERT ... ON CONFLICT (endpoint) DO UPDATE\<close> with the foreign keys of migration 014.\<close>

definition put_push :: "int \<Rightarrow> uuid \<Rightarrow> string \<Rightarrow> string \<Rightarrow> string \<Rightarrow> tables \<Rightarrow> (db_err + unit) \<times> tables" where
  "put_push user dev endpoint p256dh au t =
     (if user \<notin> u_id ` set (tb_users t) \<or> dev \<notin> d_id ` set (tb_devices t) then (Inl ForeignKeyViolation, t)
      else if endpoint \<in> pu_endpoint ` set (tb_push t)
      then (Inr (), t\<lparr>tb_push := map (\<lambda>p. if pu_endpoint p = endpoint
             then p\<lparr>pu_user := user, pu_device := dev, pu_p256dh := p256dh, pu_auth := au\<rparr> else p) (tb_push t)\<rparr>)
      else (Inr (), t\<lparr>tb_push := tb_push t @ [\<lparr> pu_user = user, pu_device = dev, pu_endpoint = endpoint,
             pu_p256dh = p256dh, pu_auth = au \<rparr>]\<rparr>))"

definition Subscribe :: "int \<Rightarrow> uuid \<Rightarrow> string \<Rightarrow> string \<Rightarrow> string \<Rightarrow> (sess, db_err + unit) state" where
  "Subscribe user dev endpoint p256dh au =
     (if endpoint = '''' \<or> p256dh = '''' \<or> au = '''' then ret (Inr ())
      else stmt (put_push user dev endpoint p256dh au))"

definition Unsubscribe :: "string \<Rightarrow> (sess, db_err + unit) state" where
  "Unsubscribe endpoint = stmt (\<lambda>t. (Inr (), t\<lparr>tb_push := filter (\<lambda>p. pu_endpoint p \<noteq> endpoint) (tb_push t)\<rparr>))"

section \<open>Notifications\<close>

text \<open>The name and the domain of an address, \<open>None\<close> where \<open>SendToUser\<close> returns at once.\<close>

definition push_target :: "string \<Rightarrow> (string \<times> string) option" where
  "push_target addr0 =
     (let addr = TrimSpace addr0 in
      if \<not> HasPrefix addr ''@'' then None
      else (let parts = SplitN2 (CHR '':'') (drop 1 addr); username = TrimSpace (parts ! 0);
                domain = (if length parts > 1 then TrimSpace (parts ! 1) else '''') in
        if username = '''' then None else Some (username, domain)))"

definition named_users :: "env \<Rightarrow> string \<times> string \<Rightarrow> tables \<Rightarrow> user_row list" where
  "named_users E nd t = filter (\<lambda>u. pg_lower E (u_username u) = pg_lower E (fst nd)
     \<and> (snd nd \<noteq> '''' \<longrightarrow> pg_lower E (u_domain u) = pg_lower E (snd nd))) (tb_users t)"

definition note_of :: "string \<Rightarrow> push_row \<Rightarrow> push_note" where
  "note_of payload p = \<lparr> pn_endpoint = pu_endpoint p, pn_p256dh = pu_p256dh p, pn_auth = pu_auth p, pn_payload = payload \<rparr>"

definition SendToUser :: "env \<Rightarrow> push \<Rightarrow> string \<Rightarrow> string \<Rightarrow> (sess, push_note list) state" where
  "SendToUser E P addr payload =
     (if \<not> Enabled P then ret []
      else (case push_target addr of
        None \<Rightarrow> ret []
      | Some nd \<Rightarrow> do {
          q \<leftarrow> query_row (\<lambda>t. map u_id (named_users E nd t));
          case q of
            Inl _ \<Rightarrow> ret []
          | Inr userID \<Rightarrow> do {
              rs \<leftarrow> query (\<lambda>t. filter (\<lambda>p. pu_user p = userID) (tb_push t));
              ret (case rs of
                Inl _ \<Rightarrow> []
              | Inr (rows, _) \<Rightarrow> map (note_of payload) rows) } }))"

text \<open>The title and the end of the body, in UTF-8; \<open>marshal\<close> writes the two as a JSON object.\<close>

definition message_title :: string where
  "message_title = [CHR 0xD0, CHR 0x9D, CHR 0xD0, CHR 0xBE, CHR 0xD0, CHR 0xB2, CHR 0xD0, CHR 0xBE, CHR 0xD0, CHR 0xB5, CHR 0x20, CHR 0xD1, CHR 0x81, CHR 0xD0,
     CHR 0xBE, CHR 0xD0, CHR 0xBE, CHR 0xD0, CHR 0xB1, CHR 0xD1, CHR 0x89, CHR 0xD0, CHR 0xB5, CHR 0xD0, CHR 0xBD, CHR 0xD0, CHR 0xB8, CHR 0xD0,
     CHR 0xB5]"

definition message_tail :: string where
  "message_tail = [CHR 0x3A, CHR 0x20, CHR 0xD0, CHR 0xBD, CHR 0xD0, CHR 0xBE, CHR 0xD0, CHR 0xB2, CHR 0xD0, CHR 0xBE, CHR 0xD0, CHR 0xB5, CHR 0x20, CHR 0xD1,
     CHR 0x81, CHR 0xD0, CHR 0xBE, CHR 0xD0, CHR 0xBE, CHR 0xD0, CHR 0xB1, CHR 0xD1, CHR 0x89, CHR 0xD0, CHR 0xB5, CHR 0xD0, CHR 0xBD, CHR 0xD0,
     CHR 0xB8, CHR 0xD0, CHR 0xB5]"

definition NotifyNewMessage :: "env \<Rightarrow> (string \<Rightarrow> string \<Rightarrow> string) \<Rightarrow> push \<Rightarrow> string \<Rightarrow> string \<Rightarrow> (sess, push_note list) state" where
  "NotifyNewMessage E marshal P addr senderLabel = SendToUser E P addr (marshal message_title (senderLabel @ message_tail))"

section \<open>Properties\<close>

text \<open>A notification goes only to subscriptions of a user with the name (and, if it is given, the
  domain) of the address, up to the case of letters, under any faults of the database; sending
  changes no table.\<close>

theorem SendToUser_only_named:
  assumes "run_state (SendToUser E P addr payload) s = (notes, s')"
  shows "tabs s' = tabs s \<and> (notes = [] \<or> (\<exists>nd u. Enabled P \<and> push_target addr = Some nd \<and> u \<in> set (named_users E nd (tabs s))
    \<and> set notes \<subseteq> note_of payload ` {p \<in> set (tb_push (tabs s)). pu_user p = u_id u}))"
proof (cases "Enabled P \<and> push_target addr \<noteq> None")
  case True
  then obtain nd where nd: "push_target addr = Some nd" "Enabled P" by auto
  obtain q s1 where q: "run_state (query_row (\<lambda>t. map u_id (named_users E nd t))) s = (q, s1)" by fastforce
  note t1 = query_row_tabs [OF q]
  show ?thesis
  proof (cases q)
    case (Inl e)
    then show ?thesis using assms nd q t1 by (simp add: SendToUser_def)
  next
    case (Inr userID)
    then obtain u us where u: "named_users E nd (tabs s) = u # us" "userID = u_id u"
      using query_row_InrD [OF q [unfolded Inr]] by (cases "named_users E nd (tabs s)") auto
    obtain rs s2 where rs: "run_state (query (\<lambda>t. filter (\<lambda>p. pu_user p = userID) (tb_push t))) s1 = (rs, s2)" by fastforce
    note t2 = query_tabs [OF rs]
    have r: "s' = s2" "notes = (case rs of Inl _ \<Rightarrow> [] | Inr (rows, _) \<Rightarrow> map (note_of payload) rows)"
      using assms nd q Inr rs by (simp_all add: SendToUser_def)
    have "set notes \<subseteq> note_of payload ` {p \<in> set (tb_push (tabs s)). pu_user p = u_id u}"
    proof (cases rs)
      case (Inr x)
      then obtain rows b where x: "rs = Inr (rows, b)" by (cases x) auto
      obtain k where "rows = take k (filter (\<lambda>p. pu_user p = userID) (tb_push (tabs s1)))" using query_InrD [OF rs [unfolded x]] by blast
      then show ?thesis using r(2) x t1 u(2) by (auto dest: in_set_takeD)
    qed (use r in simp)
    moreover have "u \<in> set (named_users E nd (tabs s))" using u(1) by simp
    ultimately show ?thesis unfolding r(1) t2 t1 using nd by blast
  qed
next
  case False
  then have "Enabled P \<Longrightarrow> push_target addr = None" by blast
  then show ?thesis using assms by (cases "Enabled P") (simp_all add: SendToUser_def)
qed

lemma put_push_users: "tb_users (snd (put_push u dev ep k a t)) = tb_users t"
  by (simp add: put_push_def)

lemma put_push_row:
  assumes "put_push u dev ep k a t = (Inr (), t')"
  shows "\<exists>p \<in> set (tb_push t'). pu_user p = u \<and> pu_endpoint p = ep \<and> pu_p256dh p = k \<and> pu_auth p = a"
proof (cases "ep \<in> pu_endpoint ` set (tb_push t)")
  case True
  let ?f = "\<lambda>p. if pu_endpoint p = ep then p\<lparr>pu_user := u, pu_device := dev, pu_p256dh := k, pu_auth := a\<rparr> else p"
  from True obtain p where p: "p \<in> set (tb_push t)" "pu_endpoint p = ep" by blast
  from assms True have "tb_push t' = map ?f (tb_push t)" by (auto simp: put_push_def split: if_splits)
  then have "?f p \<in> set (tb_push t')" using imageI [OF p(1), of ?f] by (simp only: set_map)
  then show ?thesis using p(2) by (intro bexI [of _ "?f p"]) simp_all
next
  case False
  then show ?thesis using assms by (auto simp: put_push_def split: if_splits)
qed

text \<open>After a subscription that is stored, the first user of that name is notified on it.\<close>

lemma Subscribe_SendToUser:
  assumes "faults s = []" "run_state (Subscribe u dev ep k a) s = (Inr (), s1)" "ep \<noteq> ''''" "k \<noteq> ''''" "a \<noteq> ''''"
    and "Enabled P" "push_target addr = Some nd" "named_users E nd (tabs s) = w # ws" "u_id w = u"
  shows "\<lparr> pn_endpoint = ep, pn_p256dh = k, pn_auth = a, pn_payload = payload \<rparr> \<in> set (fst (run_state (SendToUser E P addr payload) s1))"
proof -
  have s1: "faults s1 = []" "put_push u dev ep k a (tabs s) = (Inr (), tabs s1)"
    using assms(1-5) by (auto simp: Subscribe_def sql_simps split: prod.splits)
  then have n: "named_users E nd (tabs s1) = w # ws" using assms(8) put_push_users [of u dev ep k a "tabs s"] by (simp add: named_users_def)
  from put_push_row [OF s1(2)]
  show ?thesis using assms(6,7,9) n s1(1) by (auto simp: SendToUser_def sql_simps image_iff note_of_def)
qed

definition demo_push :: push where
  "demo_push = \<lparr> pw_vapidPublic = ''p'', pw_vapidPrivate = ''q'' \<rparr>"

definition demo_push_tables :: tables where
  "demo_push_tables = empty_tables\<lparr>tb_users := [\<lparr> u_id = 1, u_username = ''ann'', u_domain = ''a.org'', u_password_hash = None \<rparr>],
     tb_push := [\<lparr> pu_user = 1, pu_device = 7, pu_endpoint = ''e1'', pu_p256dh = ''k1'', pu_auth = ''a1'' \<rparr>,
       \<lparr> pu_user = 2, pu_device = 8, pu_endpoint = ''e2'', pu_p256dh = ''k2'', pu_auth = ''a2'' \<rparr>]\<rparr>"

lemma push_target_ann: "push_target ''@ann:a.org'' = Some (''ann'', ''a.org'')"
proof -
  have "TrimSpace ''@ann:a.org'' = ''@ann:a.org''" "TrimSpace ''ann'' = ''ann''" "TrimSpace ''a.org'' = ''a.org''"
    by (rule TrimSpace_all_visible, code_simp)+
  then show ?thesis by (simp add: push_target_def SplitN2_def Let_def)
qed

theorem SendToUser_only_named_witness:
  "\<exists>notes s'. run_state (SendToUser demo_env demo_push ''@ann:a.org'' ''hello'') (session_on demo_push_tables []) = (notes, s')
    \<and> notes \<noteq> [] \<and> set notes \<subseteq> note_of ''hello'' ` {p \<in> set (tb_push demo_push_tables). pu_user p = 1}"
proof -
  let ?s = "session_on demo_push_tables []"
  obtain ns s' where r: "run_state (SendToUser demo_env demo_push ''@ann:a.org'' ''hello'') ?s = (ns, s')" by fastforce
  have "ns \<noteq> []"
    using r by (auto simp: SendToUser_def push_target_ann Enabled_def demo_push_def demo_push_tables_def named_users_def demo_env_def
        session_on_def sql_simps split: if_splits)
  moreover have "u_id u = 1" if "u \<in> set (named_users demo_env nd (tabs ?s))" for u nd
    using that unfolding named_users_def set_filter by (simp add: demo_push_tables_def session_on_def)
  moreover have "tabs ?s = demo_push_tables" by (simp add: session_on_def)
  ultimately have "set ns \<subseteq> note_of ''hello'' ` {p \<in> set (tb_push demo_push_tables). pu_user p = 1}"
    using SendToUser_only_named [OF r] by (elim conjE disjE exE) simp_all
  with r \<open>ns \<noteq> []\<close> show ?thesis by blast
qed

end
