(* ===== verification/Wg_Stats.thy ===== *)
theory Wg_Stats
  imports Go_Enc
begin

text \<open>
  The traffic of WireGuard peers, read from the output of \<open>wg show\<close>
  (\<open>src/server/internal/vpn/wg_stats.go\<close>). The two regular expressions are written out as searches;
  what is left to a parameter is the product of a floating-point number and a unit.
\<close>

text \<open>\<open>\s\<close> of package \<open>regexp\<close>.\<close>

definition re_space :: "char \<Rightarrow> bool" where
  "re_space c \<longleftrightarrow> c \<in> {CHR 0x09, CHR 0x0A, CHR 0x0C, CHR 0x0D, CHR '' ''}"

text \<open>What follows a word at the start of a line, after white space.\<close>

definition after_word :: "string \<Rightarrow> string \<Rightarrow> string option" where
  "after_word w line = (let s = dropWhile re_space line in if HasPrefix s w then Some (drop (length w) s) else None)"

text \<open>\<open>^\s*peer:\s*(.+)$\<close>, with the group trimmed as the code does.\<close>

definition peer_line :: "string \<Rightarrow> string option" where
  "peer_line line = (case after_word ''peer:'' line of None \<Rightarrow> None | Some r \<Rightarrow> if r = '''' then None else Some (TrimSpace r))"

text \<open>
  A group \<open>(.+)\<close> is greedy: it ends before the last white space that the word follows. \<open>last_split\<close>
  is the place of that white space, with a test on what comes after the word.
\<close>

definition last_split :: "string \<Rightarrow> (string \<Rightarrow> bool) \<Rightarrow> string \<Rightarrow> nat option" where
  "last_split w ok s =
     (case filter (\<lambda>i. re_space (s ! i) \<and> HasPrefix (drop (Suc i) s) w \<and> ok (drop (Suc i + length w) s)) [1..<length s] of
        [] \<Rightarrow> None | is \<Rightarrow> Some (last is))"

text \<open>\<open>^\s*transfer:\s*(.+)\s+received,\s*(.+)\s+sent\<close>\<close>

definition transfer_line :: "string \<Rightarrow> (string \<times> string) option" where
  "transfer_line line =
     (case after_word ''transfer:'' line of
        None \<Rightarrow> None
      | Some r \<Rightarrow>
          (case last_split ''received,'' (\<lambda>t. last_split ''sent'' (\<lambda>_. True) t \<noteq> None) r of
             None \<Rightarrow> None
           | Some i \<Rightarrow>
               (let t = drop (Suc i + length ''received,'') r in
                case last_split ''sent'' (\<lambda>_. True) t of None \<Rightarrow> None | Some j \<Rightarrow> Some (take i r, take j t))))"

text \<open>\<open>scale s m\<close> is \<open>int64(f * float64(m))\<close> for the \<open>f\<close> that \<open>ParseFloat\<close> gives for \<open>s\<close>.\<close>

definition parseWGTransfer :: "(string \<Rightarrow> int \<Rightarrow> int) \<Rightarrow> string \<Rightarrow> int" where
  "parseWGTransfer scale s0 =
     (let s = TrimSpace s0 in
      if HasSuffix s '' GiB'' then scale (TrimSpace (TrimSuffix s '' GiB'')) (1024 * 1024 * 1024)
      else if HasSuffix s '' MiB'' then scale (TrimSpace (TrimSuffix s '' MiB'')) (1024 * 1024)
      else if HasSuffix s '' KiB'' then scale (TrimSpace (TrimSuffix s '' KiB'')) 1024
      else if HasSuffix s '' B'' then scale (TrimSpace (TrimSuffix s '' B'')) 1
      else scale (TrimSpace s) 1)"

definition wg_line :: "(string \<Rightarrow> int \<Rightarrow> int) \<Rightarrow> string \<Rightarrow> (string \<Rightarrow> (int \<times> int) option) \<times> string \<Rightarrow> (string \<Rightarrow> (int \<times> int) option) \<times> string" where
  "wg_line scale line st = (case st of (res, current) \<Rightarrow>
     (case peer_line line of
        Some p \<Rightarrow> (res, p)
      | None \<Rightarrow>
          (case transfer_line line of
             Some (a, b) \<Rightarrow> if current \<noteq> '''' then (res(current \<mapsto> (parseWGTransfer scale a, parseWGTransfer scale b)), '''') else (res, current)
           | None \<Rightarrow> (res, current))))"

definition parseWGShow :: "(string \<Rightarrow> int \<Rightarrow> int) \<Rightarrow> string \<Rightarrow> (string \<Rightarrow> (int \<times> int) option)" where
  "parseWGShow scale out = fst (fold (wg_line scale) (SplitC (CHR 0x0A) out) (Map.empty, ''''))"

text \<open>Two peers, one without traffic.\<close>

lemma parse_demo:
  "transfer_line ''  transfer: 1.23 MiB received, 4.56 KiB sent'' = Some ('' 1.23 MiB'', '' 4.56 KiB'')"
  "peer_line ''peer: abc='' = Some ''abc=''" "peer_line ''  transfer: 1.23 MiB received, 4.56 KiB sent'' = None"
  "TrimSpace '' 1.23 MiB'' = ''1.23 MiB''" "TrimSpace '' 4.56 KiB'' = ''4.56 KiB''" "TrimSpace ''1.23'' = ''1.23''" "TrimSpace ''4.56'' = ''4.56''"
  "peer_line ''peer: def='' = Some ''def=''"
  by code_simp+

lemma parseWGShow_demo:
  "parseWGShow scale (''peer: abc='' @ [CHR 0x0A] @ ''  transfer: 1.23 MiB received, 4.56 KiB sent'' @ [CHR 0x0A] @ ''peer: def='')
    = [''abc='' \<mapsto> (scale ''1.23'' 1048576, scale ''4.56'' 1024)]"
proof -
  have s: "SplitC (CHR 0x0A) (''peer: abc='' @ [CHR 0x0A] @ ''  transfer: 1.23 MiB received, 4.56 KiB sent'' @ [CHR 0x0A] @ ''peer: def='')
    = [''peer: abc='', ''  transfer: 1.23 MiB received, 4.56 KiB sent'', ''peer: def='']" by code_simp
  have "parseWGTransfer scale '' 1.23 MiB'' = scale ''1.23'' 1048576" "parseWGTransfer scale '' 4.56 KiB'' = scale ''4.56'' 1024"
    by (simp_all add: parseWGTransfer_def parse_demo HasSuffix_def TrimSuffix_def)
  then show ?thesis unfolding parseWGShow_def s by (simp add: wg_line_def parse_demo)
qed

text \<open>A transfer line of nobody is not counted, and the counters of a peer are those of its last line.\<close>

lemma wg_line_nobody: "peer_line line = None \<Longrightarrow> wg_line scale line (res, '''') = (res, '''')"
  by (auto simp: wg_line_def split: option.splits)

end
