(* ===== verification/Vpn.thy ===== *)
theory Vpn
  imports Database Wg_Stats
begin

unbundle bit_operations_syntax

text \<open>
  Package \<open>vpn\<close> (\<open>src/server/internal/vpn\<close>): the configurations of WireGuard, OpenVPN and Xray the
  server gives out (\<open>service.go\<close>), the nodes (\<open>nodes.go\<close>), keys (\<open>keys.go\<close>), the texts
  (\<open>wireguard.go\<close>, \<open>xray.go\<close>) and the retries of the Xray API (\<open>xrayapi.go\<close>). The commands given to
  the \<open>wg\<close> tool and to Xray are a log of the state; whether Xray answers, what \<open>wg show\<close> prints and
  the curve are parameters.
\<close>

section \<open>Configuration and state\<close>

record vpn_config =
  vc_Enabled :: bool
  vc_DefaultExpiryDays :: int
  vc_wg_Enabled :: bool
  vc_wg_Endpoint :: string
  vc_wg_ServerPubKey :: string
  vc_wg_StatsInterface :: string
  vc_ovpn_Enabled :: bool
  vc_ovpn_Endpoint :: string
  vc_xray_Enabled :: bool
  vc_xray_Endpoint :: string
  vc_xray_APIAddr :: string
  vc_VmessPort :: int
  vc_VlessPort :: int
  vc_TrojanPort :: int

text \<open>The accounts of the three protocols; that of VLESS has a flow and an encryption.\<close>

datatype xray_account = VMessAccount string | VLESSAccount string string string | TrojanAccount string

datatype vpn_call = WgRemove string string | XrayAdd string xray_account string | XrayRemove string string

record node_seed =
  ng_Name :: string
  ng_Region :: string
  ng_WireGuardEndpoint :: string
  ng_WireGuardServerPubKey :: string
  ng_OpenVPNEndpoint :: string
  ng_XrayEndpoint :: string
  ng_IsDefault :: bool

text \<open>
  \<open>xr_dial\<close> says whether Xray is reached at start-up, \<open>xr_answer\<close> whether the last call of a log
  succeeds, \<open>xr_cancelled\<close> whether the request is given up in the wait after it; \<open>wg_show\<close> is the
  output of \<open>wg show\<close> (\<open>None\<close> when it fails); \<open>by_node_name\<close> is \<open>ORDER BY name\<close>.
\<close>

record vpn_env =
  xr_dial :: "string \<Rightarrow> bool"
  xr_answer :: "vpn_call list \<Rightarrow> bool"
  xr_cancelled :: "vpn_call list \<Rightarrow> bool"
  wg_show :: "vpn_call list \<Rightarrow> string \<Rightarrow> string option"
  wg_scale :: "string \<Rightarrow> int \<Rightarrow> int"
  scalar_base_mult :: "bytes \<Rightarrow> bytes"
  vmess_json :: "(string \<times> string) list \<Rightarrow> string"
  unm_nodes :: "string \<Rightarrow> node_seed list option"
  by_node_name :: "vnode_row list \<Rightarrow> vnode_row list"

record vpn_state =
  vs_sess :: sess
  vs_calls :: "vpn_call list"

definition in_db :: "(sess, 'a) state \<Rightarrow> (vpn_state, 'a) state" where
  "in_db m = State (\<lambda>v. case run_state m (vs_sess v) of (x, s) \<Rightarrow> (x, v\<lparr>vs_sess := s\<rparr>))"

definition call :: "vpn_call \<Rightarrow> (vpn_state, unit) state" where
  "call k = State (\<lambda>v. ((), v\<lparr>vs_calls := vs_calls v @ [k]\<rparr>))"

datatype vpn_err = VpnDisabled | VpnExpired | TrafficExceeded int int | WgDisabled | OvpnDisabled | XrayDisabled | XrayNoEndpoint
  | UnknownProtocol string | PoolExhausted db_err | VpnRandom | NodesJSON | NodeHasPeers int | VpnDB db_err

section \<open>Keys\<close>

text \<open>\<open>priv[0] &= 248; priv[31] &= 127; priv[31] |= 64\<close>\<close>

definition clamp :: "bytes \<Rightarrow> bytes" where
  "clamp b = b[0 := char_of (of_char (b ! 0) AND (248 :: nat)), 31 := char_of ((of_char (b ! 31) AND 127) OR (64 :: nat))]"

definition WireGuardKeyPair :: "vpn_env \<Rightarrow> (sess, (string \<times> string) option) state" where
  "WireGuardKeyPair V = do {
     r \<leftarrow> rand_read 32;
     ret (case r of None \<Rightarrow> None | Some b \<Rightarrow> Some (b64_encode (clamp b), b64_encode (scalar_base_mult V (clamp b)))) }"

definition GenerateXrayUUID :: "env \<Rightarrow> (sess, string) state" where
  "GenerateXrayUUID E = do { u \<leftarrow> uuid_new; ret (uuid_str E u) }"

text \<open>\<open>base64.RawURLEncoding\<close> of 24 bytes: 32 characters, - and _ for + and /.\<close>

definition GenerateTrojanPassword :: "(sess, string option) state" where
  "GenerateTrojanPassword = do {
     r \<leftarrow> rand_read 24;
     ret (case r of None \<Rightarrow> None
       | Some b \<Rightarrow> Some (take 32 (map (\<lambda>c. if c = CHR ''+'' then CHR ''-'' else if c = CHR ''/'' then CHR ''_'' else c) (b64_encode b)))) }"

section \<open>Texts\<close>

definition BuildWireGuardConf :: "string \<Rightarrow> string \<Rightarrow> string \<Rightarrow> string \<Rightarrow> string \<Rightarrow> string" where
  "BuildWireGuardConf clientPrivKey clientPubKey serverPubKey endpoint clientAddress =
     ''[Interface]'' @ [CHR 0x0A] @ ''PrivateKey = '' @ clientPrivKey @ [CHR 0x0A] @ ''Address = '' @ clientAddress @ [CHR 0x0A]
     @ ''DNS = 1.1.1.1, 8.8.8.8'' @ [CHR 0x0A, CHR 0x0A] @ ''[Peer]'' @ [CHR 0x0A] @ ''PublicKey = '' @ serverPubKey @ [CHR 0x0A]
     @ ''Endpoint = '' @ endpoint @ [CHR 0x0A] @ ''AllowedIPs = 0.0.0.0/0, ::/0'' @ [CHR 0x0A]"

text \<open>\<open>vmess_json\<close> marshals the map, whose keys JSON sorts.\<close>

definition BuildVMessURL :: "vpn_env \<Rightarrow> string \<Rightarrow> string \<Rightarrow> string \<Rightarrow> string \<Rightarrow> string" where
  "BuildVMessURL V i host port0 remark0 =
     (let port = (if port0 = '''' then ''443'' else port0); remark = (if remark0 = '''' then ''messenger'' else remark0) in
      ''vmess://'' @ b64_encode (vmess_json V [(''v'', ''2''), (''ps'', remark), (''add'', host), (''port'', port), (''id'', i), (''aid'', ''0''), (''scy'', ''auto''),
        (''net'', ''tcp''), (''type'', ''none''), (''host'', ''''), (''path'', ''''), (''tls'', ''tls''), (''sni'', host), (''alpn'', ''h2,http/1.1'')]))"

text \<open>\<open>url.Values.Encode\<close>: the pairs in the order of their keys (given in that order), escaped.\<close>

definition encode_values :: "(string \<times> string) list \<Rightarrow> string" where
  "encode_values kvs = concat (map (\<lambda>(i, k, v). (if i = 0 then '''' else ''&'') @ QueryEscape k @ ''='' @ QueryEscape v) (zip [0 ..< length kvs] kvs))"

definition BuildVLESSURL :: "string \<Rightarrow> string \<Rightarrow> string \<Rightarrow> string \<Rightarrow> string" where
  "BuildVLESSURL i host port0 remark =
     (let port = (if port0 = '''' then ''443'' else port0) in
      ''vless://'' @ i @ ''@'' @ host @ '':'' @ port @ ''?'' @ encode_values ([(''alpn'', ''h2,http/1.1''), (''flow'', ''xtls-rprx-vision'')]
        @ (if remark \<noteq> '''' then [(''name'', QueryEscape remark)] else []) @ [(''security'', ''xtls''), (''sni'', host), (''type'', ''tcp'')]))"

definition BuildTrojanURL :: "string \<Rightarrow> string \<Rightarrow> string \<Rightarrow> string \<Rightarrow> string" where
  "BuildTrojanURL password host port0 remark =
     (let port = (if port0 = '''' then ''443'' else port0) in
      ''trojan://'' @ PathEscape password @ ''@'' @ host @ '':'' @ port @ ''?'' @ encode_values ([(''alpn'', ''h2,http/1.1'')]
        @ (if remark \<noteq> '''' then [(''name'', QueryEscape remark)] else []) @ [(''security'', ''tls''), (''sni'', host)]))"

definition parseHostPort :: "string \<Rightarrow> string \<times> string" where
  "parseHostPort endpoint =
     (if endpoint = '''' then ('''', ''443'')
      else if HasPrefix endpoint ''['' then
        (case Index endpoint '']:'' of
           Some idx \<Rightarrow> if idx > 0 then (take (idx + 1) endpoint, drop (idx + 2) endpoint) else (endpoint, ''443'')
         | None \<Rightarrow> (endpoint, ''443''))
      else (case LastIndexC endpoint (CHR '':'') of
           Some idx \<Rightarrow> if idx > 0 then (take idx endpoint, drop (idx + 1) endpoint) else (endpoint, ''443'')
         | None \<Rightarrow> (endpoint, ''443'')))"

section \<open>Nodes\<close>

fun derive_ping :: "string list \<Rightarrow> string" where
  "derive_ping [] = ''''"
| "derive_ping (ep # eps) =
     (if ep = '''' then derive_ping eps
      else (let host = TrimSpace (case LastIndexC ep (CHR '':'') of Some idx \<Rightarrow> if idx > 0 then take idx ep else ep | None \<Rightarrow> ep) in
        if host \<noteq> '''' \<and> \<not> HasPrefix host ''['' then ''https://'' @ host @ ''/'' else derive_ping eps))"

definition derivePingURL :: "string \<Rightarrow> string \<Rightarrow> string \<Rightarrow> string" where
  "derivePingURL wg ovpn xray = derive_ping [xray, ovpn, wg]"

definition pinged :: "vnode_row \<Rightarrow> vnode_row \<times> string" where
  "pinged n = (n, derivePingURL (vn_wg_endpoint n) (vn_ovpn_endpoint n) (vn_xray_endpoint n))"

definition default_first :: "vnode_row list \<Rightarrow> vnode_row list" where
  "default_first ns = filter vn_default ns @ filter (\<lambda>n. \<not> vn_default n) ns"

definition ListNodes :: "vpn_env \<Rightarrow> (sess, db_err + (vnode_row \<times> string) list) state" where
  "ListNodes V = do {
     q \<leftarrow> query (\<lambda>t. default_first (by_node_name V (tb_vnodes t)));
     ret (case q of Inl e \<Rightarrow> Inl e | Inr (rows, _) \<Rightarrow> Inr (map pinged rows)) }"

definition GetNode :: "uuid \<Rightarrow> (sess, db_err + vnode_row) state" where
  "GetNode i = query_row (\<lambda>t. filter (\<lambda>n. vn_id n = i) (tb_vnodes t))"

definition GetDefaultNode :: "vpn_config \<Rightarrow> (sess, db_err + vnode_row) state" where
  "GetDefaultNode C = do {
     q \<leftarrow> query (\<lambda>t. take 1 (default_first (tb_vnodes t)));
     ret (case q of
       Inl e \<Rightarrow> Inl e
     | Inr (n # _, _) \<Rightarrow> Inr n
     | Inr ([], _) \<Rightarrow> Inr \<lparr> vn_id = 0, vn_name = ''Default'', vn_region = '''', vn_wg_endpoint = vc_wg_Endpoint C, vn_wg_pubkey = vc_wg_ServerPubKey C,
         vn_ovpn_endpoint = vc_ovpn_Endpoint C, vn_xray_endpoint = vc_xray_Endpoint C, vn_default = True \<rparr>) }"

definition ResolveNode :: "vpn_config \<Rightarrow> uuid option \<Rightarrow> (sess, db_err + vnode_row) state" where
  "ResolveNode C nodeID =
     (case nodeID of
        None \<Rightarrow> GetDefaultNode C
      | Some i \<Rightarrow>
          if i = 0 then GetDefaultNode C
          else do { n \<leftarrow> GetNode i; case n of Inr x \<Rightarrow> ret (Inr x) | Inl _ \<Rightarrow> GetDefaultNode C })"

definition or_else :: "string \<Rightarrow> string \<Rightarrow> string" where
  "or_else a b = (if a \<noteq> '''' then a else b)"

definition EffectiveWGEndpoint :: "vpn_config \<Rightarrow> vnode_row \<Rightarrow> string" where
  "EffectiveWGEndpoint C n = or_else (vn_wg_endpoint n) (vc_wg_Endpoint C)"

definition EffectiveWGServerPubKey :: "vpn_config \<Rightarrow> vnode_row \<Rightarrow> string" where
  "EffectiveWGServerPubKey C n = or_else (vn_wg_pubkey n) (vc_wg_ServerPubKey C)"

definition EffectiveOpenVPNEndpoint :: "vpn_config \<Rightarrow> vnode_row \<Rightarrow> string" where
  "EffectiveOpenVPNEndpoint C n = or_else (vn_ovpn_endpoint n) (vc_ovpn_Endpoint C)"

definition EffectiveXrayEndpoint :: "vpn_config \<Rightarrow> vnode_row \<Rightarrow> string" where
  "EffectiveXrayEndpoint C n = or_else (vn_xray_endpoint n) (vc_xray_Endpoint C)"

text \<open>The statements on \<open>vpn_nodes\<close>, with the unique indexes on the name and on the default.\<close>

definition undefault :: "(vnode_row \<Rightarrow> bool) \<Rightarrow> tables \<Rightarrow> (db_err + unit) \<times> tables" where
  "undefault A t = (Inr (), t\<lparr>tb_vnodes := map (\<lambda>n. if A n then n\<lparr>vn_default := False\<rparr> else n) (tb_vnodes t)\<rparr>)"

definition unique_nodes :: "vnode_row list \<Rightarrow> bool" where
  "unique_nodes ns \<longleftrightarrow> distinct (map vn_id ns) \<and> distinct (map vn_name ns) \<and> length (filter vn_default ns) \<le> 1"

definition checked_nodes :: "vnode_row list \<Rightarrow> tables \<Rightarrow> (db_err + unit) \<times> tables" where
  "checked_nodes ns t = (if unique_nodes ns then (Inr (), t\<lparr>tb_vnodes := ns\<rparr>) else (Inl UniqueViolation, t))"

definition CreateNode :: "string \<Rightarrow> string \<Rightarrow> string \<Rightarrow> string \<Rightarrow> string \<Rightarrow> bool \<Rightarrow> (sess, db_err + vnode_row) state" where
  "CreateNode name region wgEndpoint wgPubKey ovpnEndpoint isDefault = do {
     _ \<leftarrow> (if isDefault then stmt (undefault (\<lambda>_. True)) else ret (Inr ()));
     i \<leftarrow> uuid_new;
     let n = \<lparr> vn_id = i, vn_name = name, vn_region = region, vn_wg_endpoint = wgEndpoint, vn_wg_pubkey = wgPubKey,
               vn_ovpn_endpoint = ovpnEndpoint, vn_xray_endpoint = '''', vn_default = isDefault \<rparr> in do {
     x \<leftarrow> stmt (\<lambda>t. checked_nodes (tb_vnodes t @ [n]) t);
     ret (case x of Inl e \<Rightarrow> Inl e | Inr _ \<Rightarrow> Inr n) } }"

definition UpdateNode :: "uuid \<Rightarrow> string \<Rightarrow> string \<Rightarrow> string \<Rightarrow> string \<Rightarrow> string \<Rightarrow> bool \<Rightarrow> (sess, db_err + unit) state" where
  "UpdateNode i name region wgEndpoint wgPubKey ovpnEndpoint isDefault = do {
     _ \<leftarrow> (if isDefault then stmt (undefault (\<lambda>n. vn_id n \<noteq> i)) else ret (Inr ()));
     stmt (\<lambda>t. checked_nodes (map (\<lambda>n. if vn_id n = i then n\<lparr>vn_name := name, vn_region := region, vn_wg_endpoint := wgEndpoint,
       vn_wg_pubkey := wgPubKey, vn_ovpn_endpoint := ovpnEndpoint, vn_default := isDefault\<rparr> else n) (tb_vnodes t)) t) }"

definition put_seed :: "uuid \<Rightarrow> node_seed \<Rightarrow> tables \<Rightarrow> (db_err + unit) \<times> tables" where
  "put_seed i g t =
     (if ng_Name g \<in> vn_name ` set (tb_vnodes t)
      then checked_nodes (map (\<lambda>n. if vn_name n = ng_Name g then n\<lparr>vn_region := ng_Region g, vn_wg_endpoint := ng_WireGuardEndpoint g,
        vn_wg_pubkey := ng_WireGuardServerPubKey g, vn_ovpn_endpoint := ng_OpenVPNEndpoint g, vn_xray_endpoint := ng_XrayEndpoint g,
        vn_default := ng_IsDefault g\<rparr> else n) (tb_vnodes t)) t
      else checked_nodes (tb_vnodes t @ [\<lparr> vn_id = i, vn_name = ng_Name g, vn_region = ng_Region g, vn_wg_endpoint = ng_WireGuardEndpoint g,
        vn_wg_pubkey = ng_WireGuardServerPubKey g, vn_ovpn_endpoint = ng_OpenVPNEndpoint g, vn_xray_endpoint = ng_XrayEndpoint g,
        vn_default = ng_IsDefault g \<rparr>]) t)"

definition seed_node :: "node_seed \<Rightarrow> (sess, vpn_err + unit) state" where
  "seed_node g =
     (if ng_Name g = '''' then ret (Inr ())
      else do {
        _ \<leftarrow> (if ng_IsDefault g then stmt (undefault (\<lambda>_. True)) else ret (Inr ()));
        i \<leftarrow> uuid_new;
        x \<leftarrow> stmt (put_seed i g);
        ret (case x of Inl e \<Rightarrow> Inl (VpnDB e) | Inr _ \<Rightarrow> Inr ()) })"

definition SeedFromJSON :: "vpn_env \<Rightarrow> string \<Rightarrow> (sess, vpn_err + unit) state" where
  "SeedFromJSON V jsonStr =
     (if jsonStr = '''' then ret (Inr ())
      else (case unm_nodes V jsonStr of None \<Rightarrow> ret (Inl NodesJSON) | Some gs \<Rightarrow> for_err seed_node gs))"

text \<open>\<open>ON DELETE SET NULL\<close> for the peers of the node.\<close>

definition DeleteNode :: "uuid \<Rightarrow> (sess, vpn_err + unit) state" where
  "DeleteNode i = do {
     q \<leftarrow> query_row (\<lambda>t. [int (length (filter (\<lambda>p. vp_node p = Some i) (tb_vpeers t)))]);
     case q of
       Inl e \<Rightarrow> ret (Inl (VpnDB e))
     | Inr count \<Rightarrow>
         if count > 0 then ret (Inl (NodeHasPeers count))
         else do {
           x \<leftarrow> stmt (\<lambda>t. (Inr (), t\<lparr>tb_vnodes := filter (\<lambda>n. vn_id n \<noteq> i) (tb_vnodes t),
                  tb_vpeers := map (\<lambda>p. if vp_node p = Some i then p\<lparr>vp_node := None\<rparr> else p) (tb_vpeers t)\<rparr>));
           ret (case x of Inl e \<Rightarrow> Inl (VpnDB e) | Inr _ \<Rightarrow> Inr ()) } }"

section \<open>The Xray API\<close>

definition inboundTagVMess :: string where "inboundTagVMess = ''vmess-in''"
definition inboundTagVLESS :: string where "inboundTagVLESS = ''vless-in''"
definition inboundTagTrojan :: string where "inboundTagTrojan = ''trojan-in''"
definition xrayRetries :: nat where "xrayRetries = 3"

text \<open>\<open>New\<close> leaves the client nil when it is not configured or cannot be reached.\<close>

definition xray_client :: "vpn_env \<Rightarrow> vpn_config \<Rightarrow> bool" where
  "xray_client V C \<longleftrightarrow> vc_xray_Enabled C \<and> vc_xray_APIAddr C \<noteq> '''' \<and> xr_dial V (vc_xray_APIAddr C)"

text \<open>The loop of \<open>xrayRetry\<close> with \<open>left\<close> attempts left; the waits between them are not timed.\<close>

fun xray_loop :: "vpn_env \<Rightarrow> vpn_call \<Rightarrow> bool \<Rightarrow> nat \<Rightarrow> (vpn_state, bool) state" where
  "xray_loop V k first 0 = ret False"
| "xray_loop V k first (Suc left) = do {
     v \<leftarrow> State_Monad.get;
     if \<not> first \<and> xr_cancelled V (vs_calls v) then ret False
     else do {
       _ \<leftarrow> call k;
       v1 \<leftarrow> State_Monad.get;
       if xr_answer V (vs_calls v1) then ret True else xray_loop V k False left } }"

definition xrayRetry :: "vpn_env \<Rightarrow> vpn_call \<Rightarrow> (vpn_state, bool) state" where
  "xrayRetry V k = xray_loop V k True xrayRetries"

definition AddVMessUser :: "vpn_env \<Rightarrow> string \<Rightarrow> string \<Rightarrow> (vpn_state, bool) state" where
  "AddVMessUser V uuid email = xrayRetry V (XrayAdd inboundTagVMess (VMessAccount uuid) email)"

definition AddVLESSUser :: "vpn_env \<Rightarrow> string \<Rightarrow> string \<Rightarrow> (vpn_state, bool) state" where
  "AddVLESSUser V uuid email = xrayRetry V (XrayAdd inboundTagVLESS (VLESSAccount uuid ''xtls-rprx-vision'' ''none'') email)"

definition AddTrojanUser :: "vpn_env \<Rightarrow> string \<Rightarrow> string \<Rightarrow> (vpn_state, bool) state" where
  "AddTrojanUser V password email = xrayRetry V (XrayAdd inboundTagTrojan (TrojanAccount password) email)"

definition RemoveUser :: "vpn_env \<Rightarrow> string \<Rightarrow> string \<Rightarrow> (vpn_state, bool) state" where
  "RemoveUser V tag email = xrayRetry V (XrayRemove tag email)"

lemmas xray_user_defs = AddVMessUser_def AddVLESSUser_def AddTrojanUser_def RemoveUser_def

definition xrayEmail :: "env \<Rightarrow> int \<Rightarrow> uuid \<Rightarrow> string" where
  "xrayEmail E userID deviceID = ''m:'' @ Itoa userID @ '':'' @ uuid_str E deviceID"

definition xrayPort :: "vpn_config \<Rightarrow> string \<Rightarrow> string \<Rightarrow> string" where
  "xrayPort C protocol defaultPort =
     (if protocol = ''vmess'' \<and> vc_VmessPort C > 0 then Itoa (vc_VmessPort C)
      else if protocol = ''vless'' \<and> vc_VlessPort C > 0 then Itoa (vc_VlessPort C)
      else if protocol = ''trojan'' \<and> vc_TrojanPort C > 0 then Itoa (vc_TrojanPort C)
      else defaultPort)"

section \<open>Configurations\<close>

record protocol_info =
  pi_ID :: string
  pi_Name :: string
  pi_Hint :: string

definition ListProtocols :: "vpn_config \<Rightarrow> protocol_info list" where
  "ListProtocols C =
     (if \<not> vc_Enabled C then []
      else (if vc_wg_Enabled C \<and> vc_wg_ServerPubKey C \<noteq> '''' then [\<lparr> pi_ID = ''wireguard'', pi_Name = ''WireGuard'', pi_Hint =
     [CHR 0xD0, CHR 0x91, CHR 0xD1, CHR 0x8B, CHR 0xD1, CHR 0x81, CHR 0xD1, CHR 0x82, CHR 0xD1, CHR 0x80, CHR 0xD0, CHR 0xBE] @ '', '' @ [CHR 0xD1, CHR
     0x80, CHR 0xD0, CHR 0xB5, CHR 0xD0, CHR 0xBA, CHR 0xD0, CHR 0xBE, CHR 0xD0, CHR 0xBC, CHR 0xD0, CHR 0xB5, CHR 0xD0, CHR 0xBD, CHR 0xD0, CHR 0xB4, CHR
     0xD1, CHR 0x83, CHR 0xD0, CHR 0xB5, CHR 0xD1, CHR 0x82, CHR 0xD1, CHR 0x81, CHR 0xD1, CHR 0x8F] @ ''. '' @ [CHR 0xD0, CHR 0x9D, CHR 0xD0, CHR 0xB5] @
     '' '' @ [CHR 0xD1, CHR 0x80, CHR 0xD0, CHR 0xB0, CHR 0xD0, CHR 0xB1, CHR 0xD0, CHR 0xBE, CHR 0xD1, CHR 0x82, CHR 0xD0, CHR 0xB0, CHR 0xD0, CHR 0xB5,
     CHR 0xD1, CHR 0x82] @ ''? '' @ [CHR 0xD0, CHR 0x9F, CHR 0xD0, CHR 0xBE, CHR 0xD0, CHR 0xBF, CHR 0xD1, CHR 0x80, CHR 0xD0, CHR 0xBE, CHR 0xD0, CHR
     0xB1, CHR 0xD1, CHR 0x83, CHR 0xD0, CHR 0xB9] @ '' Xray.'' \<rparr>] else [])
      @ (if vc_ovpn_Enabled C then [\<lparr> pi_ID = ''openvpn-tcp443'', pi_Name = ''OpenVPN (TCP 443)'', pi_Hint =
     [CHR 0xD0, CHR 0x95, CHR 0xD1, CHR 0x81, CHR 0xD0, CHR 0xBB, CHR 0xD0, CHR 0xB8] @ '' WireGuard '' @ [CHR 0xD0, CHR 0xB7, CHR 0xD0, CHR 0xB0, CHR
     0xD0, CHR 0xB1, CHR 0xD0, CHR 0xBB, CHR 0xD0, CHR 0xBE, CHR 0xD0, CHR 0xBA, CHR 0xD0, CHR 0xB8, CHR 0xD1, CHR 0x80, CHR 0xD0, CHR 0xBE, CHR 0xD0, CHR
     0xB2, CHR 0xD0, CHR 0xB0, CHR 0xD0, CHR 0xBD] @ '' '' @ [CHR 0xE2, CHR 0x80, CHR 0x94] @ '' '' @ [CHR 0xD0, CHR 0xBC, CHR 0xD0, CHR 0xB0, CHR 0xD1,
     CHR 0x81, CHR 0xD0, CHR 0xBA, CHR 0xD0, CHR 0xB8, CHR 0xD1, CHR 0x80, CHR 0xD1, CHR 0x83, CHR 0xD0, CHR 0xB5, CHR 0xD1, CHR 0x82, CHR 0xD1, CHR 0x81,
     CHR 0xD1, CHR 0x8F] @ '' '' @ [CHR 0xD0, CHR 0xBF, CHR 0xD0, CHR 0xBE, CHR 0xD0, CHR 0xB4] @ '' HTTPS.'' \<rparr>] else [])
      @ (if vc_xray_Enabled C \<and> vc_xray_Endpoint C \<noteq> '''' then
          [\<lparr> pi_ID = ''vless'', pi_Name = ''VLESS (XTLS Vision)'', pi_Hint =
     [CHR 0xD0, CHR 0xA0, CHR 0xD0, CHR 0xB5, CHR 0xD0, CHR 0xBA, CHR 0xD0, CHR 0xBE, CHR 0xD0, CHR 0xBC, CHR 0xD0, CHR 0xB5, CHR 0xD0, CHR 0xBD, CHR 0xD0,
     CHR 0xB4, CHR 0xD1, CHR 0x83, CHR 0xD0, CHR 0xB5, CHR 0xD1, CHR 0x82, CHR 0xD1, CHR 0x81, CHR 0xD1, CHR 0x8F] @ ''. Xray, v2rayN, Nekoray, v2rayNG.'' \<rparr>,
           \<lparr> pi_ID = ''vmess'', pi_Name =
     ''VMess ('' @ [CHR 0xD1, CHR 0x83, CHR 0xD1, CHR 0x81, CHR 0xD1, CHR 0x82, CHR 0xD0, CHR 0xB0, CHR 0xD1, CHR 0x80, CHR 0xD0, CHR 0xB5, CHR 0xD0, CHR
     0xB2, CHR 0xD1, CHR 0x88, CHR 0xD0, CHR 0xB8, CHR 0xD0, CHR 0xB9] @ '')'', pi_Hint =
     ''Deprecated, '' @ [CHR 0xD0, CHR 0xBF, CHR 0xD1, CHR 0x80, CHR 0xD0, CHR 0xB5, CHR 0xD0, CHR 0xB4, CHR 0xD0, CHR 0xBF, CHR 0xD0, CHR 0xBE, CHR 0xD1,
     CHR 0x87, CHR 0xD1, CHR 0x82, CHR 0xD0, CHR 0xB8, CHR 0xD1, CHR 0x82, CHR 0xD0, CHR 0xB5, CHR 0xD0, CHR 0xBB, CHR 0xD1, CHR 0x8C, CHR 0xD0, CHR 0xBD,
     CHR 0xD0, CHR 0xBE] @ '' VLESS.'' \<rparr>,
           \<lparr> pi_ID = ''trojan'', pi_Name =
     ''Trojan ('' @ [CHR 0xD1, CHR 0x83, CHR 0xD1, CHR 0x81, CHR 0xD1, CHR 0x82, CHR 0xD0, CHR 0xB0, CHR 0xD1, CHR 0x80, CHR 0xD0, CHR 0xB5, CHR 0xD0, CHR
     0xB2, CHR 0xD1, CHR 0x88, CHR 0xD0, CHR 0xB8, CHR 0xD0, CHR 0xB9] @ '')'', pi_Hint =
     ''Deprecated, '' @ [CHR 0xD0, CHR 0xBF, CHR 0xD1, CHR 0x80, CHR 0xD0, CHR 0xB5, CHR 0xD0, CHR 0xB4, CHR 0xD0, CHR 0xBF, CHR 0xD0, CHR 0xBE, CHR 0xD1,
     CHR 0x87, CHR 0xD1, CHR 0x82, CHR 0xD0, CHR 0xB8, CHR 0xD1, CHR 0x82, CHR 0xD0, CHR 0xB5, CHR 0xD0, CHR 0xBB, CHR 0xD1, CHR 0x8C, CHR 0xD0, CHR 0xBD,
     CHR 0xD0, CHR 0xBE] @ '' VLESS.'' \<rparr>] else []))"

definition peer_key :: "int \<Rightarrow> uuid \<Rightarrow> string \<Rightarrow> vpeer_row \<Rightarrow> bool" where
  "peer_key user dev protocol p \<longleftrightarrow> vp_user p = user \<and> vp_device p = dev \<and> vp_protocol p = protocol"

definition FetchWGStats :: "vpn_env \<Rightarrow> vpn_config \<Rightarrow> (vpn_state, (string \<Rightarrow> (int \<times> int) option) option) state" where
  "FetchWGStats V C =
     (if vc_wg_StatsInterface C = '''' then ret None
      else do { v \<leftarrow> State_Monad.get; ret (map_option (parseWGShow (wg_scale V)) (wg_show V (vs_calls v) (vc_wg_StatsInterface C))) })"

definition RemoveWGPeer :: "vpn_config \<Rightarrow> string \<Rightarrow> (vpn_state, unit) state" where
  "RemoveWGPeer C pubkey =
     (if vc_wg_StatsInterface C = '''' \<or> pubkey = '''' then ret () else call (WgRemove (vc_wg_StatsInterface C) pubkey))"

definition vsetting :: "string \<Rightarrow> (sess, db_err + string) state" where
  "vsetting k = query_row (\<lambda>t. map snd (filter (\<lambda>(k', _). k' = k) (tb_vsettings t)))"

definition getDefaultExpiryDays :: "vpn_config \<Rightarrow> (sess, int) state" where
  "getDefaultExpiryDays C = do {
     q \<leftarrow> vsetting ''default_expiry_days'';
     let d = (case q of Inl _ \<Rightarrow> 0 | Inr v \<Rightarrow> (case ParseInt v of (n, ok) \<Rightarrow> if ok then n else 0));
     ret (if d > 0 then d else if vc_DefaultExpiryDays C > 0 then vc_DefaultExpiryDays C else 30) }"

definition getDefaultTrafficLimitBytes :: "(sess, int) state" where
  "getDefaultTrafficLimitBytes = do {
     q \<leftarrow> vsetting ''default_traffic_limit_mb'';
     ret (case q of Inl _ \<Rightarrow> 0
       | Inr v \<Rightarrow> (case ParseInt v of (mb, ok) \<Rightarrow> if \<not> ok \<or> mb \<le> 0 then 0 else wrap64 (mb * 1024 * 1024))) }"

text \<open>\<open>AddDate(0, 0, n)\<close> in UTC, stored in microseconds.\<close>

definition expiry :: "int \<Rightarrow> int \<Rightarrow> int" where
  "expiry now days = (now + days * 86400 * 1000000000) div 1000"

definition wg_addr :: "int \<Rightarrow> string" where
  "wg_addr n = ''10.66.66.'' @ Itoa n @ ''/32''"

text \<open>\<open>nextval('vpn_wg_addr_seq')\<close>: 2 to 253, without cycle (migration 016).\<close>

definition next_wg :: "tables \<Rightarrow> (db_err + int) \<times> tables" where
  "next_wg t = (if seq_wg t > 253 then (Inl SequenceLimit, t) else (Inr (seq_wg t), t\<lparr>seq_wg := seq_wg t + 1\<rparr>))"

definition vpeer_fks :: "int \<Rightarrow> uuid \<Rightarrow> uuid option \<Rightarrow> tables \<Rightarrow> bool" where
  "vpeer_fks user dev node t \<longleftrightarrow> user \<in> u_id ` set (tb_users t) \<and> dev \<in> d_id ` set (tb_devices t)
     \<and> (case node of None \<Rightarrow> True | Some n \<Rightarrow> n \<in> vn_id ` set (tb_vnodes t))"

definition put_wg_peer :: "int \<Rightarrow> uuid \<Rightarrow> string \<Rightarrow> string \<Rightarrow> int \<Rightarrow> int \<Rightarrow> uuid option \<Rightarrow> tables \<Rightarrow> (db_err + unit) \<times> tables" where
  "put_wg_peer user dev pub addr expires lim node t =
     (if \<not> vpeer_fks user dev node t then (Inl ForeignKeyViolation, t)
      else if list_ex (peer_key user dev ''wireguard'') (tb_vpeers t)
      then (Inr (), t\<lparr>tb_vpeers := map (\<lambda>p. if peer_key user dev ''wireguard'' p
        then p\<lparr>vp_pubkey := Some pub, vp_address := (case vp_address p of Some a \<Rightarrow> Some a | None \<Rightarrow> Some addr), vp_expires := Some expires,
               vp_limit := Some lim, vp_node := node, vp_created := tb_now t\<rparr> else p) (tb_vpeers t)\<rparr>)
      else (Inr (), t\<lparr>tb_vpeers := tb_vpeers t @ [\<lparr> vp_user = user, vp_device = dev, vp_protocol = ''wireguard'', vp_pubkey = Some pub,
        vp_address = Some addr, vp_created = tb_now t, vp_expires = Some expires, vp_limit = Some lim, vp_node = node, vp_xray = None, vp_trojan = None \<rparr>]\<rparr>))"

definition node_ref :: "vnode_row \<Rightarrow> uuid option" where
  "node_ref n = (if vn_id n \<noteq> 0 then Some (vn_id n) else None)"

text \<open>The address of a peer: the one it has, else the next of the sequence.\<close>

definition wg_address :: "int \<Rightarrow> uuid \<Rightarrow> (sess, vpn_err + string) state" where
  "wg_address user dev = do {
     q \<leftarrow> query_row (\<lambda>t. map (\<lambda>p. case vp_address p of None \<Rightarrow> '''' | Some a \<Rightarrow> a) (filter (peer_key user dev ''wireguard'') (tb_vpeers t)));
     let existing = (case q of Inl _ \<Rightarrow> '''' | Inr a \<Rightarrow> a);
     if existing \<noteq> '''' then ret (Inr existing)
     else do {
       n \<leftarrow> stmt next_wg;
       ret (case n of Inl e \<Rightarrow> Inl (PoolExhausted e) | Inr i \<Rightarrow> Inr (wg_addr i)) } }"

definition old_pubkey :: "int \<Rightarrow> uuid \<Rightarrow> (sess, string) state" where
  "old_pubkey user dev = do {
     q \<leftarrow> query_row (\<lambda>t. map vp_pubkey (filter (peer_key user dev ''wireguard'') (tb_vpeers t)));
     ret (case q of Inr (Some k) \<Rightarrow> k | _ \<Rightarrow> '''') }"

definition getWireGuardConfig :: "vpn_env \<Rightarrow> vpn_config \<Rightarrow> int \<Rightarrow> uuid \<Rightarrow> vnode_row \<Rightarrow> (vpn_state, vpn_err + string \<times> string) state" where
  "getWireGuardConfig V C user dev node =
     (let endpoint = EffectiveWGEndpoint C node; pubKey = EffectiveWGServerPubKey C node in
      if \<not> vc_wg_Enabled C \<or> pubKey = '''' then ret (Inl WgDisabled)
      else do {
        kp \<leftarrow> in_db (WireGuardKeyPair V);
        case kp of
          None \<Rightarrow> ret (Inl VpnRandom)
        | Some (privKey, clientPubKey) \<Rightarrow> do {
            old \<leftarrow> in_db (old_pubkey user dev);
            _ \<leftarrow> (if old \<noteq> '''' \<and> old \<noteq> clientPubKey then RemoveWGPeer C old else ret ());
            a \<leftarrow> in_db (wg_address user dev);
            case a of
              Inl e \<Rightarrow> ret (Inl e)
            | Inr clientAddr \<Rightarrow> do {
                days \<leftarrow> in_db (getDefaultExpiryDays C);
                now \<leftarrow> in_db time_now;
                lim \<leftarrow> in_db getDefaultTrafficLimitBytes;
                x \<leftarrow> in_db (stmt (put_wg_peer user dev clientPubKey clientAddr (expiry now days) lim (node_ref node)));
                ret (case x of
                  Inl e \<Rightarrow> Inl (VpnDB e)
                | Inr _ \<Rightarrow> Inr (BuildWireGuardConf privKey clientPubKey pubKey endpoint clientAddr, ''messenger-wireguard.conf'')) } } })"

definition openvpn_template :: "string \<Rightarrow> string" where
  "openvpn_template endpoint =
     ''# OpenVPN TCP 443 '' @ [CHR 0xE2, CHR 0x80, CHR 0x94] @ '' '' @ [CHR 0xD0, CHR 0xBC, CHR 0xD0, CHR 0xB5, CHR 0xD1, CHR 0x81, CHR 0xD1, CHR 0x81, CHR
     0xD0, CHR 0xB5, CHR 0xD0, CHR 0xBD, CHR 0xD0, CHR 0xB4, CHR 0xD0, CHR 0xB6, CHR 0xD0, CHR 0xB5, CHR 0xD1, CHR 0x80, CHR 0x0A] @ ''# '' @ [CHR 0xD0,
     CHR 0xA3, CHR 0xD1, CHR 0x81, CHR 0xD1, CHR 0x82, CHR 0xD0, CHR 0xB0, CHR 0xD0, CHR 0xBD, CHR 0xD0, CHR 0xBE, CHR 0xD0, CHR 0xB2, CHR 0xD0, CHR 0xB8,
     CHR 0xD1, CHR 0x82, CHR 0xD0, CHR 0xB5] @ '' OpenVPN '' @ [CHR 0xD0, CHR 0xBA, CHR 0xD0, CHR 0xBB, CHR 0xD0, CHR 0xB8, CHR 0xD0, CHR 0xB5, CHR 0xD0,
     CHR 0xBD, CHR 0xD1, CHR 0x82] @ '' '' @ [CHR 0xD0, CHR 0xB8] @ '' '' @ [CHR 0xD0, CHR 0xB7, CHR 0xD0, CHR 0xB0, CHR 0xD0, CHR 0xBC, CHR 0xD0, CHR
     0xB5, CHR 0xD0, CHR 0xBD, CHR 0xD0, CHR 0xB8, CHR 0xD1, CHR 0x82, CHR 0xD0, CHR 0xB5] @ '' '' @ [CHR 0xD1, CHR 0x8D, CHR 0xD1, CHR 0x82, CHR 0xD0, CHR
     0xBE, CHR 0xD1, CHR 0x82] @ '' '' @ [CHR 0xD1, CHR 0x84, CHR 0xD0, CHR 0xB0, CHR 0xD0, CHR 0xB9, CHR 0xD0, CHR 0xBB] @ '' '' @ [CHR 0xD0, CHR 0xBD,
     CHR 0xD0, CHR 0xB0] @ '' '' @ [CHR 0xD1, CHR 0x81, CHR 0xD0, CHR 0xB3, CHR 0xD0, CHR 0xB5, CHR 0xD0, CHR 0xBD, CHR 0xD0, CHR 0xB5, CHR 0xD1, CHR 0x80,
     CHR 0xD0, CHR 0xB8, CHR 0xD1, CHR 0x80, CHR 0xD0, CHR 0xBE, CHR 0xD0, CHR 0xB2, CHR 0xD0, CHR 0xB0, CHR 0xD0, CHR 0xBD, CHR 0xD0, CHR 0xBD, CHR 0xD1,
     CHR 0x8B, CHR 0xD0, CHR 0xB9] @ '' '' @ [CHR 0xD0, CHR 0xBA, CHR 0xD0, CHR 0xBE, CHR 0xD0, CHR 0xBD, CHR 0xD1, CHR 0x84, CHR 0xD0, CHR 0xB8, CHR 0xD0,
     CHR 0xB3] @ ''.'' @ [CHR 0x0A] @ ''# '' @ [CHR 0xD0, CHR 0x90, CHR 0xD0, CHR 0xB4, CHR 0xD0, CHR 0xBC, CHR 0xD0, CHR 0xB8, CHR 0xD0, CHR 0xBD] @ '' ''
     @ [CHR 0xD1, CHR 0x81, CHR 0xD0, CHR 0xB5, CHR 0xD1, CHR 0x80, CHR 0xD0, CHR 0xB2, CHR 0xD0, CHR 0xB5, CHR 0xD1, CHR 0x80, CHR 0xD0, CHR 0xB0] @ '' ''
     @ [CHR 0xD0, CHR 0xB4, CHR 0xD0, CHR 0xBE, CHR 0xD0, CHR 0xBB, CHR 0xD0, CHR 0xB6, CHR 0xD0, CHR 0xB5, CHR 0xD0, CHR 0xBD] @ '' '' @ [CHR 0xD0, CHR
     0xB2, CHR 0xD1, CHR 0x8B, CHR 0xD0, CHR 0xB4, CHR 0xD0, CHR 0xB0, CHR 0xD1, CHR 0x82, CHR 0xD1, CHR 0x8C] @ '' .ovpn '' @ [CHR 0xD1, CHR 0x87, CHR
     0xD0, CHR 0xB5, CHR 0xD1, CHR 0x80, CHR 0xD0, CHR 0xB5, CHR 0xD0, CHR 0xB7] @ '' '' @ [CHR 0xD0, CHR 0xBF, CHR 0xD0, CHR 0xB0, CHR 0xD0, CHR 0xBD, CHR
     0xD0, CHR 0xB5, CHR 0xD0, CHR 0xBB, CHR 0xD1, CHR 0x8C] @ '' OpenVPN.'' @ [CHR 0x0A] @ ''#'' @ [CHR 0x0A] @ ''# Endpoint: ''
     @ endpoint @
     [CHR 0x0A] @ ''# '' @ [CHR 0xD0, CHR 0x9F, CHR 0xD1, CHR 0x80, CHR 0xD0, CHR 0xBE, CHR 0xD1, CHR 0x82, CHR 0xD0, CHR 0xBE, CHR 0xD0, CHR 0xBA, CHR
     0xD0, CHR 0xBE, CHR 0xD0, CHR 0xBB] @ '': TCP'' @ [CHR 0x0A] @ ''# '' @ [CHR 0xD0, CHR 0x9F, CHR 0xD0, CHR 0xBE, CHR 0xD1, CHR 0x80, CHR 0xD1, CHR
     0x82] @ '': 443'' @ [CHR 0x0A]"

definition getOpenVPNConfig :: "vpn_config \<Rightarrow> vnode_row \<Rightarrow> vpn_err + string \<times> string" where
  "getOpenVPNConfig C node =
     (if \<not> vc_ovpn_Enabled C then Inl OvpnDisabled
      else Inr (openvpn_template (EffectiveOpenVPNEndpoint C node), ''messenger-openvpn.ovpn''))"

text \<open>
  The three Xray functions differ in the column with the secret, how one is made, the inbound
  and the URL.
\<close>

definition put_xray_peer :: "int \<Rightarrow> uuid \<Rightarrow> string \<Rightarrow> (vpeer_row \<Rightarrow> vpeer_row) \<Rightarrow> int \<Rightarrow> uuid option \<Rightarrow> tables \<Rightarrow> (db_err + unit) \<times> tables" where
  "put_xray_peer user dev protocol with_secret expires node t =
     (if \<not> vpeer_fks user dev node t then (Inl ForeignKeyViolation, t)
      else if list_ex (peer_key user dev protocol) (tb_vpeers t)
      then (Inr (), t\<lparr>tb_vpeers := map (\<lambda>p. if peer_key user dev protocol p
        then (with_secret p)\<lparr>vp_expires := Some expires, vp_node := node, vp_created := tb_now t\<rparr> else p) (tb_vpeers t)\<rparr>)
      else (Inr (), t\<lparr>tb_vpeers := tb_vpeers t @ [with_secret \<lparr> vp_user = user, vp_device = dev, vp_protocol = protocol, vp_pubkey = None,
        vp_address = None, vp_created = tb_now t, vp_expires = Some expires, vp_limit = Some 0, vp_node = node, vp_xray = None, vp_trojan = None \<rparr>]\<rparr>))"

definition xray_secret :: "vpn_config \<Rightarrow> int \<Rightarrow> uuid \<Rightarrow> string \<Rightarrow> vnode_row \<Rightarrow> (vpeer_row \<Rightarrow> string option) \<Rightarrow> (string \<Rightarrow> vpeer_row \<Rightarrow> vpeer_row)
    \<Rightarrow> (sess, string option) state \<Rightarrow> (sess, vpn_err + string) state" where
  "xray_secret C user dev protocol node col put generate = do {
     q \<leftarrow> query_row (\<lambda>t. map col (filter (peer_key user dev protocol) (tb_vpeers t)));
     let existing = (case q of Inr (Some s) \<Rightarrow> s | _ \<Rightarrow> '''');
     if existing \<noteq> '''' then ret (Inr existing)
     else do {
       g \<leftarrow> generate;
       case g of
         None \<Rightarrow> ret (Inl VpnRandom)
       | Some s \<Rightarrow> do {
           days \<leftarrow> getDefaultExpiryDays C;
           now \<leftarrow> time_now;
           x \<leftarrow> stmt (put_xray_peer user dev protocol (put s) (expiry now days) (node_ref node));
           ret (case x of Inl e \<Rightarrow> Inl (VpnDB e) | Inr _ \<Rightarrow> Inr s) } } }"

definition xray_config :: "env \<Rightarrow> vpn_env \<Rightarrow> vpn_config \<Rightarrow> int \<Rightarrow> uuid \<Rightarrow> string \<Rightarrow> vnode_row \<Rightarrow> (vpeer_row \<Rightarrow> string option) \<Rightarrow> (string \<Rightarrow> vpeer_row \<Rightarrow> vpeer_row)
    \<Rightarrow> (sess, string option) state \<Rightarrow> (string \<Rightarrow> string \<Rightarrow> (vpn_state, bool) state) \<Rightarrow> (string \<Rightarrow> string \<Rightarrow> string \<Rightarrow> string \<Rightarrow> string) \<Rightarrow> (vpn_state, vpn_err + string \<times> string) state" where
  "xray_config E V C user dev protocol node col put generate add build =
     (if \<not> vc_xray_Enabled C then ret (Inl XrayDisabled)
      else (let endpoint = EffectiveXrayEndpoint C node in
        if endpoint = '''' then ret (Inl XrayNoEndpoint)
        else (case parseHostPort endpoint of (host, port) \<Rightarrow> do {
          s \<leftarrow> in_db (xray_secret C user dev protocol node col put generate);
          case s of
            Inl e \<Rightarrow> ret (Inl e)
          | Inr secret \<Rightarrow> do {
              _ \<leftarrow> (if xray_client V C then add secret (xrayEmail E user dev) else ret True);
              ret (Inr (build secret host (xrayPort C protocol port) (''messenger-'' @ vn_name node), ''messenger-'' @ protocol @ ''.txt'')) } })))"

definition getVMessConfig :: "env \<Rightarrow> vpn_env \<Rightarrow> vpn_config \<Rightarrow> int \<Rightarrow> uuid \<Rightarrow> vnode_row \<Rightarrow> (vpn_state, vpn_err + string \<times> string) state" where
  "getVMessConfig E V C user dev node = xray_config E V C user dev ''vmess'' node vp_xray (\<lambda>s p. p\<lparr>vp_xray := Some s\<rparr>)
     (do { i \<leftarrow> GenerateXrayUUID E; ret (Some i) }) (AddVMessUser V) (BuildVMessURL V)"

definition getVLESSConfig :: "env \<Rightarrow> vpn_env \<Rightarrow> vpn_config \<Rightarrow> int \<Rightarrow> uuid \<Rightarrow> vnode_row \<Rightarrow> (vpn_state, vpn_err + string \<times> string) state" where
  "getVLESSConfig E V C user dev node = xray_config E V C user dev ''vless'' node vp_xray (\<lambda>s p. p\<lparr>vp_xray := Some s\<rparr>)
     (do { i \<leftarrow> GenerateXrayUUID E; ret (Some i) }) (AddVLESSUser V) BuildVLESSURL"

definition getTrojanConfig :: "env \<Rightarrow> vpn_env \<Rightarrow> vpn_config \<Rightarrow> int \<Rightarrow> uuid \<Rightarrow> vnode_row \<Rightarrow> (vpn_state, vpn_err + string \<times> string) state" where
  "getTrojanConfig E V C user dev node = xray_config E V C user dev ''trojan'' node vp_trojan (\<lambda>s p. p\<lparr>vp_trojan := Some s\<rparr>)
     GenerateTrojanPassword (AddTrojanUser V) BuildTrojanURL"

text \<open>The checks on the configuration the device already has; an error of the query counts as none.\<close>

definition vpn_refused :: "vpn_env \<Rightarrow> vpn_config \<Rightarrow> string \<Rightarrow> int \<Rightarrow> uuid \<Rightarrow> (vpn_state, vpn_err option) state" where
  "vpn_refused V C protocol user dev = do {
     q \<leftarrow> in_db (query_row (\<lambda>t. map (\<lambda>p. (vp_expires p, case vp_limit p of None \<Rightarrow> 0 | Some l \<Rightarrow> l, vp_pubkey p))
            (filter (peer_key user dev protocol) (tb_vpeers t))));
     let (expiresAt, trafficLimit, clientPubkey) = (case q of Inl _ \<Rightarrow> (None, 0, None) | Inr x \<Rightarrow> x) in do {
     now \<leftarrow> in_db time_now;
     if (case expiresAt of None \<Rightarrow> False | Some e \<Rightarrow> e * 1000 < now) then ret (Some VpnExpired)
     else (case (if trafficLimit > 0 \<and> protocol = ''wireguard'' then clientPubkey else None) of
       None \<Rightarrow> ret None
     | Some k \<Rightarrow> do {
         st \<leftarrow> FetchWGStats V C;
         ret (case st of
           None \<Rightarrow> None
         | Some m \<Rightarrow> (case m k of
             None \<Rightarrow> None
           | Some (rx, tx) \<Rightarrow> if wrap64 (rx + tx) \<ge> trafficLimit then Some (TrafficExceeded (wrap64 (rx + tx)) trafficLimit) else None)) }) } }"

definition GetConfig :: "env \<Rightarrow> vpn_env \<Rightarrow> vpn_config \<Rightarrow> string \<Rightarrow> int \<Rightarrow> uuid \<Rightarrow> uuid option \<Rightarrow> (vpn_state, vpn_err + string \<times> string) state" where
  "GetConfig E V C protocol user dev nodeID =
     (if \<not> vc_Enabled C then ret (Inl VpnDisabled)
      else do {
        r \<leftarrow> vpn_refused V C protocol user dev;
        case r of
          Some e \<Rightarrow> ret (Inl e)
        | None \<Rightarrow> do {
            n \<leftarrow> in_db (ResolveNode C nodeID);
            case n of
              Inl e \<Rightarrow> ret (Inl (VpnDB e))
            | Inr node \<Rightarrow>
                if protocol = ''wireguard'' then getWireGuardConfig V C user dev node
                else if protocol = ''openvpn-tcp443'' then ret (getOpenVPNConfig C node)
                else if protocol = ''vmess'' then getVMessConfig E V C user dev node
                else if protocol = ''vless'' then getVLESSConfig E V C user dev node
                else if protocol = ''trojan'' then getTrojanConfig E V C user dev node
                else ret (Inl (UnknownProtocol protocol)) } })"

section \<open>The user's own configurations\<close>

record my_config =
  mc_DeviceID :: string
  mc_Protocol :: string
  mc_NodeName :: string
  mc_CreatedAt :: int
  mc_ExpiresAt :: "int option"
  mc_IsExpired :: bool
  mc_TrafficRxBytes :: int
  mc_TrafficTxBytes :: int
  mc_TrafficLimitBytes :: int

definition node_name :: "tables \<Rightarrow> vpeer_row \<Rightarrow> string" where
  "node_name t p = (case vp_node p of None \<Rightarrow> ''Default''
     | Some i \<Rightarrow> (case filter (\<lambda>n. vn_id n = i) (tb_vnodes t) of [] \<Rightarrow> ''Default'' | n # _ \<Rightarrow> vn_name n))"

definition my_config_of :: "env \<Rightarrow> (string \<Rightarrow> (int \<times> int) option) option \<Rightarrow> int \<Rightarrow> vpeer_row \<times> string \<Rightarrow> my_config" where
  "my_config_of E stats now pn = (case pn of (p, node) \<Rightarrow>
     (let (rx, tx) = (case (vp_pubkey p, stats) of
          (Some k, Some m) \<Rightarrow> (case m k of Some x \<Rightarrow> x | None \<Rightarrow> (0, 0)) | _ \<Rightarrow> (0, 0)) in
      \<lparr> mc_DeviceID = uuid_str E (vp_device p), mc_Protocol = vp_protocol p, mc_NodeName = node, mc_CreatedAt = vp_created p, mc_ExpiresAt = vp_expires p,
        mc_IsExpired = (case vp_expires p of None \<Rightarrow> False | Some e \<Rightarrow> e * 1000 < now), mc_TrafficRxBytes = rx, mc_TrafficTxBytes = tx,
        mc_TrafficLimitBytes = (case vp_limit p of None \<Rightarrow> 0 | Some l \<Rightarrow> l) \<rparr>))"

definition ListMyConfigs :: "env \<Rightarrow> vpn_env \<Rightarrow> vpn_config \<Rightarrow> int \<Rightarrow> (vpn_state, db_err + my_config list) state" where
  "ListMyConfigs E V C user = do {
     stats \<leftarrow> FetchWGStats V C;
     q \<leftarrow> in_db (query (\<lambda>t. map (\<lambda>p. (p, node_name t p)) (sort_key (\<lambda>p. - vp_created p) (filter (\<lambda>p. vp_user p = user) (tb_vpeers t)))));
     now \<leftarrow> in_db time_now;
     ret (case q of Inl e \<Rightarrow> Inl e | Inr (rows, _) \<Rightarrow> Inr (map (my_config_of E stats now) rows)) }"

definition del_vpeer :: "int \<Rightarrow> uuid \<Rightarrow> string \<Rightarrow> tables \<Rightarrow> (db_err + unit) \<times> tables" where
  "del_vpeer user dev protocol t = (Inr (), t\<lparr>tb_vpeers := filter (\<lambda>p. \<not> peer_key user dev protocol p) (tb_vpeers t)\<rparr>)"

definition inbound_tag :: "string \<Rightarrow> string option" where
  "inbound_tag protocol = (if protocol = ''vmess'' then Some inboundTagVMess else if protocol = ''vless'' then Some inboundTagVLESS
     else if protocol = ''trojan'' then Some inboundTagTrojan else None)"

definition Revoke :: "env \<Rightarrow> vpn_env \<Rightarrow> vpn_config \<Rightarrow> int \<Rightarrow> uuid \<Rightarrow> string \<Rightarrow> (vpn_state, db_err + unit) state" where
  "Revoke E V C user dev protocol = do {
     _ \<leftarrow> (case (if xray_client V C then inbound_tag protocol else None) of
            None \<Rightarrow> ret True
          | Some tag \<Rightarrow> RemoveUser V tag (xrayEmail E user dev));
     in_db (stmt (del_vpeer user dev protocol)) }"

section \<open>What the commands do\<close>

lemma run_in_db [sql_simps]: "run_state (in_db m) v = (case run_state m (vs_sess v) of (x, s) \<Rightarrow> (x, v\<lparr>vs_sess := s\<rparr>))"
  by (simp add: in_db_def)

lemma run_call [sql_simps]: "run_state (call k) v = ((), v\<lparr>vs_calls := vs_calls v @ [k]\<rparr>)"
  by (simp add: call_def)

lemma xray_loop_calls:
  "run_state (xray_loop V k first left) v = (ok, v') \<Longrightarrow>
    \<exists>n \<le> left. v' = v\<lparr>vs_calls := vs_calls v @ replicate n k\<rparr> \<and> (first \<and> left > 0 \<longrightarrow> n > 0)
      \<and> (\<forall>i. 0 < i \<and> i < n \<longrightarrow> \<not> xr_answer V (vs_calls v @ replicate i k))
      \<and> (ok \<longrightarrow> n > 0 \<and> xr_answer V (vs_calls v @ replicate n k))
      \<and> (\<not> ok \<longrightarrow> (0 < n \<longrightarrow> \<not> xr_answer V (vs_calls v @ replicate n k)) \<and> (n = left \<or> xr_cancelled V (vs_calls v @ replicate n k)))"
proof (induction V k first left arbitrary: v ok v' rule: xray_loop.induct)
  case (1 V k first)
  then show ?case by (auto intro: exI [of _ 0])
next
  case (2 V k first left)
  let ?v = "v\<lparr>vs_calls := vs_calls v @ [k]\<rparr>"
  consider (cancel) "\<not> first" "xr_cancelled V (vs_calls v)" | (answer) "first \<or> \<not> xr_cancelled V (vs_calls v)" "xr_answer V (vs_calls v @ [k])"
    | (again) "first \<or> \<not> xr_cancelled V (vs_calls v)" "\<not> xr_answer V (vs_calls v @ [k])" by blast
  then show ?case
  proof cases
    case cancel
    with 2(2) have "\<not> ok" "v' = v" by auto
    then show ?thesis using cancel by (auto intro!: exI [of _ 0])
  next
    case answer
    with 2(2) have "ok" "v' = ?v" by (auto simp: sql_simps)
    then show ?thesis using answer by (intro exI [of _ 1]) auto
  next
    case again
    have b: "\<not> (\<not> first \<and> xr_cancelled V (vs_calls v))" "\<not> xr_answer V (vs_calls ?v)" using again by auto
    from again 2(2) have r: "run_state (xray_loop V k False left) ?v = (ok, v')" by (auto simp: sql_simps)
    from 2(1) [OF b r] obtain n where n: "n \<le> left" "v' = ?v\<lparr>vs_calls := vs_calls ?v @ replicate n k\<rparr>"
      "\<forall>i. 0 < i \<and> i < n \<longrightarrow> \<not> xr_answer V (vs_calls ?v @ replicate i k)" "ok \<longrightarrow> n > 0 \<and> xr_answer V (vs_calls ?v @ replicate n k)"
      "\<not> ok \<longrightarrow> (0 < n \<longrightarrow> \<not> xr_answer V (vs_calls ?v @ replicate n k)) \<and> (n = left \<or> xr_cancelled V (vs_calls ?v @ replicate n k))" by blast
    have e: "vs_calls ?v @ replicate i k = vs_calls v @ replicate (Suc i) k" for i by simp
    have "\<not> xr_answer V (vs_calls v @ replicate i k)" if "0 < i" "i < Suc n" for i
      using n(3) again(2) that unfolding e by (cases i; cases "i = 1") auto
    then show ?thesis using n again(2) unfolding e by (intro exI [of _ "Suc n"]) auto
  qed
qed

section \<open>Invariants\<close>

definition on_vs :: "(tables \<Rightarrow> bool) \<Rightarrow> vpn_state \<Rightarrow> bool" where
  "on_vs P v \<longleftrightarrow> P (tabs (vs_sess v))"

lemma triple_in_db: "triple (on_tabs P) m (\<lambda>r s. Q r (tabs s)) \<Longrightarrow> triple (on_vs P) (in_db m) (\<lambda>r. on_vs (Q r))"
  by (fastforce simp: triple_def on_vs_def on_tabs_def in_db_def split: prod.splits)

lemma keeps_in_db: "keeps (on_tabs P) m \<Longrightarrow> keeps (on_vs P) (in_db m)"
  by (rule triple_in_db) (simp add: on_tabs_def [abs_def])

lemma keeps_call: "keeps (on_vs P) (call k)"
  by (simp add: triple_def on_vs_def call_def)

lemma keeps_xray_loop: "keeps (on_vs P) (xray_loop V k first left)"
  by (induction V k first left rule: xray_loop.induct) (auto intro!: triple_intros keeps_call)

lemma keeps_vpn_reads:
  "keeps (on_tabs P) (ResolveNode C nodeID)" "keeps (on_tabs P) (getDefaultExpiryDays C)" "keeps (on_tabs P) getDefaultTrafficLimitBytes"
  "keeps (on_tabs P) (old_pubkey user dev)" "keeps (on_tabs P) (WireGuardKeyPair V)" "keeps (on_tabs P) (GenerateXrayUUID E)" "keeps (on_tabs P) GenerateTrojanPassword"
  unfolding ResolveNode_def GetNode_def GetDefaultNode_def getDefaultExpiryDays_def getDefaultTrafficLimitBytes_def vsetting_def old_pubkey_def
    WireGuardKeyPair_def GenerateXrayUUID_def GenerateTrojanPassword_def
  by (rule triple_intros | assumption)+

lemma keeps_refused: "keeps (on_vs P) (vpn_refused V C protocol user dev)"
  unfolding vpn_refused_def FetchWGStats_def Let_def by (intro triple_intros keeps_in_db)

lemma keeps_xray_user:
  "keeps (on_vs P) (AddVMessUser V u e)" "keeps (on_vs P) (AddVLESSUser V u e)" "keeps (on_vs P) (AddTrojanUser V u e)" "keeps (on_vs P) (RemoveUser V u e)"
  unfolding xray_user_defs xrayRetry_def by (rule keeps_xray_loop)+

lemmas vpn_keeps = keeps_in_db keeps_call keeps_xray_user keeps_vpn_reads keeps_refused

text \<open>A change of the column with the secret.\<close>

definition secret_change :: "(vpeer_row \<Rightarrow> vpeer_row) \<Rightarrow> bool" where
  "secret_change f \<longleftrightarrow> (\<forall>p. (f p)\<lparr>vp_xray := None, vp_trojan := None\<rparr> = p\<lparr>vp_xray := None, vp_trojan := None\<rparr>)"

lemma keeps_xray_config:
  assumes "\<And>s. secret_change (put s)" "keeps (on_tabs P) generate"
    and "\<And>t f e n. P t \<Longrightarrow> secret_change f \<Longrightarrow> P (snd (put_xray_peer user dev protocol f e n t))"
    and "\<And>s e. keeps (on_vs P) (add s e)"
  shows "keeps (on_vs P) (xray_config E V C user dev protocol node col put generate add build)"
  unfolding xray_config_def xray_secret_def Let_def by (intro triple_intros vpn_keeps assms)

text \<open>
  What keeps an invariant \<open>P\<close> through \<open>GetConfig\<close>: \<open>A\<close> is what is known of the address that is
  chosen, until the row is written.
\<close>

lemma keeps_getWireGuardConfig:
  assumes addr: "triple (on_tabs P) (wg_address user dev) (\<lambda>a s. P (tabs s) \<and> (\<forall>x. a = Inr x \<longrightarrow> A x (tabs s)))"
    and put: "\<And>t x pub e l n. P t \<Longrightarrow> A x t \<Longrightarrow> P (snd (put_wg_peer user dev pub x e l n t))"
  shows "keeps (on_vs P) (getWireGuardConfig V C user dev node)"
proof -
  have w: "keeps (on_tabs (\<lambda>t. P t \<and> A x t)) m \<Longrightarrow> (\<And>r. triple (on_vs (\<lambda>t. P t \<and> A x t)) (k r) (\<lambda>_. on_vs P))
      \<Longrightarrow> triple (on_vs (\<lambda>t. P t \<and> A x t)) (in_db m \<bind> k) (\<lambda>_. on_vs P)" for x and m :: "(sess, 'a) state" and k :: "'a \<Rightarrow> (vpn_state, vpn_err + string \<times> string) state"
    by (rule triple_bind [OF keeps_in_db])
  have last: "triple (on_vs (\<lambda>t. P t \<and> A x t)) (do { y \<leftarrow> in_db (stmt (put_wg_peer user dev pub x e l n)); ret (g y) }) (\<lambda>_. on_vs P)"
    for x pub e l n and g :: "db_err + unit \<Rightarrow> vpn_err + string \<times> string"
  proof (rule triple_bind [where R = "\<lambda>_. on_vs P"])
    have "triple (on_tabs (\<lambda>t. P t \<and> A x t)) (stmt (put_wg_peer user dev pub x e l n)) (\<lambda>_ s. P (tabs s))"
      using put [of _ x pub e l n] by (auto simp: triple_def on_tabs_def split: prod.splits dest!: stmt_tabs)
    then show "triple (on_vs (\<lambda>t. P t \<and> A x t)) (in_db (stmt (put_wg_peer user dev pub x e l n))) (\<lambda>_. on_vs P)"
      by (rule triple_in_db)
  qed (rule keeps_ret)
  have rest: "triple (on_vs (\<lambda>t. P t \<and> (\<forall>x. a = Inr x \<longrightarrow> A x t))) (case a of
      Inl e \<Rightarrow> ret (Inl e)
    | Inr clientAddr \<Rightarrow> do {
        days \<leftarrow> in_db (getDefaultExpiryDays C);
        now \<leftarrow> in_db time_now;
        lim \<leftarrow> in_db getDefaultTrafficLimitBytes;
        x \<leftarrow> in_db (stmt (put_wg_peer user dev pub clientAddr (expiry now days) lim (node_ref node)));
        ret (case x of Inl e \<Rightarrow> Inl (VpnDB e) | Inr _ \<Rightarrow> Inr (BuildWireGuardConf priv pub sk ep clientAddr, ''messenger-wireguard.conf'')) }) (\<lambda>_. on_vs P)"
    for a priv pub sk ep
  proof (cases a)
    case (Inl e)
    then show ?thesis by (auto simp: triple_def on_vs_def)
  next
    case (Inr x)
    have "on_vs (\<lambda>t. P t \<and> (\<forall>x. a = Inr x \<longrightarrow> A x t)) = on_vs (\<lambda>t. P t \<and> A x t)" using Inr by (auto simp: on_vs_def)
    then show ?thesis unfolding Inr sum.case by (simp only:) (intro w last vpn_keeps triple_intros)
  qed
  have r: "keeps (on_vs P) (if old \<noteq> '''' \<and> old \<noteq> k then RemoveWGPeer C old else ret ())" for old k
    unfolding RemoveWGPeer_def by (intro triple_intros vpn_keeps)
  show ?thesis unfolding getWireGuardConfig_def Let_def
    by (rule triple_if, rule keeps_ret, rule keeps_bind [OF keeps_in_db [OF keeps_vpn_reads(5)]], rule triple_case_option, rule keeps_ret, rule triple_case_prod,
        rule keeps_bind [OF keeps_in_db [OF keeps_vpn_reads(4)]], rule keeps_bind [OF r], rule triple_bind [OF triple_in_db [OF addr]], rule rest)
qed

lemma keeps_GetConfig:
  assumes "triple (on_tabs P) (wg_address user dev) (\<lambda>a s. P (tabs s) \<and> (\<forall>x. a = Inr x \<longrightarrow> A x (tabs s)))"
    and "\<And>t x pub e l n. P t \<Longrightarrow> A x t \<Longrightarrow> P (snd (put_wg_peer user dev pub x e l n t))"
    and x: "\<And>t protocol f e n. P t \<Longrightarrow> protocol \<noteq> ''wireguard'' \<Longrightarrow> secret_change f \<Longrightarrow> P (snd (put_xray_peer user dev protocol f e n t))"
  shows "keeps (on_vs P) (GetConfig E V C protocol user dev nodeID)"
  unfolding GetConfig_def getVMessConfig_def getVLESSConfig_def getTrojanConfig_def
  by (intro triple_intros vpn_keeps keeps_getWireGuardConfig [OF assms(1,2)] keeps_xray_config x) (auto simp: secret_change_def)

text \<open>Invariants that say nothing of the peers and of how many addresses were given.\<close>

lemma vpn_aside:
  assumes ign: "\<And>t ps k. Q t \<Longrightarrow> seq_wg t \<le> k \<Longrightarrow> Q (t\<lparr>tb_vpeers := ps, seq_wg := k\<rparr>)"
  shows "keeps (on_vs Q) (GetConfig E V C protocol user dev nodeID)" "keeps (on_vs Q) (Revoke E V C user dev protocol)"
proof -
  have p: "Q t \<Longrightarrow> Q (t\<lparr>tb_vpeers := ps\<rparr>)" for t ps using ign [of t "seq_wg t" ps] by simp
  have n: "Q t \<Longrightarrow> Q (t\<lparr>seq_wg := seq_wg t + 1\<rparr>)" for t using ign [of t "seq_wg t + 1" "tb_vpeers t"] by simp
  have "keeps (on_tabs Q) (wg_address user dev)" for user dev
    unfolding wg_address_def Let_def by (intro triple_intros) (auto simp: next_wg_def n)
  then show "keeps (on_vs Q) (GetConfig E V C protocol user dev nodeID)"
    by (intro keeps_GetConfig [where A = "\<lambda>_ _. True"]) (auto simp: put_wg_peer_def put_xray_peer_def on_tabs_def [abs_def] p)
  show "keeps (on_vs Q) (Revoke E V C user dev protocol)"
    unfolding Revoke_def by (intro triple_intros vpn_keeps) (auto simp: del_vpeer_def p)
qed

text \<open>
  Peers are unique by user, device and protocol and belong to accounts; an address is one
  the sequence has given, and no two peers have the same.
\<close>

definition vpn_inv :: "tables \<Rightarrow> bool" where
  "vpn_inv t \<longleftrightarrow> distinct (map (\<lambda>p. (vp_user p, vp_device p, vp_protocol p)) (tb_vpeers t))
     \<and> (\<forall>p \<in> set (tb_vpeers t). vp_user p \<in> u_id ` set (tb_users t) \<and> vp_device p \<in> d_id ` set (tb_devices t))
     \<and> (\<forall>p \<in> set (tb_vpeers t). \<forall>a. vp_address p = Some a \<longrightarrow> (\<exists>n. 2 \<le> n \<and> n \<le> 253 \<and> n < seq_wg t \<and> a = wg_addr n))
     \<and> (\<forall>a. \<forall>p \<in> set (tb_vpeers t). \<forall>q \<in> set (tb_vpeers t). vp_address p = Some a \<and> vp_address q = Some a \<longrightarrow> p = q)
     \<and> 2 \<le> seq_wg t"

lemma vpn_invD:
  assumes "vpn_inv t"
  shows "distinct (map (\<lambda>p. (vp_user p, vp_device p, vp_protocol p)) (tb_vpeers t))"
    and "p \<in> set (tb_vpeers t) \<Longrightarrow> vp_user p \<in> u_id ` set (tb_users t) \<and> vp_device p \<in> d_id ` set (tb_devices t)"
    and "p \<in> set (tb_vpeers t) \<Longrightarrow> vp_address p = Some a \<Longrightarrow> \<exists>n. 2 \<le> n \<and> n \<le> 253 \<and> n < seq_wg t \<and> a = wg_addr n"
    and "p \<in> set (tb_vpeers t) \<Longrightarrow> q \<in> set (tb_vpeers t) \<Longrightarrow> vp_address p = Some a \<Longrightarrow> vp_address q = Some a \<Longrightarrow> p = q"
    and "2 \<le> seq_wg t"
  using assms by (auto simp: vpn_inv_def)

lemma vpn_invI:
  assumes "distinct (map (\<lambda>p. (vp_user p, vp_device p, vp_protocol p)) (tb_vpeers t))"
    and "\<And>p. p \<in> set (tb_vpeers t) \<Longrightarrow> vp_user p \<in> u_id ` set (tb_users t) \<and> vp_device p \<in> d_id ` set (tb_devices t)"
    and "\<And>p a. p \<in> set (tb_vpeers t) \<Longrightarrow> vp_address p = Some a \<Longrightarrow> \<exists>n. 2 \<le> n \<and> n \<le> 253 \<and> n < seq_wg t \<and> a = wg_addr n"
    and "\<And>p q a. p \<in> set (tb_vpeers t) \<Longrightarrow> q \<in> set (tb_vpeers t) \<Longrightarrow> vp_address p = Some a \<Longrightarrow> vp_address q = Some a \<Longrightarrow> p = q"
    and "2 \<le> seq_wg t"
  shows "vpn_inv t"
  using assms unfolding vpn_inv_def by blast

lemma wg_addr_inj: "wg_addr m = wg_addr n \<Longrightarrow> int64 m \<Longrightarrow> int64 n \<Longrightarrow> m = n"
  by (auto simp: wg_addr_def dest: Itoa_inj)

lemma small_int64: "2 \<le> n \<Longrightarrow> n \<le> 254 \<Longrightarrow> int64 n"
  by (simp add: int64_def)

lemma wg_addr_ne: "wg_addr n \<noteq> ''''"
  by (simp add: wg_addr_def)

text \<open>The next address is new.\<close>

lemma next_wg_inv:
  assumes "vpn_inv t"
  shows "vpn_inv (snd (next_wg t))"
    and "next_wg t = (Inr n, t') \<Longrightarrow> p \<in> set (tb_vpeers t') \<Longrightarrow> vp_address p \<noteq> Some (wg_addr n)"
    and "next_wg t = (Inr n, t') \<Longrightarrow> 2 \<le> n \<and> n \<le> 253 \<and> n < seq_wg t'"
proof -
  show "vpn_inv (snd (next_wg t))"
  proof (cases "seq_wg t > 253")
    case True
    then show ?thesis using assms by (simp add: next_wg_def)
  next
    case False
    note v = vpn_invD [OF assms]
    from False have t: "snd (next_wg t) = t\<lparr>seq_wg := seq_wg t + 1\<rparr>" by (simp add: next_wg_def)
    show ?thesis unfolding t
    proof (rule vpn_invI, goal_cases)
      case (3 p a)
      then show ?case using v(3) [of p a] by force
    next
      case (4 p q a)
      then show ?case using v(4) [of p q a] by simp
    qed (use v False in auto)
  qed
next
  assume n: "next_wg t = (Inr n, t')" and p: "p \<in> set (tb_vpeers t')"
  then have t: "n = seq_wg t" "n \<le> 253" "tb_vpeers t' = tb_vpeers t" by (auto simp: next_wg_def split: if_splits)
  show "vp_address p \<noteq> Some (wg_addr n)"
  proof
    assume "vp_address p = Some (wg_addr n)"
    with vpn_invD(3) [OF assms] p t obtain m where "2 \<le> m" "m < n" "wg_addr n = wg_addr m" by metis
    with wg_addr_inj [of n m] small_int64 t show False by simp
  qed
next
  assume "next_wg t = (Inr n, t')"
  then show "2 \<le> n \<and> n \<le> 253 \<and> n < seq_wg t'" using vpn_invD(5) [OF assms] by (auto simp: next_wg_def split: if_splits)
qed

text \<open>What is known of a chosen address: the peer has it, or it is given and nobody has it.\<close>

definition chosen :: "int \<Rightarrow> uuid \<Rightarrow> string \<Rightarrow> tables \<Rightarrow> bool" where
  "chosen user dev a t \<longleftrightarrow> (\<exists>p \<in> set (tb_vpeers t). peer_key user dev ''wireguard'' p \<and> vp_address p = Some a)
     \<or> (\<exists>n. 2 \<le> n \<and> n \<le> 253 \<and> n < seq_wg t \<and> a = wg_addr n \<and> (\<forall>p \<in> set (tb_vpeers t). vp_address p \<noteq> Some a))"

lemma wg_address_chosen:
  "triple (on_tabs vpn_inv) (wg_address user dev) (\<lambda>a s. vpn_inv (tabs s) \<and> (\<forall>x. a = Inr x \<longrightarrow> chosen user dev x (tabs s)))"
proof (rule tripleI)
  fix s a s' assume i: "on_tabs vpn_inv s" and r: "run_state (wg_address user dev) s = (a, s')"
  let ?q = "\<lambda>t. map (\<lambda>p. case vp_address p of None \<Rightarrow> '''' | Some a \<Rightarrow> a) (filter (peer_key user dev ''wireguard'') (tb_vpeers t))"
  obtain q s1 where q: "run_state (query_row ?q) s = (q, s1)" by fastforce
  have t1: "tabs s1 = tabs s" by (rule query_row_tabs [OF q])
  let ?e = "case q of Inl _ \<Rightarrow> '''' | Inr a \<Rightarrow> a"
  show "vpn_inv (tabs s') \<and> (\<forall>x. a = Inr x \<longrightarrow> chosen user dev x (tabs s'))"
  proof (cases "?e = ''''")
    case False
    with r q have s': "a = Inr ?e" "s' = s1" by (auto simp: wg_address_def)
    from False obtain x where x: "q = Inr x" "x \<noteq> ''''" by (cases q) auto
    from query_row_InrD [OF q [unfolded x(1)]] have "x \<in> set (?q (tabs s))" by (metis list.set_intros(1))
    then obtain p where p: "p \<in> set (tb_vpeers (tabs s))" "peer_key user dev ''wireguard'' p" "x = (case vp_address p of None \<Rightarrow> '''' | Some a \<Rightarrow> a)" by auto
    with x(2) have "vp_address p = Some x" by (auto split: option.splits)
    with p(1,2) have "chosen user dev x (tabs s)" by (auto simp: chosen_def)
    then show ?thesis using s' x(1) t1 i by (auto simp: on_tabs_def)
  next
    case True
    obtain n s2 where n: "run_state (stmt next_wg) s1 = (n, s2)" by fastforce
    with r q True have s': "a = (case n of Inl e \<Rightarrow> Inl (PoolExhausted e) | Inr i \<Rightarrow> Inr (wg_addr i))" "s' = s2" by (auto simp: wg_address_def)
    have iv: "vpn_inv (tabs s1)" using i t1 by (simp add: on_tabs_def)
    have "vpn_inv (tabs s2)" using stmt_tabs [OF n] next_wg_inv(1) [OF iv] iv by auto
    moreover have "chosen user dev x (tabs s2)" if "a = Inr x" for x
    proof -
      from that s'(1) obtain i where i: "n = Inr i" "x = wg_addr i" by (cases n) auto
      note nx = stmt_InrD [OF n [unfolded i(1)]]
      from next_wg_inv(2,3) [OF iv nx] i(2) show ?thesis by (auto simp: chosen_def)
    qed
    ultimately show ?thesis using s'(2) by blast
  qed
qed

definition fresh_addr :: "string \<Rightarrow> tables \<Rightarrow> bool" where
  "fresh_addr a t \<longleftrightarrow> (\<exists>n. 2 \<le> n \<and> n \<le> 253 \<and> n < seq_wg t \<and> a = wg_addr n) \<and> (\<forall>p \<in> set (tb_vpeers t). vp_address p \<noteq> Some a)"

lemma peer_key_unique:
  "vpn_inv t \<Longrightarrow> p \<in> set (tb_vpeers t) \<Longrightarrow> q \<in> set (tb_vpeers t) \<Longrightarrow> peer_key user dev pr p \<Longrightarrow> peer_key user dev pr q \<Longrightarrow> p = q"
  using vpn_invD(1) [of t] distinct_map_eq [of "\<lambda>p. (vp_user p, vp_device p, vp_protocol p)" "tb_vpeers t" p q] by (simp add: peer_key_def)

text \<open>Rows change without their keys; at most the peer asked about gets an address, a fresh one.\<close>

lemma vpn_inv_change:
  assumes i: "vpn_inv t" and key: "\<And>p. vp_user (f p) = vp_user p \<and> vp_device (f p) = vp_device p \<and> vp_protocol (f p) = vp_protocol p"
    and adr: "\<And>p. p \<in> set (tb_vpeers t) \<Longrightarrow> vp_address (f p) = vp_address p \<or> peer_key user dev pr p \<and> vp_address (f p) = Some a \<and> fresh_addr a t"
  shows "vpn_inv (t\<lparr>tb_vpeers := map f (tb_vpeers t)\<rparr>)"
proof (rule vpn_invI, goal_cases)
  case 1
  then show ?case using vpn_invD(1) [OF i] key by (simp add: comp_def)
next
  case (2 p)
  then show ?case using vpn_invD(2) [OF i] key by auto
next
  case (3 q b)
  then obtain p where p: "p \<in> set (tb_vpeers t)" "q = f p" by auto
  from adr [OF p(1)] 3(2) show ?case using vpn_invD(3) [OF i p(1)] p(2) by (auto simp: fresh_addr_def)
next
  case (4 p' q' b)
  then obtain p q where p: "p \<in> set (tb_vpeers t)" "p' = f p" "q \<in> set (tb_vpeers t)" "q' = f q" by auto
  have new: "vp_address x \<noteq> Some b" if "fresh_addr b t" "x \<in> set (tb_vpeers t)" for x using that by (auto simp: fresh_addr_def)
  have c: "vp_address x = Some b \<or> peer_key user dev pr x \<and> fresh_addr b t" if "x \<in> set (tb_vpeers t)" "vp_address (f x) = Some b" for x
    using adr [OF that(1)] that(2) by auto
  have "p = q" using c [OF p(1)] c [OF p(3)] 4(3,4) new [OF _ p(1)] new [OF _ p(3)] unfolding p(2,4)
    by (metis vpn_invD(4) [OF i p(1) p(3)] peer_key_unique [OF i p(1,3)])
  then show ?case by (simp add: p)
qed (use vpn_invD(5) [OF i] in auto)

lemma vpn_inv_add:
  assumes i: "vpn_inv t" and "(vp_user p, vp_device p, vp_protocol p) \<notin> (\<lambda>p. (vp_user p, vp_device p, vp_protocol p)) ` set (tb_vpeers t)"
    and "vp_user p \<in> u_id ` set (tb_users t)" "vp_device p \<in> d_id ` set (tb_devices t)" "\<And>a. vp_address p = Some a \<Longrightarrow> fresh_addr a t"
  shows "vpn_inv (t\<lparr>tb_vpeers := tb_vpeers t @ [p]\<rparr>)"
proof (rule vpn_invI, goal_cases)
  case (3 q a)
  then show ?case using vpn_invD(3) [OF i, of q a] assms(5) by (auto simp: fresh_addr_def)
next
  case (4 q r a)
  then show ?case using vpn_invD(4) [OF i, of q r a] assms(5) by (auto simp: fresh_addr_def)
qed (use vpn_invD(1,2,5) [OF i] assms(2-4) in auto)

lemma vpn_inv_drop: "vpn_inv t \<Longrightarrow> vpn_inv (t\<lparr>tb_vpeers := filter A (tb_vpeers t)\<rparr>)"
  by (rule vpn_invI) (auto intro: distinct_map_filterI dest: vpn_invD)

lemma no_peer: "\<not> list_ex (peer_key user dev pr) ps \<Longrightarrow> (user, dev, pr) \<notin> (\<lambda>p. (vp_user p, vp_device p, vp_protocol p)) ` set ps"
  by (auto simp: list_ex_iff peer_key_def)

lemma put_wg_peer_inv:
  assumes i: "vpn_inv t" and c: "chosen user dev a t"
  shows "vpn_inv (snd (put_wg_peer user dev pub a e l n t))"
proof -
  let ?key = "peer_key user dev ''wireguard''"
  have fresh: "fresh_addr a t" if "\<not> (\<exists>p \<in> set (tb_vpeers t). ?key p \<and> vp_address p = Some a)"
    using c that unfolding chosen_def fresh_addr_def by blast
  have one: "q = p" if "p \<in> set (tb_vpeers t)" "?key p" "q \<in> set (tb_vpeers t)" "?key q" for p q
    using peer_key_unique [OF i that(3,1,4,2)] .
  show ?thesis
  proof (cases "vpeer_fks user dev n t \<and> list_ex ?key (tb_vpeers t)")
    case True
    let ?f = "\<lambda>p. if ?key p then p\<lparr>vp_pubkey := Some pub, vp_address := (case vp_address p of Some a \<Rightarrow> Some a | None \<Rightarrow> Some a), vp_expires := Some e,
               vp_limit := Some l, vp_node := n, vp_created := tb_now t\<rparr> else p"
    have ad: "vp_address (?f p) = vp_address p \<or> ?key p \<and> vp_address (?f p) = Some a \<and> fresh_addr a t" if p: "p \<in> set (tb_vpeers t)" for p
    proof (cases "?key p \<and> vp_address p = None")
      case True
      then have "fresh_addr a t" using one p by (intro fresh) (metis option.distinct(1))
      with True show ?thesis by simp
    qed (auto split: option.splits)
    have "vpn_inv (t\<lparr>tb_vpeers := map ?f (tb_vpeers t)\<rparr>)" by (rule vpn_inv_change [OF i _ ad]) auto
    with True show ?thesis by (simp add: put_wg_peer_def)
  next
    case False
    have "fresh_addr a t" if "\<not> list_ex ?key (tb_vpeers t)" using that by (intro fresh) (auto simp: list_ex_iff)
    then show ?thesis using False i by (auto simp: put_wg_peer_def vpeer_fks_def intro!: vpn_inv_add no_peer)
  qed
qed

lemma secret_change_frame:
  "secret_change f \<Longrightarrow> vp_user (f p) = vp_user p \<and> vp_device (f p) = vp_device p \<and> vp_protocol (f p) = vp_protocol p \<and> vp_address (f p) = vp_address p"
  unfolding secret_change_def by (cases p, cases "f p") (metis vpeer_row.select_convs vpeer_row.surjective vpeer_row.update_convs(10,11))

lemma put_xray_peer_inv: "vpn_inv t \<Longrightarrow> secret_change f \<Longrightarrow> vpn_inv (snd (put_xray_peer user dev pr f e n t))"
  unfolding put_xray_peer_def
  by (auto intro!: vpn_inv_change [where user = user and dev = dev and pr = pr and a = "''''"] disjI1 vpn_inv_add no_peer simp: vpeer_fks_def secret_change_frame)

lemma vpn_keeps_inv:
  "keeps (on_vs vpn_inv) (GetConfig E V C protocol user dev nodeID)" "keeps (on_vs vpn_inv) (Revoke E V C user dev protocol)"
proof -
  show "keeps (on_vs vpn_inv) (GetConfig E V C protocol user dev nodeID)"
    by (rule keeps_GetConfig [OF wg_address_chosen put_wg_peer_inv put_xray_peer_inv])
  show "keeps (on_vs vpn_inv) (Revoke E V C user dev protocol)"
    unfolding Revoke_def by (intro triple_intros vpn_keeps) (auto simp: del_vpeer_def vpn_inv_drop)
qed

section \<open>Properties\<close>

text \<open>C35: a call of Xray is made at least once and at most three times: the loop always ends, every call
  but the last was refused, it reports success exactly when the last call succeeded, and it gives
  up before the third call only when the request is cancelled; it does not touch the database.\<close>

theorem xrayRetry_attempts:
  assumes "run_state (xrayRetry V k) v = (ok, v')"
  shows "\<exists>n \<in> {1..3}. v' = v\<lparr>vs_calls := vs_calls v @ replicate n k\<rparr>
    \<and> (\<forall>i \<in> {1..<n}. \<not> xr_answer V (vs_calls v @ replicate i k))
    \<and> ok = xr_answer V (vs_calls v')
    \<and> (\<not> ok \<and> n < 3 \<longrightarrow> xr_cancelled V (vs_calls v'))"
proof -
  from xray_loop_calls [OF assms [unfolded xrayRetry_def xrayRetries_def]]
  obtain n where n: "n \<le> 3" "n > 0" "v' = v\<lparr>vs_calls := vs_calls v @ replicate n k\<rparr>"
    "\<forall>i. 0 < i \<and> i < n \<longrightarrow> \<not> xr_answer V (vs_calls v @ replicate i k)"
    "ok \<longrightarrow> xr_answer V (vs_calls v @ replicate n k)"
    "\<not> ok \<longrightarrow> \<not> xr_answer V (vs_calls v @ replicate n k) \<and> (n = 3 \<or> xr_cancelled V (vs_calls v @ replicate n k))" by auto
  then show ?thesis by (intro bexI [of _ n]) auto
qed

lemma xrayRetry_frame: "run_state (xrayRetry V k) v = (ok, v') \<Longrightarrow> \<exists>n. v' = v\<lparr>vs_calls := vs_calls v @ replicate n k\<rparr>"
  unfolding xrayRetry_def by (drule xray_loop_calls) auto

definition demo_vpn :: vpn_env where
  "demo_vpn = \<lparr> xr_dial = (\<lambda>_. True), xr_answer = (\<lambda>ks. length ks \<ge> 2), xr_cancelled = (\<lambda>_. False), wg_show = (\<lambda>_ _. None), wg_scale = (\<lambda>_ m. m),
     scalar_base_mult = (\<lambda>b. b), vmess_json = (\<lambda>kvs. concat (map (\<lambda>(k, v). k @ v) kvs)), unm_nodes = (\<lambda>_. None), by_node_name = (\<lambda>ns. ns) \<rparr>"

definition demo_vpn_config :: vpn_config where
  "demo_vpn_config = \<lparr> vc_Enabled = True, vc_DefaultExpiryDays = 30, vc_wg_Enabled = True, vc_wg_Endpoint = ''a.org:51820'', vc_wg_ServerPubKey = ''srv'',
     vc_wg_StatsInterface = ''wg0'', vc_ovpn_Enabled = True, vc_ovpn_Endpoint = ''a.org:443'', vc_xray_Enabled = True, vc_xray_Endpoint = ''a.org:8443'',
     vc_xray_APIAddr = ''127.0.0.1:10085'', vc_VmessPort = 0, vc_VlessPort = 0, vc_TrojanPort = 0 \<rparr>"

theorem xrayRetry_attempts_witness:
  "\<exists>n \<in> {1..3}. snd (run_state (xrayRetry demo_vpn (XrayRemove ''vless-in'' ''m'')) \<lparr> vs_sess = session_on empty_tables [], vs_calls = [] \<rparr>)
    = \<lparr> vs_sess = session_on empty_tables [], vs_calls = replicate n (XrayRemove ''vless-in'' ''m'') \<rparr>"
proof -
  let ?k = "XrayRemove ''vless-in'' ''m''" and ?v = "\<lparr> vs_sess = session_on empty_tables [], vs_calls = [] \<rparr>"
  obtain ok v' where r: "run_state (xrayRetry demo_vpn ?k) ?v = (ok, v')" by fastforce
  from xrayRetry_attempts [OF r] show ?thesis unfolding r by auto
qed

lemma first_peer:
  assumes "vpn_inv t" "p \<in> set (tb_vpeers t)" "peer_key user dev pr p"
  shows "\<exists>ps. filter (peer_key user dev pr) (tb_vpeers t) = p # ps"
proof (cases "filter (peer_key user dev pr) (tb_vpeers t)")
  case Nil
  with assms show ?thesis by (auto simp: filter_empty_conv)
next
  case (Cons q qs)
  then have "q \<in> set (tb_vpeers t)" "peer_key user dev pr q" by (auto simp: filter_eq_Cons_iff)
  with peer_key_unique [OF assms(1) _ assms(2) _ assms(3)] Cons show ?thesis by blast
qed

lemma expired_refused:
  assumes "faults (vs_sess v) = []" "vpn_inv (tabs (vs_sess v))" "vc_Enabled C"
    and "p \<in> set (tb_vpeers (tabs (vs_sess v)))" "peer_key user dev pr p" "vp_expires p = Some e" "e * 1000 < go_now (vs_sess v)"
  shows "run_state (GetConfig E V C pr user dev nodeID) v = (Inl VpnExpired, v)"
proof -
  from first_peer [OF assms(2,4,5)] obtain ps where "filter (peer_key user dev pr) (tb_vpeers (tabs (vs_sess v))) = p # ps" by blast
  with assms show ?thesis by (simp add: GetConfig_def vpn_refused_def sql_simps)
qed

lemma run_Revoke:
  assumes "faults (vs_sess v) = []"
  shows "\<exists>v1. run_state (Revoke E V C user dev pr) v = (Inr (), v1)
    \<and> vs_sess v1 = (vs_sess v)\<lparr>tabs := (tabs (vs_sess v))\<lparr>tb_vpeers := filter (\<lambda>p. \<not> peer_key user dev pr p) (tb_vpeers (tabs (vs_sess v)))\<rparr>\<rparr>"
proof (cases "if xray_client V C then inbound_tag pr else None")
  case None
  with assms show ?thesis by (simp add: Revoke_def sql_simps del_vpeer_def)
next
  case (Some tag)
  obtain ok v' where r: "run_state (RemoveUser V tag (xrayEmail E user dev)) v = (ok, v')" by fastforce
  from xrayRetry_frame [OF r [unfolded RemoveUser_def]] Some r assms show ?thesis by (auto simp: Revoke_def sql_simps del_vpeer_def)
qed

text \<open>The node of a request that names none.\<close>

lemma default_node:
  assumes "faults s = []"
  shows "\<exists>n. run_state (ResolveNode C None) s = (Inr n, s) \<and> (case node_ref n of None \<Rightarrow> True | Some i \<Rightarrow> i \<in> vn_id ` set (tb_vnodes (tabs s)))"
proof (cases "default_first (tb_vnodes (tabs s))")
  case Nil
  with assms show ?thesis by (simp add: ResolveNode_def GetDefaultNode_def sql_simps node_ref_def)
next
  case (Cons n ns)
  then have "n \<in> set (tb_vnodes (tabs s))" by (metis (no_types, lifting) default_first_def list.set_intros(1) set_append set_filter Un_iff mem_Collect_eq)
  with Cons assms show ?thesis by (simp add: ResolveNode_def GetDefaultNode_def sql_simps node_ref_def)
qed

lemma expiry_days: "faults s = [] \<Longrightarrow> \<exists>d > 0. run_state (getDefaultExpiryDays C) s = (d, s)"
  by (simp add: getDefaultExpiryDays_def vsetting_def sql_simps Let_def)

text \<open>A device without a VLESS configuration gets one.\<close>

lemma first_vless:
  assumes "faults (vs_sess v) = []" "vc_Enabled C" "vc_xray_Enabled C" "vc_xray_Endpoint C \<noteq> ''''"
    and no: "filter (peer_key user dev ''vless'') (tb_vpeers (tabs (vs_sess v))) = []"
    and fk: "user \<in> u_id ` set (tb_users (tabs (vs_sess v)))" "dev \<in> d_id ` set (tb_devices (tabs (vs_sess v)))"
  shows "\<exists>url v2 q d. run_state (GetConfig E V C ''vless'' user dev None) v = (Inr (url, ''messenger-vless.txt''), v2)
    \<and> q \<in> set (tb_vpeers (tabs (vs_sess v2))) \<and> peer_key user dev ''vless'' q \<and> d > 0 \<and> vp_expires q = Some (expiry (go_now (vs_sess v)) d)"
proof -
  let ?s = "vs_sess v" and ?s1 = "(vs_sess v)\<lparr>upos := Suc (upos (vs_sess v))\<rparr>"
  from default_node [OF assms(1), of C] obtain n where n: "run_state (ResolveNode C None) ?s = (Inr n, ?s)"
    "case node_ref n of None \<Rightarrow> True | Some i \<Rightarrow> i \<in> vn_id ` set (tb_vnodes (tabs ?s))" by blast
  from expiry_days [of ?s1 C] assms(1) obtain d where d: "d > 0" "run_state (getDefaultExpiryDays C) ?s1 = (d, ?s1)" by auto
  have ne: "\<not> list_ex (peer_key user dev ''vless'') (tb_vpeers (tabs ?s))" using no by (auto simp: list_ex_iff filter_empty_conv)
  let ?u = "uuid_str E (uuids ?s (upos ?s))"
  let ?q = "\<lparr> vp_user = user, vp_device = dev, vp_protocol = ''vless'', vp_pubkey = None, vp_address = None, vp_created = tb_now (tabs ?s),
    vp_expires = Some (expiry (go_now ?s) d), vp_limit = Some 0, vp_node = node_ref n, vp_xray = Some ?u, vp_trojan = None \<rparr>"
  let ?s2 = "?s1\<lparr>tabs := (tabs ?s)\<lparr>tb_vpeers := tb_vpeers (tabs ?s) @ [?q]\<rparr>\<rparr>"
  have x: "run_state (xray_secret C user dev ''vless'' n vp_xray (\<lambda>s p. p\<lparr>vp_xray := Some s\<rparr>) (do { i \<leftarrow> GenerateXrayUUID E; ret (Some i) })) ?s = (Inr ?u, ?s2)"
    using assms(1) no ne fk n(2) d(2)
    by (simp add: xray_secret_def GenerateXrayUUID_def sql_simps put_xray_peer_def vpeer_fks_def Let_def)
  let ?v2 = "v\<lparr>vs_sess := ?s2\<rparr>"
  have ep: "EffectiveXrayEndpoint C n \<noteq> ''''" using assms(4) by (simp add: EffectiveXrayEndpoint_def or_else_def)
  obtain h pt where hp: "parseHostPort (EffectiveXrayEndpoint C n) = (h, pt)" by fastforce
  obtain ok v3 where r: "run_state (if xray_client V C then AddVLESSUser V ?u (xrayEmail E user dev) else ret True) ?v2 = (ok, v3)" by fastforce
  then have s3: "vs_sess v3 = ?s2" by (auto simp: AddVLESSUser_def split: if_splits dest!: xrayRetry_frame)
  have "run_state (GetConfig E V C ''vless'' user dev None) v
      = (Inr (BuildVLESSURL ?u h (xrayPort C ''vless'' pt) (''messenger-'' @ vn_name n), ''messenger-vless.txt''), v3)"
    using assms(1-3) no n(1) ep hp x r
    by (simp add: GetConfig_def vpn_refused_def sql_simps getVLESSConfig_def xray_config_def Let_def)
  moreover have "?q \<in> set (tb_vpeers (tabs (vs_sess v3)))" "peer_key user dev ''vless'' ?q" by (simp_all add: s3 peer_key_def)
  ultimately show ?thesis using d(1) by (intro exI conjI) (assumption | simp)+
qed

text \<open>An expired configuration is refused, and the user renews it without anybody's help: after
  revoking it, which every user may do for his own devices, the same request is answered with a
  new configuration whose expiry lies in the future.\<close>

theorem expired_config_renewed_by_user:
  assumes ok: "faults (vs_sess v) = []" "vpn_inv (tabs (vs_sess v))" "vc_Enabled C" "vc_xray_Enabled C" "vc_xray_Endpoint C \<noteq> ''''"
    and p: "p \<in> set (tb_vpeers (tabs (vs_sess v)))" "peer_key user dev ''vless'' p" "vp_expires p = Some e" "e * 1000 < go_now (vs_sess v)"
  shows "\<exists>v1 url v2 q d. run_state (GetConfig E V C ''vless'' user dev None) v = (Inl VpnExpired, v)
    \<and> run_state (Revoke E V C user dev ''vless'') v = (Inr (), v1)
    \<and> run_state (GetConfig E V C ''vless'' user dev None) v1 = (Inr (url, ''messenger-vless.txt''), v2)
    \<and> q \<in> set (tb_vpeers (tabs (vs_sess v2))) \<and> peer_key user dev ''vless'' q \<and> d > 0 \<and> vp_expires q = Some (expiry (go_now (vs_sess v)) d)"
proof -
  let ?s = "vs_sess v"
  from run_Revoke [OF ok(1)] obtain v1 where v1: "run_state (Revoke E V C user dev ''vless'') v = (Inr (), v1)"
    "vs_sess v1 = ?s\<lparr>tabs := (tabs ?s)\<lparr>tb_vpeers := filter (\<lambda>p. \<not> peer_key user dev ''vless'' p) (tb_vpeers (tabs ?s))\<rparr>\<rparr>" by blast
  have "user \<in> u_id ` set (tb_users (tabs ?s))" "dev \<in> d_id ` set (tb_devices (tabs ?s))"
    using vpn_invD(2) [OF ok(2) p(1)] p(2) by (auto simp: peer_key_def)
  with first_vless [of v1 C user dev E V] ok v1(2) expired_refused [OF ok(1-3) p] v1(1) show ?thesis by (simp add: filter_empty_conv)
qed

definition demo_peer :: vpeer_row where
  "demo_peer = \<lparr> vp_user = 1, vp_device = 7, vp_protocol = ''vless'', vp_pubkey = None, vp_address = None, vp_created = 0, vp_expires = Some 5, vp_limit = Some 0,
     vp_node = None, vp_xray = Some ''x'', vp_trojan = None \<rparr>"

definition demo_wg_peer :: vpeer_row where
  "demo_wg_peer = \<lparr> vp_user = 1, vp_device = 7, vp_protocol = ''wireguard'', vp_pubkey = Some ''key'', vp_address = Some (wg_addr 2), vp_created = 0,
     vp_expires = None, vp_limit = Some 0, vp_node = None, vp_xray = None, vp_trojan = None \<rparr>"

definition demo_vpn_tables :: tables where
  "demo_vpn_tables = empty_tables\<lparr>tb_users := [\<lparr> u_id = 1, u_username = ''ann'', u_domain = ''a.org'', u_password_hash = None \<rparr>],
     tb_devices := [\<lparr> d_id = 7, d_user = 1, d_identity_key = '''', d_signed_prekey = '''', d_signed_prekey_sig = '''', d_signed_prekey_id = 1, d_name = None,
       d_created = 0, d_updated = 0 \<rparr>],
     tb_vpeers := [demo_peer, demo_wg_peer], seq_wg := 3\<rparr>"

definition demo_vpn_state :: vpn_state where
  "demo_vpn_state = \<lparr> vs_sess = session_on demo_vpn_tables [], vs_calls = [] \<rparr>"

lemma demo_vpn_inv: "vpn_inv (tabs (vs_sess demo_vpn_state))"
  by (rule vpn_invI) (auto simp: demo_vpn_state_def demo_vpn_tables_def session_on_def empty_tables_def demo_peer_def demo_wg_peer_def)

theorem expired_config_renewed_by_user_witness:
  "\<exists>v1 url v2 q d. run_state (GetConfig demo_env demo_vpn demo_vpn_config ''vless'' 1 7 None) demo_vpn_state = (Inl VpnExpired, demo_vpn_state)
    \<and> run_state (Revoke demo_env demo_vpn demo_vpn_config 1 7 ''vless'') demo_vpn_state = (Inr (), v1)
    \<and> run_state (GetConfig demo_env demo_vpn demo_vpn_config ''vless'' 1 7 None) v1 = (Inr (url, ''messenger-vless.txt''), v2)
    \<and> q \<in> set (tb_vpeers (tabs (vs_sess v2))) \<and> d > 0 \<and> vp_expires q = Some (expiry 1700000000000000000 d)"
proof -
  have now: "go_now (vs_sess demo_vpn_state) = 1700000000000000000" by (simp add: demo_vpn_state_def session_on_def)
  have "faults (vs_sess demo_vpn_state) = []" "demo_peer \<in> set (tb_vpeers (tabs (vs_sess demo_vpn_state)))"
    by (simp_all add: demo_vpn_state_def session_on_def demo_vpn_tables_def)
  moreover have "vc_Enabled demo_vpn_config" "vc_xray_Enabled demo_vpn_config" "vc_xray_Endpoint demo_vpn_config \<noteq> ''''" by (simp_all add: demo_vpn_config_def)
  moreover have "peer_key 1 7 ''vless'' demo_peer" "vp_expires demo_peer = Some 5" by (simp_all add: peer_key_def demo_peer_def)
  moreover have "5 * 1000 < go_now (vs_sess demo_vpn_state)" by (simp add: now)
  ultimately show ?thesis
    using expired_config_renewed_by_user [of demo_vpn_state demo_vpn_config demo_peer 1 7 5 demo_env demo_vpn] demo_vpn_inv unfolding now by blast
qed

text \<open>Commands so far; the database does not give any.\<close>

lemma keeps_calls [triple_intros]: "keeps (\<lambda>v. vs_calls v = c) (in_db m)"
  by (auto simp: triple_def in_db_def split: prod.splits)

lemma keeps_calls_read: "keeps (on_tabs P) m \<Longrightarrow> keeps (\<lambda>v. vs_calls v = c \<and> on_vs P v) (in_db m)"
  by (fastforce simp: triple_def on_vs_def on_tabs_def in_db_def split: prod.splits)

definition no_wg_peer :: "int \<Rightarrow> uuid \<Rightarrow> tables \<Rightarrow> bool" where
  "no_wg_peer user dev t \<longleftrightarrow> filter (peer_key user dev ''wireguard'') (tb_vpeers t) = []"

lemma old_pubkey_none: "no_wg_peer user dev (tabs s) \<Longrightarrow> fst (run_state (old_pubkey user dev) s) = ''''"
  by (auto simp: old_pubkey_def no_wg_peer_def split: prod.splits sum.splits option.splits dest: query_row_InrD)

lemma wg_config_calls:
  "triple (\<lambda>v. vs_calls v = c \<and> on_vs (no_wg_peer user dev) v) (getWireGuardConfig V C user dev node) (\<lambda>_ v. vs_calls v = c)"
proof -
  let ?I = "\<lambda>v. vs_calls v = c \<and> on_vs (no_wg_peer user dev) v"
  have kp: "keeps ?I (in_db (WireGuardKeyPair V))" by (intro keeps_calls_read vpn_keeps)
  have old: "triple ?I (in_db (old_pubkey user dev)) (\<lambda>old v. old = '''' \<and> vs_calls v = c)"
    using old_pubkey_none [of user dev] by (fastforce simp: triple_def on_vs_def in_db_def split: prod.splits)
  have rest: "triple (\<lambda>v. old = '''' \<and> vs_calls v = c) (do { _ \<leftarrow> (if old \<noteq> '''' \<and> old \<noteq> k then RemoveWGPeer C old else ret ()); m }) (\<lambda>_ v. vs_calls v = c)"
    if "keeps (\<lambda>v. vs_calls v = c) m" for old k and m :: "(vpn_state, vpn_err + string \<times> string) state"
    using that by (cases "old = ''''") (auto simp: triple_def)
  show ?thesis unfolding getWireGuardConfig_def Let_def
    by (rule triple_if, rule triple_ret, simp, rule triple_bind [OF kp], rule triple_case_option, rule triple_ret, simp, rule triple_case_prod,
        rule triple_bind [OF old], rule rest, intro triple_intros)
qed

text \<open>Revoking a WireGuard configuration deletes the row and nothing else: no command is given to the
  WireGuard interface, and since the row held the public key, no later request of the device takes
  the old peer off the interface either.\<close>

theorem revoked_tunnel_stays:
  assumes "run_state (Revoke E V C user dev ''wireguard'') v = (Inr (), v1)"
    and "run_state (GetConfig E V C ''wireguard'' user dev nodeID) v1 = (r, v2)"
  shows "(\<forall>p \<in> set (tb_vpeers (tabs (vs_sess v1))). \<not> peer_key user dev ''wireguard'' p) \<and> vs_calls v1 = vs_calls v \<and> vs_calls v2 = vs_calls v"
proof -
  from assms(1) have s1: "run_state (stmt (del_vpeer user dev ''wireguard'')) (vs_sess v) = (Inr (), vs_sess v1)" "vs_calls v1 = vs_calls v"
    by (auto simp: Revoke_def inbound_tag_def sql_simps split: prod.splits if_splits)
  then have no: "no_wg_peer user dev (tabs (vs_sess v1))" "\<forall>p \<in> set (tb_vpeers (tabs (vs_sess v1))). \<not> peer_key user dev ''wireguard'' p"
    using arg_cong [OF stmt_InrD [OF s1(1)], of "\<lambda>x. tb_vpeers (snd x)", symmetric] by (simp_all add: del_vpeer_def no_wg_peer_def filter_empty_conv)
  let ?I = "\<lambda>w. vs_calls w = vs_calls v \<and> on_vs (no_wg_peer user dev) w"
  have refused: "keeps ?I (vpn_refused V C ''wireguard'' user dev)"
    unfolding vpn_refused_def FetchWGStats_def Let_def by (intro triple_intros keeps_calls_read)
  have "triple ?I (GetConfig E V C ''wireguard'' user dev nodeID) (\<lambda>_ w. vs_calls w = vs_calls v)"
    unfolding GetConfig_def
    by (rule triple_if, rule triple_ret, simp, rule triple_bind [OF refused], rule triple_case_option, rule triple_bind [OF keeps_calls_read [OF keeps_vpn_reads(1)]],
        rule triple_case_sum, rule triple_ret, simp, simp add: wg_config_calls, rule triple_ret, simp)
  from tripleD [OF this _ assms(2)] no s1(2) show ?thesis by (simp add: on_vs_def)
qed

text \<open>Splitting an endpoint gives back the host and the port it was put together from, for names and
  addresses and for bracketed IPv6 addresses.\<close>

theorem parseHostPort_join:
  "(host \<noteq> '''' \<and> \<not> HasPrefix host ''['' \<and> CHR '':'' \<notin> set port \<longrightarrow> parseHostPort (host @ '':'' @ port) = (host, port))
   \<and> (CHR '']'' \<notin> set h \<longrightarrow> parseHostPort (''['' @ h @ '']:'' @ port) = (''['' @ h @ '']'', port))"
proof -
  have l: "LastIndexC (host @ '':'' @ port) (CHR '':'') = Some (length host)" if "CHR '':'' \<notin> set port"
    using that Index_char_first [of "CHR '':''" "rev port" "rev host"] by (simp add: LastIndexC_def)
  have b: "Index (h @ '']:'' @ port) '']:'' = Some (length h)" if "CHR '']'' \<notin> set h"
    using that by (induction h) (auto simp: HasPrefix_def)
  have "parseHostPort (host @ '':'' @ port) = (host, port)" if "host \<noteq> ''''" "\<not> HasPrefix host ''[''" "CHR '':'' \<notin> set port"
    using l [OF that(3)] that(1,2) by (cases host) (simp_all add: parseHostPort_def HasPrefix_def)
  moreover have "parseHostPort (''['' @ h @ '']:'' @ port) = (''['' @ h @ '']'', port)" if "CHR '']'' \<notin> set h"
    using b [OF that] by (simp add: parseHostPort_def HasPrefix_def)
  ultimately show ?thesis by blast
qed

theorem revoked_tunnel_stays_witness:
  "\<exists>v1 r v2. run_state (Revoke demo_env demo_vpn demo_vpn_config 1 7 ''wireguard'') demo_vpn_state = (Inr (), v1)
    \<and> run_state (GetConfig demo_env demo_vpn demo_vpn_config ''wireguard'' 1 7 None) v1 = (r, v2) \<and> vs_calls v2 = []"
proof -
  have "faults (vs_sess demo_vpn_state) = []" by (simp add: demo_vpn_state_def session_on_def)
  from run_Revoke [OF this] obtain v1 where v1: "run_state (Revoke demo_env demo_vpn demo_vpn_config 1 7 ''wireguard'') demo_vpn_state = (Inr (), v1)" by blast
  obtain r v2 where v2: "run_state (GetConfig demo_env demo_vpn demo_vpn_config ''wireguard'' 1 7 None) v1 = (r, v2)" by fastforce
  from revoked_tunnel_stays [OF v1 v2] v1 v2 show ?thesis by (auto simp: demo_vpn_state_def)
qed

theorem parseHostPort_join_witness: "parseHostPort ''a.org:8443'' = (''a.org'', ''8443'') \<and> parseHostPort ''[::1]:443'' = (''[::1]'', ''443'')"
  using parseHostPort_join [of "''a.org''" "''8443''" "''x''"] parseHostPort_join [of "''a''" "''443''" "''::1''"] by (simp add: HasPrefix_def)

text \<open>
  The traffic limit of the settings is in megabytes and is multiplied without a check: a limit
  of \<open>2\<^sup>44\<close> megabytes, which \<open>ParseInt\<close> accepts, is no limit at all.
\<close>

lemma traffic_limit_wraps:
  assumes "faults s = []" "tb_vsettings (tabs s) = [(''default_traffic_limit_mb'', Itoa 17592186044416)]"
  shows "run_state getDefaultTrafficLimitBytes s = (0, s)"
  using assms by (simp add: getDefaultTrafficLimitBytes_def vsetting_def sql_simps ParseInt_Itoa int64_def wrap64_def)

text \<open>Without an address left, a device that has none is refused.\<close>

lemma pool_exhausted:
  assumes "faults (vs_sess v) = []" "vc_Enabled C" "vc_wg_Enabled C" "vc_wg_ServerPubKey C \<noteq> ''''" "entropy (vs_sess v) (epos (vs_sess v)) \<noteq> None"
    and "no_wg_peer user dev (tabs (vs_sess v))" "seq_wg (tabs (vs_sess v)) > 253"
  shows "fst (run_state (GetConfig E V C ''wireguard'' user dev nodeID) v) = Inl (PoolExhausted SequenceLimit)"
proof -
  let ?s = "vs_sess v"
  have "\<exists>n. run_state (ResolveNode C nodeID) ?s = (Inr n, ?s)"
    using default_node [OF assms(1), of C] assms(1) by (auto simp: ResolveNode_def GetNode_def sql_simps split: option.splits list.splits)
  then obtain n where n: "run_state (ResolveNode C nodeID) ?s = (Inr n, ?s)" by blast
  have "EffectiveWGServerPubKey C n \<noteq> ''''" using assms(4) by (simp add: EffectiveWGServerPubKey_def or_else_def)
  moreover obtain f where "entropy ?s (epos ?s) = Some f" using assms(5) by blast
  ultimately show ?thesis using assms n
    by (simp add: GetConfig_def vpn_refused_def sql_simps getWireGuardConfig_def WireGuardKeyPair_def old_pubkey_def wg_address_def no_wg_peer_def next_wg_def Let_def)
qed

end
