(* ===== verification/Api.thy ===== *)
theory Api
  imports Fed_Handlers Push Vpn
begin

text \<open>
  The HTTP API of the clients: the authentication and forwarding middleware
  (\<open>src/server/internal/api/middleware.go\<close>), the handlers of keys and messages (\<open>handlers.go\<close>), of
  rooms (\<open>handlers_rooms.go\<close>) and of push subscriptions (\<open>handlers_push.go\<close>). A handler is a program
  on the node of \<open>Fed_Handlers\<close> together with the push notifications handed out; its answer is
  the status with the error code, or what is written as JSON. Audit logging is left out.
\<close>

section \<open>Requests\<close>

record api_req =
  hr_Method :: string
  hr_Path :: string
  hr_RawQuery :: string
  hr_Host :: string
  hr_TLS :: bool
  hr_Header :: "string \<Rightarrow> string"
  hr_Body :: string
  hr_ContentLength :: int
  hr_Query :: "string \<Rightarrow> string"
  hr_Param :: "string \<Rightarrow> string"

record send_req =
  sq_Type :: string
  sq_Sender :: string
  sq_Recipient :: string
  sq_DeviceID :: string
  sq_Timestamp :: int
  sq_Ciphertext :: string
  sq_Ciphertexts :: "(string \<times> string) list"
  sq_SessionID :: string

record keys_req =
  kq_IdentitySigningKey :: string
  kq_SignedPrekey :: "(string \<times> string \<times> int) option"
  kq_OneTimePrekeys :: "(string \<times> int) list"

text \<open>
  \<open>json.NewDecoder(r.Body).Decode\<close> for each request type (\<open>None\<close>: an error), the JSON of a push
  notification, \<open>with_device\<close> which sets \<open>device_id\<close> in a JSON object (and is the identity on
  what is none), and \<open>time.Time.Format\<close> with \<open>RFC3339Nano\<close> of a clock in nanoseconds.
\<close>

record codec =
  dec_send :: "string \<Rightarrow> send_req option"
  dec_typing :: "string \<Rightarrow> (string \<times> bool) option"
  dec_read :: "string \<Rightarrow> string list option"
  dec_keys :: "string \<Rightarrow> keys_req option"
  dec_name :: "string \<Rightarrow> string option"
  dec_member :: "string \<Rightarrow> (int \<times> string) option"
  dec_subscription :: "string \<Rightarrow> (string \<times> string \<times> string) option"
  dec_endpoint_only :: "string \<Rightarrow> string option"
  push_json :: "string \<Rightarrow> string \<Rightarrow> string"
  with_device :: "string \<Rightarrow> string \<Rightarrow> string"
  fmt_now :: "int \<Rightarrow> string"

text \<open>
  The state of a server: the node, the notifications handed to the push services, the commands
  given to WireGuard and Xray, and the objects in the bucket of the media.
\<close>

record world =
  wd_node :: node
  wd_pushed :: "push_note list"
  wd_calls :: "vpn_call list"
  wd_objects :: "string \<Rightarrow> bytes option"

definition on_node :: "(node, 'a) state \<Rightarrow> (world, 'a) state" where
  "on_node m = State (\<lambda>w. case run_state m (wd_node w) of (x, n) \<Rightarrow> (x, w\<lparr>wd_node := n\<rparr>))"

abbreviation on_db :: "(sess, 'a) state \<Rightarrow> (world, 'a) state" where
  "on_db m \<equiv> on_node (on_sess m)"

definition push_out :: "push_note list \<Rightarrow> (world, unit) state" where
  "push_out ns = State (\<lambda>w. ((), w\<lparr>wd_pushed := wd_pushed w @ ns\<rparr>))"

text \<open>A call of the hub behind a test for nil.\<close>

definition hub_do :: "(hub \<Rightarrow> redis_msg list \<times> hub) \<Rightarrow> (node, unit) state" where
  "hub_do f = State (\<lambda>n. ((), case nd_hub n of
     None \<Rightarrow> n
   | Some h \<Rightarrow> (case f h of (ms, h') \<Rightarrow> n\<lparr>nd_hub := Some h', nd_published := nd_published n @ ms\<rparr>)))"

section \<open>Middleware\<close>

text \<open>What the context of a request carries.\<close>

record ctx =
  cx_user :: "int option"
  cx_device :: "string option"
  cx_proxy :: "proxy_session option"

definition getUserID :: "ctx \<Rightarrow> int" where
  "getUserID c = (case cx_user c of None \<Rightarrow> 0 | Some u \<Rightarrow> u)"

definition getDeviceID :: "ctx \<Rightarrow> string" where
  "getDeviceID c = (case cx_device c of None \<Rightarrow> '''' | Some d \<Rightarrow> d)"

definition getProxySession :: "ctx \<Rightarrow> proxy_session option" where
  "getProxySession c = cx_proxy c"

definition extractToken :: "api_req \<Rightarrow> string" where
  "extractToken r = (let h = hr_Header r ''Authorization'' in
     if HasPrefix h ''Bearer '' then TrimPrefix h ''Bearer '' else '''')"

definition AuthMiddleware :: "env \<Rightarrow> auth \<Rightarrow> api_req \<Rightarrow> (ctx \<Rightarrow> (world, 'a answer) state) \<Rightarrow> (world, 'a answer) state" where
  "AuthMiddleware E S r next =
     (let token = extractToken r in
      if token = '''' then ret (Fail 401 ''missing_token'')
      else do {
        v \<leftarrow> on_db (ValidateToken E S token);
        case v of
          Inr (userID, deviceID) \<Rightarrow> next \<lparr> cx_user = Some userID, cx_device = Some (uuid_str E deviceID), cx_proxy = None \<rparr>
        | Inl _ \<Rightarrow> do {
            p \<leftarrow> on_db (GetProxySessionByToken E token);
            case p of
              Inl _ \<Rightarrow> ret (Fail 401 ''invalid_token'')
            | Inr ps \<Rightarrow> next \<lparr> cx_user = None, cx_device = None, cx_proxy = Some ps \<rparr> } })"

datatype 'a reply = Here 'a | Forwarded nat string

definition handled_here :: "string \<Rightarrow> bool" where
  "handled_here path \<longleftrightarrow> path = ''/api/v1/users/search'' \<or> HasPrefix path ''/api/v1/keys/bundle/''
     \<or> HasPrefix path ''/api/v1/keys/devices/''"

definition forward_req :: "proxy_session \<Rightarrow> api_req \<Rightarrow> http_req" where
  "forward_req ps r =
     (let sch = (if \<not> hr_TLS r \<and> HasPrefix (hr_Host r) ''localhost'' then ''http'' else ''https'');
          path = (if hr_RawQuery r \<noteq> '''' then hr_Path r @ ''?'' @ hr_RawQuery r else hr_Path r) in
      \<lparr> hq_method = hr_Method r, hq_url = sch @ ''://'' @ px_HomeDomain ps @ path,
        hq_header = (\<lambda>k. if k = ''Authorization'' then ''Bearer '' @ px_HomeToken ps
          else if k \<in> {''Content-Type'', ''X-Protocol-Version'', ''X-Idempotency-Key''} then hr_Header r k else ''''),
        hq_body = hr_Body r \<rparr>)"

text \<open>A URL that makes no request is an answer 500 here, because the error is looked at.\<close>

definition ProxyForwardMiddleware :: "net \<Rightarrow> api_req \<Rightarrow> (ctx \<Rightarrow> (world, 'a answer) state) \<Rightarrow> ctx \<Rightarrow> (world, 'a reply answer) state" where
  "ProxyForwardMiddleware N r next c =
     (let here = do { a \<leftarrow> next c; ret (case a of Fail st m \<Rightarrow> Fail st m | Done x \<Rightarrow> Done (Here x) | Panicked \<Rightarrow> Panicked) } in
      case getProxySession c of
        None \<Rightarrow> here
      | Some ps \<Rightarrow>
          if handled_here (hr_Path r) then here
          else do {
            x \<leftarrow> on_node (on_net (http_call N (forward_req ps r)));
            ret (case x of
              Inl e \<Rightarrow> if e = FedPanic then Fail 500 ''internal_error'' else Fail 502 ''proxy_error''
            | Inr resp \<Rightarrow> Done (Forwarded (hp_status resp) (hp_body resp))) })"

definition protected :: "env \<Rightarrow> net \<Rightarrow> auth \<Rightarrow> api_req \<Rightarrow> (ctx \<Rightarrow> (world, 'a answer) state) \<Rightarrow> (world, 'a reply answer) state" where
  "protected E N S r handler = AuthMiddleware E S r (ProxyForwardMiddleware N r handler)"

section \<open>Messages\<close>

record relay_handler =
  rh_relay :: "rooms_err relay"
  rh_rooms :: bool
  rh_fed :: "fed_client option"
  rh_domain :: string
  rh_push :: "push option"
  rh_auth :: auth
  rh_e2eeStrictOnly :: bool

definition signalPrefix :: string where
  "signalPrefix = ''sig1:''"

definition signal_form :: "string \<Rightarrow> bool" where
  "signal_form ct \<longleftrightarrow> HasPrefix ct signalPrefix \<or> HasPrefix ct ''sk1:''"

text \<open>The strict mode: what it refuses.\<close>

definition strict_refuses :: "send_req \<Rightarrow> bytes \<Rightarrow> bool" where
  "strict_refuses req ciphertext \<longleftrightarrow>
     (if sq_Ciphertexts req \<noteq> [] then list_ex (\<lambda>(_, ct). ct \<noteq> '''' \<and> \<not> signal_form ct) (sq_Ciphertexts req)
      else ciphertext \<noteq> [] \<and> \<not> signal_form ciphertext)"

definition send_input_of :: "api_req \<Rightarrow> ctx \<Rightarrow> send_req \<Rightarrow> send_input" where
  "send_input_of r c req = \<lparr> si_EventID = '''', si_Sender = sq_Sender req, si_Recipient = sq_Recipient req, si_SenderUserID = getUserID c,
     si_SenderDevice = sq_DeviceID req, si_Ciphertext = Some (b64_bytes (sq_Ciphertext req)), si_Ciphertexts = sq_Ciphertexts req,
     si_SessionID = sq_SessionID req, si_Timestamp = sq_Timestamp req, si_IdempotencyKey = hr_Header r ''X-Idempotency-Key'' \<rparr>"

text \<open>The transaction of one event for a user of another server; its id is a fresh UUID.\<close>

definition send_txn :: "env \<Rightarrow> send_input \<Rightarrow> string \<Rightarrow> uuid \<Rightarrow> transaction" where
  "send_txn E inp eventID u = \<lparr> tx_TransactionID = ''txn_'' @ uuid_str E u, tx_Origin = '''', tx_Destination = '''',
     tx_Events = [\<lparr> xe_EventID = eventID, xe_Type = ''m.room.encrypted'', xe_Sender = si_Sender inp, xe_Recipient = si_Recipient inp,
       xe_Timestamp = si_Timestamp inp, xe_Ciphertext = b64_encode (case si_Ciphertext inp of None \<Rightarrow> [] | Some c \<Rightarrow> c),
       xe_SessionID = si_SessionID inp \<rparr>] \<rparr>"

definition send_remote :: "env \<Rightarrow> net \<Rightarrow> fed_client \<Rightarrow> send_input \<Rightarrow> string \<Rightarrow> (node, string answer) state" where
  "send_remote E N c inp eventID = do {
     u \<leftarrow> on_sess uuid_new;
     x \<leftarrow> on_net (SendTransaction E N c (extractDomain (si_Recipient inp)) (send_txn E inp eventID u));
     case x of
       Inl e \<Rightarrow> ret (if e = FedPanic then Panicked else Fail 502 ''federation_failed'')
     | Inr _ \<Rightarrow> do { _ \<leftarrow> hub_do (Notify (si_Recipient inp) eventID); ret (Done eventID) } }"

definition sender_label :: "string \<Rightarrow> string" where
  "sender_label sender =
     (let l = (case Index sender '':'' of
          Some idx \<Rightarrow> if idx > 0 then TrimPrefix (take idx sender) ''@'' else TrimPrefix sender ''@''
        | None \<Rightarrow> TrimPrefix sender ''@'') in
      if l = '''' then [CHR 0xD0, CHR 0x9A, CHR 0xD1, CHR 0x82, CHR 0xD0, CHR 0xBE, CHR 0x2D, CHR 0xD1, CHR 0x82, CHR 0xD0, CHR 0xBE] else l)"

definition push_to :: "env \<Rightarrow> codec \<Rightarrow> push \<Rightarrow> string \<Rightarrow> string \<Rightarrow> (world, unit) state" where
  "push_to E J P lbl addr = do { ns \<leftarrow> on_db (NotifyNewMessage E (push_json J) P addr lbl); push_out ns }"

definition push_message :: "env \<Rightarrow> codec \<Rightarrow> relay_handler \<Rightarrow> send_input \<Rightarrow> (world, unit) state" where
  "push_message E J H inp =
     (case rh_push H of
        None \<Rightarrow> ret ()
      | Some P \<Rightarrow>
          if \<not> Enabled P then ret ()
          else (let lbl = sender_label (si_Sender inp) in
            if HasPrefix (si_Recipient inp) ''!'' \<and> rh_rooms H then
              (case ParseRoomAddr (si_Recipient inp) of
                 None \<Rightarrow> ret ()
               | Some (roomIDStr, _) \<Rightarrow>
                   (case uuid_parse E roomIDStr of
                      None \<Rightarrow> ret ()
                    | Some roomID \<Rightarrow> do {
                        m \<leftarrow> on_db (MemberAddresses roomID);
                        case m of
                          Inl _ \<Rightarrow> ret ()
                        | Inr addrs \<Rightarrow> mfold (\<lambda>_ addr. if addr \<noteq> si_Sender inp then push_to E J P lbl addr else ret ()) () addrs }))
            else push_to E J P lbl (si_Recipient inp)))"

definition send_handler :: "env \<Rightarrow> net \<Rightarrow> codec \<Rightarrow> relay_handler \<Rightarrow> api_req \<Rightarrow> ctx \<Rightarrow> (world, string answer) state" where
  "send_handler E N J H r c =
     (case dec_send J (hr_Body r) of
        None \<Rightarrow> ret (Fail 400 ''invalid_request'')
      | Some req \<Rightarrow>
          if rh_e2eeStrictOnly H \<and> strict_refuses req (b64_bytes (sq_Ciphertext req)) then ret (Fail 400 ''strict_signal_only'')
          else (let inp = send_input_of r c req in do {
            x \<leftarrow> on_db (Send E (rh_relay H) inp);
            case x of
              Inr eventID \<Rightarrow> do {
                _ \<leftarrow> on_node (hub_do (Notify (si_Recipient inp) eventID));
                _ \<leftarrow> push_message E J H inp;
                ret (Done eventID) }
            | Inl ErrNotRoomMember \<Rightarrow> ret (Fail 403 ''forbidden'')
            | Inl ErrRecipientNotFound \<Rightarrow> ret (Fail 404 ''not_found'')
            | Inl ErrReplayTimestamp \<Rightarrow> ret (Fail 400 ''replay_protection'')
            | Inl (ErrRemoteRecipient eventID) \<Rightarrow>
                (case rh_fed H of
                   None \<Rightarrow> ret (Fail 500 ''internal_error'')
                 | Some fed \<Rightarrow>
                     if extractDomain (si_Recipient inp) \<noteq> '''' then on_node (send_remote E N fed inp eventID)
                     else ret (Fail 500 ''internal_error''))
            | Inl _ \<Rightarrow> ret (Fail 500 ''internal_error'') }))"

text \<open>The address of the user of a request, as \<open>typing\<close> and \<open>read\<close> build it.\<close>

definition own_addr :: "relay_handler \<Rightarrow> ctx \<Rightarrow> (world, string option) state" where
  "own_addr H c = do {
     u \<leftarrow> on_db (GetUsername (rh_auth H) (getUserID c));
     ret (case u of Inl _ \<Rightarrow> None | Inr name \<Rightarrow> if name = '''' then None else Some (''@'' @ name @ '':'' @ rh_domain H)) }"

definition typing_handler :: "env \<Rightarrow> codec \<Rightarrow> relay_handler \<Rightarrow> api_req \<Rightarrow> ctx \<Rightarrow> (world, unit answer) state" where
  "typing_handler E J H r c =
     (case dec_typing J (hr_Body r) of
        None \<Rightarrow> ret (Fail 400 ''invalid_request'')
      | Some (recipient, isTyping) \<Rightarrow>
          if recipient = '''' then ret (Fail 400 ''invalid_request'')
          else do {
            a \<leftarrow> own_addr H c;
            w \<leftarrow> State_Monad.get;
            case a of
              None \<Rightarrow> ret (Fail 401 ''invalid_request'')
            | Some sender \<Rightarrow>
                if nd_hub (wd_node w) = None then ret (Done ())
                else if IsRoomAddr recipient \<and> rh_rooms H then
                  (case ParseRoomAddr recipient of
                     None \<Rightarrow> ret (Fail 400 ''invalid_request'')
                   | Some (roomIDStr, _) \<Rightarrow>
                       (case uuid_parse E roomIDStr of
                          None \<Rightarrow> ret (Fail 400 ''invalid_request'')
                        | Some roomID \<Rightarrow> do {
                            m \<leftarrow> on_db (Members roomID (getUserID c));
                            case m of
                              Inl _ \<Rightarrow> ret (Fail 403 ''forbidden'')
                            | Inr members \<Rightarrow> do {
                                _ \<leftarrow> on_node (mfold (\<lambda>_ m. hub_do (NotifyTypingToMember (''@'' @ mb_username m @ '':'' @ mb_domain m)
                                       sender isTyping recipient)) () members);
                                ret (Done ()) } }))
                else do { _ \<leftarrow> on_node (hub_do (NotifyTyping recipient sender isTyping)); ret (Done ()) } })"

definition read_handler :: "env \<Rightarrow> codec \<Rightarrow> relay_handler \<Rightarrow> api_req \<Rightarrow> ctx \<Rightarrow> (world, unit answer) state" where
  "read_handler E J H r c =
     (case dec_read J (hr_Body r) of
        None \<Rightarrow> ret (Fail 400 ''invalid_request'')
      | Some eventIDs \<Rightarrow>
          if eventIDs = [] then ret (Done ())
          else do {
            a \<leftarrow> own_addr H c;
            case a of
              None \<Rightarrow> ret (Fail 401 ''invalid_request'')
            | Some readerAddr \<Rightarrow> do {
                toNotify \<leftarrow> on_db (MarkRead E (rh_relay H) readerAddr (getUserID c) eventIDs);
                now \<leftarrow> on_db time_now;
                _ \<leftarrow> on_node (mfold (\<lambda>_ d. hub_do (NotifyRead (fst d) (snd d) (fmt_now J now))) () toNotify);
                ret (Done ()) } })"

definition sync_limit :: "string \<Rightarrow> int" where
  "sync_limit limitStr = (if limitStr = '''' then 100
     else (case ParseInt limitStr of (l, ok) \<Rightarrow> if ok \<and> l > 0 \<and> l \<le> 100 then l else 100))"

text \<open>\<open>sync\<close> calls the hub without a test for nil.\<close>

definition sync_handler :: "env \<Rightarrow> relay_handler \<Rightarrow> api_req \<Rightarrow> ctx \<Rightarrow> (world, (sync_event list \<times> string) answer) state" where
  "sync_handler E H r c =
     (let deviceID = (case uuid_parse E (getDeviceID c) of None \<Rightarrow> 0 | Some d \<Rightarrow> d) in do {
      x \<leftarrow> on_db (Sync E (rh_relay H) (getUserID c) deviceID (hr_Query r ''since'') (sync_limit (hr_Query r ''limit'')));
      w \<leftarrow> State_Monad.get;
      case x of
        Inl _ \<Rightarrow> ret (Fail 500 ''internal_error'')
      | Inr res \<Rightarrow>
          if nd_hub (wd_node w) = None \<and> sr_delivered res \<noteq> [] then ret Panicked
          else do {
            _ \<leftarrow> on_node (mfold (\<lambda>_ d. hub_do (NotifyDelivery (fst d) (snd d) ''delivered'')) () (sr_delivered res));
            ret (Done (map (\<lambda>e. e\<lparr>se_Ciphertext := b64_encode (se_Ciphertext e)\<rparr>) (sr_events res), sr_next res)) } })"

section \<open>Keys\<close>

record keys_handler =
  kh_keydir :: keydir
  kh_fed :: "fed_client option"
  kh_domain :: string

record bundle_json =
  bj_identity_key :: string
  bj_signed_prekey :: "string \<times> string \<times> int"
  bj_device_id :: "string option"
  bj_signal_device_id :: "int option"
  bj_one_time_prekey :: "(string \<times> int) option"

datatype keys_answer = LocalBundle bundle_json | RemoteBundle string

definition writeBundle :: "env \<Rightarrow> key_bundle \<Rightarrow> string \<Rightarrow> bundle_json" where
  "writeBundle E b deviceID =
     \<lparr> bj_identity_key = b64_encode (bu_IdentityKey b),
       bj_signed_prekey = (b64_encode (bu_SignedPrekey b), b64_encode (bu_SignedPrekeySig b), bu_SignedPrekeyID b),
       bj_device_id = (if deviceID \<noteq> '''' then Some deviceID else None),
       bj_signal_device_id = (if deviceID \<noteq> '''' then map_option UUIDToSignalDeviceID (uuid_parse E deviceID) else None),
       bj_one_time_prekey = map_option (\<lambda>p. (b64_encode (pk_Key p), pk_KeyID p)) (bu_OneTimePrekey b) \<rparr>"

text \<open>The keys of a user of another server, from that server.\<close>

definition remote_bundle :: "env \<Rightarrow> net \<Rightarrow> codec \<Rightarrow> keys_handler \<Rightarrow> string \<Rightarrow> (node, keys_answer answer) state" where
  "remote_bundle E N J H userID =
     (case Sscanf E ''@%[^:]:%s'' userID of
        Some [_, domain] \<Rightarrow>
          if domain = '''' \<or> ToLower E (TrimSpace domain) = ToLower E (kh_domain H) then ret (Fail 404 ''not_found'')
          else (case kh_fed H of
            None \<Rightarrow> ret (Fail 404 ''not_found'')
          | Some fed \<Rightarrow> do {
              x \<leftarrow> on_net (FetchDeviceList E N fed domain userID);
              case x of
                Inl e \<Rightarrow> ret (if e = FedPanic then Panicked else Fail 404 ''not_found'')
              | Inr [] \<Rightarrow> ret (Fail 404 ''not_found'')
              | Inr (d # _) \<Rightarrow> do {
                  y \<leftarrow> on_net (FetchKeys E N fed domain userID d);
                  ret (case y of
                    Inl e \<Rightarrow> if e = FedPanic then Panicked else Fail 404 ''not_found''
                  | Inr body \<Rightarrow> Done (RemoteBundle (with_device J d body))) } })
      | _ \<Rightarrow> ret (Fail 404 ''not_found''))"

definition getBundleForUser :: "env \<Rightarrow> net \<Rightarrow> codec \<Rightarrow> keys_handler \<Rightarrow> api_req \<Rightarrow> (world, keys_answer answer) state" where
  "getBundleForUser E N J H r =
     (if hr_Param r ''userID'' = '''' then ret (Fail 400 ''invalid_request'')
      else (let userID = unescaped (hr_Param r ''userID'') in do {
        b \<leftarrow> on_db (GetBundleForUser E (kh_keydir H) userID);
        case b of
          Inr (bdl, dev) \<Rightarrow> ret (Done (LocalBundle (writeBundle E bdl (uuid_str E dev))))
        | Inl e \<Rightarrow>
            if e \<notin> {ErrNotFound, ErrInvalidUserID, ErrRemoteUser} then ret (Fail 500 ''internal_error'')
            else on_node (remote_bundle E N J H userID) }))"

definition getBundle_handler :: "env \<Rightarrow> net \<Rightarrow> keys_handler \<Rightarrow> api_req \<Rightarrow> (world, keys_answer answer) state" where
  "getBundle_handler E N H r =
     (if hr_Param r ''userID'' = '''' \<or> hr_Param r ''deviceID'' = '''' then ret (Fail 400 ''invalid_request'')
      else (let userID = unescaped (hr_Param r ''userID''); deviceID = unescaped (hr_Param r ''deviceID'') in do {
        b \<leftarrow> on_db (GetBundle E (kh_keydir H) userID deviceID);
        case b of
          Inr bdl \<Rightarrow> ret (Done (LocalBundle (writeBundle E bdl '''')))
        | Inl e \<Rightarrow>
            if e \<in> {ErrNotFound, ErrInvalidUserID, ErrInvalidDeviceID} then ret (Fail 404 ''not_found'')
            else if e = ErrRemoteUser then
              (case (kh_fed H, Sscanf E ''@%[^:]:%s'' userID) of
                 (Some fed, Some [_, domain]) \<Rightarrow> do {
                   y \<leftarrow> on_node (on_net (FetchKeys E N fed domain userID deviceID));
                   ret (case y of
                     Inr body \<Rightarrow> Done (RemoteBundle body)
                   | Inl e \<Rightarrow> if e = FedPanic then Panicked else Fail 404 ''remote_user'') }
               | _ \<Rightarrow> ret (Fail 404 ''remote_user''))
            else ret (Fail 500 ''internal_error'') }))"

definition listDevicesForUser_handler :: "env \<Rightarrow> net \<Rightarrow> keys_handler \<Rightarrow> api_req \<Rightarrow> (world, (string \<times> int option) list answer) state" where
  "listDevicesForUser_handler E N H r =
     (if hr_Param r ''userID'' = '''' then ret (Fail 400 ''invalid_request'')
      else (let userID = unescaped (hr_Param r ''userID'');
                out = (\<lambda>ids. map (\<lambda>i. (i, map_option UUIDToSignalDeviceID (uuid_parse E i))) ids) in do {
        d \<leftarrow> on_db (ListDevicesForUser E (kh_keydir H) userID);
        case d of
          Inl e \<Rightarrow> ret (if e = ErrInvalidUserID then Fail 400 ''invalid_request'' else Fail 500 ''internal_error'')
        | Inr ids \<Rightarrow>
            (case (if ids = [] then kh_fed H else None, Sscanf E ''@%[^:]:%s'' userID) of
               (Some fed, Some [_, domain]) \<Rightarrow>
                 if domain \<noteq> '''' \<and> ToLower E (TrimSpace domain) \<noteq> ToLower E (kh_domain H) then do {
                   x \<leftarrow> on_node (on_net (FetchDeviceList E N fed domain userID));
                   ret (case x of
                     Inl e \<Rightarrow> if e = FedPanic then Panicked else Done (out ids)
                   | Inr ids' \<Rightarrow> Done (out (if ids' \<noteq> [] then ids' else ids))) }
                 else ret (Done (out ids))
             | _ \<Rightarrow> ret (Done (out ids))) }))"

definition valid_device :: "env \<Rightarrow> ctx \<Rightarrow> uuid option" where
  "valid_device E c = (case uuid_parse E (getDeviceID c) of None \<Rightarrow> None | Some d \<Rightarrow> if d = 0 then None else Some d)"

definition keysStatus :: "env \<Rightarrow> ctx \<Rightarrow> (world, key_status answer) state" where
  "keysStatus E c =
     (case valid_device E c of
        None \<Rightarrow> ret (Fail 400 ''invalid_request'')
      | Some dev \<Rightarrow> do {
          st \<leftarrow> on_db (GetKeyStatus dev);
          ret (case st of Inl _ \<Rightarrow> Fail 500 ''internal_error'' | Inr x \<Rightarrow> Done x) })"

definition one_time_items :: "(string \<times> int) list \<Rightarrow> prekey_item list" where
  "one_time_items ps = filter (\<lambda>p. pk_Key p \<noteq> []) (map (\<lambda>(k, i). \<lparr> pk_Key = b64_bytes k, pk_KeyID = i \<rparr>) ps)"

definition updateKeys :: "env \<Rightarrow> codec \<Rightarrow> keys_handler \<Rightarrow> api_req \<Rightarrow> ctx \<Rightarrow> (world, unit answer) state" where
  "updateKeys E J H r c =
     (case dec_keys J (hr_Body r) of
        None \<Rightarrow> ret (Fail 400 ''invalid_request'')
      | Some req \<Rightarrow>
          (case valid_device E c of
             None \<Rightarrow> ret (Fail 400 ''invalid_request'')
           | Some dev \<Rightarrow>
               (let (spk, sig, spkID) = (case kq_SignedPrekey req of None \<Rightarrow> ([], [], 0)
                      | Some (k, s, i) \<Rightarrow> (b64_bytes k, b64_bytes s, i));
                    items = one_time_items (kq_OneTimePrekeys req) in
                if kq_SignedPrekey req \<noteq> None \<and> (spk = [] \<or> sig = []) then ret (Fail 400 ''invalid_request'')
                else if kq_SignedPrekey req = None \<and> items = [] then ret (Fail 400 ''invalid_request'')
                else do {
                  x \<leftarrow> on_db (UpdateKeys E (kh_keydir H) (getUserID c) dev spk sig spkID items
                         (if kq_IdentitySigningKey req \<noteq> '''' then b64_bytes (kq_IdentitySigningKey req) else []));
                  ret (case x of
                    Inl e \<Rightarrow> if e = ErrInvalidSignature \<or> e = ErrPrekeyQuotaExceeded then Fail 400 ''invalid_request'' else Fail 500 ''internal_error''
                  | Inr _ \<Rightarrow> Done ()) })))"

section \<open>Rooms\<close>

record room_json =
  rj_id :: string
  rj_name :: string
  rj_domain :: string
  rj_address :: string

definition room_json_of :: "env \<Rightarrow> room_row \<Rightarrow> room_json" where
  "room_json_of E x = \<lparr> rj_id = uuid_str E (r_id x), rj_name = r_name x, rj_domain = r_domain x, rj_address = RoomAddr E (r_id x) (r_domain x) \<rparr>"

definition create_room :: "env \<Rightarrow> codec \<Rightarrow> string \<Rightarrow> api_req \<Rightarrow> ctx \<Rightarrow> (world, (room_json \<times> int) answer) state" where
  "create_room E J domain r c =
     (case dec_name J (hr_Body r) of
        None \<Rightarrow> ret (Fail 400 ''invalid_request'')
      | Some name \<Rightarrow>
          if name = '''' then ret (Fail 400 ''invalid_request'')
          else do {
            x \<leftarrow> on_db (Create domain name (getUserID c));
            ret (case x of Inl _ \<Rightarrow> Fail 500 ''internal_error'' | Inr room \<Rightarrow> Done (room_json_of E room, r_creator room)) })"

definition list_rooms :: "env \<Rightarrow> ctx \<Rightarrow> (world, room_json list answer) state" where
  "list_rooms E c = do {
     x \<leftarrow> on_db (List_rooms (getUserID c));
     ret (case x of Inl _ \<Rightarrow> Fail 500 ''internal_error'' | Inr rs \<Rightarrow> Done (map (room_json_of E) rs)) }"

text \<open>The room id of the path, which every other handler parses first.\<close>

definition with_room :: "env \<Rightarrow> api_req \<Rightarrow> (uuid \<Rightarrow> (world, 'a answer) state) \<Rightarrow> (world, 'a answer) state" where
  "with_room E r k = (case uuid_parse E (hr_Param r ''roomID'') of None \<Rightarrow> ret (Fail 400 ''invalid_request'') | Some roomID \<Rightarrow> k roomID)"

definition member_answer :: "rooms_err + 'a \<Rightarrow> 'a answer" where
  "member_answer x = (case x of Inl e \<Rightarrow> if e = ErrNotMember then Fail 403 ''forbidden'' else Fail 500 ''internal_error'' | Inr v \<Rightarrow> Done v)"

definition get_room :: "env \<Rightarrow> api_req \<Rightarrow> ctx \<Rightarrow> (world, room_json answer) state" where
  "get_room E r c = with_room E r (\<lambda>roomID. do {
     x \<leftarrow> on_db (Get roomID (getUserID c));
     ret (member_answer (map_sum (\<lambda>e. e) (room_json_of E) x)) })"

definition members_handler :: "env \<Rightarrow> api_req \<Rightarrow> ctx \<Rightarrow> (world, (room_member \<times> string) list answer) state" where
  "members_handler E r c = with_room E r (\<lambda>roomID. do {
     x \<leftarrow> on_db (Members roomID (getUserID c));
     ret (member_answer (map_sum (\<lambda>e. e) (map (\<lambda>m. (m, ''@'' @ mb_username m @ '':'' @ mb_domain m))) x)) })"

definition leave_handler :: "env \<Rightarrow> api_req \<Rightarrow> ctx \<Rightarrow> (world, unit answer) state" where
  "leave_handler E r c = with_room E r (\<lambda>roomID. do {
     x \<leftarrow> on_db (Leave roomID (getUserID c));
     ret (if x = Inl ErrCreatorCannotLeave then Fail 400 ''bad_request'' else member_answer x) })"

text \<open>The user named in the body, by name or by id.\<close>

definition with_target :: "env \<Rightarrow> codec \<Rightarrow> string \<Rightarrow> api_req \<Rightarrow> (int \<Rightarrow> (world, 'a answer) state) \<Rightarrow> (world, 'a answer) state" where
  "with_target E J domain r k =
     (case dec_member J (hr_Body r) of
        None \<Rightarrow> ret (Fail 400 ''invalid_request'')
      | Some (userID, username) \<Rightarrow>
          if username \<noteq> '''' then do {
            x \<leftarrow> on_db (ResolveUserID E domain username);
            case x of
              Inl e \<Rightarrow> ret (if e = ErrUserNotFound then Fail 404 ''not_found'' else Fail 500 ''internal_error'')
            | Inr i \<Rightarrow> k i }
          else if userID > 0 then k userID
          else ret (Fail 400 ''invalid_request''))"

definition forbidden_answer :: "nat \<Rightarrow> string \<Rightarrow> rooms_err + unit \<Rightarrow> unit answer" where
  "forbidden_answer st code x = (case x of Inl e \<Rightarrow> if e = ErrForbidden then Fail 403 ''forbidden'' else Fail st code | Inr _ \<Rightarrow> Done ())"

definition invite_handler :: "env \<Rightarrow> codec \<Rightarrow> string \<Rightarrow> api_req \<Rightarrow> ctx \<Rightarrow> (world, unit answer) state" where
  "invite_handler E J domain r c = with_room E r (\<lambda>roomID. with_target E J domain r (\<lambda>invitee. do {
     x \<leftarrow> on_db (Invite roomID (getUserID c) invitee);
     ret (forbidden_answer 500 ''internal_error'' x) }))"

definition transferCreator_handler :: "env \<Rightarrow> codec \<Rightarrow> string \<Rightarrow> api_req \<Rightarrow> ctx \<Rightarrow> (world, unit answer) state" where
  "transferCreator_handler E J domain r c = with_room E r (\<lambda>roomID. with_target E J domain r (\<lambda>target. do {
     x \<leftarrow> on_db (TransferCreator roomID (getUserID c) target);
     ret (forbidden_answer 400 ''bad_request'' x) }))"

definition removeMember_handler :: "env \<Rightarrow> codec \<Rightarrow> string \<Rightarrow> api_req \<Rightarrow> ctx \<Rightarrow> (world, unit answer) state" where
  "removeMember_handler E J domain r c = with_room E r (\<lambda>roomID. with_target E J domain r (\<lambda>target. do {
     x \<leftarrow> on_db (Remove roomID (getUserID c) target);
     ret (forbidden_answer 500 ''internal_error'' x) }))"

section \<open>Push subscriptions\<close>

definition vapidPublic_handler :: "push \<Rightarrow> string answer" where
  "vapidPublic_handler P = (if \<not> Enabled P then Fail 404 ''not_available'' else Done (pw_vapidPublic P))"

definition subscribe_handler :: "env \<Rightarrow> codec \<Rightarrow> push \<Rightarrow> api_req \<Rightarrow> ctx \<Rightarrow> (world, unit answer) state" where
  "subscribe_handler E J P r c =
     (if \<not> Enabled P then ret (Done ())
      else (case dec_subscription J (hr_Body r) of
        None \<Rightarrow> ret (Fail 400 ''invalid_request'')
      | Some (endpoint, p256dh, au) \<Rightarrow>
          if endpoint = '''' \<or> p256dh = '''' \<or> au = '''' then ret (Fail 400 ''invalid_request'')
          else (case uuid_parse E (getDeviceID c) of
            None \<Rightarrow> ret (Fail 400 ''invalid_request'')
          | Some dev \<Rightarrow> do {
              x \<leftarrow> on_db (Subscribe (getUserID c) dev endpoint p256dh au);
              ret (case x of Inl _ \<Rightarrow> Fail 500 ''internal_error'' | Inr _ \<Rightarrow> Done ()) })))"

definition unsubscribe_handler :: "codec \<Rightarrow> api_req \<Rightarrow> (world, unit answer) state" where
  "unsubscribe_handler J r =
     (case dec_endpoint_only J (hr_Body r) of
        None \<Rightarrow> ret (Fail 400 ''invalid_request'')
      | Some endpoint \<Rightarrow> do {
          _ \<leftarrow> (if endpoint \<noteq> '''' then on_db (Unsubscribe endpoint) else ret (Inr ()));
          ret (Done ()) })"

section \<open>Who a request is from\<close>

lemma run_on_node: "run_state (on_node m) w = (let (x, n) = run_state m (wd_node w) in (x, w\<lparr>wd_node := n\<rparr>))"
  by (simp add: on_node_def split: prod.splits)

lemma run_on_db: "run_state (on_db m) w
    = (let (x, s) = run_state m (nd_sess (wd_node w)) in (x, w\<lparr>wd_node := (wd_node w)\<lparr>nd_sess := s\<rparr>\<rparr>))"
  by (simp add: run_on_node run_on_sess split: prod.splits)

definition at_sess :: "world \<Rightarrow> sess \<Rightarrow> world" where
  "at_sess w s = w\<lparr>wd_node := (wd_node w)\<lparr>nd_sess := s\<rparr>\<rparr>"


section \<open>Keys of other servers\<close>

lemma remote_bundle_dead: "remote_bundle E N J H userID = ret (Fail 404 ''not_found'')"
  by (simp add: remote_bundle_def Sscanf_char_class)

text \<open>C31: the keys that are handed out for a user of another server are those of the local user with
  the same name: the answer of the bundle endpoint depends on the name in the address only, so
  \<open>@bob:other.org\<close> and \<open>@bob\<close> are answered alike, with the same effect on the tables.\<close>

theorem getBundleForUser_ignores_domain:
  assumes "hr_Param r ''userID'' \<noteq> ''''" "hr_Param r' ''userID'' \<noteq> ''''"
    and "bare_name (unescaped (hr_Param r ''userID'')) = bare_name (unescaped (hr_Param r' ''userID''))"
  shows "getBundleForUser E N J H r = getBundleForUser E N J H r'"
  using assms(1,2) unfolding getBundleForUser_def GetBundleForUser_def remote_bundle_dead Let_def assms(3) by simp

theorem getBundleForUser_ignores_domain_witness:
  "\<forall>N J H r. getBundleForUser demo_env N J H (r\<lparr>hr_Param := (\<lambda>_. ''@bob:other.org'')\<rparr>) = getBundleForUser demo_env N J H (r\<lparr>hr_Param := (\<lambda>_. ''bob'')\<rparr>)"
proof -
  have "bare_name (unescaped ''@bob:other.org'') = bare_name (unescaped ''bob'')" by code_simp
  then show ?thesis by (intro allI getBundleForUser_ignores_domain) simp_all
qed

definition sent_nothing :: "netst \<Rightarrow> world \<Rightarrow> bool" where
  "sent_nothing ns w \<longleftrightarrow> nd_net (wd_node w) = ns"

lemma on_db_sent_nothing: "keeps (sent_nothing ns) (on_db m)"
  by (rule tripleI) (auto simp: sent_nothing_def run_on_db split: prod.splits)

text \<open>Keys are never fetched from another server: whatever the request and the network, the three
  key endpoints send nothing and never answer with a remote bundle.\<close>

theorem keys_never_fetched:
  "triple (sent_nothing ns) (getBundleForUser E N J H r) (\<lambda>a w. sent_nothing ns w \<and> (\<forall>b. a \<noteq> Done (RemoteBundle b)))
   \<and> triple (sent_nothing ns) (getBundle_handler E N H r) (\<lambda>a w. sent_nothing ns w \<and> (\<forall>b. a \<noteq> Done (RemoteBundle b)))
   \<and> keeps (sent_nothing ns) (listDevicesForUser_handler E N H r)"
proof (intro conjI)
  show "triple (sent_nothing ns) (getBundleForUser E N J H r) (\<lambda>a w. sent_nothing ns w \<and> (\<forall>b. a \<noteq> Done (RemoteBundle b)))"
    unfolding getBundleForUser_def Let_def remote_bundle_dead
    by (rule triple_if, rule triple_ret, simp, rule triple_bind [OF on_db_sent_nothing])
       (auto simp: triple_def sent_nothing_def run_on_node split: sum.splits if_splits)
  show "triple (sent_nothing ns) (getBundle_handler E N H r) (\<lambda>a w. sent_nothing ns w \<and> (\<forall>b. a \<noteq> Done (RemoteBundle b)))"
    unfolding getBundle_handler_def Let_def Sscanf_char_class
    by (rule triple_if, rule triple_ret, simp, rule triple_bind [OF on_db_sent_nothing])
       (auto simp: triple_def sent_nothing_def split: sum.splits if_splits option.splits)
  show "keeps (sent_nothing ns) (listDevicesForUser_handler E N H r)"
    unfolding listDevicesForUser_handler_def Let_def Sscanf_char_class
    by (rule triple_if, rule triple_ret, simp, rule triple_bind [OF on_db_sent_nothing])
       (auto simp: triple_def sent_nothing_def split: sum.splits if_splits option.splits)
qed

section \<open>Invariants of the tables through the handlers\<close>

text \<open>A predicate of the tables that a service keeps is kept by the handler around it.\<close>

definition on_nd :: "(tables \<Rightarrow> bool) \<Rightarrow> node \<Rightarrow> bool" where
  "on_nd P n = P (tabs (nd_sess n))"

definition on_world :: "(tables \<Rightarrow> bool) \<Rightarrow> world \<Rightarrow> bool" where
  "on_world P w = P (tabs (nd_sess (wd_node w)))"

named_theorems world_intros

lemma keeps_on_sess [world_intros]: "keeps (on_tabs P) m \<Longrightarrow> keeps (on_nd P) (on_sess m)"
  by (auto simp: triple_def on_nd_def on_tabs_def run_on_sess split: prod.splits)

lemma keeps_on_net [world_intros]: "keeps (on_nd P) (on_net m)"
  by (auto simp: triple_def on_nd_def on_net_def split: prod.splits)

lemma keeps_hub_do [world_intros]: "keeps (on_nd P) (hub_do f)"
  by (auto simp: triple_def on_nd_def hub_do_def split: option.splits prod.splits)

lemma keeps_on_node [world_intros]: "keeps (on_nd P) m \<Longrightarrow> keeps (on_world P) (on_node m)"
  by (auto simp: triple_def on_world_def on_nd_def run_on_node split: prod.splits)

lemma keeps_push_out [world_intros]: "keeps (on_world P) (push_out ns)"
  by (simp add: triple_def on_world_def push_out_def)

lemma keeps_SendToUser [triple_intros]: "keeps (on_tabs P) (SendToUser E Q addr payload)"
  unfolding SendToUser_def by (intro triple_intros)

lemma keeps_NotifyNewMessage [triple_intros]: "keeps (on_tabs P) (NotifyNewMessage E marshal Q addr lbl)"
  unfolding NotifyNewMessage_def by (intro triple_intros)

lemma keeps_MemberAddresses [triple_intros]: "keeps (on_tabs P) (MemberAddresses roomID)"
  unfolding MemberAddresses_def by (intro triple_intros)

lemma keeps_push_message [world_intros]: "keeps (on_world P) (push_message E J H inp)"
  unfolding push_message_def push_to_def Let_def by (intro triple_intros world_intros)

lemma keeps_send_remote [world_intros]: "keeps (on_nd P) (send_remote E N c inp eventID)"
  unfolding send_remote_def by (intro triple_intros world_intros)

lemma keeps_send_handler:
  assumes "\<And>inp. keeps (on_tabs P) (Send E (rh_relay H) inp)"
  shows "keeps (on_world P) (send_handler E N J H r c)"
  unfolding send_handler_def Let_def
  by (intro triple_intros world_intros assms) (auto split: relay_err.split intro!: triple_intros world_intros)

section \<open>Strict mode\<close>

text \<open>A queued message in Signal form: what it carries is empty or has one of the two prefixes.\<close>

definition signal_msg :: "msg_row \<Rightarrow> bool" where
  "signal_msg m \<longleftrightarrow> (m_ciphertext m = [] \<or> signal_form (m_ciphertext m))
     \<and> (case m_ciphertexts m of None \<Rightarrow> True | Some cts \<Rightarrow> list_all (\<lambda>(_, ct). ct = '''' \<or> signal_form ct) cts)"

definition only_signal_added :: "msg_row list \<Rightarrow> tables \<Rightarrow> bool" where
  "only_signal_added old t \<longleftrightarrow> (\<forall>m \<in> set (tb_msgs t). m \<in> set old \<or> signal_msg m)"

lemma keeps_Send:
  assumes "\<And>t eid expires. P t \<Longrightarrow> P (snd (ins_msg eid (si_Sender inp) (si_Recipient inp) (si_SenderDevice inp)
            (if si_Ciphertexts inp \<noteq> [] then Some [] else si_Ciphertext inp)
            (if si_Ciphertexts inp \<noteq> [] then Some (si_Ciphertexts inp) else None) (si_SessionID inp) (si_Timestamp inp) expires t))"
    and "\<And>t h eid. P t \<Longrightarrow> P (snd (ins_idem h eid t))"
  shows "keeps (on_tabs P) (Send E (relay_service E d) inp)"
proof -
  have c: "keeps (on_tabs P) (check_recipient E (relay_service E d) inp)"
    unfolding check_recipient_def relay_service_def Let_def by (intro triple_intros) (auto intro!: rooms_checker.keeps_IsMember triple_intros split: if_splits)
  show ?thesis
    unfolding Send_def send_rest_def seen_key_def enqueue_def Let_def
    by (intro triple_intros c assms)
qed

lemma strict_ins_msg:
  assumes "\<not> strict_refuses req (b64_bytes (sq_Ciphertext req))" "only_signal_added old t"
  shows "only_signal_added old (snd (ins_msg eid sender recipient dev
      (if si_Ciphertexts (send_input_of r c req) \<noteq> [] then Some [] else si_Ciphertext (send_input_of r c req))
      (if si_Ciphertexts (send_input_of r c req) \<noteq> [] then Some (si_Ciphertexts (send_input_of r c req)) else None) sid ts expires t))"
  using assms
  by (auto simp: only_signal_added_def ins_msg_def send_input_of_def strict_refuses_def signal_msg_def list_all_iff list_ex_iff
      split: if_splits option.splits)


section \<open>Delivery on one server\<close>

lemma enqueue_stored:
  assumes "faults s = []" "si_IdempotencyKey inp = ''''" "si_Ciphertexts inp = []" "run_state (enqueue E inp eid) s = (Inr x, s')"
  shows "x = eid \<and> (\<exists>m. tabs s' = (tabs s)\<lparr>tb_msgs := tb_msgs (tabs s) @ [m]\<rparr> \<and> m_event_id m = eid \<and> m_sender m = si_Sender inp
    \<and> m_recipient m = si_Recipient inp \<and> si_Ciphertext inp = Some (m_ciphertext m) \<and> m_ciphertexts m = None)"
  using assms by (auto simp: enqueue_def sql_simps ins_msg_def split: option.splits if_splits)

lemma Send_stored:
  assumes "faults s = []" "si_IdempotencyKey inp = ''''" "si_Ciphertexts inp = []" "run_state (Send E (relay_service E d) inp) s = (Inr eid, s')"
  shows "\<exists>m. tabs s' = (tabs s)\<lparr>tb_msgs := tb_msgs (tabs s) @ [m]\<rparr> \<and> m_event_id m = eid \<and> m_sender m = si_Sender inp
    \<and> m_recipient m = si_Recipient inp \<and> si_Ciphertext inp = Some (m_ciphertext m) \<and> m_ciphertexts m = None"
proof -
  let ?s = "after_id inp s" and ?i = "fresh_id E inp s"
  have r: "run_state (send_rest E (relay_service E d) inp ?i) ?s = (Inr eid, s')" using assms(4) by (simp add: run_Send)
  from relay_InrD [OF r] have "gates_ok is_member E d (unix (go_now ?s)) inp (tabs ?s)" .
  with r assms(1,2) have "run_state (enqueue E inp ?i) ?s = (Inr eid, s')" by (simp add: relay_run)
  from enqueue_stored [OF _ assms(2,3) this] assms(1) show ?thesis by simp
qed

lemma send_handler_local:
  assumes "rh_relay H = relay_service E d" "run_state (send_handler E N J H r c) w = (Done eid, w')" "dec_send J (hr_Body r) = Some req"
    and "extractDomain (sq_Recipient req) \<in> {'''', d}"
  shows "\<exists>s1. run_state (Send E (relay_service E d) (send_input_of r c req)) (nd_sess (wd_node w)) = (Inr eid, s1)
    \<and> tabs (nd_sess (wd_node w')) = tabs s1"
proof -
  let ?inp = "send_input_of r c req"
  obtain x s1 where x: "run_state (Send E (relay_service E d) ?inp) (nd_sess (wd_node w)) = (x, s1)" by fastforce
  have nr: "x \<noteq> Inl (ErrRemoteRecipient e)" for e
  proof
    assume "x = Inl (ErrRemoteRecipient e)"
    with x have "extractDomain (si_Recipient ?inp) \<noteq> '''' \<and> extractDomain (si_Recipient ?inp) \<noteq> d"
      by (auto simp: run_Send send_rest_def Let_def sql_simps check_recipient_def seen_key_def enqueue_def relay_service_def
          split: if_splits prod.splits sum.splits option.splits)
    then show False using assms(4) by (auto simp: send_input_of_def)
  qed
  show ?thesis
  proof (cases x)
    case (Inl e)
    then show ?thesis using assms(1-3) x nr
      by (cases e) (auto simp: send_handler_def run_on_db Let_def split: if_splits option.splits)
  next
    case (Inr i)
    have "keeps (on_world (\<lambda>t. t = tabs s1)) (do { _ \<leftarrow> on_node (hub_do (Notify (si_Recipient ?inp) i)); _ \<leftarrow> push_message E J H ?inp; ret (Done i) })"
      by (intro triple_intros world_intros)
    moreover have "run_state (do { _ \<leftarrow> on_node (hub_do (Notify (si_Recipient ?inp) i)); _ \<leftarrow> push_message E J H ?inp; ret (Done i) }) (at_sess w s1) = (Done eid, w')"
      using assms(1-3) x Inr by (auto simp: send_handler_def run_on_db Let_def at_sess_def split: if_splits)
    ultimately have "on_world (\<lambda>t. t = tabs s1) w'" "i = eid"
      by (auto simp: at_sess_def on_world_def dest: tripleD [where s = "at_sess w s1"] split: prod.splits)
    then show ?thesis using x Inr by (simp add: on_world_def)
  qed
qed

lemma Sync_all:
  assumes "faults s = []" "rooms_inv (tabs s)" "\<exists>u \<in> set (tb_users (tabs s)). u_id u = user" "length (tb_msgs (tabs s)) < 100"
    and "m \<in> set (tb_msgs (tabs s))" "\<And>me. user_addr (tabs s) user me \<Longrightarrow> m_recipient m = me"
  shows "\<exists>res s' me. run_state (Sync E (relay_service E d) user dev '''' 100) s = (Inr res, s')
    \<and> sync_event_of me (uuid_str E dev) m \<in> set (sr_events res)"
proof -
  obtain res s' where r: "run_state (Sync E (relay_service E d) user dev '''' 100) s = (Inr res, s')"
    using rooms_checker.Sync_total [OF assms(1-3)] unfolding relay_service_def by blast
  have l: "0 < (100 :: int)" "(100 :: int) < 2 ^ 63 - 1" by simp_all
  from rooms_checker.Sync_run [OF assms(1,2) l r [unfolded relay_service_def]] obtain me addrs where me: "user_addr (tabs s) user me"
    and fin: "run_state (sync_finish E user dev me '''' 100 (sync_rows E (me # addrs) me '''' (wrap64 (100 + 1)) (tabs s))) s = (res, s')"
    by metis
  let ?V = "sort_key (\<lambda>m. - m_created m) (visible_msgs (me # addrs) me (tabs s))"
  have len: "length ?V < 100" using assms(4) length_filter_le [of _ "tb_msgs (tabs s)"] unfolding visible_msgs_def length_sort by (rule le_less_trans [rotated])
  have "sync_rows E (me # addrs) me '''' (wrap64 (100 + 1)) (tabs s) = ?V"
    unfolding sync_rows_first [OF l] using len by simp
  with sync_finish_events [OF fin l(1)] len have "set (sr_events res) = sync_event_of me (uuid_str E dev) ` set ?V" by simp
  moreover have "m \<in> set ?V" using assms(5,6) me by (simp add: visible_msgs_def)
  ultimately show ?thesis using r by blast
qed


section \<open>Instances\<close>

definition demo_send_req :: send_req where
  "demo_send_req = \<lparr> sq_Type = '''', sq_Sender = ''@ann:a.org'', sq_Recipient = ''@cat:a.org'', sq_DeviceID = ''d'', sq_Timestamp = 1700000000,
     sq_Ciphertext = b64_encode ''sig1:x'', sq_Ciphertexts = [], sq_SessionID = ''s'' \<rparr>"

definition demo_codec :: codec where
  "demo_codec = \<lparr> dec_send = (\<lambda>_. Some demo_send_req), dec_typing = (\<lambda>_. None), dec_read = (\<lambda>_. None), dec_keys = (\<lambda>_. None), dec_name = (\<lambda>_. None),
     dec_member = (\<lambda>_. None), dec_subscription = (\<lambda>_. None), dec_endpoint_only = (\<lambda>_. None), push_json = (\<lambda>a b. a @ b), with_device = (\<lambda>_ s. s), fmt_now = Itoa \<rparr>"

definition demo_rh :: relay_handler where
  "demo_rh = \<lparr> rh_relay = relay_service demo_env ''a.org'', rh_rooms = True, rh_fed = None, rh_domain = ''a.org'', rh_push = None, rh_auth = demo_auth,
     rh_e2eeStrictOnly = True \<rparr>"

definition demo_request :: "string \<Rightarrow> api_req" where
  "demo_request tok = \<lparr> hr_Method = ''POST'', hr_Path = ''/api/v1/messages/send'', hr_RawQuery = '''', hr_Host = ''a.org'', hr_TLS = True,
     hr_Header = (\<lambda>k. if k = ''Authorization'' \<and> tok \<noteq> '''' then ''Bearer '' @ tok else ''''), hr_Body = '''', hr_ContentLength = 0, hr_Query = (\<lambda>_. ''''), hr_Param = (\<lambda>_. '''') \<rparr>"

definition world_on :: "sess \<Rightarrow> world" where
  "world_on s = \<lparr> wd_node = node_b\<lparr>nd_sess := s\<rparr>, wd_pushed = [], wd_calls = [], wd_objects = (\<lambda>_. None) \<rparr>"

definition user_ctx :: "int \<Rightarrow> ctx" where
  "user_ctx u = \<lparr> cx_user = Some u, cx_device = Some ''7'', cx_proxy = None \<rparr>"

lemma send_handler_accepts:
  assumes "dec_send J (hr_Body r) = Some req" "\<not> strict_refuses req (b64_bytes (sq_Ciphertext req))"
    and "run_state (Send E (rh_relay H) (send_input_of r c req)) (nd_sess (wd_node w)) = (Inr eid, s1)"
  shows "\<exists>w1. run_state (send_handler E N J H r c) w = (Done eid, w1)"
  using assms by (simp add: send_handler_def Let_def run_on_db split: prod.splits)

text \<open>User 2, who is bob, sends a message to cat in the name of ann.\<close>

lemma demo_api_send:
  "\<exists>eid w1. run_state (send_handler demo_env demo_net demo_codec demo_rh (demo_request '''') (user_ctx 2)) (world_on (session_on demo_rooms [])) = (Done eid, w1)"
proof -
  define ct where "ct = sq_Ciphertext demo_send_req"
  have "extractDomain ''@cat:a.org'' = ''a.org''" by code_simp
  moreover have "local_user demo_env ''a.org'' ''cat'' demo_rooms"
    by (simp add: local_user_def demo_defs demo_env_def ascii_lower_def)
  moreover have "tb_msgs demo_rooms = []" "tb_idem demo_rooms = []" by (simp_all add: demo_defs)
  moreover have "send_input_of (demo_request '''') (user_ctx 2) demo_send_req = \<lparr> si_EventID = '''', si_Sender = ''@ann:a.org'', si_Recipient = ''@cat:a.org'',
      si_SenderUserID = 2, si_SenderDevice = ''d'', si_Ciphertext = Some (b64_bytes ct), si_Ciphertexts = [], si_SessionID = ''s'', si_Timestamp = 1700000000,
      si_IdempotencyKey = '''' \<rparr>"
    unfolding ct_def by (simp add: send_input_of_def demo_send_req_def demo_request_def user_ctx_def getUserID_def del: b64_encode.simps)
  ultimately have "\<exists>eid s1. run_state (Send demo_env (rh_relay demo_rh) (send_input_of (demo_request '''') (user_ctx 2) demo_send_req)) (session_on demo_rooms []) = (Inr eid, s1)"
    by (simp add: demo_rh_def session_on_def Send_def send_rest_def check_recipient_def
        seen_key_def enqueue_def relay_service_def sql_simps demo_name IsRoomAddr_def unix_def
        replayWindowSec_def futureToleranceSec_def ins_msg_def)
  moreover have "\<not> strict_refuses demo_send_req (b64_bytes (sq_Ciphertext demo_send_req))"
    by (simp add: strict_refuses_def demo_send_req_def signal_form_def signalPrefix_def del: b64_encode.simps)
  moreover have "dec_send demo_codec (hr_Body (demo_request '''')) = Some demo_send_req" "nd_sess (wd_node (world_on (session_on demo_rooms []))) = session_on demo_rooms []"
    by (simp_all add: demo_codec_def world_on_def)
  ultimately show ?thesis by (metis send_handler_accepts)
qed




end
