(* ===== verification/Api_Vpn.thy ===== *)
theory Api_Vpn
  imports Api
begin

text \<open>
  The handlers of VPN configurations (\<open>src/server/internal/api/handlers_vpn.go\<close>). The metrics they
  count (\<open>vpn_metrics.go\<close>) are left out.
\<close>

section \<open>Handlers\<close>

record vpn_handler =
  vh_env :: vpn_env
  vh_config :: vpn_config

definition in_vpn :: "(vpn_state, 'a) state \<Rightarrow> (world, 'a) state" where
  "in_vpn m = State (\<lambda>w. case run_state m \<lparr> vs_sess = nd_sess (wd_node w), vs_calls = wd_calls w \<rparr> of
     (x, v) \<Rightarrow> (x, w\<lparr>wd_node := (wd_node w)\<lparr>nd_sess := vs_sess v\<rparr>, wd_calls := vs_calls v\<rparr>))"

definition listProtocols :: "vpn_handler \<Rightarrow> protocol_info list answer" where
  "listProtocols H = Done (ListProtocols (vh_config H))"

definition listNodes :: "vpn_handler \<Rightarrow> (world, (vnode_row \<times> string) list answer) state" where
  "listNodes H = do {
     x \<leftarrow> on_db (ListNodes (vh_env H));
     ret (case x of Inl _ \<Rightarrow> Fail 500 ''internal_error'' | Inr ns \<Rightarrow> Done ns) }"

definition myConfigs :: "env \<Rightarrow> vpn_handler \<Rightarrow> ctx \<Rightarrow> (world, my_config list answer) state" where
  "myConfigs E H c = do {
     x \<leftarrow> in_vpn (ListMyConfigs E (vh_env H) (vh_config H) (getUserID c));
     ret (case x of Inl _ \<Rightarrow> Fail 500 ''internal_error'' | Inr cs \<Rightarrow> Done cs) }"

definition vpn_revoke :: "env \<Rightarrow> vpn_handler \<Rightarrow> api_req \<Rightarrow> ctx \<Rightarrow> (world, unit answer) state" where
  "vpn_revoke E H r c =
     (let deviceIDStr = (if hr_Query r ''device_id'' = '''' then getDeviceID c else hr_Query r ''device_id'') in
      case uuid_parse E deviceIDStr of
        None \<Rightarrow> ret (Fail 400 ''invalid_request'')
      | Some deviceID \<Rightarrow>
          (let protocol = hr_Query r ''protocol'' in
           if protocol = '''' then ret (Fail 400 ''invalid_request'')
           else do {
             x \<leftarrow> in_vpn (Revoke E (vh_env H) (vh_config H) (getUserID c) deviceID protocol);
             ret (case x of Inl _ \<Rightarrow> Fail 500 ''internal_error'' | Inr _ \<Rightarrow> Done ()) }))"

text \<open>The answer is the text and its file name, as JSON or as an attachment.\<close>

datatype config_answer = ConfigJSON string string | ConfigFile string string

definition vpn_getConfig :: "env \<Rightarrow> vpn_handler \<Rightarrow> api_req \<Rightarrow> ctx \<Rightarrow> (world, config_answer answer) state" where
  "vpn_getConfig E H r c =
     (let protocol = hr_Param r ''protocol'' in
      if protocol = '''' then ret (Fail 400 ''invalid_request'')
      else (case uuid_parse E (getDeviceID c) of
        None \<Rightarrow> ret (Fail 400 ''invalid_request'')
      | Some deviceID \<Rightarrow>
          (let nodeID = (let s = hr_Query r ''node_id'' in if s \<noteq> '''' then uuid_parse E s else None) in do {
             x \<leftarrow> in_vpn (GetConfig E (vh_env H) (vh_config H) protocol (getUserID c) deviceID nodeID);
             ret (case x of
               Inl _ \<Rightarrow> Fail 400 ''vpn_error''
             | Inr (content, filename) \<Rightarrow> Done (if hr_Query r ''format'' = ''json'' then ConfigJSON content filename else ConfigFile content filename)) })))"

section \<open>Invariants\<close>

lemma keeps_in_vpn [world_intros]: "keeps (on_vs P) m \<Longrightarrow> keeps (on_world P) (in_vpn m)"
proof (rule tripleI)
  fix w r w' assume m: "keeps (on_vs P) m" and w: "on_world P w" "run_state (in_vpn m) w = (r, w')"
  obtain x v where x: "run_state m \<lparr> vs_sess = nd_sess (wd_node w), vs_calls = wd_calls w \<rparr> = (x, v)" by fastforce
  from tripleD [OF m _ x] w x show "on_world P w'" by (auto simp: on_world_def on_vs_def in_vpn_def)
qed

lemma keeps_vpn_lists:
  "keeps (on_world P) (listNodes H) \<and> keeps (on_world P) (myConfigs E H c)"
  unfolding listNodes_def ListNodes_def myConfigs_def ListMyConfigs_def FetchWGStats_def
  by (intro conjI triple_intros world_intros keeps_in_db)

lemma keeps_vpn_handlers:
  assumes "\<And>E V C pr u d n. keeps (on_vs P) (GetConfig E V C pr u d n)" "\<And>E V C u d pr. keeps (on_vs P) (Revoke E V C u d pr)"
  shows "keeps (on_world P) (vpn_revoke E H r c) \<and> keeps (on_world P) (vpn_getConfig E H r c)"
  unfolding vpn_revoke_def vpn_getConfig_def Let_def by (intro conjI triple_intros world_intros assms)

section \<open>Whose configurations\<close>

definition others_peers :: "int \<Rightarrow> tables \<Rightarrow> vpeer_row list" where
  "others_peers u t = filter (\<lambda>p. vp_user p \<noteq> u) (tb_vpeers t)"

lemma others_map: "(\<And>p. vp_user (f p) = vp_user p) \<Longrightarrow> (\<And>p. vp_user p \<noteq> u \<Longrightarrow> f p = p) \<Longrightarrow> filter (\<lambda>p. vp_user p \<noteq> u) (map f ps) = filter (\<lambda>p. vp_user p \<noteq> u) ps"
  by (induction ps) auto

lemma others_kept:
  "keeps (on_vs (\<lambda>t. others_peers u t = ps)) (GetConfig E V C pr u dev n)" "keeps (on_vs (\<lambda>t. others_peers u t = ps)) (Revoke E V C u dev pr)"
proof -
  have "keeps (on_tabs (\<lambda>t. others_peers u t = ps)) (wg_address u dev)"
    unfolding wg_address_def Let_def by (intro triple_intros) (auto simp: next_wg_def others_peers_def)
  then show "keeps (on_vs (\<lambda>t. others_peers u t = ps)) (GetConfig E V C pr u dev n)"
    by (intro keeps_GetConfig [where A = "\<lambda>_ _. True"])
       (auto simp: put_wg_peer_def put_xray_peer_def on_tabs_def [abs_def] others_peers_def peer_key_def secret_change_frame intro!: trans [OF others_map])
  show "keeps (on_vs (\<lambda>t. others_peers u t = ps)) (Revoke E V C u dev pr)"
    unfolding Revoke_def
    by (intro triple_intros vpn_keeps) (auto simp: del_vpeer_def others_peers_def peer_key_def intro!: arg_cong [where f = "\<lambda>P. filter P _"])
qed

lemma listed_own:
  assumes "run_state (ListMyConfigs E V C u) v = (Inr cs, v')" "x \<in> set cs"
  shows "\<exists>p \<in> set (tb_vpeers (tabs (vs_sess v))). vp_user p = u \<and> mc_DeviceID x = uuid_str E (vp_device p) \<and> mc_Protocol x = vp_protocol p"
proof -
  let ?q = "\<lambda>t. map (\<lambda>p. (p, node_name t p)) (sort_key (\<lambda>p. - vp_created p) (filter (\<lambda>p. vp_user p = u) (tb_vpeers t)))"
  obtain stats v1 where st: "run_state (FetchWGStats V C) v = (stats, v1)" by fastforce
  then have v1: "v1 = v" by (auto simp: FetchWGStats_def split: if_splits)
  obtain q s2 where q: "run_state (query ?q) (vs_sess v) = (q, s2)" by fastforce
  from assms(1) st v1 q obtain rows b where rows: "q = Inr (rows, b)" "cs = map (my_config_of E stats (go_now s2)) rows"
    by (auto simp: ListMyConfigs_def sql_simps split: sum.splits)
  from query_InrD [OF q [unfolded rows(1)]] obtain n where "rows = take n (?q (tabs (vs_sess v)))" by blast
  with rows(2) assms(2) have "x \<in> my_config_of E stats (go_now s2) ` set (?q (tabs (vs_sess v)))" by (auto dest: in_set_takeD)
  then show ?thesis by (auto simp: my_config_of_def split: prod.splits)
qed

abbreviation tables_of :: "world \<Rightarrow> tables" where
  "tables_of w \<equiv> tabs (nd_sess (wd_node w))"

text \<open>C36: users are kept apart: whatever configuration a user asks for or revokes, with any device and
  protocol in the request, the configurations of every other user stay as they are, and the
  list of configurations shows only his own; under any faults of the database.\<close>

theorem vpn_users_apart:
  assumes "run_state (vpn_getConfig E H r c) w = (a, w1)" "run_state (vpn_revoke E H r' c) w = (b, w2)" "run_state (myConfigs E H c) w = (Done cs, w3)"
  shows "others_peers (getUserID c) (tables_of w1) = others_peers (getUserID c) (tables_of w)
    \<and> others_peers (getUserID c) (tables_of w2) = others_peers (getUserID c) (tables_of w)
    \<and> (\<forall>x \<in> set cs. \<exists>p \<in> set (tb_vpeers (tables_of w)). vp_user p = getUserID c \<and> mc_DeviceID x = uuid_str E (vp_device p) \<and> mc_Protocol x = vp_protocol p)"
proof -
  let ?Q = "\<lambda>t. others_peers (getUserID c) t = others_peers (getUserID c) (tables_of w)"
  have k: "keeps (on_world ?Q) (vpn_getConfig E H r c) \<and> keeps (on_world ?Q) (vpn_revoke E H r' c)"
    unfolding vpn_revoke_def vpn_getConfig_def Let_def by (intro conjI triple_intros world_intros others_kept)
  have "\<exists>v. run_state (ListMyConfigs E (vh_env H) (vh_config H) (getUserID c)) \<lparr> vs_sess = nd_sess (wd_node w), vs_calls = wd_calls w \<rparr> = (Inr cs, v)"
    using assms(3) by (auto simp: myConfigs_def in_vpn_def split: sum.splits prod.splits)
  then show ?thesis using tripleD [OF conjunct1 [OF k] _ assms(1)] tripleD [OF conjunct2 [OF k] _ assms(2)] listed_own by (fastforce simp: on_world_def)
qed

theorem vpn_users_apart_witness:
  "\<exists>a w1 b w2 cs w3. run_state (vpn_getConfig demo_env \<lparr> vh_env = demo_vpn, vh_config = demo_vpn_config \<rparr> (demo_request '''') (user_ctx 2)) (world_on (session_on demo_vpn_tables [])) = (a, w1)
    \<and> run_state (vpn_revoke demo_env \<lparr> vh_env = demo_vpn, vh_config = demo_vpn_config \<rparr> (demo_request '''') (user_ctx 2)) (world_on (session_on demo_vpn_tables [])) = (b, w2)
    \<and> run_state (myConfigs demo_env \<lparr> vh_env = demo_vpn, vh_config = demo_vpn_config \<rparr> (user_ctx 2)) (world_on (session_on demo_vpn_tables [])) = (Done cs, w3)
    \<and> others_peers 2 (tables_of w2) = [demo_peer, demo_wg_peer]"
proof -
  let ?H = "\<lparr> vh_env = demo_vpn, vh_config = demo_vpn_config \<rparr>" and ?w = "world_on (session_on demo_vpn_tables [])"
  obtain a w1 b w2 where r: "run_state (vpn_getConfig demo_env ?H (demo_request '''') (user_ctx 2)) ?w = (a, w1)"
    "run_state (vpn_revoke demo_env ?H (demo_request '''') (user_ctx 2)) ?w = (b, w2)" by fastforce
  have "\<exists>cs w3. run_state (myConfigs demo_env ?H (user_ctx 2)) ?w = (Done cs, w3)"
    by (simp add: myConfigs_def in_vpn_def ListMyConfigs_def FetchWGStats_def world_on_def session_on_def sql_simps)
  then obtain cs w3 where m: "run_state (myConfigs demo_env ?H (user_ctx 2)) ?w = (Done cs, w3)" by blast
  have u: "getUserID (user_ctx 2) = 2" by (simp add: getUserID_def user_ctx_def)
  have "others_peers 2 (tables_of ?w) = [demo_peer, demo_wg_peer]"
    by (simp add: world_on_def session_on_def demo_vpn_tables_def others_peers_def demo_peer_def demo_wg_peer_def)
  with vpn_users_apart [OF r m] r m show ?thesis unfolding u by auto
qed

end
