(* ===== verification/Edges.thy ===== *)
theory Edges
  imports Api_Vpn
begin

text \<open>
  What stands around the services: the client of the Xray API with its waits (\<open>src/server/internal/vpn/xrayapi.go\<close>),
  the probe of latencies (\<open>src/server/internal/api/latency_metrics.go\<close>) and the counters of VPN configurations
  (\<open>src/server/internal/api/vpn_metrics.go\<close>). A histogram or counter of Prometheus is the values it was given.
\<close>

section \<open>The client of the Xray API\<close>

text \<open>\<open>xa_client\<close> says whether there is a client, without which every call is an empty success, and \<open>xa_conn\<close>
  whether its connection is open.\<close>

record xray_api =
  xa_addr :: string
  xa_client :: bool
  xa_conn :: bool

definition NewXrayAPI :: "(string \<Rightarrow> bool) \<Rightarrow> string \<Rightarrow> xray_api option" where
  "NewXrayAPI dial addr =
     (if addr = '''' then Some \<lparr> xa_addr = '''', xa_client = False, xa_conn = False \<rparr>
      else if \<not> dial addr then None
      else Some \<lparr> xa_addr = addr, xa_client = True, xa_conn = True \<rparr>)"

text \<open>\<open>Close\<close>, which nothing in the server calls; \<open>closes\<close> says whether closing the connection succeeds.\<close>

definition Close_xray :: "bool \<Rightarrow> xray_api \<Rightarrow> bool \<times> xray_api" where
  "Close_xray closes a = (if xa_client a then (xa_conn a \<and> closes, a\<lparr>xa_conn := False\<rparr>) else (True, a))"

text \<open>Of \<open>Service.New\<close>: a client that cannot be had is left out.\<close>

definition New_vpn :: "vpn_env \<Rightarrow> vpn_config \<Rightarrow> xray_api option" where
  "New_vpn V C = (if vc_xray_Enabled C \<and> vc_xray_APIAddr C \<noteq> '''' then NewXrayAPI (xr_dial V) (vc_xray_APIAddr C) else None)"

definition xrayBackoffBase :: int where
  "xrayBackoffBase = 200 * 1000000"

text \<open>\<open>xrayRetry\<close> with the waits it has waited out, in nanoseconds.\<close>

fun xray_timed :: "vpn_env \<Rightarrow> vpn_call \<Rightarrow> int \<Rightarrow> bool \<Rightarrow> nat \<Rightarrow> (vpn_state, bool \<times> int list) state" where
  "xray_timed V k backoff first 0 = ret (False, [])"
| "xray_timed V k backoff first (Suc left) = do {
     v \<leftarrow> State_Monad.get;
     if \<not> first \<and> xr_cancelled V (vs_calls v) then ret (False, [])
     else do {
       let waited = (if first then [] else [backoff]);
       _ \<leftarrow> call k;
       v1 \<leftarrow> State_Monad.get;
       if xr_answer V (vs_calls v1) then ret (True, waited)
       else do {
         x \<leftarrow> xray_timed V k (if first then backoff else 2 * backoff) False left;
         ret (fst x, waited @ snd x) } } }"

definition xrayRetry_timed :: "xray_api \<Rightarrow> vpn_env \<Rightarrow> vpn_call \<Rightarrow> (vpn_state, bool \<times> int list) state" where
  "xrayRetry_timed a V k = (if \<not> xa_client a then ret (True, []) else xray_timed V k xrayBackoffBase True xrayRetries)"

text \<open>The client of a service is the one the operations ask for, and the waits do not change what it does.\<close>

lemma New_vpn_client: "xray_client V C \<longleftrightarrow> (\<exists>a. New_vpn V C = Some a \<and> xa_client a)"
  by (simp add: xray_client_def New_vpn_def NewXrayAPI_def)

lemma xray_timed_untimed:
  "run_state (xray_timed V k b first left) v = ((ok, ws), v') \<Longrightarrow> run_state (xray_loop V k first left) v = (ok, v')"
  by (induction left arbitrary: b first v ok ws v') (auto simp: sql_simps Let_def split: if_splits prod.splits)

text \<open>The waits double: they are \<open>b, 2b, 4b, \<dots>\<close>, one less than the attempts.\<close>

lemma xray_timed_waits:
  "run_state (xray_timed V k b first left) v = ((ok, ws), v') \<Longrightarrow>
    \<exists>n. ws = map (\<lambda>i. 2 ^ i * b) [0..<n] \<and> (if first then n < left \<or> n = 0 else n \<le> left)"
proof (induction left arbitrary: b first v ok ws v')
  case (Suc left)
  show ?case
  proof (cases "(\<not> first \<and> xr_cancelled V (vs_calls v)) \<or> xr_answer V (vs_calls v @ [k])")
    case True
    then have "ws = [] \<or> (\<not> first \<and> ws = [b])" using Suc.prems by (auto simp: sql_simps Let_def split: if_splits)
    then show ?thesis by (auto intro: exI [of _ 0] exI [of _ 1])
  next
    case False
    let ?v = "v\<lparr>vs_calls := vs_calls v @ [k]\<rparr>" and ?b = "if first then b else 2 * b"
    obtain ok1 ws1 v1 where r: "run_state (xray_timed V k ?b False left) ?v = ((ok1, ws1), v1)" by (metis prod.exhaust)
    with False Suc.prems have ws: "ws = (if first then [] else [b]) @ ws1" by (auto simp: sql_simps Let_def split: if_splits)
    obtain n where n: "ws1 = map (\<lambda>i. 2 ^ i * ?b) [0..<n]" "n \<le> left" using Suc.IH [OF r] by auto
    have "b # map (\<lambda>i. 2 ^ i * (2 * b)) [0..<n] = map (\<lambda>i. 2 ^ i * b) [0..<Suc n]"
      by (simp add: upt_conv_Cons map_Suc_upt [symmetric] comp_def mult.assoc del: upt_Suc)
    then show ?thesis using ws n by (cases first) (auto intro: exI [of _ n] exI [of _ "Suc n"])
  qed
qed auto

text \<open>A call to Xray holds a request up for at most 600 milliseconds of waiting.\<close>

lemma xray_waits_bounded:
  assumes "run_state (xrayRetry_timed a V k) v = ((ok, ws), v')"
  shows "sum_list ws \<le> 600 * 1000000 \<and> (xa_client a \<longrightarrow> run_state (xrayRetry V k) v = (ok, v'))"
proof (cases "xa_client a")
  case True
  then have r: "run_state (xray_timed V k xrayBackoffBase True xrayRetries) v = ((ok, ws), v')" using assms by (simp add: xrayRetry_timed_def)
  obtain n where n: "ws = map (\<lambda>i. 2 ^ i * xrayBackoffBase) [0..<n]" "n < 3 \<or> n = 0" using xray_timed_waits [OF r] by (auto simp: xrayRetries_def)
  then consider "n = 0" | "n = 1" | "n = 2" by linarith
  then have "sum_list ws \<le> 600 * 1000000" by cases (simp_all add: n(1) xrayBackoffBase_def upt_rec)
  then show ?thesis using xray_timed_untimed [OF r] by (simp add: xrayRetry_def)
qed (use assms in \<open>simp add: xrayRetry_timed_def\<close>)

section \<open>The probe of latencies\<close>

text \<open>What the probe meets: a tick with how long each ping took (\<open>None\<close> for an error), or the end of its context.\<close>

datatype probe_event = Tick "int option" "int option" | CtxDone

datatype observed = DBPing int | RedisPing int

definition probeDB :: "int option \<Rightarrow> observed list" where
  "probeDB ping = (case ping of None \<Rightarrow> [] | Some d \<Rightarrow> [DBPing d])"

definition probeRedis :: "int option \<Rightarrow> observed list" where
  "probeRedis ping = (case ping of None \<Rightarrow> [] | Some d \<Rightarrow> [RedisPing d])"

definition probe_round :: "bool \<Rightarrow> int option \<Rightarrow> int option \<Rightarrow> observed list" where
  "probe_round rdb d r = probeDB d @ (if rdb then probeRedis r else [])"

fun probe_loop :: "bool \<Rightarrow> probe_event list \<Rightarrow> observed list" where
  "probe_loop rdb [] = []"
| "probe_loop rdb (CtxDone # es) = []"
| "probe_loop rdb (Tick d r # es) = probe_round rdb d r @ probe_loop rdb es"

definition StartLatencyProbe :: "bool \<Rightarrow> (string \<Rightarrow> bool) \<Rightarrow> string \<Rightarrow> int option \<times> int option \<Rightarrow> probe_event list \<Rightarrow> observed list" where
  "StartLatencyProbe dbPool parses redisURL first es =
     (if \<not> dbPool then []
      else (let rdb = (redisURL \<noteq> '''' \<and> parses redisURL) in probe_round rdb (fst first) (snd first) @ probe_loop rdb es))"

text \<open>Only pings that were answered are observed: while a database is down its histogram stands still, and nothing
  else tells of the outage.\<close>

lemma probe_loop_answered: "DBPing d \<in> set (probe_loop rdb es) \<Longrightarrow> \<exists>r. Tick (Some d) r \<in> set es"
  by (induction rdb es rule: probe_loop.induct) (auto simp: probe_round_def probeDB_def probeRedis_def split: option.splits if_splits)

lemma probe_silent_outage: "\<forall>e \<in> set es. e = Tick None None \<Longrightarrow> StartLatencyProbe b p u (None, None) es = []"
proof -
  assume "\<forall>e \<in> set es. e = Tick None None"
  then have "probe_loop rdb es = []" for rdb by (induction es) (auto simp: probe_round_def probeDB_def probeRedis_def)
  then show ?thesis by (simp add: StartLatencyProbe_def probe_round_def probeDB_def probeRedis_def Let_def)
qed

section \<open>The counters of VPN configurations\<close>

record vpn_meters =
  vm_issued :: "string \<Rightarrow> nat"
  vm_revoked :: "string \<Rightarrow> nat"

definition no_meters :: vpn_meters where
  "no_meters = \<lparr> vm_issued = (\<lambda>_. 0), vm_revoked = (\<lambda>_. 0) \<rparr>"

definition recordVPNConfigIssued :: "string \<Rightarrow> vpn_meters \<Rightarrow> vpn_meters" where
  "recordVPNConfigIssued protocol m = m\<lparr>vm_issued := (vm_issued m)(protocol := vm_issued m protocol + 1)\<rparr>"

definition recordVPNConfigRevoked :: "string \<Rightarrow> vpn_meters \<Rightarrow> vpn_meters" where
  "recordVPNConfigRevoked protocol m = m\<lparr>vm_revoked := (vm_revoked m)(protocol := vm_revoked m protocol + 1)\<rparr>"

text \<open>The two handlers with their counters: a counter moves when the service returned without error.\<close>

definition metered :: "(world, 'a answer) state \<Rightarrow> (vpn_meters \<Rightarrow> vpn_meters) \<Rightarrow> (world \<times> vpn_meters, 'a answer) state" where
  "metered h inc = State (\<lambda>(w, m). case run_state h w of (a, w') \<Rightarrow> (a, w', case a of Done _ \<Rightarrow> inc m | _ \<Rightarrow> m))"

definition metered_getConfig :: "env \<Rightarrow> vpn_handler \<Rightarrow> api_req \<Rightarrow> ctx \<Rightarrow> (world \<times> vpn_meters, config_answer answer) state" where
  "metered_getConfig E H r c = metered (vpn_getConfig E H r c) (recordVPNConfigIssued (hr_Param r ''protocol''))"

definition metered_revoke :: "env \<Rightarrow> vpn_handler \<Rightarrow> api_req \<Rightarrow> ctx \<Rightarrow> (world \<times> vpn_meters, unit answer) state" where
  "metered_revoke E H r c = metered (vpn_revoke E H r c) (recordVPNConfigRevoked (hr_Query r ''protocol''))"

inductive meter_step :: "env \<Rightarrow> vpn_handler \<Rightarrow> world \<times> vpn_meters \<Rightarrow> world \<times> vpn_meters \<Rightarrow> bool" for E H where
  issue: "run_state (metered_getConfig E H r c) (w, m) = (a, x) \<Longrightarrow> meter_step E H (w, m) x"
| revoke: "run_state (metered_revoke E H r c) (w, m) = (b, x) \<Longrightarrow> meter_step E H (w, m) x"
| other: "meter_step E H (w, m) (w', m)"

definition vpn_protocols :: "string set" where
  "vpn_protocols = {''wireguard'', ''openvpn-tcp443'', ''vmess'', ''vless'', ''trojan''}"

lemma GetConfig_known:
  assumes "run_state (GetConfig E V C protocol user dev nodeID) v = (Inr x, v')"
  shows "protocol \<in> vpn_protocols"
  using assms by (auto simp: GetConfig_def vpn_protocols_def split: if_splits option.splits sum.splits prod.splits)

lemma vpn_getConfig_known:
  assumes "run_state (vpn_getConfig E H r c) w = (Done x, w')"
  shows "hr_Param r ''protocol'' \<in> vpn_protocols"
  using assms by (auto simp: vpn_getConfig_def in_vpn_def Let_def split: if_splits option.splits sum.splits prod.splits dest: GetConfig_known)

lemma meter_step_issued:
  assumes "meter_step E H x y" "\<forall>p. vm_issued (snd x) p > 0 \<longrightarrow> p \<in> vpn_protocols"
  shows "\<forall>p. vm_issued (snd y) p > 0 \<longrightarrow> p \<in> vpn_protocols"
  using assms
proof cases
  case (issue r c w m a)
  obtain b w' where g: "run_state (vpn_getConfig E H r c) w = (b, w')" by fastforce
  then show ?thesis using issue assms(2) vpn_getConfig_known [of E H r c w _ w']
    by (cases b) (auto simp: metered_getConfig_def metered_def recordVPNConfigIssued_def split: if_splits)
next
  case (revoke r c w m b)
  obtain b w' where "run_state (vpn_revoke E H r c) w = (b, w')" by fastforce
  then show ?thesis using revoke assms(2) by (cases b) (auto simp: metered_revoke_def metered_def recordVPNConfigRevoked_def)
qed simp

text \<open>The labels of the counter of issued configurations are the five protocols, whatever is asked for. The counter of
  revoked ones takes the label from the query: a user can add as many series as he likes.\<close>

lemma issued_labels_bounded:
  assumes "(meter_step E H)\<^sup>*\<^sup>* (w, no_meters) (w', m)"
  shows "{p. vm_issued m p > 0} \<subseteq> vpn_protocols"
proof -
  have "\<forall>p. vm_issued (snd y) p > 0 \<longrightarrow> p \<in> vpn_protocols" if "(meter_step E H)\<^sup>*\<^sup>* (w, no_meters) y" for y
    using that by (induction rule: rtranclp_induct) (auto simp: no_meters_def intro: meter_step_issued [rule_format])
  from this [OF assms] show ?thesis by auto
qed

lemma revoked_labels_unbounded:
  assumes "uuid_parse E (hr_Query r ''device_id'') = Some d" "hr_Query r ''device_id'' \<noteq> ''''" "hr_Query r ''protocol'' = p" "p \<noteq> ''''"
    and "faults (nd_sess (wd_node w)) = []" "p \<notin> vpn_protocols"
  shows "\<exists>w'. run_state (metered_revoke E H r c) (w, m) = (Done (), w', recordVPNConfigRevoked p m)"
proof -
  have "inbound_tag p = None" using assms(6) by (auto simp: inbound_tag_def vpn_protocols_def)
  then obtain v where "run_state (Revoke E (vh_env H) (vh_config H) (getUserID c) d p) \<lparr> vs_sess = nd_sess (wd_node w), vs_calls = wd_calls w \<rparr> = (Inr (), v)"
    using assms(5) by (simp add: Revoke_def sql_simps del_vpeer_def split: if_splits)
  then show ?thesis using assms(1-4) by (simp add: metered_revoke_def metered_def vpn_revoke_def in_vpn_def Let_def)
qed

end
