(* ===== verification/Mesh.thy ===== *)
theory Mesh
  imports Go_Enc
begin

text \<open>
  The mesh coordinator (\<open>src/mesh/coordinator\<close>): its state, the file it is kept in, every HTTP
  handler and the issue of client certificates. A handler checks the token before it takes the
  lock and saves the state after it has released it; the step relation at the end runs the
  pieces of concurrent handlers in any order, with writes that fail and with restarts.
\<close>

section \<open>State\<close>

record mesh_node =
  mn_ID :: string
  mn_Domain :: string
  mn_PublicKey :: string
  mn_Endpoint :: string
  mn_VPNIP :: string
  mn_Subdomain :: string
  mn_JoinedAt :: int

record join_req =
  jr_Token :: string
  jr_PublicKey :: string
  jr_Endpoint :: string
  jr_Domain :: string

record mesh_peer =
  mp_PublicKey :: string
  mp_AllowedIPs :: string
  mp_Endpoint :: string

record join_resp =
  js_VPNIP :: string
  js_Peers :: "mesh_peer list"
  js_BackupPeers :: "string list"
  js_BackupSecret :: string
  js_ListenPort :: int

text \<open>What the state file holds.\<close>

record mesh_file =
  mf_nodes :: "mesh_node list"
  mf_next_ip :: int
  mf_token :: string
  mf_backup :: string

text \<open>The template of a certificate.\<close>

record cert_tmpl =
  ct_SerialNumber :: int
  ct_CommonName :: string
  ct_NotBefore :: int
  ct_NotAfter :: int
  ct_DNSNames :: "string list"

text \<open>
  What the coordinator is given. \<open>mesh_rand\<close> is \<open>crypto/rand.Read\<close>: the bytes of its n-th call and
  whether it succeeded; the JSON functions read and write documents, \<open>to_utf8\<close> is what a string
  is after it was written and read (invalid UTF-8 is replaced); \<open>uni_fold\<close> compares strings that
  are not both ASCII in \<open>strings.EqualFold\<close>; \<open>gen_key\<close>, \<open>gen_serial\<close> and \<open>sign_cert\<close> are the
  key generator, the random serial and \<open>x509.CreateCertificate\<close> with the PEM coding.
\<close>

record mesh_env =
  mesh_rand :: "nat \<Rightarrow> nat \<Rightarrow> bytes \<times> bool"
  dec_join :: "string \<Rightarrow> join_req option"
  dec_cert :: "string \<Rightarrow> (string \<times> string) option"
  json_state :: "mesh_file \<Rightarrow> string"
  unm_state :: "string \<Rightarrow> mesh_file option"
  to_utf8 :: "string \<Rightarrow> string"
  uni_fold :: "string \<Rightarrow> string \<Rightarrow> bool"
  gen_key :: "nat \<Rightarrow> bytes option"
  gen_serial :: "nat \<Rightarrow> int option"
  sign_cert :: "cert_tmpl \<Rightarrow> bytes \<Rightarrow> (string \<times> string) option"

text \<open>The fields of \<open>Coordinator\<close> that are set once; \<open>mc_ca\<close> says whether a CA was loaded.\<close>

record mesh_conf =
  mc_storagePath :: string
  mc_routesDir :: string
  mc_ca :: bool

text \<open>How \<open>os.WriteFile\<close> ends: completely, without touching the file, or after some bytes.\<close>

datatype write_end = WriteDone | WriteDenied | WriteCut nat

record coord =
  co_nodes :: "mesh_node list"
  co_nextIP :: int
  co_token :: string
  co_backupSecret :: string
  co_disk :: "string option"
  co_routes :: "string \<Rightarrow> string option"
  co_writes :: "write_end list"
  co_draws :: nat
  co_clock :: int

definition meshIPBase :: string where
  "meshIPBase = ''10.100.0.''"

definition new_coord :: coord where
  "new_coord = \<lparr> co_nodes = [], co_nextIP = 0, co_token = '''', co_backupSecret = '''', co_disk = None,
     co_routes = (\<lambda>_. None), co_writes = [], co_draws = 0, co_clock = 0 \<rparr>"

section \<open>Random strings\<close>

text \<open>\<open>base64.RawURLEncoding\<close>: the standard digits with two replaced, and no padding.\<close>

definition RawURLEncode :: "bytes \<Rightarrow> string" where
  "RawURLEncode b = map (\<lambda>c. if c = CHR ''+'' then CHR ''-'' else if c = CHR ''/'' then CHR ''_'' else c)
     (filter (\<lambda>c. c \<noteq> CHR ''='') (b64_encode b))"

text \<open>
  \<open>randBase64\<close>: when the random source fails, the first byte is the clock's. The slice \<open>[:n]\<close>
  panics when the text is shorter, which \<open>length_randBase64\<close> excludes.
\<close>

definition randBase64 :: "mesh_env \<Rightarrow> nat \<Rightarrow> (coord, string) state" where
  "randBase64 M n = State (\<lambda>c.
     (let (b, ok) = mesh_rand M (co_draws c) ((n * 3 + 3) div 4);
          b' = (if ok then b else b[0 := char_of (nat (co_clock c mod 256))]) in
      (take n (RawURLEncode b'), c\<lparr>co_draws := Suc (co_draws c)\<rparr>)))"

section \<open>The state file\<close>

definition file_of :: "coord \<Rightarrow> mesh_file" where
  "file_of c = \<lparr> mf_nodes = co_nodes c, mf_next_ip = co_nextIP c, mf_token = co_token c, mf_backup = co_backupSecret c \<rparr>"

definition load :: "mesh_env \<Rightarrow> mesh_conf \<Rightarrow> coord \<Rightarrow> coord" where
  "load M C c =
     (if mc_storagePath C = '''' then c
      else (case co_disk c of
        None \<Rightarrow> c
      | Some data \<Rightarrow> (case unm_state M data of
          None \<Rightarrow> c
        | Some st \<Rightarrow> c\<lparr>co_nodes := mf_nodes st, co_nextIP := mf_next_ip st,
            co_token := (if mf_token st \<noteq> '''' then mf_token st else co_token c),
            co_backupSecret := (if mf_backup st \<noteq> '''' then mf_backup st else co_backupSecret c)\<rparr>)))"

definition write_file :: "string \<Rightarrow> write_end \<Rightarrow> string option \<Rightarrow> string option" where
  "write_file data w old = (case w of WriteDone \<Rightarrow> Some data | WriteDenied \<Rightarrow> old | WriteCut n \<Rightarrow> Some (take n data))"

text \<open>The outcome of the next write; \<open>save\<close> ignores it.\<close>

definition next_write :: "coord \<Rightarrow> write_end" where
  "next_write c = (case co_writes c of [] \<Rightarrow> WriteDone | w # _ \<Rightarrow> w)"

definition save :: "mesh_env \<Rightarrow> mesh_conf \<Rightarrow> (coord, unit) state" where
  "save M C = State (\<lambda>c. ((),
     if mc_storagePath C = '''' then c
     else c\<lparr>co_disk := write_file (json_state M (file_of c)) (next_write c) (co_disk c), co_writes := tl (co_writes c)\<rparr>))"

text \<open>A new process: the memory is that of an empty coordinator, then the file is loaded.\<close>

definition restart :: "mesh_env \<Rightarrow> mesh_conf \<Rightarrow> coord \<Rightarrow> coord" where
  "restart M C c = load M C (c\<lparr>co_nodes := [], co_nextIP := 0, co_token := '''', co_backupSecret := ''''\<rparr>)"

section \<open>Handlers\<close>

datatype mesh_answer =
    MErr nat string
  | MJoined join_resp
  | MPeers "mesh_node list"
  | MConfig "(string \<times> string) list" string
  | MCert string string
  | MToken string

record mesh_http =
  mh_Method :: string
  mh_Body :: string
  mh_Query :: "string \<Rightarrow> string"

text \<open>The peers a node is told about: every node with another address.\<close>

definition others :: "string \<Rightarrow> mesh_node list \<Rightarrow> mesh_node list" where
  "others vpnIP nodes = filter (\<lambda>n. mn_VPNIP n \<noteq> vpnIP) nodes"

definition peer_of :: "mesh_node \<Rightarrow> mesh_peer" where
  "peer_of n = \<lparr> mp_PublicKey = mn_PublicKey n, mp_AllowedIPs = mn_VPNIP n @ ''/32'', mp_Endpoint = mn_Endpoint n \<rparr>"

text \<open>The first registration creates the token and the secret and starts the addresses at 1.\<close>

definition found_mesh :: "mesh_env \<Rightarrow> (coord, unit) state" where
  "found_mesh M = do {
     c \<leftarrow> State_Monad.get;
     if co_token c = '''' then do {
       t \<leftarrow> randBase64 M 24;
       _ \<leftarrow> State_Monad.update (\<lambda>c. c\<lparr>co_token := t\<rparr>);
       b \<leftarrow> randBase64 M 32;
       State_Monad.update (\<lambda>c. c\<lparr>co_backupSecret := b, co_nextIP := 1\<rparr>) }
     else ret () }"

text \<open>The next address, and the node appended to the list.\<close>

definition add_node :: "mesh_env \<Rightarrow> string \<Rightarrow> string \<Rightarrow> string \<Rightarrow> string \<Rightarrow> (coord, string) state" where
  "add_node M domain pubkey endpoint subdomain = do {
     c \<leftarrow> State_Monad.get;
     let vpnIP = meshIPBase @ Itoa (co_nextIP c);
     _ \<leftarrow> State_Monad.update (\<lambda>c. c\<lparr>co_nextIP := wrap64 (co_nextIP c + 1)\<rparr>);
     i \<leftarrow> randBase64 M 12;
     _ \<leftarrow> State_Monad.update (\<lambda>c. c\<lparr>co_nodes := co_nodes c @ [\<lparr> mn_ID = i, mn_Domain = domain, mn_PublicKey = pubkey,
       mn_Endpoint = endpoint, mn_VPNIP = vpnIP, mn_Subdomain = subdomain, mn_JoinedAt = co_clock c \<rparr>]\<rparr>);
     ret vpnIP }"

definition join_guard :: "mesh_env \<Rightarrow> mesh_http \<Rightarrow> coord \<Rightarrow> mesh_answer + join_req" where
  "join_guard M r c =
     (if mh_Method r \<noteq> ''POST'' then Inl (MErr 405 ''method not allowed'')
      else (case dec_join M (mh_Body r) of
        None \<Rightarrow> Inl (MErr 400 ''invalid json'')
      | Some req \<Rightarrow>
          if jr_PublicKey req = '''' \<or> jr_Endpoint req = '''' \<or> jr_Domain req = ''''
          then Inl (MErr 400 ''public_key, endpoint, domain required'')
          else if co_token c \<noteq> '''' \<and> jr_Token req \<noteq> co_token c then Inl (MErr 401 ''invalid token'')
          else Inr req))"

text \<open>The part of \<open>handleJoin\<close> that runs under the lock.\<close>

definition join_commit :: "mesh_env \<Rightarrow> join_req \<Rightarrow> (coord, string \<times> mesh_peer list \<times> string list) state" where
  "join_commit M req = do {
     _ \<leftarrow> found_mesh M;
     vpnIP \<leftarrow> add_node M (jr_Domain req) (jr_PublicKey req) (jr_Endpoint req) '''';
     c \<leftarrow> State_Monad.get;
     ret (vpnIP, map peer_of (others vpnIP (co_nodes c)), map mn_VPNIP (others vpnIP (co_nodes c))) }"

definition handleJoin :: "mesh_env \<Rightarrow> mesh_conf \<Rightarrow> mesh_http \<Rightarrow> (coord, mesh_answer) state" where
  "handleJoin M C r = do {
     c \<leftarrow> State_Monad.get;
     case join_guard M r c of
       Inl a \<Rightarrow> ret a
     | Inr req \<Rightarrow> do {
         x \<leftarrow> join_commit M req;
         _ \<leftarrow> save M C;
         c' \<leftarrow> State_Monad.get;
         ret (MJoined \<lparr> js_VPNIP = fst x, js_Peers = fst (snd x), js_BackupPeers = snd (snd x),
           js_BackupSecret = co_backupSecret c', js_ListenPort = 51820 \<rparr>) } }"

definition handlePeers :: "mesh_http \<Rightarrow> coord \<Rightarrow> mesh_answer" where
  "handlePeers r c =
     (if co_token c \<noteq> '''' \<and> mh_Query r ''token'' \<noteq> co_token c then MErr 401 ''invalid token''
      else MPeers (co_nodes c))"

definition subdomainFromEndpoint :: "string \<Rightarrow> string" where
  "subdomainFromEndpoint endpoint =
     (let e = (case Index endpoint '':'' of Some idx \<Rightarrow> if idx > 0 then take idx endpoint else endpoint | None \<Rightarrow> endpoint) in
      ReplaceAll e ''.'' ''-'')"

definition safe_name :: "string \<Rightarrow> string" where
  "safe_name subdomain = map (\<lambda>c. if c = CHR ''.'' \<or> c = CHR ''-'' then CHR ''_'' else c) subdomain"

definition nl :: string where
  "nl = [CHR 0x0A]"

definition qt :: string where
  "qt = [CHR 0x5C, CHR 0x22]"

definition dq :: string where
  "dq = [CHR 0x22]"

definition route_body :: "string \<Rightarrow> string \<Rightarrow> string \<Rightarrow> string" where
  "route_body safe host backendURL =
     ''http:'' @ nl @ ''  routers:'' @ nl
     @ ''    '' @ safe @ ''-api:'' @ nl
     @ ''      rule: '' @ dq @ ''Host('' @ qt @ host @ qt @ '') && (PathPrefix('' @ qt @ ''/api'' @ qt @ '') || PathPrefix('' @ qt @ ''/.well-known'' @ qt
       @ '') || PathPrefix('' @ qt @ ''/federation'' @ qt @ '') || PathPrefix('' @ qt @ ''/health'' @ qt @ ''))'' @ dq @ nl
     @ ''      service: '' @ safe @ ''-svc'' @ nl
     @ ''      entryPoints: [websecure]'' @ nl @ ''      tls: { certResolver: letsencrypt }'' @ nl @ ''      priority: 100'' @ nl
     @ ''    '' @ safe @ ''-web:'' @ nl
     @ ''      rule: '' @ dq @ ''Host('' @ qt @ host @ qt @ '')'' @ dq @ nl
     @ ''      service: '' @ safe @ ''-svc'' @ nl
     @ ''      entryPoints: [websecure]'' @ nl @ ''      tls: { certResolver: letsencrypt }'' @ nl @ ''      priority: 1'' @ nl
     @ ''  services:'' @ nl @ ''    '' @ safe @ ''-svc:'' @ nl @ ''      loadBalancer:'' @ nl @ ''        servers:'' @ nl
     @ ''          - url: '' @ dq @ backendURL @ dq @ nl @ ''        passHostHeader: true'' @ nl"

text \<open>A write that fails is logged only.\<close>

definition writeTraefikRoute :: "mesh_conf \<Rightarrow> string \<Rightarrow> string \<Rightarrow> string \<Rightarrow> (coord, unit) state" where
  "writeTraefikRoute C subdomain mainDomain backendURL =
     (if mc_routesDir C = '''' \<or> subdomain = '''' \<or> mainDomain = '''' then ret ()
      else (let host = subdomain @ ''.'' @ mainDomain; safe = safe_name subdomain;
                fpath = mc_routesDir C @ ''/selfhost-'' @ safe @ ''.yaml'' in
        State_Monad.update (\<lambda>c. c\<lparr>co_routes := (co_routes c)(fpath := write_file (route_body safe host backendURL) (next_write c) (co_routes c fpath)),
          co_writes := tl (co_writes c)\<rparr>)))"

text \<open>The WireGuard configuration a node is sent, and the comma-separated backup peers.\<close>

definition wg_peer :: "mesh_node \<Rightarrow> string" where
  "wg_peer n = ''[Peer]'' @ nl @ ''PublicKey = '' @ mn_PublicKey n @ nl @ ''AllowedIPs = '' @ mn_VPNIP n @ ''/32'' @ nl
     @ ''Endpoint = '' @ mn_Endpoint n @ nl @ nl"

definition wg_config :: "string \<Rightarrow> mesh_node list \<Rightarrow> string" where
  "wg_config vpnIP nodes = ''[Interface]'' @ nl @ ''PrivateKey = <PRIVATE_KEY>'' @ nl @ ''Address = '' @ vpnIP @ ''/32'' @ nl
     @ ''ListenPort = 51820'' @ nl @ nl @ concat (map wg_peer (others vpnIP nodes))"

definition backup_list :: "string \<Rightarrow> mesh_node list \<Rightarrow> string" where
  "backup_list vpnIP nodes = foldl (\<lambda>bp p. (if bp \<noteq> '''' then bp @ '','' else bp) @ mn_VPNIP p) '''' (others vpnIP nodes)"

definition config_answer :: "string \<Rightarrow> string \<Rightarrow> string \<Rightarrow> string \<Rightarrow> mesh_node list \<Rightarrow> mesh_answer" where
  "config_answer vpnIP secret subdomain mainDomain nodes =
     MConfig ([(''Content-Type'', ''text/plain''), (''X-VPN-IP'', vpnIP), (''X-Backup-Peers'', backup_list vpnIP nodes), (''X-Backup-Secret'', secret)]
       @ (if subdomain \<noteq> '''' \<and> mainDomain \<noteq> '''' then [(''X-Subdomain'', subdomain), (''X-Server-Domain'', subdomain @ ''.'' @ mainDomain)] else []))
       (wg_config vpnIP nodes)"

definition maybe_route :: "mesh_conf \<Rightarrow> string \<Rightarrow> string \<Rightarrow> string \<Rightarrow> (coord, unit) state" where
  "maybe_route C subdomain mainDomain vpnIP =
     (if subdomain \<noteq> '''' \<and> mainDomain \<noteq> '''' then writeTraefikRoute C subdomain mainDomain (''http://'' @ vpnIP @ '':9080'') else ret ())"

definition config_guard :: "mesh_http \<Rightarrow> coord \<Rightarrow> mesh_answer option" where
  "config_guard r c =
     (if mh_Query r ''public_key'' = '''' \<or> mh_Query r ''endpoint'' = '''' \<or> mh_Query r ''domain'' = ''''
      then Some (MErr 400 ''public_key, endpoint, domain required'')
      else if co_token c \<noteq> '''' \<and> mh_Query r ''token'' \<noteq> co_token c then Some (MErr 401 ''invalid token'')
      else None)"

text \<open>
  The part of \<open>handleConfig\<close> under the lock; the flag says whether the state is saved afterwards.
  For a key that is known the subdomain is assigned to the loop's copy of the node, so the
  list does not change.
\<close>

definition config_commit :: "mesh_env \<Rightarrow> mesh_conf \<Rightarrow> mesh_http \<Rightarrow> (coord, mesh_answer \<times> bool) state" where
  "config_commit M C r = do {
     c \<leftarrow> State_Monad.get;
     let mainDomain = mh_Query r ''main_domain'';
     case find (\<lambda>n. mn_PublicKey n = mh_Query r ''public_key'') (co_nodes c) of
       Some n \<Rightarrow> do {
         let subdomain = (if mn_Subdomain n = '''' \<and> mainDomain \<noteq> '''' then subdomainFromEndpoint (mn_Endpoint n) else mn_Subdomain n);
         _ \<leftarrow> maybe_route C subdomain mainDomain (mn_VPNIP n);
         ret (config_answer (mn_VPNIP n) (co_backupSecret c) subdomain mainDomain (co_nodes c), False) }
     | None \<Rightarrow> do {
         _ \<leftarrow> found_mesh M;
         let useSubdomain = (mh_Query r ''use_subdomain'' = ''1'' \<or> mh_Query r ''use_subdomain'' = ''true'');
         let subdomain = (if useSubdomain \<and> mainDomain \<noteq> '''' then subdomainFromEndpoint (mh_Query r ''endpoint'') else '''');
         vpnIP \<leftarrow> add_node M (mh_Query r ''domain'') (mh_Query r ''public_key'') (mh_Query r ''endpoint'') subdomain;
         _ \<leftarrow> maybe_route C subdomain mainDomain vpnIP;
         c' \<leftarrow> State_Monad.get;
         ret (config_answer vpnIP (co_backupSecret c') subdomain mainDomain (co_nodes c'), True) } }"

definition handleConfig :: "mesh_env \<Rightarrow> mesh_conf \<Rightarrow> mesh_http \<Rightarrow> (coord, mesh_answer) state" where
  "handleConfig M C r = do {
     c \<leftarrow> State_Monad.get;
     case config_guard r c of
       Some a \<Rightarrow> ret a
     | None \<Rightarrow> do {
         x \<leftarrow> config_commit M C r;
         _ \<leftarrow> (if snd x then save M C else ret ());
         ret (fst x) } }"

text \<open>\<open>strings.EqualFold\<close>.\<close>

definition EqualFold :: "mesh_env \<Rightarrow> string \<Rightarrow> string \<Rightarrow> bool" where
  "EqualFold M s t \<longleftrightarrow> (if is_ascii s \<and> is_ascii t then map ascii_lower s = map ascii_lower t else uni_fold M s t)"

definition issueClientCert :: "env \<Rightarrow> mesh_env \<Rightarrow> string \<Rightarrow> (coord, (string \<times> string) option) state" where
  "issueClientCert E M domain0 = State (\<lambda>c.
     (let domain = ToLower E (TrimSpace domain0); c' = c\<lparr>co_draws := Suc (co_draws c)\<rparr> in
      if domain = '''' then (None, c)
      else (case gen_key M (co_draws c) of
        None \<Rightarrow> (None, c')
      | Some key \<Rightarrow> (case gen_serial M (co_draws c) of
          None \<Rightarrow> (None, c')
        | Some serial \<Rightarrow>
            (sign_cert M \<lparr> ct_SerialNumber = serial, ct_CommonName = domain, ct_NotBefore = co_clock c,
               ct_NotAfter = co_clock c + 365 * 24 * 3600 * 1000000000, ct_DNSNames = [domain] \<rparr> key, c')))))"

definition handleCert :: "env \<Rightarrow> mesh_env \<Rightarrow> mesh_conf \<Rightarrow> mesh_http \<Rightarrow> (coord, mesh_answer) state" where
  "handleCert E M C r =
     (if mh_Method r \<noteq> ''POST'' then ret (MErr 405 ''method not allowed'')
      else if \<not> mc_ca C then ret (MErr 503 ''mTLS cert issuance disabled (no COORDINATOR_CA_CERT/KEY)'')
      else (case dec_cert M (mh_Body r) of
        None \<Rightarrow> ret (MErr 400 ''invalid json'')
      | Some (token, dom0) \<Rightarrow>
          (let domain = TrimSpace (ToLower E dom0) in
           if domain = '''' then ret (MErr 400 ''domain required'')
           else do {
             c \<leftarrow> State_Monad.get;
             if co_token c \<noteq> '''' \<and> token \<noteq> co_token c then ret (MErr 401 ''invalid token'')
             else if \<not> list_ex (\<lambda>n. EqualFold M (mn_Domain n) domain) (co_nodes c) then ret (MErr 403 ''domain not registered in mesh'')
             else do {
               x \<leftarrow> issueClientCert E M domain;
               ret (case x of None \<Rightarrow> MErr 500 ''failed to issue cert'' | Some (certPEM, keyPEM) \<Rightarrow> MCert certPEM keyPEM) } })))"

text \<open>The part of \<open>handleToken\<close> under the lock: unlike the other two it leaves \<open>nextIP\<close> alone.\<close>

definition token_commit :: "mesh_env \<Rightarrow> (coord, string) state" where
  "token_commit M = do {
     c \<leftarrow> State_Monad.get;
     if co_token c = '''' then do {
       t \<leftarrow> randBase64 M 24;
       _ \<leftarrow> State_Monad.update (\<lambda>c. c\<lparr>co_token := t\<rparr>);
       b \<leftarrow> randBase64 M 32;
       _ \<leftarrow> State_Monad.update (\<lambda>c. c\<lparr>co_backupSecret := b\<rparr>);
       ret t }
     else ret (co_token c) }"

definition handleToken :: "mesh_env \<Rightarrow> mesh_conf \<Rightarrow> (coord, mesh_answer) state" where
  "handleToken M C = do {
     tok \<leftarrow> token_commit M;
     _ \<leftarrow> save M C;
     ret (MToken tok) }"

section \<open>Facts on the pieces\<close>

definition rand_law :: "mesh_env \<Rightarrow> bool" where
  "rand_law M \<longleftrightarrow> (\<forall>i n. length (fst (mesh_rand M i n)) = n)"

lemma b64_char_not_pad: "n < 64 \<Longrightarrow> b64_char n \<noteq> CHR ''=''"
  by (metis b64_val_char b64_val_pad option.distinct(1))

lemma of_char_mod_64: "(of_char c :: nat) mod 64 < 64"
  by simp

lemma length_RawURLEncode: "3 * length (RawURLEncode b) \<ge> 4 * length b"
  by (induction b rule: b64_encode.induct) (simp_all add: RawURLEncode_def Let_def b64_char_not_pad)

lemma length_randBase64:
  assumes "rand_law M"
  shows "length (fst (run_state (randBase64 M n) c)) = n"
proof -
  obtain b ok where b: "mesh_rand M (co_draws c) ((n * 3 + 3) div 4) = (b, ok)" by fastforce
  let ?b = "if ok then b else b[0 := char_of (nat (co_clock c mod 256))]"
  have "length b = (n * 3 + 3) div 4" using assms b unfolding rand_law_def by (metis fst_conv)
  then have "length ?b = (n * 3 + 3) div 4" by simp
  then have "n \<le> length (RawURLEncode ?b)" using length_RawURLEncode [of ?b] by linarith
  then show ?thesis by (simp add: randBase64_def b)
qed

lemma RawURLEncode_ascii: "is_ascii (RawURLEncode b)"
proof -
  have "(of_char c :: nat) < 128" if "c \<in> set (b64_encode b)" for c
    using b64_encode_visible [OF that] by (simp add: visible_def)
  then show ?thesis by (auto simp: is_ascii_def list_all_iff RawURLEncode_def)
qed

lemma randBase64_ascii: "is_ascii (fst (run_state (randBase64 M n) c))"
proof -
  have "is_ascii (take n (RawURLEncode b))" for b
    using RawURLEncode_ascii [of b] by (auto simp: is_ascii_def list_all_iff dest: in_set_takeD)
  then show ?thesis by (simp add: randBase64_def split: prod.splits)
qed

lemma randBase64_state: "snd (run_state (randBase64 M n) c) = c\<lparr>co_draws := Suc (co_draws c)\<rparr>"
  by (simp add: randBase64_def split: prod.splits)

text \<open>A random text as a value: its properties and the counter that moves on.\<close>

lemma randBase64_run:
  assumes "rand_law M"
  obtains t where "run_state (randBase64 M n) c = (t, c\<lparr>co_draws := Suc (co_draws c)\<rparr>)" "is_ascii t" "length t = n"
  using length_randBase64 [OF assms, of n c] randBase64_ascii [of M n c] randBase64_state [of M n c]
  by (metis prod.collapse)

lemma Itoa_nat: "Itoa (int n) = dec n"
  by (simp add: Itoa_def)

lemma meshIPBase_inj: "meshIPBase @ dec m = meshIPBase @ dec n \<Longrightarrow> m < 2 ^ 64 \<Longrightarrow> n < 2 ^ 64 \<Longrightarrow> m = n"
  by (auto dest: dec_inj)

lemma vpn_ascii: "is_ascii (meshIPBase @ dec n)"
  using dec_visible [of n] by (auto simp: is_ascii_def list_all_iff meshIPBase_def visible_def)

section \<open>Concurrent handlers, failing writes and restarts\<close>

text \<open>A file as \<open>encoding/json\<close> reads it back, and the laws of the documents.\<close>

definition node_utf8 :: "mesh_env \<Rightarrow> mesh_node \<Rightarrow> mesh_node" where
  "node_utf8 M n = n\<lparr>mn_ID := to_utf8 M (mn_ID n), mn_Domain := to_utf8 M (mn_Domain n), mn_PublicKey := to_utf8 M (mn_PublicKey n),
     mn_Endpoint := to_utf8 M (mn_Endpoint n), mn_VPNIP := to_utf8 M (mn_VPNIP n), mn_Subdomain := to_utf8 M (mn_Subdomain n)\<rparr>"

definition file_utf8 :: "mesh_env \<Rightarrow> mesh_file \<Rightarrow> mesh_file" where
  "file_utf8 M f = f\<lparr>mf_nodes := map (node_utf8 M) (mf_nodes f), mf_token := to_utf8 M (mf_token f), mf_backup := to_utf8 M (mf_backup f)\<rparr>"

definition json_law :: "mesh_env \<Rightarrow> bool" where
  "json_law M \<longleftrightarrow> (\<forall>f. unm_state M (json_state M f) = Some (file_utf8 M f))
     \<and> (\<forall>f n. n < length (json_state M f) \<longrightarrow> unm_state M (take n (json_state M f)) = None)
     \<and> (\<forall>s. is_ascii s \<longrightarrow> to_utf8 M s = s)"

text \<open>
  The coordinator with the requests that have passed the checks in front of the lock and wait
  for it. A save runs at any time after a commit, so it may write the state of a later one.
\<close>

record mesh_sys =
  sy_coord :: coord
  sy_joins :: "join_req list"
  sy_configs :: "mesh_http list"

definition mesh_init :: mesh_sys where
  "mesh_init = \<lparr> sy_coord = new_coord, sy_joins = [], sy_configs = [] \<rparr>"

inductive mesh_step :: "mesh_env \<Rightarrow> mesh_conf \<Rightarrow> mesh_sys \<Rightarrow> mesh_sys \<Rightarrow> bool" for M C where
  join_checked: "join_guard M r (sy_coord s) = Inr req \<Longrightarrow> mesh_step M C s (s\<lparr>sy_joins := req # sy_joins s\<rparr>)"
| join_locked: "req \<in> set (sy_joins s) \<Longrightarrow>
    mesh_step M C s (s\<lparr>sy_coord := snd (run_state (join_commit M req) (sy_coord s)), sy_joins := remove1 req (sy_joins s)\<rparr>)"
| config_checked: "config_guard r (sy_coord s) = None \<Longrightarrow> mesh_step M C s (s\<lparr>sy_configs := r # sy_configs s\<rparr>)"
| config_locked: "r \<in> set (sy_configs s) \<Longrightarrow>
    mesh_step M C s (s\<lparr>sy_coord := snd (run_state (config_commit M C r) (sy_coord s)), sy_configs := remove1 r (sy_configs s)\<rparr>)"
| token_locked: "mesh_step M C s (s\<lparr>sy_coord := snd (run_state (token_commit M) (sy_coord s))\<rparr>)"
| saved: "mesh_step M C s (s\<lparr>sy_coord := snd (run_state (save M C) (sy_coord s))\<rparr>)"
| cert_issued: "mesh_step M C s (s\<lparr>sy_coord := snd (run_state (handleCert E M C r) (sy_coord s))\<rparr>)"
| restarted: "mesh_step M C s (s\<lparr>sy_coord := restart M C (sy_coord s), sy_joins := [], sy_configs := []\<rparr>)"
| environment: "mesh_step M C s (s\<lparr>sy_coord := (sy_coord s)\<lparr>co_clock := t, co_writes := ws\<rparr>\<rparr>)"

text \<open>
  The invariant: the token is there as soon as a node is, and while fewer nodes than the counter
  can count have joined, the k-th node has the k-th address, counting from \<open>off\<close>.
\<close>

definition numbered :: "mesh_node list \<Rightarrow> int \<Rightarrow> bool" where
  "numbered ns k \<longleftrightarrow> (length ns + 1 < 2 ^ 63 \<longrightarrow>
     (\<exists>off \<in> {0, 1}. k = int (off + length ns) \<and> map mn_VPNIP ns = map (\<lambda>i. meshIPBase @ dec (off + i)) [0..<length ns]))"

definition mesh_ok :: "mesh_node list \<Rightarrow> int \<Rightarrow> string \<Rightarrow> bool" where
  "mesh_ok ns k tok \<longleftrightarrow> numbered ns k \<and> (tok = '''' \<longrightarrow> ns = []) \<and> is_ascii tok"

definition disk_ok :: "mesh_env \<Rightarrow> string option \<Rightarrow> bool" where
  "disk_ok M d = (case d of None \<Rightarrow> True | Some x \<Rightarrow> (case unm_state M x of None \<Rightarrow> True
     | Some f \<Rightarrow> mesh_ok (mf_nodes f) (mf_next_ip f) (mf_token f)))"

definition coord_inv :: "mesh_env \<Rightarrow> coord \<Rightarrow> bool" where
  "coord_inv M c \<longleftrightarrow> mesh_ok (co_nodes c) (co_nextIP c) (co_token c) \<and> disk_ok M (co_disk c)"

lemma numbered_Nil [simp]: "numbered [] 0" "numbered [] 1"
  by (simp_all add: numbered_def)

lemma numbered_snoc:
  assumes "numbered ns k" and "mn_VPNIP n = meshIPBase @ Itoa k"
  shows "numbered (ns @ [n]) (wrap64 (k + 1))"
  unfolding numbered_def
proof
  assume l: "length (ns @ [n]) + 1 < 2 ^ 63"
  then obtain off :: nat where off: "off \<in> {0, 1}" "k = int (off + length ns)" "map mn_VPNIP ns = map (\<lambda>i. meshIPBase @ dec (off + i)) [0..<length ns]"
    using assms(1) by (auto simp: numbered_def)
  have "int (length ns) + 2 < 2 ^ 63" using l by simp
  with off have "wrap64 (k + 1) = k + 1" by (intro wrap64_id) (auto simp: int64_def)
  moreover have "mn_VPNIP n = meshIPBase @ dec (off + length ns)" using assms(2) off(2) Itoa_nat by metis
  ultimately show "\<exists>off \<in> {0, 1}. wrap64 (k + 1) = int (off + length (ns @ [n]))
      \<and> map mn_VPNIP (ns @ [n]) = map (\<lambda>i. meshIPBase @ dec (off + i)) [0..<length (ns @ [n])]"
    using off by (intro bexI [of _ off]) auto
qed

lemma mesh_ok_utf8:
  assumes "json_law M" "mesh_ok ns k tok"
  shows "mesh_ok (map (node_utf8 M) ns) k (to_utf8 M tok)"
proof -
  have a: "to_utf8 M s = s" if "is_ascii s" for s using assms(1) that by (simp add: json_law_def)
  have "map mn_VPNIP (map (node_utf8 M) ns) = map (to_utf8 M) (map mn_VPNIP ns)" by (simp add: node_utf8_def)
  moreover have "map (to_utf8 M) (map (\<lambda>i. meshIPBase @ dec (off + i)) is) = map (\<lambda>i. meshIPBase @ dec (off + i)) is" for off "is"
    by (simp add: a vpn_ascii)
  ultimately have "numbered (map (node_utf8 M) ns) k" using assms(2)
    unfolding mesh_ok_def numbered_def length_map by metis
  then show ?thesis using assms(2) a by (simp add: mesh_ok_def)
qed

subsection \<open>Every piece keeps the invariant\<close>

lemma keeps_cong: "(\<And>c. I (snd (run_state m c)) = I c) \<Longrightarrow> keeps I m"
  by (rule tripleI) (metis snd_conv)

lemma found_mesh_run:
  assumes "rand_law M"
  obtains "co_token c \<noteq> ''''" "run_state (found_mesh M) c = ((), c)"
  | t b where "co_token c = ''''" "run_state (found_mesh M) c
      = ((), c\<lparr>co_token := t, co_backupSecret := b, co_nextIP := 1, co_draws := Suc (Suc (co_draws c))\<rparr>)" "is_ascii t" "t \<noteq> ''''"
proof (cases "co_token c = ''''")
  case True
  obtain t where t: "run_state (randBase64 M 24) c = (t, c\<lparr>co_draws := Suc (co_draws c)\<rparr>)" "is_ascii t" "length t = 24"
    by (rule randBase64_run [OF assms])
  let ?c = "c\<lparr>co_draws := Suc (co_draws c), co_token := t\<rparr>"
  obtain b where b: "run_state (randBase64 M 32) ?c = (b, ?c\<lparr>co_draws := Suc (co_draws ?c)\<rparr>)"
    by (rule randBase64_run [OF assms])
  have "run_state (found_mesh M) c = ((), c\<lparr>co_token := t, co_backupSecret := b, co_nextIP := 1, co_draws := Suc (Suc (co_draws c))\<rparr>)"
    using True t(1) b by (simp add: found_mesh_def State_Monad.update_def State_Monad.set_def State_Monad.get_def)
  with True t(2,3) that(2) show thesis by force
next
  case False
  then show thesis by (intro that(1)) (simp_all add: found_mesh_def)
qed

lemma found_mesh_inv:
  assumes "rand_law M" "coord_inv M c"
  shows "coord_inv M (snd (run_state (found_mesh M) c)) \<and> co_token (snd (run_state (found_mesh M) c)) \<noteq> ''''"
  using assms(1)
proof (cases rule: found_mesh_run [of M c])
  case (2 t b)
  then show ?thesis using assms(2) by (simp add: coord_inv_def mesh_ok_def)
qed (use assms(2) in simp_all)

lemma add_node_run:
  assumes "rand_law M"
  obtains i where "run_state (add_node M d p e sub) c = (meshIPBase @ Itoa (co_nextIP c),
    c\<lparr>co_nextIP := wrap64 (co_nextIP c + 1), co_draws := Suc (co_draws c), co_nodes := co_nodes c @ [\<lparr> mn_ID = i, mn_Domain = d, mn_PublicKey = p,
       mn_Endpoint = e, mn_VPNIP = meshIPBase @ Itoa (co_nextIP c), mn_Subdomain = sub, mn_JoinedAt = co_clock c \<rparr>]\<rparr>)"
proof -
  let ?c = "c\<lparr>co_nextIP := wrap64 (co_nextIP c + 1)\<rparr>"
  obtain i where "run_state (randBase64 M 12) ?c = (i, ?c\<lparr>co_draws := Suc (co_draws ?c)\<rparr>)"
    by (rule randBase64_run [OF assms])
  then show thesis
    by (intro that [of i]) (simp add: add_node_def Let_def State_Monad.update_def State_Monad.set_def State_Monad.get_def)
qed

lemma add_node_inv:
  assumes "rand_law M" "coord_inv M c" "co_token c \<noteq> ''''"
  shows "coord_inv M (snd (run_state (add_node M d p e sub) c))"
proof -
  obtain i where "run_state (add_node M d p e sub) c = (meshIPBase @ Itoa (co_nextIP c),
    c\<lparr>co_nextIP := wrap64 (co_nextIP c + 1), co_draws := Suc (co_draws c), co_nodes := co_nodes c @ [\<lparr> mn_ID = i, mn_Domain = d, mn_PublicKey = p,
       mn_Endpoint = e, mn_VPNIP = meshIPBase @ Itoa (co_nextIP c), mn_Subdomain = sub, mn_JoinedAt = co_clock c \<rparr>]\<rparr>)"
    by (rule add_node_run [OF assms(1)])
  then show ?thesis using assms(2,3) by (simp add: coord_inv_def mesh_ok_def numbered_snoc)
qed

lemma found_mesh_triple: "rand_law M \<Longrightarrow> triple (coord_inv M) (found_mesh M) (\<lambda>_ c. coord_inv M c \<and> co_token c \<noteq> '''')"
  by (rule tripleI) (metis found_mesh_inv snd_conv)

lemma add_node_triple:
  "rand_law M \<Longrightarrow> triple (\<lambda>c. coord_inv M c \<and> co_token c \<noteq> '''') (add_node M d p e sub) (\<lambda>_. coord_inv M)"
  by (rule tripleI) (metis add_node_inv snd_conv)

lemma join_commit_inv: "rand_law M \<Longrightarrow> keeps (coord_inv M) (join_commit M req)"
  unfolding join_commit_def
  by (rule triple_bind [OF found_mesh_triple], assumption, rule triple_bind [OF add_node_triple], assumption) (intro triple_intros)

lemma keeps_update: "(\<And>c. I c \<Longrightarrow> I (f c)) \<Longrightarrow> keeps I (State_Monad.update f)"
  by (rule tripleI) (auto simp: State_Monad.update_def State_Monad.set_def State_Monad.get_def)

lemma maybe_route_inv: "keeps (coord_inv M) (maybe_route C sub d ip)"
  unfolding maybe_route_def writeTraefikRoute_def Let_def
  by (auto intro!: triple_intros keeps_update simp: coord_inv_def)

lemma config_commit_inv: "rand_law M \<Longrightarrow> keeps (coord_inv M) (config_commit M C r)"
  unfolding config_commit_def Let_def
  by (rule keeps_bind [OF keeps_get], rule triple_case_option, rule triple_bind [OF found_mesh_triple], assumption,
      rule triple_bind [OF add_node_triple], assumption)
     (intro triple_intros maybe_route_inv; simp)+

lemma token_commit_inv:
  assumes "rand_law M"
  shows "keeps (coord_inv M) (token_commit M)"
proof (rule tripleI)
  fix c r c' assume c: "coord_inv M c" and r: "run_state (token_commit M) c = (r, c')"
  obtain t where t: "run_state (randBase64 M 24) c = (t, c\<lparr>co_draws := Suc (co_draws c)\<rparr>)" "is_ascii t" "length t = 24"
    by (rule randBase64_run [OF assms])
  let ?c = "c\<lparr>co_draws := Suc (co_draws c), co_token := t\<rparr>"
  obtain b where "run_state (randBase64 M 32) ?c = (b, ?c\<lparr>co_draws := Suc (co_draws ?c)\<rparr>)"
    by (rule randBase64_run [OF assms])
  then show "coord_inv M c'"
    using c r t by (auto simp: token_commit_def State_Monad.update_def State_Monad.set_def State_Monad.get_def coord_inv_def mesh_ok_def split: if_splits)
qed

lemma disk_ok_write:
  assumes "json_law M" "coord_inv M c"
  shows "disk_ok M (write_file (json_state M (file_of c)) w (co_disk c))"
proof -
  have f: "disk_ok M (Some (json_state M (file_of c)))"
    using assms mesh_ok_utf8 [OF assms(1)] by (simp add: disk_ok_def json_law_def file_utf8_def file_of_def coord_inv_def)
  show ?thesis
  proof (cases w)
    case (WriteCut n)
    then show ?thesis using f assms(1)
      by (cases "n < length (json_state M (file_of c))") (simp_all add: write_file_def disk_ok_def json_law_def)
  qed (use f assms(2) in \<open>simp_all add: write_file_def coord_inv_def\<close>)
qed

lemma save_inv: "json_law M \<Longrightarrow> keeps (coord_inv M) (save M C)"
  unfolding save_def by (rule tripleI) (auto simp: coord_inv_def [of M] disk_ok_write)

lemma restart_inv: "coord_inv M c \<Longrightarrow> coord_inv M (restart M C c)"
  by (auto simp: restart_def load_def coord_inv_def disk_ok_def mesh_ok_def is_ascii_def split: option.splits)

lemma handleCert_inv: "keeps (coord_inv M) (handleCert E M C r)"
proof -
  have "keeps (coord_inv M) (issueClientCert E M d)" for d
    by (rule tripleI) (auto simp: issueClientCert_def Let_def coord_inv_def split: if_splits option.splits)
  then show ?thesis unfolding handleCert_def Let_def by (intro triple_intros) auto
qed

lemmas coord_pieces_inv = join_commit_inv config_commit_inv token_commit_inv save_inv handleCert_inv

lemma mesh_step_inv:
  assumes "mesh_step M C s s'" "rand_law M" "json_law M" "coord_inv M (sy_coord s)"
  shows "coord_inv M (sy_coord s')"
  using assms
proof (cases rule: mesh_step.cases)
  case (environment t ws)
  then show ?thesis using assms(4) by (simp add: coord_inv_def)
qed (simp_all add: tripleD_snd restart_inv coord_pieces_inv)

lemma mesh_reachable_inv:
  assumes "(mesh_step M C)\<^sup>*\<^sup>* mesh_init s" "rand_law M" "json_law M"
  shows "coord_inv M (sy_coord s)"
  using assms(1)
proof induction
  case base
  show ?case by (simp add: mesh_init_def new_coord_def coord_inv_def mesh_ok_def disk_ok_def is_ascii_def)
next
  case (step s s')
  then show ?case using mesh_step_inv assms(2,3) by blast
qed

text \<open>The handlers, run without interruption, are runs of the step relation.\<close>

lemma handleJoin_steps: "(mesh_step M C)\<^sup>*\<^sup>* s (s\<lparr>sy_coord := snd (run_state (handleJoin M C r) (sy_coord s))\<rparr>)"
proof (cases "join_guard M r (sy_coord s)")
  case (Inl a)
  then show ?thesis by (simp add: handleJoin_def)
next
  case (Inr req)
  let ?s1 = "s\<lparr>sy_joins := req # sy_joins s\<rparr>"
  let ?s2 = "?s1\<lparr>sy_coord := snd (run_state (join_commit M req) (sy_coord ?s1)), sy_joins := remove1 req (sy_joins ?s1)\<rparr>"
  have "mesh_step M C s ?s1" by (rule mesh_step.join_checked [OF Inr])
  moreover have "mesh_step M C ?s1 ?s2" by (rule mesh_step.join_locked) simp
  moreover have "mesh_step M C ?s2 (?s2\<lparr>sy_coord := snd (run_state (save M C) (sy_coord ?s2))\<rparr>)" by (rule mesh_step.saved)
  moreover have "?s2\<lparr>sy_coord := snd (run_state (save M C) (sy_coord ?s2))\<rparr> = s\<lparr>sy_coord := snd (run_state (handleJoin M C r) (sy_coord s))\<rparr>"
    using Inr by (simp add: handleJoin_def split: prod.splits)
  ultimately show ?thesis by (metis (no_types, lifting) r_into_rtranclp rtranclp.rtrancl_into_rtrancl)
qed

lemma handleConfig_steps: "(mesh_step M C)\<^sup>*\<^sup>* s (s\<lparr>sy_coord := snd (run_state (handleConfig M C r) (sy_coord s))\<rparr>)"
proof (cases "config_guard r (sy_coord s)")
  case (Some a)
  then show ?thesis by (simp add: handleConfig_def)
next
  case None
  let ?s1 = "s\<lparr>sy_configs := r # sy_configs s\<rparr>"
  obtain a b c1 where c1: "run_state (config_commit M C r) (sy_coord s) = ((a, b), c1)" by (metis prod.exhaust)
  let ?s2 = "s\<lparr>sy_coord := c1\<rparr>"
  have "mesh_step M C s ?s1" by (rule mesh_step.config_checked [OF None])
  moreover have "mesh_step M C ?s1 ?s2" using mesh_step.config_locked [of r ?s1 M C] c1 by simp
  moreover have "mesh_step M C ?s2 (?s2\<lparr>sy_coord := snd (run_state (save M C) (sy_coord ?s2))\<rparr>)" by (rule mesh_step.saved)
  ultimately have "(mesh_step M C)\<^sup>*\<^sup>* s ?s2" "(mesh_step M C)\<^sup>*\<^sup>* s (?s2\<lparr>sy_coord := snd (run_state (save M C) (sy_coord ?s2))\<rparr>)"
    by (metis (no_types, lifting) r_into_rtranclp rtranclp.rtrancl_into_rtrancl)+
  moreover have "snd (run_state (handleConfig M C r) (sy_coord s)) = (if b then snd (run_state (save M C) c1) else c1)"
    using None c1 by (simp add: handleConfig_def split: prod.splits)
  ultimately show ?thesis by (cases b) simp_all
qed

lemma handleToken_steps: "(mesh_step M C)\<^sup>*\<^sup>* s (s\<lparr>sy_coord := snd (run_state (handleToken M C) (sy_coord s))\<rparr>)"
proof -
  let ?s1 = "s\<lparr>sy_coord := snd (run_state (token_commit M) (sy_coord s))\<rparr>"
  have "mesh_step M C s ?s1" by (rule mesh_step.token_locked)
  moreover have "mesh_step M C ?s1 (?s1\<lparr>sy_coord := snd (run_state (save M C) (sy_coord ?s1))\<rparr>)" by (rule mesh_step.saved)
  moreover have "?s1\<lparr>sy_coord := snd (run_state (save M C) (sy_coord ?s1))\<rparr> = s\<lparr>sy_coord := snd (run_state (handleToken M C) (sy_coord s))\<rparr>"
    by (simp add: handleToken_def split: prod.splits)
  ultimately show ?thesis by (metis (no_types, lifting) r_into_rtranclp rtranclp.rtrancl_into_rtrancl)
qed

section \<open>Addresses\<close>

text \<open>An instance of the parameters: a counter for randomness, and one coding of the state file.\<close>

definition node_fields :: "mesh_node \<Rightarrow> string list" where
  "node_fields n = [mn_ID n, mn_Domain n, mn_PublicKey n, mn_Endpoint n, mn_VPNIP n, mn_Subdomain n, unary (mn_JoinedAt n)]"

fun parse_nodes :: "string list \<Rightarrow> mesh_node list" where
  "parse_nodes (a # b # c # d # e # f # g # r) = \<lparr> mn_ID = a, mn_Domain = b, mn_PublicKey = c, mn_Endpoint = d, mn_VPNIP = e,
     mn_Subdomain = f, mn_JoinedAt = of_unary g \<rparr> # parse_nodes r"
| "parse_nodes _ = []"

definition demo_state_json :: "mesh_file \<Rightarrow> string" where
  "demo_state_json f = dotted (unary (mf_next_ip f) # mf_token f # mf_backup f # concat (map node_fields (mf_nodes f))) @ ''!''"

definition demo_state_parse :: "string \<Rightarrow> mesh_file option" where
  "demo_state_parse s = (if s = '''' \<or> last s \<noteq> CHR ''!'' then None else (case undotted (butlast s) of
     k # t # b # r \<Rightarrow> Some \<lparr> mf_nodes = parse_nodes r, mf_next_ip = of_unary k, mf_token = t, mf_backup = b \<rparr>
   | _ \<Rightarrow> None))"

definition demo_mesh :: mesh_env where
  "demo_mesh = \<lparr> mesh_rand = (\<lambda>i n. (replicate n (char_of i), True)),
     dec_join = (\<lambda>s. case undotted s of [t, p, e, d] \<Rightarrow> Some \<lparr> jr_Token = t, jr_PublicKey = p, jr_Endpoint = e, jr_Domain = d \<rparr> | _ \<Rightarrow> None),
     dec_cert = (\<lambda>s. case undotted s of [t, d] \<Rightarrow> Some (t, d) | _ \<Rightarrow> None),
     json_state = demo_state_json, unm_state = demo_state_parse, to_utf8 = (\<lambda>s. s), uni_fold = (\<lambda>s t. s = t),
     gen_key = (\<lambda>i. Some [char_of i]), gen_serial = (\<lambda>i. Some (int i)), sign_cert = (\<lambda>t k. Some (concat (ct_DNSNames t), k)) \<rparr>"

lemma parse_nodes_fields [simp]: "parse_nodes (concat (map node_fields ns)) = ns"
  by (induction ns) (simp_all add: node_fields_def)

lemma dotted_no_bang: "CHR ''!'' \<notin> set (dotted fs)"
proof -
  have "\<forall>n \<in> set [0..<16]. hex_digit n \<noteq> CHR ''!''" by code_simp
  then show ?thesis using dotted_chars by fastforce
qed

lemma demo_state_cut: "n < length (demo_state_json f) \<Longrightarrow> demo_state_parse (take n (demo_state_json f)) = None"
proof -
  assume n: "n < length (demo_state_json f)"
  let ?s = "take n (demo_state_json f)"
  have "?s \<noteq> '''' \<Longrightarrow> last ?s \<noteq> CHR ''!''"
    using n last_in_set [of ?s] in_set_takeD dotted_no_bang by (fastforce simp: demo_state_json_def)
  then show ?thesis unfolding demo_state_parse_def by (cases "?s = ''''") (simp_all only: simp_thms if_True)
qed

lemma demo_state_whole: "demo_state_parse (demo_state_json f) = Some f"
  by (simp add: demo_state_parse_def demo_state_json_def)

lemma demo_mesh_fields [simp]: "json_state demo_mesh = demo_state_json" "unm_state demo_mesh = demo_state_parse" "to_utf8 demo_mesh = (\<lambda>s. s)"
  by (simp_all add: demo_mesh_def)

lemma demo_mesh_utf8 [simp]: "file_utf8 demo_mesh f = f"
proof -
  have "node_utf8 demo_mesh = (\<lambda>n. n)" by (simp add: node_utf8_def fun_eq_iff)
  then show ?thesis by (simp add: file_utf8_def)
qed

lemma demo_mesh_laws: "rand_law demo_mesh" "json_law demo_mesh"
proof -
  show "rand_law demo_mesh" by (simp add: rand_law_def demo_mesh_def)
  show "json_law demo_mesh" unfolding json_law_def demo_mesh_fields demo_mesh_utf8 using demo_state_cut demo_state_whole by blast
qed


definition demo_join :: join_req where
  "demo_join = \<lparr> jr_Token = '''', jr_PublicKey = ''pk1'', jr_Endpoint = ''1.2.3.4:51820'', jr_Domain = ''a.org'' \<rparr>"

definition demo_join_http :: mesh_http where
  "demo_join_http = \<lparr> mh_Method = ''POST'', mh_Body = dotted ['''', ''pk1'', ''1.2.3.4:51820'', ''a.org''], mh_Query = (\<lambda>_. '''') \<rparr>"

definition demo_conf :: mesh_conf where
  "demo_conf = \<lparr> mc_storagePath = ''/data/coordinator.json'', mc_routesDir = '''', mc_ca = True \<rparr>"

lemma length_join_commit:
  assumes "rand_law M"
  shows "length (co_nodes (snd (run_state (join_commit M req) c))) = Suc (length (co_nodes c))"
proof -
  obtain c1 where c1: "run_state (found_mesh M) c = ((), c1)" "co_nodes c1 = co_nodes c"
    using assms by (cases rule: found_mesh_run [of M c]) auto
  obtain i where "run_state (add_node M (jr_Domain req) (jr_PublicKey req) (jr_Endpoint req) '''') c1 = (meshIPBase @ Itoa (co_nextIP c1),
    c1\<lparr>co_nextIP := wrap64 (co_nextIP c1 + 1), co_draws := Suc (co_draws c1), co_nodes := co_nodes c1 @ [\<lparr> mn_ID = i, mn_Domain = jr_Domain req,
       mn_PublicKey = jr_PublicKey req, mn_Endpoint = jr_Endpoint req, mn_VPNIP = meshIPBase @ Itoa (co_nextIP c1), mn_Subdomain = '''', mn_JoinedAt = co_clock c1 \<rparr>]\<rparr>)"
    by (rule add_node_run [OF assms])
  then show ?thesis using c1 by (simp add: join_commit_def)
qed

text \<open>Two requests that pass the check together while there is no token yet, then take the lock.\<close>

lemma demo_two_joins: "\<exists>s. (mesh_step demo_mesh demo_conf)\<^sup>*\<^sup>* mesh_init s \<and> length (co_nodes (sy_coord s)) = 2"
proof -
  let ?J = "join_commit demo_mesh demo_join"
  have g: "join_guard demo_mesh demo_join_http new_coord = Inr demo_join"
    by (simp add: join_guard_def demo_join_http_def demo_mesh_def demo_join_def new_coord_def)
  let ?s1 = "mesh_init\<lparr>sy_joins := [demo_join, demo_join]\<rparr>"
  let ?s2 = "?s1\<lparr>sy_coord := snd (run_state ?J (sy_coord ?s1)), sy_joins := [demo_join]\<rparr>"
  let ?s3 = "?s2\<lparr>sy_coord := snd (run_state ?J (sy_coord ?s2)), sy_joins := []\<rparr>"
  have "mesh_step demo_mesh demo_conf mesh_init (mesh_init\<lparr>sy_joins := [demo_join]\<rparr>)"
    using mesh_step.join_checked [of demo_mesh demo_join_http mesh_init demo_join demo_conf] g by (simp add: mesh_init_def)
  moreover have "mesh_step demo_mesh demo_conf (mesh_init\<lparr>sy_joins := [demo_join]\<rparr>) ?s1"
    using mesh_step.join_checked [of demo_mesh demo_join_http "mesh_init\<lparr>sy_joins := [demo_join]\<rparr>" demo_join demo_conf] g by (simp add: mesh_init_def)
  moreover have "mesh_step demo_mesh demo_conf ?s1 ?s2" using mesh_step.join_locked [of demo_join ?s1 demo_mesh demo_conf] by simp
  moreover have "mesh_step demo_mesh demo_conf ?s2 ?s3" using mesh_step.join_locked [of demo_join ?s2 demo_mesh demo_conf] by simp
  ultimately have "(mesh_step demo_mesh demo_conf)\<^sup>*\<^sup>* mesh_init ?s3" by (meson r_into_rtranclp rtranclp.rtrancl_into_rtrancl)
  moreover have "length (co_nodes (sy_coord ?s3)) = 2"
    by (simp add: length_join_commit demo_mesh_laws mesh_init_def new_coord_def)
  ultimately show ?thesis by blast
qed


text \<open>The addresses run over: the 257th or 258th node of the list is given 10.100.0.256, which is no
  IP address.\<close>

lemma vpn_address_256:
  assumes "rand_law M" "json_law M" "(mesh_step M C)\<^sup>*\<^sup>* mesh_init s" "258 \<le> length (co_nodes (sy_coord s))"
    "length (co_nodes (sy_coord s)) + 1 < 2 ^ 63"
  shows "''10.100.0.256'' \<in> mn_VPNIP ` set (co_nodes (sy_coord s))"
proof -
  let ?ns = "co_nodes (sy_coord s)"
  from mesh_reachable_inv [OF assms(3,1,2)] have "numbered ?ns (co_nextIP (sy_coord s))" by (simp add: coord_inv_def mesh_ok_def)
  then obtain off :: nat where off: "off \<in> {0, 1}" "map mn_VPNIP ?ns = map (\<lambda>i. meshIPBase @ dec (off + i)) [0..<length ?ns]"
    using assms(5) unfolding numbered_def by blast
  have d: "meshIPBase @ dec 256 = ''10.100.0.256''" by code_simp
  have "256 - off \<in> set [0..<length ?ns]" "off + (256 - off) = 256" using off(1) assms(4) by auto
  then have "meshIPBase @ dec 256 \<in> set (map mn_VPNIP ?ns)" unfolding off(2) set_map by (metis imageI)
  then show ?thesis unfolding d by simp
qed

section \<open>Asking again\<close>

text \<open>What a piece that only writes files leaves alone.\<close>

definition same_mesh :: "coord \<Rightarrow> coord \<Rightarrow> bool" where
  "same_mesh c c' \<longleftrightarrow> co_nodes c' = co_nodes c \<and> co_nextIP c' = co_nextIP c \<and> co_token c' = co_token c
     \<and> co_backupSecret c' = co_backupSecret c"

lemma maybe_route_same: "same_mesh c (snd (run_state (maybe_route C sub d ip) c))"
  by (simp add: maybe_route_def writeTraefikRoute_def Let_def same_mesh_def State_Monad.update_def State_Monad.set_def State_Monad.get_def)

lemma maybe_route_run: obtains c' where "run_state (maybe_route C sub d ip) c = ((), c')" "same_mesh c c'"
  using maybe_route_same [of c C sub d ip] by (metis old.unit.exhaust prod.collapse)

lemma save_run: obtains c' where "run_state (save M C) c = ((), c')" "same_mesh c c'"
  by (simp add: save_def same_mesh_def)

lemma find_snoc: "find P xs = None \<Longrightarrow> P y \<Longrightarrow> find P (xs @ [y]) = Some y"
  by (induction xs) (auto split: if_splits)

text \<open>The subdomain a node is answered with when it asks again.\<close>

definition again_subdomain :: "mesh_node \<Rightarrow> string \<Rightarrow> string" where
  "again_subdomain n mainDomain = (if mn_Subdomain n = '''' \<and> mainDomain \<noteq> '''' then subdomainFromEndpoint (mn_Endpoint n) else mn_Subdomain n)"

lemma config_known:
  assumes "config_guard r c = None" "find (\<lambda>n. mn_PublicKey n = mh_Query r ''public_key'') (co_nodes c) = Some n"
  obtains c' where "run_state (handleConfig M C r) c
      = (config_answer (mn_VPNIP n) (co_backupSecret c) (again_subdomain n (mh_Query r ''main_domain'')) (mh_Query r ''main_domain'') (co_nodes c), c')"
    "same_mesh c c'"
proof -
  obtain c' where c': "run_state (maybe_route C (again_subdomain n (mh_Query r ''main_domain'')) (mh_Query r ''main_domain'') (mn_VPNIP n)) c = ((), c')" "same_mesh c c'"
    by (rule maybe_route_run)
  with assms show thesis
    by (intro that [of c']) (simp_all add: handleConfig_def config_commit_def Let_def again_subdomain_def)
qed

definition asked_subdomain :: "mesh_http \<Rightarrow> string" where
  "asked_subdomain r = (if (mh_Query r ''use_subdomain'' = ''1'' \<or> mh_Query r ''use_subdomain'' = ''true'') \<and> mh_Query r ''main_domain'' \<noteq> ''''
     then subdomainFromEndpoint (mh_Query r ''endpoint'') else '''')"

lemma config_new:
  assumes "rand_law M" "config_guard r c = None" "co_token c \<noteq> ''''"
    "find (\<lambda>n. mn_PublicKey n = mh_Query r ''public_key'') (co_nodes c) = None"
  obtains c' n where "run_state (handleConfig M C r) c
      = (config_answer (mn_VPNIP n) (co_backupSecret c) (asked_subdomain r) (mh_Query r ''main_domain'') (co_nodes c @ [n]), c')"
    "co_nodes c' = co_nodes c @ [n]" "co_token c' = co_token c" "co_backupSecret c' = co_backupSecret c"
    "mn_PublicKey n = mh_Query r ''public_key''" "mn_Endpoint n = mh_Query r ''endpoint''" "mn_Subdomain n = asked_subdomain r"
proof -
  have f: "run_state (found_mesh M) c = ((), c)" using assms(1,3) by (cases rule: found_mesh_run [of M c]) auto
  let ?ip = "meshIPBase @ Itoa (co_nextIP c)"
  obtain i where a: "run_state (add_node M (mh_Query r ''domain'') (mh_Query r ''public_key'') (mh_Query r ''endpoint'') (asked_subdomain r)) c = (?ip,
    c\<lparr>co_nextIP := wrap64 (co_nextIP c + 1), co_draws := Suc (co_draws c), co_nodes := co_nodes c @ [\<lparr> mn_ID = i, mn_Domain = mh_Query r ''domain'',
       mn_PublicKey = mh_Query r ''public_key'', mn_Endpoint = mh_Query r ''endpoint'', mn_VPNIP = ?ip, mn_Subdomain = asked_subdomain r, mn_JoinedAt = co_clock c \<rparr>]\<rparr>)"
    (is "_ = (_, ?c1)") by (rule add_node_run [OF assms(1)])
  obtain c2 where c2: "run_state (maybe_route C (asked_subdomain r) (mh_Query r ''main_domain'') ?ip) ?c1 = ((), c2)" "same_mesh ?c1 c2"
    by (rule maybe_route_run)
  obtain c3 where c3: "run_state (save M C) c2 = ((), c3)" "same_mesh c2 c3" by (rule save_run)
  show thesis
    by (rule that [of "last (co_nodes ?c1)" c3])
       (use assms(2,4) f a c2 c3 in \<open>simp_all add: handleConfig_def config_commit_def Let_def asked_subdomain_def same_mesh_def\<close>)
qed

text \<open>The configuration is idempotent: in a mesh with a token, repeating a request that was
  answered with a configuration is answered with the same address and the same text, and
  registers nothing. The whole answer is the same when the request asks for a subdomain or names
  no main domain; otherwise the second answer adds one that was not asked for.\<close>

theorem handleConfig_repeat:
  assumes "rand_law M" "co_token c \<noteq> ''''" "run_state (handleConfig M C r) c = (MConfig h wg, c1)"
  shows "\<exists>h' c2. run_state (handleConfig M C r) c1 = (MConfig h' wg, c2) \<and> map_of h' ''X-VPN-IP'' = map_of h ''X-VPN-IP''
    \<and> co_nodes c2 = co_nodes c1 \<and> co_nextIP c2 = co_nextIP c1
    \<and> (mh_Query r ''use_subdomain'' \<in> {''1'', ''true''} \<or> mh_Query r ''main_domain'' = '''' \<longrightarrow> h' = h)"
proof -
  have g: "config_guard r c = None"
    using assms(3) by (auto simp: handleConfig_def config_guard_def split: if_splits)
  have g1: "config_guard r c' = None" if "co_token c' = co_token c" for c' using g unfolding config_guard_def that .
  show ?thesis
  proof (cases "find (\<lambda>n. mn_PublicKey n = mh_Query r ''public_key'') (co_nodes c)")
    case (Some n)
    obtain c' where c': "run_state (handleConfig M C r) c = (config_answer (mn_VPNIP n) (co_backupSecret c)
        (again_subdomain n (mh_Query r ''main_domain'')) (mh_Query r ''main_domain'') (co_nodes c), c')" "same_mesh c c'"
      by (rule config_known [OF g Some])
    with assms(3) have e: "c1 = c'" by simp
    obtain c2 where "run_state (handleConfig M C r) c1 = (config_answer (mn_VPNIP n) (co_backupSecret c1)
        (again_subdomain n (mh_Query r ''main_domain'')) (mh_Query r ''main_domain'') (co_nodes c1), c2)" "same_mesh c1 c2"
      using config_known [of r c1 n M C] g1 [of c1] Some c'(2) unfolding e same_mesh_def by metis
    then show ?thesis using c' assms(3) by (intro exI [of _ h] exI [of _ c2]) (auto simp: e same_mesh_def)
  next
    case None
    obtain c' n where c': "run_state (handleConfig M C r) c
        = (config_answer (mn_VPNIP n) (co_backupSecret c) (asked_subdomain r) (mh_Query r ''main_domain'') (co_nodes c @ [n]), c')"
      "co_nodes c' = co_nodes c @ [n]" "co_token c' = co_token c" "co_backupSecret c' = co_backupSecret c"
      "mn_PublicKey n = mh_Query r ''public_key''" "mn_Endpoint n = mh_Query r ''endpoint''" "mn_Subdomain n = asked_subdomain r"
      by (rule config_new [OF assms(1) g assms(2) None])
    with assms(3) have e: "c1 = c'" by simp
    have "find (\<lambda>n. mn_PublicKey n = mh_Query r ''public_key'') (co_nodes c1) = Some n"
      using None c'(2,5) unfolding e by (simp add: find_snoc)
    then obtain c2 where c2: "run_state (handleConfig M C r) c1 = (config_answer (mn_VPNIP n) (co_backupSecret c1)
        (again_subdomain n (mh_Query r ''main_domain'')) (mh_Query r ''main_domain'') (co_nodes c1), c2)" "same_mesh c1 c2"
      using config_known [of r c1 n M C] g1 [of c1] c'(3) unfolding e by metis
    then show ?thesis using c' assms(3) unfolding e
      by (auto simp: same_mesh_def config_answer_def again_subdomain_def asked_subdomain_def)
  qed
qed

definition demo_config_http :: mesh_http where
  "demo_config_http = \<lparr> mh_Method = ''GET'', mh_Body = '''', mh_Query = (\<lambda>k. if k = ''token'' then ''T'' else if k = ''public_key'' then ''pk2''
     else if k = ''endpoint'' then ''1.2.3.4:51820'' else if k = ''domain'' then ''b.org'' else '''') \<rparr>"

definition demo_coord :: coord where
  "demo_coord = new_coord\<lparr>co_token := ''T'', co_nextIP := 1\<rparr>"

theorem handleConfig_repeat_witness:
  "\<exists>h wg c1 h' c2. run_state (handleConfig demo_mesh demo_conf demo_config_http) demo_coord = (MConfig h wg, c1)
    \<and> run_state (handleConfig demo_mesh demo_conf demo_config_http) c1 = (MConfig h' wg, c2) \<and> h' = h \<and> co_nodes c2 = co_nodes c1"
proof -
  have g: "config_guard demo_config_http demo_coord = None" by (simp add: config_guard_def demo_config_http_def demo_coord_def)
  have t: "co_token demo_coord \<noteq> ''''" by (simp add: demo_coord_def)
  have n: "find (\<lambda>n. mn_PublicKey n = mh_Query demo_config_http ''public_key'') (co_nodes demo_coord) = None"
    by (simp add: demo_coord_def new_coord_def)
  obtain h wg c1 where r: "run_state (handleConfig demo_mesh demo_conf demo_config_http) demo_coord = (MConfig h wg, c1)"
    using config_new [OF demo_mesh_laws(1) g t n, of demo_conf] unfolding config_answer_def by metis
  have m: "mh_Query demo_config_http ''main_domain'' = ''''" by (simp add: demo_config_http_def)
  from handleConfig_repeat [OF demo_mesh_laws(1) t r] r m show ?thesis by blast
qed

section \<open>The token\<close>

text \<open>With a token in place, the four protected handlers refuse a request without it and change
  nothing.\<close>

lemma mesh_token_gate:
  assumes "co_token c \<noteq> ''''"
  shows "dec_join M (mh_Body r) = Some q \<Longrightarrow> jr_Token q \<noteq> co_token c \<Longrightarrow> \<exists>st m. run_state (handleJoin M C r) c = (MErr st m, c)"
    and "mh_Query r ''token'' \<noteq> co_token c \<Longrightarrow> \<exists>st m. run_state (handleConfig M C r) c = (MErr st m, c)"
    and "mh_Query r ''token'' \<noteq> co_token c \<Longrightarrow> handlePeers r c = MErr 401 ''invalid token''"
    and "dec_cert M (mh_Body r) = Some (t, d) \<Longrightarrow> t \<noteq> co_token c \<Longrightarrow> \<exists>st m. run_state (handleCert E M C r) c = (MErr st m, c)"
  using assms by (auto simp: handleJoin_def join_guard_def handleConfig_def config_guard_def handlePeers_def handleCert_def Let_def)

lemma token_commit_run:
  assumes "rand_law M"
  obtains c' t where "run_state (token_commit M) c = (t, c')" "co_token c' = t" "t \<noteq> ''''" "co_nodes c' = co_nodes c" "co_nextIP c' = co_nextIP c"
proof (cases "co_token c = ''''")
  case True
  obtain t where t: "run_state (randBase64 M 24) c = (t, c\<lparr>co_draws := Suc (co_draws c)\<rparr>)" "length t = 24"
    by (rule randBase64_run [OF assms])
  let ?c = "c\<lparr>co_draws := Suc (co_draws c), co_token := t\<rparr>"
  obtain b where "run_state (randBase64 M 32) ?c = (b, ?c\<lparr>co_draws := Suc (co_draws ?c)\<rparr>)"
    by (rule randBase64_run [OF assms])
  then have "run_state (token_commit M) c = (t, c\<lparr>co_token := t, co_draws := Suc (Suc (co_draws c)), co_backupSecret := b\<rparr>)"
    using True t(1) by (simp add: token_commit_def State_Monad.update_def State_Monad.set_def State_Monad.get_def)
  then show thesis by (rule that) (use t(2) in auto)
next
  case False
  then show thesis by (intro that) (simp_all add: token_commit_def)
qed

text \<open>A request of a certificate for a registered domain in lower case.\<close>

lemma handleCert_issues:
  assumes "mh_Method r = ''POST''" "mc_ca C" "dec_cert M (mh_Body r) = Some (co_token c, d)"
    and "d \<noteq> ''''" "is_ascii d" "map ascii_lower d = d" "TrimSpace d = d" "n \<in> set (co_nodes c)" "mn_Domain n = d"
    and "gen_key M (co_draws c) = Some key" "gen_serial M (co_draws c) = Some serial"
    and "sign_cert M \<lparr> ct_SerialNumber = serial, ct_CommonName = d, ct_NotBefore = co_clock c,
      ct_NotAfter = co_clock c + 365 * 24 * 3600 * 1000000000, ct_DNSNames = [d] \<rparr> key = Some (certPEM, keyPEM)"
  shows "fst (run_state (handleCert E M C r) c) = MCert certPEM keyPEM"
proof -
  have "ToLower E d = d" using assms(5,6) by (simp add: ToLower_def)
  moreover have "list_ex (\<lambda>n. EqualFold M (mn_Domain n) d) (co_nodes c)"
    using assms(5,8,9) by (auto simp: list_ex_iff EqualFold_def)
  ultimately show ?thesis using assms by (simp add: handleCert_def issueClientCert_def Let_def)
qed

text \<open>C29: the token keeps nobody out: who asks \<open>/v1/token\<close> is given it, can join the mesh under
  any domain name in lower case, and is then issued a client certificate for that domain, in
  every state of the coordinator that has a working CA.\<close>

theorem open_mesh:
  assumes "rand_law M" "mc_ca C" "d \<noteq> ''''" "is_ascii d" "map ascii_lower d = d" "TrimSpace d = d"
    and "run_state (handleToken M C) c = (a, c1)"
    and "\<And>t. a = MToken t \<Longrightarrow> mh_Method rj = ''POST'' \<and> dec_join M (mh_Body rj) = Some \<lparr> jr_Token = t, jr_PublicKey = p, jr_Endpoint = e, jr_Domain = d \<rparr>
      \<and> mh_Method rc = ''POST'' \<and> dec_cert M (mh_Body rc) = Some (t, d)" "p \<noteq> ''''" "e \<noteq> ''''"
    and "\<And>i. gen_key M i \<noteq> None" "\<And>i. gen_serial M i \<noteq> None" "\<And>tm k. sign_cert M tm k \<noteq> None"
  shows "\<exists>j c2 certPEM keyPEM tm k. run_state (handleJoin M C rj) c1 = (MJoined j, c2)
    \<and> fst (run_state (handleCert E M C rc) c2) = MCert certPEM keyPEM
    \<and> sign_cert M tm k = Some (certPEM, keyPEM) \<and> ct_CommonName tm = d \<and> ct_DNSNames tm = [d]"
proof -
  obtain c0 t where c0: "run_state (token_commit M) c = (t, c0)" "co_token c0 = t" "t \<noteq> ''''" by (rule token_commit_run [OF assms(1)])
  obtain c0' where "run_state (save M C) c0 = ((), c0')" "same_mesh c0 c0'" by (rule save_run)
  with c0 assms(7) have t: "a = MToken t" "co_token c1 = t" by (auto simp: handleToken_def same_mesh_def)
  note r = assms(8) [OF t(1)]
  let ?q = "\<lparr> jr_Token = t, jr_PublicKey = p, jr_Endpoint = e, jr_Domain = d \<rparr>"
  have g: "join_guard M rj c1 = Inr ?q" using r t(2) assms(3,9,10) by (simp add: join_guard_def)
  have f: "run_state (found_mesh M) c1 = ((), c1)" using assms(1) c0(3) t(2) by (cases rule: found_mesh_run [of M c1]) auto
  obtain i where "run_state (add_node M d p e '''') c1 = (meshIPBase @ Itoa (co_nextIP c1),
    c1\<lparr>co_nextIP := wrap64 (co_nextIP c1 + 1), co_draws := Suc (co_draws c1), co_nodes := co_nodes c1 @ [\<lparr> mn_ID = i, mn_Domain = d,
       mn_PublicKey = p, mn_Endpoint = e, mn_VPNIP = meshIPBase @ Itoa (co_nextIP c1), mn_Subdomain = '''', mn_JoinedAt = co_clock c1 \<rparr>]\<rparr>)"
    (is "_ = (_, ?c2)") by (rule add_node_run [OF assms(1)])
  then obtain x where x: "run_state (join_commit M ?q) c1 = (x, ?c2)" using f by (simp add: join_commit_def)
  obtain c2 where c2: "run_state (save M C) ?c2 = ((), c2)" "same_mesh ?c2 c2" by (rule save_run)
  obtain j where j: "run_state (handleJoin M C rj) c1 = (MJoined j, c2)" using g x c2 by (simp add: handleJoin_def)
  obtain key serial where k: "gen_key M (co_draws c2) = Some key" "gen_serial M (co_draws c2) = Some serial" using assms(11,12) by blast
  let ?tm = "\<lparr> ct_SerialNumber = serial, ct_CommonName = d, ct_NotBefore = co_clock c2,
      ct_NotAfter = co_clock c2 + 365 * 24 * 3600 * 1000000000, ct_DNSNames = [d] \<rparr>"
  obtain certPEM keyPEM where s: "sign_cert M ?tm key = Some (certPEM, keyPEM)" using assms(13) by fastforce
  have "fst (run_state (handleCert E M C rc) c2) = MCert certPEM keyPEM"
    using r c2(2) t(2) assms(2-6) k s
    by (intro handleCert_issues [where n = "last (co_nodes ?c2)" and d = d]) (simp_all add: same_mesh_def)
  with j s show ?thesis by fastforce
qed

lemma demo_token: "run_state (handleToken demo_mesh demo_conf) demo_coord
    = (MToken ''T'', demo_coord\<lparr>co_disk := Some (demo_state_json (file_of demo_coord))\<rparr>)"
  by (simp add: handleToken_def token_commit_def save_def write_file_def next_write_def demo_coord_def new_coord_def demo_conf_def)

theorem open_mesh_witness:
  "\<exists>j c2 certPEM keyPEM. run_state (handleJoin demo_mesh demo_conf \<lparr> mh_Method = ''POST'', mh_Body = dotted [''T'', ''pk'', ''ep'', ''m.org''], mh_Query = (\<lambda>_. '''') \<rparr>)
      (demo_coord\<lparr>co_disk := Some (demo_state_json (file_of demo_coord))\<rparr>) = (MJoined j, c2)
    \<and> fst (run_state (handleCert demo_env demo_mesh demo_conf \<lparr> mh_Method = ''POST'', mh_Body = dotted [''T'', ''m.org''], mh_Query = (\<lambda>_. '''') \<rparr>) c2) = MCert certPEM keyPEM"
proof -
  have d: "is_ascii ''m.org''" "map ascii_lower ''m.org'' = ''m.org''" "TrimSpace ''m.org'' = ''m.org''"
    by (code_simp, code_simp, rule TrimSpace_all_visible, code_simp)
  show ?thesis
    using open_mesh [OF demo_mesh_laws(1) _ _ d demo_token, of "\<lparr> mh_Method = ''POST'', mh_Body = dotted [''T'', ''pk'', ''ep'', ''m.org''], mh_Query = (\<lambda>_. '''') \<rparr>"
      "''pk''" "''ep''" "\<lparr> mh_Method = ''POST'', mh_Body = dotted [''T'', ''m.org''], mh_Query = (\<lambda>_. '''') \<rparr>" demo_env]
    by (auto simp: demo_conf_def demo_mesh_def)
qed

section \<open>Route files\<close>

text \<open>A route file stays in its directory as far as dots go: the name that is built from a node's
  endpoint has no dot but the one of the extension.\<close>

lemma safe_name_no_dot: "CHR ''.'' \<notin> set (safe_name s) \<and> CHR ''-'' \<notin> set (safe_name s)"
  by (auto simp: safe_name_def)

end
