(* ===== verification/Mesh_Main.thy ===== *)
theory Mesh_Main
  imports Mesh
begin

text \<open>
  The coordinator as a process: \<open>main\<close> (\<open>src/mesh/coordinator/main.go\<close>) with the loading of the CA
  (\<open>src/mesh/coordinator/cert.go\<close>) and the routes, and that every request it serves is a run of the steps of \<open>Mesh\<close>.
\<close>

section \<open>The CA\<close>

text \<open>Files, \<open>pem.Decode\<close> (the bytes of the first block) and the parsers of \<open>crypto/x509\<close>.\<close>

record ('c, 'k) x509_env =
  xf_read :: "string \<Rightarrow> bytes option"
  xf_pem :: "bytes \<Rightarrow> bytes option"
  xf_cert :: "bytes \<Rightarrow> 'c option"
  xf_pkcs8 :: "bytes \<Rightarrow> 'k option"
  xf_ec :: "bytes \<Rightarrow> 'k option"
  xf_pkcs1 :: "bytes \<Rightarrow> 'k option"

record ('c, 'k) caLoader =
  ca_cert :: 'c
  ca_key :: 'k

datatype ca_err = NoCAPaths | ReadCACert | ReadCAKey | BadCACertPEM | ParseCACert | BadCAKeyPEM | ParseCAKey

definition parse_key :: "('c, 'k) x509_env \<Rightarrow> bytes \<Rightarrow> 'k option" where
  "parse_key X der = (case xf_pkcs8 X der of
     Some k \<Rightarrow> Some k
   | None \<Rightarrow> (case xf_ec X der of Some k \<Rightarrow> Some k | None \<Rightarrow> xf_pkcs1 X der))"

definition loadCA :: "('c, 'k) x509_env \<Rightarrow> string \<Rightarrow> string \<Rightarrow> ca_err + ('c, 'k) caLoader" where
  "loadCA X certPath keyPath =
     (if certPath = '''' \<or> keyPath = '''' then Inl NoCAPaths
      else (case xf_read X certPath of None \<Rightarrow> Inl ReadCACert | Some certPEM \<Rightarrow>
           (case xf_read X keyPath of None \<Rightarrow> Inl ReadCAKey | Some keyPEM \<Rightarrow>
           (case xf_pem X certPEM of None \<Rightarrow> Inl BadCACertPEM | Some block \<Rightarrow>
           (case xf_cert X block of None \<Rightarrow> Inl ParseCACert | Some caCert \<Rightarrow>
           (case xf_pem X keyPEM of None \<Rightarrow> Inl BadCAKeyPEM | Some keyBlock \<Rightarrow>
           (case parse_key X keyBlock of None \<Rightarrow> Inl ParseCAKey | Some caKey \<Rightarrow> Inr \<lparr> ca_cert = caCert, ca_key = caKey \<rparr>)))))))"

section \<open>The process\<close>

text \<open>\<open>main\<close> up to the point where it listens: the address, the settings, the CA and the coordinator with what its file holds.\<close>

definition mesh_main :: "mesh_env \<Rightarrow> ('c, 'k) x509_env \<Rightarrow> (string \<Rightarrow> string) \<Rightarrow> coord \<Rightarrow> string \<times> mesh_conf \<times> ('c, 'k) caLoader option \<times> coord" where
  "mesh_main M X osenv c =
     (let addr = (if osenv ''COORDINATOR_ADDR'' = '''' then '':9443'' else osenv ''COORDINATOR_ADDR'');
          storage = (if osenv ''COORDINATOR_STORAGE'' = '''' then ''/data/coordinator.json'' else osenv ''COORDINATOR_STORAGE'');
          caCertPath = osenv ''COORDINATOR_CA_CERT''; caKeyPath = osenv ''COORDINATOR_CA_KEY'';
          ca = (if caCertPath \<noteq> '''' \<and> caKeyPath \<noteq> '''' then (case loadCA X caCertPath caKeyPath of Inl _ \<Rightarrow> None | Inr l \<Rightarrow> Some l) else None);
          C = \<lparr> mc_storagePath = storage, mc_routesDir = osenv ''COORDINATOR_ROUTES_DIR'', mc_ca = (ca \<noteq> None) \<rparr> in
      (addr, C, ca, restart M C c))"

datatype mux_answer = Answer mesh_answer | Plain nat string

text \<open>A request for a clean path.\<close>

definition mesh_serve :: "env \<Rightarrow> mesh_env \<Rightarrow> mesh_conf \<Rightarrow> string \<Rightarrow> mesh_http \<Rightarrow> (coord, mux_answer) state" where
  "mesh_serve E M C path r =
     (if path = ''/v1/join'' then do { a \<leftarrow> handleJoin M C r; ret (Answer a) }
      else if path = ''/v1/config'' then do { a \<leftarrow> handleConfig M C r; ret (Answer a) }
      else if path = ''/v1/cert'' then do { a \<leftarrow> handleCert E M C r; ret (Answer a) }
      else if path = ''/v1/peers'' then do { c \<leftarrow> State_Monad.get; ret (Answer (handlePeers r c)) }
      else if path = ''/v1/token'' then do { a \<leftarrow> handleToken M C; ret (Answer a) }
      else if path = ''/health'' then ret (Plain 200 '''')
      else ret (Plain 404 ''404 page not found''))"

fun serve_all :: "env \<Rightarrow> mesh_env \<Rightarrow> mesh_conf \<Rightarrow> (string \<times> mesh_http) list \<Rightarrow> (coord, mux_answer list) state" where
  "serve_all E M C [] = ret []"
| "serve_all E M C ((p, r) # rs) = do { a \<leftarrow> mesh_serve E M C p r; as \<leftarrow> serve_all E M C rs; ret (a # as) }"

section \<open>Requests as steps\<close>

definition idle :: "coord \<Rightarrow> mesh_sys" where
  "idle c = \<lparr> sy_coord = c, sy_joins = [], sy_configs = [] \<rparr>"

lemma steps_saved: "(mesh_step M C)\<^sup>*\<^sup>* s (idle c) \<Longrightarrow> (mesh_step M C)\<^sup>*\<^sup>* s (idle (snd (run_state (save M C) c)))"
  using mesh_step.saved [of M C "idle c"] by (auto simp: idle_def intro: rtranclp.rtrancl_into_rtrancl)

lemma steps_join:
  assumes "run_state (handleJoin M C r) c = (a, c')"
  shows "(mesh_step M C)\<^sup>*\<^sup>* (idle c) (idle c')"
proof (cases "join_guard M r c")
  case (Inl e)
  with assms show ?thesis by (simp add: handleJoin_def)
next
  case (Inr req)
  let ?c1 = "snd (run_state (join_commit M req) c)"
  have "c' = snd (run_state (save M C) ?c1)" using assms Inr by (auto simp: handleJoin_def split: prod.splits)
  moreover have "mesh_step M C (idle c) ((idle c)\<lparr>sy_joins := [req]\<rparr>)" using mesh_step.join_checked [of M r "idle c" req C] Inr by (simp add: idle_def)
  moreover have "mesh_step M C ((idle c)\<lparr>sy_joins := [req]\<rparr>) (idle ?c1)"
    using mesh_step.join_locked [of req "(idle c)\<lparr>sy_joins := [req]\<rparr>" M C] by (simp add: idle_def)
  ultimately show ?thesis by (metis converse_rtranclp_into_rtranclp rtranclp.rtrancl_refl steps_saved)
qed

lemma steps_config:
  assumes "run_state (handleConfig M C r) c = (a, c')"
  shows "(mesh_step M C)\<^sup>*\<^sup>* (idle c) (idle c')"
proof (cases "config_guard r c")
  case (Some e)
  with assms show ?thesis by (simp add: handleConfig_def)
next
  case None
  obtain x c1 where x: "run_state (config_commit M C r) c = (x, c1)" by fastforce
  have "mesh_step M C (idle c) ((idle c)\<lparr>sy_configs := [r]\<rparr>)" using mesh_step.config_checked [of r "idle c" M C] None by (simp add: idle_def)
  moreover have "mesh_step M C ((idle c)\<lparr>sy_configs := [r]\<rparr>) (idle c1)"
    using mesh_step.config_locked [of r "(idle c)\<lparr>sy_configs := [r]\<rparr>" M C] x by (simp add: idle_def)
  ultimately have c1: "(mesh_step M C)\<^sup>*\<^sup>* (idle c) (idle c1)" by (meson converse_rtranclp_into_rtranclp rtranclp.rtrancl_refl)
  have "c' = (if snd x then snd (run_state (save M C) c1) else c1)" using assms None x by (auto simp: handleConfig_def split: prod.splits)
  then show ?thesis using c1 steps_saved [OF c1] by simp
qed

lemma steps_token:
  assumes "run_state (handleToken M C) c = (a, c')"
  shows "(mesh_step M C)\<^sup>*\<^sup>* (idle c) (idle c')"
proof -
  have "c' = snd (run_state (save M C) (snd (run_state (token_commit M) c)))" using assms by (auto simp: handleToken_def split: prod.splits)
  moreover have "(mesh_step M C)\<^sup>*\<^sup>* (idle c) (idle (snd (run_state (token_commit M) c)))"
    using mesh_step.token_locked [of M C "idle c"] by (intro r_into_rtranclp) (simp add: idle_def)
  ultimately show ?thesis using steps_saved by simp
qed

lemma steps_cert:
  assumes "run_state (handleCert E M C r) c = (a, c')"
  shows "(mesh_step M C)\<^sup>*\<^sup>* (idle c) (idle c')"
  using mesh_step.cert_issued [of M C "idle c" E r] assms by (intro r_into_rtranclp) (simp add: idle_def)

lemma steps_serve:
  assumes "run_state (mesh_serve E M C p r) c = (a, c')"
  shows "(mesh_step M C)\<^sup>*\<^sup>* (idle c) (idle c')"
  using assms by (auto simp: mesh_serve_def split: if_splits prod.splits intro: steps_join steps_config steps_cert steps_token)

lemma steps_serve_all: "run_state (serve_all E M C rs) c = (as, c') \<Longrightarrow> (mesh_step M C)\<^sup>*\<^sup>* (idle c) (idle c')"
proof (induction rs arbitrary: c as)
  case (Cons pr rs)
  obtain p r where pr: "pr = (p, r)" by fastforce
  obtain a c1 where a: "run_state (mesh_serve E M C p r) c = (a, c1)" by fastforce
  obtain as1 where "run_state (serve_all E M C rs) c1 = (as1, c')" using Cons.prems a pr by (auto split: prod.splits)
  then show ?case using Cons.IH steps_serve [OF a] by (meson rtranclp_trans)
qed simp

section \<open>What the process keeps\<close>

lemma mesh_main_start: "mesh_main M X osenv new_coord = (addr, C, ca, c0) \<Longrightarrow> (mesh_step M C)\<^sup>*\<^sup>* mesh_init (idle c0)"
  using mesh_step.restarted [of M C mesh_init] by (auto simp: mesh_main_def Let_def idle_def mesh_init_def)

text \<open>From the first start on, and after every restart, whatever was asked: the nodes have the addresses of their
  numbers, in memory and in the file.\<close>

lemma mesh_process_inv:
  assumes "mesh_main M X osenv new_coord = (addr, C, ca, c0)" "run_state (serve_all E M C rs) c0 = (as, c)" "rand_law M" "json_law M"
  shows "coord_inv M c" "coord_inv M (restart M C c)"
proof -
  have r: "(mesh_step M C)\<^sup>*\<^sup>* mesh_init (idle c)" using mesh_main_start [OF assms(1)] steps_serve_all [OF assms(2)] by simp
  have "mesh_step M C (idle c) (idle (restart M C c))" using mesh_step.restarted [of M C "idle c"] by (simp add: idle_def)
  with r have "(mesh_step M C)\<^sup>*\<^sup>* mesh_init (idle (restart M C c))" by simp
  with r show "coord_inv M c" "coord_inv M (restart M C c)" using mesh_reachable_inv [OF _ assms(3,4)] by (force simp: idle_def)+
qed

text \<open>A CA that cannot be loaded only turns the issuing of certificates off.\<close>

lemma mesh_without_CA:
  assumes "mesh_main M X osenv c = (addr, C, ca, c0)" "loadCA X (osenv ''COORDINATOR_CA_CERT'') (osenv ''COORDINATOR_CA_KEY'') = Inl e"
    and "mh_Method r = ''POST''"
  shows "run_state (handleCert E M C r) c1 = (MErr 503 ''mTLS cert issuance disabled (no COORDINATOR_CA_CERT/KEY)'', c1)"
  using assms by (auto simp: mesh_main_def Let_def handleCert_def split: if_splits)

text \<open>Whatever the environment, state is kept in a file.\<close>

lemma mesh_main_stores: "mesh_main M X osenv c = (addr, C, ca, c0) \<Longrightarrow> mc_storagePath C \<noteq> '''' \<and> addr \<noteq> ''''"
  by (auto simp: mesh_main_def Let_def split: if_splits)

text \<open>\<open>/v1/token\<close> hands the token to any caller and method, so nobody is kept out of \<open>/v1/peers\<close>.\<close>

lemma token_opens_peers:
  assumes "run_state (mesh_serve E M C ''/v1/token'' r) c = (a, c1)" "rand_law M"
  obtains tok where "a = Answer (MToken tok)"
    "mh_Query r' ''token'' = tok \<Longrightarrow> run_state (mesh_serve E M C ''/v1/peers'' r') c1 = (Answer (MPeers (co_nodes c1)), c1)"
proof -
  obtain tok c2 where t: "run_state (token_commit M) c = (tok, c2)" "co_token c2 = tok" using token_commit_run [OF assms(2)] by metis
  then have "a = Answer (MToken tok)" "c1 = snd (run_state (save M C) c2)"
    using assms(1) by (auto simp: mesh_serve_def handleToken_def split: prod.splits)
  moreover have "co_token c1 = tok" using calculation(2) t(2) by (simp add: save_def)
  ultimately show thesis using that by (simp add: mesh_serve_def handlePeers_def)
qed

end
