(* ===== verification/Backup_Receiver.thy ===== *)
theory Backup_Receiver
  imports Go_Enc
begin

text \<open>
  The receiver of backups of the mesh (\<open>src/mesh/backup-receiver/main.go\<close>): the handler of
  \<open>/backup/\<close> as a program on a file system. The directory of the configuration is taken to be a
  clean path, as the default is; the HTTP server and the log are left out.
\<close>

section \<open>Paths\<close>

text \<open>\<open>strings.Trim\<close> and \<open>strings.ReplaceAll\<close> as they are used here.\<close>

definition trim_slashes :: "string \<Rightarrow> string" where
  "trim_slashes s = rev (dropWhile (\<lambda>c. c = CHR ''/'') (rev (dropWhile (\<lambda>c. c = CHR ''/'') s)))"

fun drop_dotdot :: "string \<Rightarrow> string" where
  "drop_dotdot (a # b # s) = (if a = CHR ''.'' \<and> b = CHR ''.'' then drop_dotdot s else a # drop_dotdot (b # s))"
| "drop_dotdot s = s"

text \<open>\<open>filepath.Base\<close>, and \<open>filepath.Join\<close> of a clean path and one element.\<close>

definition Base :: "string \<Rightarrow> string" where
  "Base p =
     (if p = '''' then ''.''
      else (let q = rev (takeWhile (\<lambda>c. c \<noteq> CHR ''/'') (dropWhile (\<lambda>c. c = CHR ''/'') (rev p))) in
        if q = '''' then ''/'' else q))"

definition parent :: "string \<Rightarrow> string" where
  "parent p = rev (tl (dropWhile (\<lambda>c. c \<noteq> CHR ''/'') (rev p)))"

definition Join :: "string \<Rightarrow> string \<Rightarrow> string" where
  "Join d x = (if x \<in> {'''', ''.'', ''/''} then d else if x = ''..'' then parent d else d @ ''/'' @ x)"

section \<open>The handler\<close>

record backup_config =
  bc_dir :: string
  bc_secret :: string

record backup_req =
  br_Method :: string
  br_Path :: string
  br_Token :: string
  br_Filename :: string

record fs =
  fs_files :: "string \<Rightarrow> bytes option"
  fs_dirs :: "string set"

text \<open>\<open>mk_ok\<close> and \<open>create_ok\<close> say whether the system lets a directory or a file be made.\<close>

record backup_os =
  mk_ok :: "fs \<Rightarrow> string \<Rightarrow> bool"
  create_ok :: "fs \<Rightarrow> string \<Rightarrow> bool"
  stamp :: string

definition backup_domain :: "string \<Rightarrow> string" where
  "backup_domain path =
     (let d = trim_slashes (TrimPrefix path ''/backup/'') in
      map (\<lambda>c. if c = CHR ''/'' then CHR ''_'' else c) (drop_dotdot (if d = '''' then ''unknown'' else d)))"

definition backup_name :: "backup_os \<Rightarrow> backup_req \<Rightarrow> string" where
  "backup_name Sy r = (if br_Filename r \<noteq> '''' then Base (br_Filename r) else stamp Sy @ ''.dump.gz'')"

definition backup_path :: "backup_config \<Rightarrow> backup_os \<Rightarrow> backup_req \<Rightarrow> string" where
  "backup_path C Sy r = Join (Join (bc_dir C) (''from-'' @ backup_domain (br_Path r))) (backup_name Sy r)"

text \<open>
  \<open>body\<close> is what the request's body gives, \<open>None\<close> when reading it breaks off. A file that exists is
  emptied when it is created, and removed when the copy fails.
\<close>

definition receive_backup :: "backup_config \<Rightarrow> backup_os \<Rightarrow> backup_req \<Rightarrow> bytes option \<Rightarrow> (fs, nat) state" where
  "receive_backup C Sy r body = State (\<lambda>f.
     if br_Method r \<noteq> ''POST'' then (405, f)
     else if bc_secret C \<noteq> '''' \<and> br_Token r \<noteq> bc_secret C then (401, f)
     else (let saveDir = Join (bc_dir C) (''from-'' @ backup_domain (br_Path r)) in
       if \<not> mk_ok Sy f saveDir then (500, f)
       else (let f1 = f\<lparr>fs_dirs := fs_dirs f \<union> {bc_dir C, saveDir}\<rparr>; path = backup_path C Sy r in
         if path \<in> fs_dirs f1 \<or> \<not> create_ok Sy f1 path then (500, f1)
         else (case body of
             None \<Rightarrow> (500, f1\<lparr>fs_files := (fs_files f1)(path := None)\<rparr>)
           | Some b \<Rightarrow> (200, f1\<lparr>fs_files := (fs_files f1)(path \<mapsto> b)\<rparr>)))))"

section \<open>The process\<close>

text \<open>What \<open>main\<close> reads from the environment: the address and the settings of the handler.\<close>

definition backup_main :: "(string \<Rightarrow> string) \<Rightarrow> string \<times> backup_config" where
  "backup_main osenv =
     ((if osenv ''BACKUP_RECEIVER_ADDR'' = '''' then '':9100'' else osenv ''BACKUP_RECEIVER_ADDR''),
      \<lparr> bc_dir = (if osenv ''BACKUP_DIR'' = '''' then ''/data/backups'' else osenv ''BACKUP_DIR''), bc_secret = osenv ''BACKUP_SECRET'' \<rparr>)"

text \<open>The routes, for a clean path; \<open>/backup\<close> alone is redirected to \<open>/backup/\<close>.\<close>

definition backup_serve :: "backup_config \<Rightarrow> backup_os \<Rightarrow> backup_req \<Rightarrow> bytes option \<Rightarrow> (fs, nat) state" where
  "backup_serve C Sy r body =
     (if HasPrefix (br_Path r) ''/backup/'' then receive_backup C Sy r body
      else if br_Path r = ''/health'' then State (\<lambda>f. (200, f))
      else if br_Path r = ''/backup'' then State (\<lambda>f. (301, f))
      else State (\<lambda>f. (404, f)))"

section \<open>Where backups are written\<close>

lemma domain_no_slash: "CHR ''/'' \<notin> set (backup_domain p)"
  by (auto simp: backup_domain_def Let_def)

lemma Base_elem: "Base p = ''/'' \<or> CHR ''/'' \<notin> set (Base p) \<and> Base p \<noteq> ''''"
  by (auto simp: Base_def Let_def dest: set_takeWhileD)

lemma parent_elem:
  assumes "CHR ''/'' \<notin> set x"
  shows "parent (d @ ''/'' @ x) = d"
proof -
  have "dropWhile (\<lambda>c. c \<noteq> CHR ''/'') (rev x @ CHR ''/'' # rev d) = CHR ''/'' # rev d" using assms by (subst dropWhile_append2) auto
  then show ?thesis by (simp add: parent_def)
qed

lemma receive_files:
  assumes "run_state (receive_backup C Sy r body) f = (st, f')"
  shows "fs_files f' = fs_files f \<or> (\<exists>v. fs_files f' = (fs_files f)(backup_path C Sy r := v)
    \<and> backup_path C Sy r \<noteq> bc_dir C \<and> backup_path C Sy r \<noteq> Join (bc_dir C) (''from-'' @ backup_domain (br_Path r)))"
  using assms by (auto simp: receive_backup_def Let_def split: if_splits option.splits)

text \<open>C38: backups stay in the directory: whatever the path and the file name of a request say, the only file
  it can create, overwrite or remove is an element (not \<open>.\<close> or \<open>..\<close>) of a directory
  \<open>from-...\<close> directly below the configured one; and without the secret, when one is set, nothing
  changes at all.\<close>

theorem backup_confined:
  assumes "run_state (receive_backup C Sy r body) f = (st, f')" "CHR ''/'' \<notin> set (stamp Sy)"
  shows "(\<forall>p. fs_files f' p \<noteq> fs_files f p \<longrightarrow> (\<exists>x n. p = bc_dir C @ ''/from-'' @ x @ ''/'' @ n
      \<and> CHR ''/'' \<notin> set x \<and> CHR ''/'' \<notin> set n \<and> n \<notin> {'''', ''.'', ''..''}))
    \<and> (bc_secret C \<noteq> '''' \<and> br_Token r \<noteq> bc_secret C \<longrightarrow> f' = f)"
proof -
  let ?x = "backup_domain (br_Path r)" and ?n = "backup_name Sy r"
  let ?sd = "bc_dir C @ ''/from-'' @ ?x"
  have sd: "Join (bc_dir C) (''from-'' @ ?x) = ?sd" by (simp add: Join_def)
  have par: "parent ?sd = bc_dir C" using parent_elem [of "''from-'' @ ?x" "bc_dir C"] domain_no_slash by simp
  have n: "?n \<in> {''/''} \<or> CHR ''/'' \<notin> set ?n \<and> ?n \<noteq> ''''" using Base_elem assms(2) by (auto simp: backup_name_def)
  have path: "backup_path C Sy r = (if ?n \<in> {'''', ''.'', ''/''} then ?sd else if ?n = ''..'' then bc_dir C else ?sd @ ''/'' @ ?n)"
    unfolding backup_path_def sd using par by (simp add: Join_def)
  have f': "fs_files f' p = fs_files f p \<or> p = ?sd @ ''/'' @ ?n \<and> ?n \<notin> {'''', ''.'', ''..'', ''/''}" for p
    using receive_files [OF assms(1)] unfolding sd path by (cases "?n \<in> {'''', ''.'', ''..'', ''/''}") (auto split: if_splits)
  have "f' = f" if "bc_secret C \<noteq> ''''" "br_Token r \<noteq> bc_secret C" using assms(1) that by (auto simp: receive_backup_def split: if_splits)
  moreover have "\<exists>x n. p = bc_dir C @ ''/from-'' @ x @ ''/'' @ n \<and> CHR ''/'' \<notin> set x \<and> CHR ''/'' \<notin> set n \<and> n \<notin> {'''', ''.'', ''..''}"
    if "fs_files f' p \<noteq> fs_files f p" for p
    using f' [of p] that n domain_no_slash [of "br_Path r"] by (intro exI [of _ ?x] exI [of _ ?n]) auto
  ultimately show ?thesis by blast
qed

text \<open>An upload that breaks off destroys the backup it would have replaced: a request with the name of an
  earlier file is answered with an error and leaves neither the new nor the old file.\<close>

theorem broken_upload_destroys_backup:
  assumes "br_Method r = ''POST''" "bc_secret C = '''' \<or> br_Token r = bc_secret C"
    and "mk_ok Sy f (Join (bc_dir C) (''from-'' @ backup_domain (br_Path r)))"
    and "backup_path C Sy r \<notin> fs_dirs f \<union> {bc_dir C, Join (bc_dir C) (''from-'' @ backup_domain (br_Path r))}"
    and "\<And>f'. create_ok Sy f' (backup_path C Sy r)" "fs_files f (backup_path C Sy r) = Some old"
  shows "\<exists>f'. run_state (receive_backup C Sy r None) f = (500, f') \<and> fs_files f' (backup_path C Sy r) = None"
  using assms by (simp add: receive_backup_def Let_def)

lemma receive_run:
  assumes "br_Method r = ''POST''" "bc_secret C = '''' \<or> br_Token r = bc_secret C" "Join (bc_dir C) (''from-'' @ backup_domain (br_Path r)) = sd" "mk_ok Sy f sd"
    and "backup_path C Sy r = p" "p \<notin> fs_dirs f \<union> {bc_dir C, sd}" "\<And>f'. create_ok Sy f' p"
  shows "run_state (receive_backup C Sy r body) f = (if body = None then 500 else 200, f\<lparr>fs_dirs := fs_dirs f \<union> {bc_dir C, sd}, fs_files := (fs_files f)(p := body)\<rparr>)"
  unfolding receive_backup_def assms(3,5) using assms by (auto simp: Let_def split: option.splits)

definition demo_bc :: backup_config where
  "demo_bc = \<lparr> bc_dir = ''/data/backups'', bc_secret = ''s'' \<rparr>"

definition demo_os :: backup_os where
  "demo_os = \<lparr> mk_ok = (\<lambda>_ _. True), create_ok = (\<lambda>_ _. True), stamp = ''20250101-000000'' \<rparr>"

definition demo_br :: "string \<Rightarrow> backup_req" where
  "demo_br name = \<lparr> br_Method = ''POST'', br_Path = ''/backup/../b.org/'', br_Token = ''s'', br_Filename = name \<rparr>"

lemma demo_backup_path: "backup_path demo_bc demo_os (demo_br ''../../etc/passwd'') = ''/data/backups/from-_b.org/passwd''"
  "Join (bc_dir demo_bc) (''from-'' @ backup_domain (br_Path (demo_br ''../../etc/passwd''))) = ''/data/backups/from-_b.org''"
  by code_simp+

theorem backup_confined_witness:
  "\<exists>f'. run_state (receive_backup demo_bc demo_os (demo_br ''../../etc/passwd'') (Some ''x'')) \<lparr> fs_files = Map.empty, fs_dirs = {} \<rparr> = (200, f')
    \<and> (\<exists>x n. ''/data/backups/from-_b.org/passwd'' = ''/data/backups'' @ ''/from-'' @ x @ ''/'' @ n \<and> CHR ''/'' \<notin> set x \<and> CHR ''/'' \<notin> set n)"
proof -
  let ?f = "\<lparr> fs_files = Map.empty, fs_dirs = {} \<rparr>" and ?p = "''/data/backups/from-_b.org/passwd''"
  obtain st f' where r: "run_state (receive_backup demo_bc demo_os (demo_br ''../../etc/passwd'') (Some ''x'')) ?f = (st, f')" by fastforce
  moreover have "run_state (receive_backup demo_bc demo_os (demo_br ''../../etc/passwd'') (Some ''x'')) ?f =
      (200, ?f\<lparr>fs_dirs := fs_dirs ?f \<union> {bc_dir demo_bc, ''/data/backups/from-_b.org''}, fs_files := (fs_files ?f)(?p := Some ''x'')\<rparr>)"
    by (subst receive_run [OF _ _ demo_backup_path(2) _ demo_backup_path(1)]) (auto simp: demo_br_def demo_bc_def demo_os_def)
  ultimately have s: "st = 200" "fs_files f' ?p = Some ''x''" by auto
  have "CHR ''/'' \<notin> set (stamp demo_os)" by (simp add: demo_os_def)
  from backup_confined [OF r this] s have "\<exists>x n. ?p = bc_dir demo_bc @ ''/from-'' @ x @ ''/'' @ n \<and> CHR ''/'' \<notin> set x \<and> CHR ''/'' \<notin> set n" by fastforce
  then show ?thesis using r s(1) by (auto simp: demo_bc_def)
qed

theorem broken_upload_destroys_backup_witness:
  "\<exists>f'. run_state (receive_backup demo_bc demo_os (demo_br ''../../etc/passwd'') None) \<lparr> fs_files = [''/data/backups/from-_b.org/passwd'' \<mapsto> ''old''], fs_dirs = {} \<rparr> = (500, f')
    \<and> fs_files f' ''/data/backups/from-_b.org/passwd'' = None"
proof -
  let ?f = "\<lparr> fs_files = [''/data/backups/from-_b.org/passwd'' \<mapsto> ''old''], fs_dirs = {} \<rparr>"
  have "br_Method (demo_br ''../../etc/passwd'') = ''POST''" "bc_secret demo_bc = '''' \<or> br_Token (demo_br ''../../etc/passwd'') = bc_secret demo_bc"
    by (simp_all add: demo_br_def demo_bc_def)
  from broken_upload_destroys_backup [OF this, of demo_os ?f "''old''", unfolded demo_backup_path] show ?thesis by (simp add: demo_os_def demo_bc_def)
qed

text \<open>Without \<open>BACKUP_SECRET\<close> the receiver takes backups from anybody: nothing else is checked.\<close>

lemma no_secret_no_check:
  assumes "backup_main osenv = (addr, C)" "osenv ''BACKUP_SECRET'' = ''''" "HasPrefix (br_Path r) ''/backup/''"
  shows "run_state (backup_serve C Sy r body) f = run_state (backup_serve C Sy (r\<lparr>br_Token := tok\<rparr>) body) f"
proof -
  have "bc_secret C = ''''" using assms(1,2) by (auto simp: backup_main_def)
  moreover have "backup_path C Sy (r\<lparr>br_Token := tok\<rparr>) = backup_path C Sy r" by (simp add: backup_path_def backup_name_def)
  ultimately show ?thesis using assms(3) by (simp add: backup_serve_def receive_backup_def Let_def)
qed

text \<open>With one, a request without it changes no file, whatever its path.\<close>

lemma secret_gate:
  assumes "backup_main osenv = (addr, C)" "osenv ''BACKUP_SECRET'' \<noteq> ''''" "br_Token r \<noteq> osenv ''BACKUP_SECRET''"
  shows "snd (run_state (backup_serve C Sy r body) f) = f"
  using assms by (auto simp: backup_main_def backup_serve_def receive_backup_def)

end
