(* ===== verification/Api_Auth.thy ===== *)
theory Api_Auth
  imports Api
begin

text \<open>
  The rest of the client API: accounts, login (local and federated) and devices
  (\<open>src/server/internal/api/handlers_auth.go\<close>), key backups (\<open>handlers_backup.go\<close>), the search for users
  (\<open>handlers_users.go\<close>) and the statistics (\<open>handlers_stats.go\<close>).
\<close>

section \<open>Requests\<close>

type_synonym keys_json = "string \<times> (string \<times> string \<times> int) \<times> (string \<times> int) list"

record register_req =
  gq_Username :: string
  gq_Password :: string
  gq_DeviceID :: string
  gq_Keys :: keys_json
  gq_KeysBackup :: "(string \<times> string) option"

record login_req =
  lq_Username :: string
  lq_Password :: string
  lq_DeviceID :: string
  lq_Domain :: string
  lq_RequestKeysRestore :: bool
  lq_Keys :: "keys_json option"

text \<open>
  The decoders; \<open>json_verify\<close> marshals the body of a federated login; \<open>iter\<close> is the order in which
  Go's \<open>range\<close> visits the keys of a map; \<open>ilike\<close> is SQL's \<open>ILIKE\<close>, \<open>by_name\<close> \<open>ORDER BY username\<close> in the
  collation of the database.
\<close>

record auth_codec =
  dec_register :: "string \<Rightarrow> register_req option"
  dec_login :: "string \<Rightarrow> login_req option"
  dec_rename :: "string \<Rightarrow> string option"
  dec_backup :: "string \<Rightarrow> (string \<times> string) option"
  json_verify :: "auth_verify_req \<Rightarrow> string"
  iter :: "string set \<Rightarrow> string list"
  ilike :: "string \<Rightarrow> string \<Rightarrow> bool"
  by_name :: "user_row list \<Rightarrow> user_row list"

record auth_handler =
  ah_auth :: auth
  ah_domain :: string
  ah_fed :: "fed_client option"
  ah_db :: bool
  ah_fedPeers :: "string list"
  ah_discoveryHub :: string

section \<open>Registration\<close>

definition register_input_of :: "uuid \<Rightarrow> register_req \<Rightarrow> register_input" where
  "register_input_of dev req = (case gq_Keys req of (ik, (spk, sig, kid), otpks) \<Rightarrow>
     (let (salt, blob) = (case gq_KeysBackup req of
          Some (s, b) \<Rightarrow> if s \<noteq> '''' \<and> b \<noteq> '''' then (b64_bytes s, b64_bytes b) else ([], [])
        | None \<Rightarrow> ([], [])) in
      \<lparr> ri_Username = gq_Username req, ri_Password = gq_Password req, ri_DeviceID = dev, ri_IdentityKey = b64_bytes ik,
        ri_SignedPrekey = b64_bytes spk, ri_SignedPrekeySig = b64_bytes sig, ri_SignedPrekeyID = kid,
        ri_OneTimePrekeys = map (\<lambda>(k, i). \<lparr> pk_Key = b64_bytes k, pk_KeyID = i \<rparr>) otpks,
        ri_KeysBackupSalt = salt, ri_KeysBackupBlob = blob \<rparr>))"

definition register_account :: "env \<Rightarrow> auth_codec \<Rightarrow> auth_handler \<Rightarrow> api_req \<Rightarrow> (world, (string \<times> uuid \<times> string) answer) state" where
  "register_account E J H r =
     (case dec_register J (hr_Body r) of
        None \<Rightarrow> ret (Fail 400 ''invalid_request'')
      | Some req \<Rightarrow>
          (case uuid_parse E (gq_DeviceID req) of
             None \<Rightarrow> ret (Fail 400 ''invalid_request'')
           | Some dev \<Rightarrow>
               if length (gq_Password req) < 6 then ret (Fail 400 ''invalid_request'')
               else do {
                 x \<leftarrow> on_db (Register E (ah_auth H) (register_input_of dev req));
                 ret (case x of
                   Inl e \<Rightarrow> if e = ErrUsernameTaken then Fail 400 ''username_taken'' else Fail 500 ''internal_error''
                 | Inr y \<Rightarrow> Done y) }))"

section \<open>Login\<close>

datatype login_answer = LocalLogin login_result | ProxyLogin string string string "(string \<times> string) list"

text \<open>The name and the home server of a login.\<close>

definition login_name :: "env \<Rightarrow> auth_handler \<Rightarrow> login_req \<Rightarrow> string \<times> string" where
  "login_name E H req =
     (let username = TrimSpace (lq_Username req); domain = ToLower E (TrimSpace (lq_Domain req));
          (u, d) = (if Contains username ''@'' then
              (case SplitN2 (CHR ''@'') username of
                 [p0, p1] \<Rightarrow> (TrimSpace p0, if domain = '''' then ToLower E (TrimSpace p1) else domain)
               | _ \<Rightarrow> (username, domain))
            else (username, domain)) in
      (u, if d = '''' then ah_domain H else d))"

definition verify_body :: "string \<Rightarrow> string \<Rightarrow> login_req \<Rightarrow> auth_verify_req" where
  "verify_body username domain req = \<lparr> aq_UserID = ''@'' @ username @ '':'' @ domain, aq_Password = lq_Password req, aq_DeviceID = lq_DeviceID req,
     aq_RequestKeysRestore = lq_RequestKeysRestore req, aq_Keys = lq_Keys req \<rparr>"

text \<open>A login at another server and a proxy session here; the two sides of the sum tell which failed.\<close>

definition federated_login :: "env \<Rightarrow> net \<Rightarrow> auth_codec \<Rightarrow> fed_client \<Rightarrow> string \<Rightarrow> string \<Rightarrow> login_req
    \<Rightarrow> (world, (fed_err + auth_err) + login_answer) state" where
  "federated_login E N J fed domain username req = do {
     x \<leftarrow> on_node (on_net (AuthVerify E N fed domain (json_verify J (verify_body username domain req))));
     case x of
       Inl e \<Rightarrow> ret (Inl (Inl e))
     | Inr res \<Rightarrow> do {
         t \<leftarrow> on_db (CreateProxySession E domain (av_AccessToken res) (av_UserID res) (av_DeviceID res) (24 * 3600 * 1000000000));
         ret (case t of
           Inl e \<Rightarrow> Inl (Inr e)
         | Inr tok \<Rightarrow> Inr (ProxyLogin (av_UserID res) (av_DeviceID res) tok (av_KeysBackup res))) } }"

text \<open>The search of the peers for a user: the first that knows the name says where its home is.\<close>

fun find_home :: "env \<Rightarrow> net \<Rightarrow> fed_client \<Rightarrow> string \<Rightarrow> string list \<Rightarrow> (node, fed_err + string option) state" where
  "find_home E N fed username [] = ret (Inr None)"
| "find_home E N fed username (p # ps) = do {
     x \<leftarrow> on_net (UserLookup E N fed p username);
     case x of
       Inl e \<Rightarrow> ret (Inl e)
     | Inr (Some (_, home)) \<Rightarrow> ret (Inr (Some home))
     | Inr None \<Rightarrow> find_home E N fed username ps }"

definition discover_login :: "env \<Rightarrow> net \<Rightarrow> auth_codec \<Rightarrow> auth_handler \<Rightarrow> fed_client \<Rightarrow> string \<Rightarrow> string \<Rightarrow> login_req
    \<Rightarrow> (world, login_answer answer) state" where
  "discover_login E N J H fed username domain req = do {
     ps \<leftarrow> on_node (getFederationPeers E N (ah_db H) True (ah_fedPeers H) (ah_discoveryHub H) (ah_domain H));
     case ps of
       Inl _ \<Rightarrow> ret Panicked
     | Inr peers \<Rightarrow> do {
         h \<leftarrow> on_node (find_home E N fed username (iter J peers));
         case h of
           Inl _ \<Rightarrow> ret Panicked
         | Inr found \<Rightarrow>
             (let home = (case found of None \<Rightarrow> domain | Some d \<Rightarrow> d) in
              if home = ah_domain H then ret (Fail 401 ''invalid_credentials'')
              else do {
                l \<leftarrow> federated_login E N J fed home username req;
                ret (case l of
                  Inl e \<Rightarrow> if e = Inl FedPanic then Panicked else Fail 401 ''invalid_credentials''
                | Inr a \<Rightarrow> Done a) }) } }"

definition login_handler :: "env \<Rightarrow> net \<Rightarrow> auth_codec \<Rightarrow> auth_handler \<Rightarrow> api_req \<Rightarrow> (world, login_answer answer) state" where
  "login_handler E N J H r =
     (case dec_login J (hr_Body r) of
        None \<Rightarrow> ret (Fail 400 ''invalid_request'')
      | Some req \<Rightarrow>
          (case login_name E H req of (username, domain) \<Rightarrow>
             (case uuid_parse E (lq_DeviceID req) of
                None \<Rightarrow> ret (Fail 400 ''invalid_request'')
              | Some dev \<Rightarrow>
                  (case (if domain \<noteq> ah_domain H then ah_fed H else None) of
                     Some fed \<Rightarrow> do {
                       l \<leftarrow> federated_login E N J fed domain username req;
                       ret (case l of
                         Inl (Inl e) \<Rightarrow> if e = FedPanic then Panicked else Fail 401 ''invalid_credentials''
                       | Inl (Inr _) \<Rightarrow> Fail 500 ''internal_error''
                       | Inr a \<Rightarrow> Done a) }
                   | None \<Rightarrow> do {
                       x \<leftarrow> on_db (Login E (ah_auth H) (login_of username dev (verify_body username domain req)));
                       case x of
                         Inr res \<Rightarrow> ret (Done (LocalLogin res))
                       | Inl e \<Rightarrow>
                           if e \<noteq> ErrInvalidCredentials then ret (Fail 500 ''internal_error'')
                           else (case ah_fed H of
                             None \<Rightarrow> ret (Fail 401 ''invalid_credentials'')
                           | Some fed \<Rightarrow> discover_login E N J H fed username domain req) }))))"

section \<open>Devices and sessions\<close>

definition wsToken :: "env \<Rightarrow> auth_handler \<Rightarrow> ctx \<Rightarrow> (world, (string \<times> int) answer) state" where
  "wsToken E H c =
     (if getUserID c = 0 \<or> getDeviceID c = '''' then ret (Fail 401 ''missing_context'')
      else (case uuid_parse E (getDeviceID c) of
        None \<Rightarrow> ret (Fail 500 ''internal_error'')
      | Some dev \<Rightarrow> do {
          x \<leftarrow> on_db (IssueWSToken E (ah_auth H) (getUserID c) dev);
          ret (case x of Inl _ \<Rightarrow> Fail 500 ''internal_error'' | Inr t \<Rightarrow> Done (t, wsTokenExpirySec)) }))"

text \<open>The code prints the time of creation to the minute; the model keeps it.\<close>

definition listDevices :: "env \<Rightarrow> ctx \<Rightarrow> (world, device_info list answer) state" where
  "listDevices E c =
     (if getUserID c = 0 \<or> getDeviceID c = '''' then ret (Fail 401 ''missing_context'')
      else (case uuid_parse E (getDeviceID c) of
        None \<Rightarrow> ret (Fail 500 ''internal_error'')
      | Some dev \<Rightarrow> do {
          x \<leftarrow> on_db (ListDevices E (getUserID c) dev);
          ret (case x of Inl _ \<Rightarrow> Fail 500 ''internal_error'' | Inr ds \<Rightarrow> Done ds) }))"

definition with_device_param :: "env \<Rightarrow> api_req \<Rightarrow> ctx \<Rightarrow> (uuid \<Rightarrow> (world, 'a answer) state) \<Rightarrow> (world, 'a answer) state" where
  "with_device_param E r c k =
     (if getUserID c = 0 \<or> hr_Param r ''deviceID'' = '''' then ret (Fail 400 ''invalid_request'')
      else (case uuid_parse E (hr_Param r ''deviceID'') of None \<Rightarrow> ret (Fail 400 ''invalid_request'') | Some dev \<Rightarrow> k dev))"

definition revokeDevice :: "env \<Rightarrow> api_req \<Rightarrow> ctx \<Rightarrow> (world, unit answer) state" where
  "revokeDevice E r c = with_device_param E r c (\<lambda>dev. do {
     x \<leftarrow> on_db (RevokeDevice (getUserID c) dev);
     ret (case x of Inl _ \<Rightarrow> Fail 500 ''internal_error'' | Inr _ \<Rightarrow> Done ()) })"

definition renameDevice :: "env \<Rightarrow> auth_codec \<Rightarrow> api_req \<Rightarrow> ctx \<Rightarrow> (world, unit answer) state" where
  "renameDevice E J r c = with_device_param E r c (\<lambda>dev.
     case dec_rename J (hr_Body r) of
       None \<Rightarrow> ret (Fail 400 ''invalid_request'')
     | Some name \<Rightarrow> do {
         x \<leftarrow> on_db (RenameDevice (getUserID c) dev name);
         ret (case x of Inl _ \<Rightarrow> Fail 500 ''internal_error'' | Inr _ \<Rightarrow> Done ()) })"

definition logout :: "env \<Rightarrow> auth_handler \<Rightarrow> api_req \<Rightarrow> (world, unit answer) state" where
  "logout E H r =
     (let token = TrimSpace (TrimPrefix (hr_Header r ''Authorization'') ''Bearer '') in
      if token = '''' then ret (Fail 401 ''missing_token'')
      else do {
        x \<leftarrow> on_db (RevokeToken E (ah_auth H) token);
        ret (case x of
          Inl e \<Rightarrow> if e = ErrInvalidToken then Fail 401 ''invalid_token'' else Fail 500 ''internal_error''
        | Inr _ \<Rightarrow> Done ()) })"

section \<open>Key backups\<close>

definition prepare :: "auth_handler \<Rightarrow> ctx \<Rightarrow> (world, string answer) state" where
  "prepare H c =
     (if getUserID c = 0 then ret (Fail 401 ''unauthorized'')
      else do {
        s \<leftarrow> on_db (rand_read 32);
        case s of
          None \<Rightarrow> ret (Fail 500 ''internal_error'')
        | Some salt \<Rightarrow> do {
            x \<leftarrow> on_db (Encrypt (au_enc (ah_auth H)) salt);
            case x of
              Inl _ \<Rightarrow> ret (Fail 500 ''internal_error'')
            | Inr stored \<Rightarrow> do {
                y \<leftarrow> on_db (stmt (put_salt (getUserID c) stored));
                ret (case y of Inl _ \<Rightarrow> Fail 500 ''internal_error'' | Inr _ \<Rightarrow> Done (b64_encode salt)) } } })"

definition syncKeys :: "auth_codec \<Rightarrow> auth_handler \<Rightarrow> api_req \<Rightarrow> ctx \<Rightarrow> (world, unit answer) state" where
  "syncKeys J H r c =
     (if getUserID c = 0 then ret (Fail 401 ''unauthorized'')
      else (case dec_backup J (hr_Body r) of
        None \<Rightarrow> ret (Fail 400 ''invalid_request'')
      | Some (salt0, blob0) \<Rightarrow>
          if salt0 = '''' \<or> blob0 = '''' then ret (Fail 400 ''invalid_request'')
          else (case (b64_decode salt0, b64_decode blob0) of
            (Some salt, Some blob) \<Rightarrow> do {
              x \<leftarrow> on_db (StoreKeyBackup (ah_auth H) (getUserID c) salt blob);
              ret (case x of Inl _ \<Rightarrow> Fail 500 ''internal_error'' | Inr _ \<Rightarrow> Done ()) }
          | _ \<Rightarrow> ret (Fail 400 ''invalid_request''))))"

definition getSalt :: "auth_handler \<Rightarrow> ctx \<Rightarrow> (world, string answer) state" where
  "getSalt H c =
     (if getUserID c = 0 then ret (Fail 401 ''unauthorized'')
      else do {
        q \<leftarrow> on_db (query_row (\<lambda>t. map bs_salt (filter (\<lambda>b. bs_user b = getUserID c) (tb_salts t))));
        ret (case q of
          Inl _ \<Rightarrow> Fail 404 ''not_found''
        | Inr stored \<Rightarrow> (case Decrypt (au_enc (ah_auth H)) stored of
            Inl _ \<Rightarrow> Fail 500 ''internal_error'' | Inr salt \<Rightarrow> Done (b64_encode salt))) })"

section \<open>Search and statistics\<close>

definition local_matches :: "auth_codec \<Rightarrow> string \<Rightarrow> string \<Rightarrow> tables \<Rightarrow> user_row list" where
  "local_matches J domain q t = take 20 (by_name J (filter (\<lambda>u. u_domain u = domain
     \<and> (u_username u = q \<or> ilike J (u_username u) (q @ ''%''))) (tb_users t)))"

definition add_user :: "string \<Rightarrow> string list \<Rightarrow> string list" where
  "add_user userID users = (if userID \<in> set users then users else users @ [userID])"

fun lookup_all :: "env \<Rightarrow> net \<Rightarrow> fed_client \<Rightarrow> string \<Rightarrow> string list \<Rightarrow> string list \<Rightarrow> (node, fed_err + string list) state" where
  "lookup_all E N fed q users [] = ret (Inr users)"
| "lookup_all E N fed q users (p # ps) = do {
     x \<leftarrow> on_net (UserLookup E N fed p q);
     case x of
       Inl e \<Rightarrow> ret (Inl e)
     | Inr None \<Rightarrow> lookup_all E N fed q users ps
     | Inr (Some (userID, _)) \<Rightarrow> lookup_all E N fed q (if userID \<noteq> '''' then add_user userID users else users) ps }"

definition search_users :: "env \<Rightarrow> net \<Rightarrow> auth_codec \<Rightarrow> auth_handler \<Rightarrow> api_req \<Rightarrow> (world, string list answer) state" where
  "search_users E N J H r =
     (let q0 = TrimSpace (hr_Query r ''q''); q = take 128 q0 in
      if q0 = [] then ret (Done [])
      else do {
        rows \<leftarrow> (if ah_db H then on_db (query (local_matches J (ah_domain H) q)) else ret (Inr ([], False)));
        let users = (case rows of Inl _ \<Rightarrow> []
          | Inr (us, _) \<Rightarrow> foldl (\<lambda>acc u. add_user (''@'' @ u_username u @ '':'' @ u_domain u) acc) [] us);
        ps \<leftarrow> on_node (getFederationPeers E N (ah_db H) (ah_fed H \<noteq> None) (ah_fedPeers H) (ah_discoveryHub H) (ah_domain H));
        case ps of
          Inl _ \<Rightarrow> ret Panicked
        | Inr peers \<Rightarrow>
            (case ah_fed H of
               None \<Rightarrow> ret (Done users)
             | Some fed \<Rightarrow> do {
                 x \<leftarrow> on_node (lookup_all E N fed q users (iter J peers));
                 ret (case x of Inl _ \<Rightarrow> Panicked | Inr us \<Rightarrow> Done us) }) })"

definition stats :: "(world, (nat \<times> nat) answer) state" where
  "stats = do {
     u \<leftarrow> on_db (query_row (\<lambda>t. [length (tb_users t)]));
     case u of
       Inl _ \<Rightarrow> ret (Fail 500 ''internal_error'')
     | Inr users \<Rightarrow> do {
         p \<leftarrow> on_db (query_row (\<lambda>t. [length (tb_peers t)]));
         ret (case p of Inl _ \<Rightarrow> Fail 500 ''internal_error'' | Inr servers \<Rightarrow> Done (users, servers)) } }"

section \<open>Where passwords go\<close>

lemma AuthVerify_sends:
  assumes "run_state (resolveEndpoint E N d) s = (Inr ep, s1)" "url_ok N (TrimSuffix ep ''/'' @ ''/auth/verify'')"
    and "run_state (AuthVerify E N c d body) s = (x, s2)"
  shows "\<exists>q. ns_sent s2 = ns_sent s1 @ [q] \<and> hq_url q = TrimSuffix ep ''/'' @ ''/auth/verify'' \<and> hq_body q = body"
  using assms by (auto simp: AuthVerify_def signed_call_def http_call_def Let_def)

lemma federated_login_sends:
  assumes "run_state (resolveEndpoint E N home) (net_of (wd_node w)) = (Inr ep, s1)" "url_ok N (TrimSuffix ep ''/'' @ ''/auth/verify'')"
    and "run_state (federated_login E N J fed home username req) w = (x, w')"
  shows "\<exists>q \<in> set (ns_sent (nd_net (wd_node w'))). hq_url q = TrimSuffix ep ''/'' @ ''/auth/verify''
    \<and> hq_body q = json_verify J (verify_body username home req)"
proof -
  obtain v s2 where v: "run_state (AuthVerify E N fed home (json_verify J (verify_body username home req))) (net_of (wd_node w)) = (v, s2)" by fastforce
  from AuthVerify_sends [OF assms(1,2) v] have q: "\<exists>q \<in> set (ns_sent s2). hq_url q = TrimSuffix ep ''/'' @ ''/auth/verify''
    \<and> hq_body q = json_verify J (verify_body username home req)" by auto
  have "nd_net (wd_node w') = s2"
    using assms(3) v by (auto simp: federated_login_def run_on_node run_on_net net_of_def run_on_sess split: sum.splits prod.splits)
  with q show ?thesis by simp
qed

text \<open>C32: a wrong password is passed on: when a local login fails for the password (or the name) and
  one of the peers claims to know the name, the password as it was typed is posted to the
  server that peer named as the user's home.\<close>

theorem login_leaks_password:
  assumes "dec_login J (hr_Body r) = Some req" "login_name E H req = (username, ah_domain H)"
    and "uuid_parse E (lq_DeviceID req) = Some dev" "ah_fed H = Some fed"
    and "run_state (Login E (ah_auth H) (login_of username dev (verify_body username (ah_domain H) req))) (nd_sess (wd_node w)) = (Inl ErrInvalidCredentials, s1)"
    and "run_state (getFederationPeers E N (ah_db H) True (ah_fedPeers H) (ah_discoveryHub H) (ah_domain H)) ((wd_node w)\<lparr>nd_sess := s1\<rparr>) = (Inr peers, n1)"
    and "run_state (find_home E N fed username (iter J peers)) n1 = (Inr (Some home), n2)" "home \<noteq> ah_domain H"
    and "run_state (resolveEndpoint E N home) (net_of n2) = (Inr ep, ns)" "url_ok N (TrimSuffix ep ''/'' @ ''/auth/verify'')"
    and "run_state (login_handler E N J H r) w = (x, w')"
  shows "\<exists>q \<in> set (ns_sent (nd_net (wd_node w'))). hq_url q = TrimSuffix ep ''/'' @ ''/auth/verify''
    \<and> hq_body q = json_verify J \<lparr> aq_UserID = ''@'' @ username @ '':'' @ home, aq_Password = lq_Password req, aq_DeviceID = lq_DeviceID req,
        aq_RequestKeysRestore = lq_RequestKeysRestore req, aq_Keys = lq_Keys req \<rparr>"
proof -
  obtain l w3 where l: "run_state (federated_login E N J fed home username req) (w\<lparr>wd_node := n2\<rparr>) = (l, w3)" by fastforce
  have "w' = w3"
    using assms l by (auto simp: login_handler_def discover_login_def run_on_node run_on_sess Let_def split: sum.splits if_splits)
  moreover have "net_of (wd_node (w\<lparr>wd_node := n2\<rparr>)) = net_of n2" by simp
  ultimately show ?thesis using federated_login_sends [OF _ assms(10) l] assms(9) by (simp add: verify_body_def)
qed

text \<open>
  Ann of \<open>a.org\<close> mistypes her password; the peer \<open>b.org\<close> claims to be the home of every name. The
  body of the request is the password alone.
\<close>

definition typo_req :: login_req where
  "typo_req = \<lparr> lq_Username = ''ann'', lq_Password = ''typo'', lq_DeviceID = ''7'', lq_Domain = '''', lq_RequestKeysRestore = False, lq_Keys = None \<rparr>"

definition demo_ac :: auth_codec where
  "demo_ac = \<lparr> dec_register = (\<lambda>_. None), dec_login = (\<lambda>_. Some typo_req), dec_rename = (\<lambda>_. None), dec_backup = (\<lambda>_. None),
     json_verify = aq_Password, iter = (\<lambda>A. if ''b.org'' \<in> A then [''b.org''] else []), ilike = (=), by_name = (\<lambda>us. us) \<rparr>"

definition demo_ah :: auth_handler where
  "demo_ah = \<lparr> ah_auth = demo_auth, ah_domain = ''a.org'', ah_fed = Some srv_a, ah_db = False, ah_fedPeers = [''b.org''], ah_discoveryHub = '''' \<rparr>"

definition claiming_net :: net where
  "claiming_net = demo_net\<lparr>dec_lookup := (\<lambda>_. Some (''@ann:b.org'', ''b.org''))\<rparr>"

definition ann_world :: world where
  "ann_world = world_on (session_on (empty_tables\<lparr>tb_users := [\<lparr> u_id = 1, u_username = ''ann'', u_domain = ''a.org'',
     u_password_hash = Some ''$pw'' \<rparr>]\<rparr>) [])"

lemma demo_login_names:
  "ToLower demo_env (TrimSpace ''a.org'') = ''a.org''" "ToLower demo_env (TrimSpace '''') = ''''" "TrimSpace ''ann'' = ''ann''"
  "TrimSuffix ''https://b.org/federation/v1'' ''/'' = ''https://b.org/federation/v1''"
  by code_simp+

lemma demo_login_name: "login_name demo_env demo_ah typo_req = (''ann'', ''a.org'')"
proof -
  have "\<not> Contains ''ann'' ''@''" by code_simp
  then show ?thesis by (simp add: login_name_def typo_req_def demo_ah_def demo_login_names)
qed

lemma demo_device_seven: "uuid_parse demo_env ''7'' = Some 7"
  by (simp add: demo_env_def digit_val_def)

lemma demo_home:
  "\<exists>n2 ns. run_state (find_home demo_env claiming_net srv_a ''ann'' [''b.org'']) (node_b\<lparr>nd_sess := s\<rparr>) = (Inr (Some ''b.org''), n2)
    \<and> run_state (resolveEndpoint demo_env claiming_net ''b.org'') (net_of n2) = (Inr ''https://b.org/federation/v1'', ns)"
  by (simp add: run_on_net net_of_def UserLookup_def resolveEndpoint_def discover_def signed_call_def http_call_def claiming_net_def demo_net_def
      node_b_def demo_netst_def demo_names scheme_def Let_def discoveryCacheTTL_def)

theorem login_leaks_password_witness:
  "\<exists>q \<in> set (ns_sent (nd_net (wd_node (snd (run_state (login_handler demo_env claiming_net demo_ac demo_ah (demo_request '''')) ann_world))))).
    hq_url q = ''https://b.org/federation/v1/auth/verify'' \<and> hq_body q = ''typo''"
proof -
  let ?s = "nd_sess (wd_node ann_world)"
  obtain x w' where r: "run_state (login_handler demo_env claiming_net demo_ac demo_ah (demo_request '''')) ann_world = (x, w')" by fastforce
  have n: "(wd_node ann_world)\<lparr>nd_sess := ?s\<rparr> = node_b\<lparr>nd_sess := ?s\<rparr>" by (simp add: ann_world_def world_on_def)
  from demo_home [of ?s] obtain n2 ns where h:
    "run_state (find_home demo_env claiming_net srv_a ''ann'' [''b.org'']) (node_b\<lparr>nd_sess := ?s\<rparr>) = (Inr (Some ''b.org''), n2)"
    "run_state (resolveEndpoint demo_env claiming_net ''b.org'') (net_of n2) = (Inr ''https://b.org/federation/v1'', ns)" by blast
  have l: "run_state (Login demo_env (ah_auth demo_ah) (login_of ''ann'' 7 (verify_body ''ann'' (ah_domain demo_ah) typo_req))) ?s = (Inl ErrInvalidCredentials, ?s)"
    by (simp add: Login_def login_user_def demo_ah_def demo_auth_def login_of_def verify_body_def typo_req_def ann_world_def world_on_def session_on_def
        sql_simps Decrypt_def password_ok_def demo_env_def empty_tables_def)
  have p: "run_state (getFederationPeers demo_env claiming_net (ah_db demo_ah) True (ah_fedPeers demo_ah) (ah_discoveryHub demo_ah) (ah_domain demo_ah))
      ((wd_node ann_world)\<lparr>nd_sess := ?s\<rparr>) = (Inr {''b.org''}, node_b\<lparr>nd_sess := ?s\<rparr>)"
    unfolding n by (simp add: getFederationPeers_def demo_ah_def demo_login_names demo_names usable_peers_def Let_def)
  have "\<exists>q \<in> set (ns_sent (nd_net (wd_node w'))). hq_url q = TrimSuffix ''https://b.org/federation/v1'' ''/'' @ ''/auth/verify''
    \<and> hq_body q = json_verify demo_ac \<lparr> aq_UserID = ''@'' @ ''ann'' @ '':'' @ ''b.org'', aq_Password = lq_Password typo_req, aq_DeviceID = lq_DeviceID typo_req,
        aq_RequestKeysRestore = lq_RequestKeysRestore typo_req, aq_Keys = lq_Keys typo_req \<rparr>"
    by (rule login_leaks_password [OF _ _ _ _ l p _ _ h(2) _ r])
      (use h(1) in \<open>simp_all add: demo_ac_def demo_ah_def typo_req_def demo_device_seven demo_login_name [unfolded demo_ah_def typo_req_def] claiming_net_def demo_net_def\<close>)
  then show ?thesis using r by (simp add: demo_login_names demo_ac_def typo_req_def)
qed

end
