(* ===== verification/Table_Inv.thy ===== *)
theory Table_Inv
  imports Api_Auth Api_Vpn
begin

text \<open>
  Invariants of the database through the whole server. The locale \<open>table_inv\<close> says what a
  predicate of the tables has to survive (the statements the code sends); under these laws
  every operation of the services and every handler keeps it, proved once. A second parameter,
  \<open>good\<close>, says what may be stored in an encrypted column; a service only stores what its cipher
  returned or what is stored already. The locale is interpreted for the roles of rooms, for
  accounts and devices, for the message queue, for spent one-time prekeys, for VPN peers, for the
  addresses given out, and for the encryption of the database.
\<close>

section \<open>Transactions and sequences\<close>

definition seqs_le :: "tables \<Rightarrow> tables \<Rightarrow> bool" where
  "seqs_le t u \<longleftrightarrow> seq_users t \<le> seq_users u \<and> seq_otpks t \<le> seq_otpks u \<and> seq_wg t \<le> seq_wg u"

lemma keeps_and:
  "keeps (on_tabs P) m \<Longrightarrow> keeps (on_tabs Q) m \<Longrightarrow> keeps (on_tabs (\<lambda>t. P t \<and> Q t)) m"
  by (auto simp: triple_def on_tabs_def split: prod.splits)

lemma tx_begin_run:
  "run_state tx_begin s = (b, s1) \<Longrightarrow> tabs s1 = tabs s \<and> (\<forall>snap. b = Inr snap \<longrightarrow> snap = tabs s)"
  by (auto simp: tx_begin_def stmt_def Let_def split: list.splits fault.splits)

lemma tx_commit_tabs:
  "run_state (tx_commit snap) s = (c, s1) \<Longrightarrow> tabs s1 = tabs s \<or> tabs s1 = restore snap (tabs s)"
  by (auto simp: tx_commit_def Let_def split: list.splits fault.splits)

text \<open>A rollback puts back the rows but not the sequences, which the body has only moved forward.\<close>

lemma keeps_in_tx_then_seqs:
  assumes re: "\<And>snap cur. P snap \<Longrightarrow> seqs_le snap cur \<Longrightarrow> P (restore snap cur)"
    and body: "keeps (on_tabs P) body" "\<And>snap. keeps (on_tabs (seqs_le snap)) body"
  shows "keeps (on_tabs P) (in_tx_then w fin body)"
proof (rule tripleI)
  fix s r s' assume P: "on_tabs P s" and r: "run_state (in_tx_then w fin body) s = (r, s')"
  obtain b s1 where b: "run_state tx_begin s = (b, s1)" by fastforce
  note bt = tx_begin_run [OF b]
  show "on_tabs P s'"
  proof (cases b)
    case (Inl e)
    with r b bt P show ?thesis by (auto simp: in_tx_then_def on_tabs_def)
  next
    case (Inr snap)
    with bt have snap: "snap = tabs s" by blast
    obtain x s2 where x: "run_state body s1 = (x, s2)" by fastforce
    have s2: "P (tabs s2)" "seqs_le snap (tabs s2)"
      using tripleD [OF body(1) _ x] tripleD [OF body(2) [of snap] _ x] P bt snap by (auto simp: on_tabs_def seqs_le_def)
    then have "P (restore snap (tabs s2))" using re P snap by (simp add: on_tabs_def)
    moreover have "tabs s' = tabs s2 \<or> tabs s' = restore snap (tabs s2)"
      using r b Inr x by (auto simp: in_tx_then_def tx_rollback_def dest: tx_commit_tabs split: sum.splits prod.splits)
    ultimately show ?thesis using s2(1) by (auto simp: on_tabs_def)
  qed
qed

lemma keeps_in_tx_seqs:
  assumes "\<And>snap cur. P snap \<Longrightarrow> seqs_le snap cur \<Longrightarrow> P (restore snap cur)"
    and "keeps (on_tabs P) body" "\<And>snap. keeps (on_tabs (seqs_le snap)) body"
  shows "keeps (on_tabs P) (in_tx w body)"
  unfolding in_tx_def using assms by (rule keeps_in_tx_then_seqs)

lemma seqs_statements:
  "seqs_le s t \<Longrightarrow> seqs_le s (snd (ins_user n d h t))"
  "seqs_le s t \<Longrightarrow> seqs_le s (snd (ins_device dev u ik spk sg i t))"
  "seqs_le s t \<Longrightarrow> seqs_le s (snd (ins_otpk dev k key t))"
  "seqs_le s t \<Longrightarrow> seqs_le s (snd (put_salt u b t))"
  "seqs_le s t \<Longrightarrow> seqs_le s (snd (put_backup u b t))"
  by (auto simp: seqs_le_def ins_user_def ins_device_def ins_otpk_def put_salt_def put_backup_def Let_def)

section \<open>What an invariant has to survive\<close>

text \<open>Proxy sessions, cursors, receipts, peers and subscriptions are no business of an invariant, and
  of tokens, salts and backups only what is encrypted in them is.\<close>

definition core :: "tables \<Rightarrow> ((user_row list \<times> device_row list \<times> otpk_row list \<times> msg_row list \<times> room_row list \<times> member_row list \<times> vpeer_row list) \<times> int \<times> int \<times> int \<times> int)
    \<times> bytes list \<times> bytes list \<times> bytes list" where
  "core t = (((tb_users t, tb_devices t, tb_otpks t, tb_msgs t, tb_rooms t, tb_members t, tb_vpeers t), seq_users t, seq_otpks t, seq_wg t, tb_now t),
     map a_hash (tb_tokens t), map bs_salt (tb_salts t), map kb_bundle (tb_backups t))"

text \<open>The values of a column after a change: as before, or \<open>good\<close>.\<close>

definition kept_or :: "(bytes \<Rightarrow> bool) \<Rightarrow> bytes list \<Rightarrow> bytes list \<Rightarrow> bool" where
  "kept_or good old new \<longleftrightarrow> (\<forall>v \<in> set new. v \<in> set old \<or> good v)"

text \<open>Whatever the cipher returns is \<open>good\<close>.\<close>

definition seals :: "(bytes \<Rightarrow> bool) \<Rightarrow> cipher \<Rightarrow> bool" where
  "seals good c \<longleftrightarrow> (\<forall>p s x s'. run_state (Encrypt c p) s = (Inr x, s') \<longrightarrow> good x)"

lemma seals_any [simp]: "seals (\<lambda>_. True) c"
  by (simp add: seals_def)

locale table_inv =
  fixes P :: "tables \<Rightarrow> bool" and good :: "bytes \<Rightarrow> bool"
  assumes frame: "P t \<Longrightarrow> core u = core t \<Longrightarrow> P u"
    and add_user: "P t \<Longrightarrow> good ph \<Longrightarrow> P (snd (ins_user n dm ph t))"
    and change_user: "P t \<Longrightarrow> (\<And>u. u_id (fu u) = u_id u \<and> u_username (fu u) = u_username u \<and> u_domain (fu u) = u_domain u)
      \<Longrightarrow> (\<And>u. u_password_hash (fu u) = u_password_hash u \<or> (\<exists>h. u_password_hash (fu u) = Some h \<and> good h))
      \<Longrightarrow> P (t\<lparr>tb_users := map fu (tb_users t)\<rparr>)"
    and add_dev: "P t \<Longrightarrow> good ik \<Longrightarrow> good spk \<Longrightarrow> good sg \<Longrightarrow> P (snd (ins_device dev uid ik spk sg kid t))"
    and change_dev: "P t \<Longrightarrow> (\<And>d. d_id (fd d) = d_id d \<and> d_user (fd d) = d_user d)
      \<Longrightarrow> (\<And>d. (d_identity_key (fd d) = d_identity_key d \<or> good (d_identity_key (fd d)))
           \<and> (d_signed_prekey (fd d) = d_signed_prekey d \<or> good (d_signed_prekey (fd d)))
           \<and> (d_signed_prekey_sig (fd d) = d_signed_prekey_sig d \<or> good (d_signed_prekey_sig (fd d))))
      \<Longrightarrow> P (t\<lparr>tb_devices := map fd (tb_devices t)\<rparr>)"
    and copy_dev: "P t \<Longrightarrow> d \<in> set (tb_devices t) \<Longrightarrow> good (d_identity_key d) \<and> good (d_signed_prekey d) \<and> good (d_signed_prekey_sig d)"
    and drop_dev: "P t \<Longrightarrow> (\<And>d p. d \<in> set (tb_devices t) \<Longrightarrow> \<not> A d \<Longrightarrow> C p \<Longrightarrow> vp_device p \<noteq> d_id d)
      \<Longrightarrow> P (t\<lparr>tb_devices := filter A (tb_devices t), tb_otpks := filter B (tb_otpks t), tb_vpeers := filter C (tb_vpeers t)\<rparr>)"
    and add_otpk: "P t \<Longrightarrow> good key \<Longrightarrow> P (snd (ins_otpk dev key_id key t))"
    and claim: "P t \<Longrightarrow> P (snd (claim_prekey dev t))"
    and change_otpk: "P t \<Longrightarrow> (\<And>p. o_id (fp p) = o_id p \<and> o_device (fp p) = o_device p \<and> o_key_id (fp p) = o_key_id p \<and> o_consumed (fp p) = o_consumed p)
      \<Longrightarrow> (\<And>p. o_prekey (fp p) = o_prekey p \<or> good (o_prekey (fp p))) \<Longrightarrow> P (t\<lparr>tb_otpks := map fp (tb_otpks t)\<rparr>)"
    and drop_otpk: "P t \<Longrightarrow> P (t\<lparr>tb_otpks := filter B (tb_otpks t)\<rparr>)"
    and tokens: "P t \<Longrightarrow> kept_or good (map a_hash (tb_tokens t)) (map a_hash tks) \<Longrightarrow> P (t\<lparr>tb_tokens := tks\<rparr>)"
    and salts: "P t \<Longrightarrow> kept_or good (map bs_salt (tb_salts t)) (map bs_salt bs) \<Longrightarrow> P (t\<lparr>tb_salts := bs\<rparr>)"
    and backups: "P t \<Longrightarrow> kept_or good (map kb_bundle (tb_backups t)) (map kb_bundle ks) \<Longrightarrow> P (t\<lparr>tb_backups := ks\<rparr>)"
    and sealed: "IsEncrypted v \<Longrightarrow> good v"
    and add_msg: "P t \<Longrightarrow> P (snd (ins_msg eid from to sdev ct cts sid ts expires t))"
    and mark: "P t \<Longrightarrow> P (snd (mark_delivered eid t))"
    and time_passes: "P t \<Longrightarrow> P (t\<lparr>tb_now := now\<rparr>)"
    and undo: "P snap \<Longrightarrow> seqs_le snap cur \<Longrightarrow> P (restore snap cur)"
    and create: "keeps (on_tabs P) (Create dm name uid)"
    and invite: "keeps (on_tabs P) (Invite room x y)"
    and leave: "keeps (on_tabs P) (Leave room x)"
    and transfer: "keeps (on_tabs P) (TransferCreator room x y)"
    and remove: "keeps (on_tabs P) (Remove room x y)"
    and issue: "keeps (on_vs P) (GetConfig E V Cfg pr uid dev node)"
    and withdraw: "keeps (on_vs P) (Revoke E V Cfg uid dev pr)"
begin

lemma statements:
  "P t \<Longrightarrow> P (snd (ins_idem hk eid t))"
  "P t \<Longrightarrow> P (snd (put_cursor u dev cur t))"
  "P t \<Longrightarrow> P (snd (ins_receipt eid rd t))"
  "P t \<Longrightarrow> P (snd (upsert_peer dm b2 t))"
  "P t \<Longrightarrow> P (snd (put_push u dev ep k au t))"
  by (erule frame, simp add: core_def ins_idem_def put_cursor_def ins_receipt_def upsert_peer_def put_push_def Let_def)+

lemma frames: "P t \<Longrightarrow> P (t\<lparr>tb_proxy := x\<rparr>)" "P t \<Longrightarrow> P (t\<lparr>tb_push := y\<rparr>)" "P t \<Longrightarrow> P (t\<lparr>tb_vnodes := ns\<rparr>)" "P t \<Longrightarrow> P (t\<lparr>seq_tokens := n\<rparr>)"
  by (erule frame, simp add: core_def)+

lemma add_token: "P t \<Longrightarrow> good h \<Longrightarrow> P (snd (ins_token u dev h jti t))"
  using tokens [OF frames(4) [of t "seq_tokens t + 1"]] frames(4) [of t "seq_tokens t + 1"]
  by (simp add: ins_token_def Let_def kept_or_def)

lemma change_tokens:
  "P t \<Longrightarrow> P (snd (revoke_jti jti u t))"
  "P t \<Longrightarrow> P (snd (revoke_device_tokens u dev t))"
  "P t \<Longrightarrow> P (t\<lparr>tb_tokens := filter B (tb_tokens t)\<rparr>)"
  unfolding revoke_jti_def revoke_device_tokens_def snd_conv by (rule tokens; force simp: kept_or_def)+

lemma put_columns:
  "P t \<Longrightarrow> good b \<Longrightarrow> P (snd (put_salt u b t))"
  "P t \<Longrightarrow> good b \<Longrightarrow> P (snd (put_backup u b t))"
  by (auto simp: put_salt_def put_backup_def intro!: salts backups; auto simp: kept_or_def)+

lemma del_device: "P t \<Longrightarrow> P (snd (del_device dev u t))"
  using frame [OF change_tokens(3) [OF drop_dev [of t "\<lambda>d. \<not> (d_id d = dev \<and> d_user d = u)" "\<lambda>p. vp_device p \<noteq> dev" "\<lambda>p. o_device p \<noteq> dev"]],
      of "snd (del_device dev u t)" "\<lambda>a. a_device a \<noteq> dev"]
  by (auto simp: del_device_def core_def split: if_splits)

lemma rename: "P t \<Longrightarrow> P (t\<lparr>tb_devices := map (\<lambda>d. if d_id d = dev \<and> d_user d = u then d\<lparr>d_name := nm, d_updated := at\<rparr> else d) (tb_devices t)\<rparr>)"
  by (rule change_dev) auto

lemma add_otpk_if_absent: "P t \<Longrightarrow> good key \<Longrightarrow> P (snd (ins_otpk_if_absent dev k key t))"
  by (simp add: snd_if_absent add_otpk)

lemma signed_prekey: "P t \<Longrightarrow> good spk \<Longrightarrow> good sg \<Longrightarrow> P (snd (upd_signed_prekey u dev spk sg i t))"
  by (auto simp: upd_signed_prekey_def intro!: change_dev)

lemmas laws = statements change_tokens add_token put_columns del_device add_otpk_if_absent signed_prekey add_user add_dev add_otpk claim drop_otpk add_msg mark

section \<open>The services\<close>

text \<open>What an encryption returns is good, and so is what is copied from the table.\<close>

lemma keeps_bind_fact: "triple I m (\<lambda>r s. I s \<and> F r) \<Longrightarrow> (\<And>r. F r \<Longrightarrow> keeps I (k r)) \<Longrightarrow> keeps I (State_Monad.bind m k)"
  by (rule triple_bind [where R = "\<lambda>r s. I s \<and> F r"]) (auto simp: triple_def)

lemma triple_seal: "seals good c \<Longrightarrow> triple (on_tabs Q) (Encrypt c p) (\<lambda>r s. on_tabs Q s \<and> (\<forall>x. r = Inr x \<longrightarrow> good x))"
  by (rule tripleI) (auto simp: on_tabs_def seals_def dest: col.enc_tabs)

lemma triple_seal3:
  "seals good c \<Longrightarrow> triple (on_tabs Q) (encrypt3 c ik spk sg) (\<lambda>r s. on_tabs Q s \<and> (\<forall>x y z. r = Inr (x, y, z) \<longrightarrow> good x \<and> good y \<and> good z))"
proof (rule tripleI)
  fix s r s' assume c: "seals good c" and q: "on_tabs Q s" and r: "run_state (encrypt3 c ik spk sg) s = (r, s')"
  have "keeps (on_tabs Q) (encrypt3 c ik spk sg)" unfolding encrypt3_def by (intro triple_intros)
  from tripleD [OF this q r] have "on_tabs Q s'" .
  moreover have "good x \<and> good y \<and> good z" if "r = Inr (x, y, z)" for x y z
    using r c that by (auto simp: encrypt3_def seals_def split: prod.splits sum.splits)
  ultimately show "on_tabs Q s' \<and> (\<forall>x y z. r = Inr (x, y, z) \<longrightarrow> good x \<and> good y \<and> good z)" by blast
qed

lemmas seal_binds = keeps_bind_fact [OF triple_seal] keeps_bind_fact [OF triple_seal3]

lemma keeps_grant: "seals good (au_enc S) \<Longrightarrow> keeps (on_tabs P) (grant_token E S u dev)"
  unfolding grant_token_def issueToken_def by (rule seal_binds triple_intros laws | assumption | simp)+

lemma keeps_register_body:
  assumes "seals good (au_enc S)" "\<And>t n d h. Q t \<Longrightarrow> good h \<Longrightarrow> Q (snd (ins_user n d h t))"
    "\<And>t dev u ik spk sg i. Q t \<Longrightarrow> good ik \<Longrightarrow> good spk \<Longrightarrow> good sg \<Longrightarrow> Q (snd (ins_device dev u ik spk sg i t))"
    and "\<And>t dev k key. Q t \<Longrightarrow> good key \<Longrightarrow> Q (snd (ins_otpk dev k key t))"
  shows "keeps (on_tabs Q) (register_body E S inp)"
  unfolding register_body_def register_prekey_def by (rule seal_binds triple_intros assms | assumption | simp)+

lemma keeps_StoreKeyBackup': "seals good (au_enc S) \<Longrightarrow> keeps (on_tabs P) (StoreKeyBackup S u salt blob)"
  unfolding StoreKeyBackup_def by (rule keeps_in_tx_seqs seal_binds undo triple_intros laws seqs_statements | assumption | simp)+

lemma keeps_Register: "seals good (au_enc S) \<Longrightarrow> keeps (on_tabs P) (Register E S inp)"
  unfolding Register_def Let_def
  by (rule keeps_in_tx_seqs keeps_register_body keeps_grant keeps_StoreKeyBackup' undo triple_intros seqs_statements laws | assumption)+

lemma triple_query_row: "triple (on_tabs Q) (query_row q) (\<lambda>r s. on_tabs Q s \<and> (\<forall>x. r = Inr x \<longrightarrow> (\<exists>t. Q t \<and> x \<in> set (q t))))"
  by (rule tripleI) (metis list.set_intros(1) on_tabs_def query_row_InrD query_row_tabs)

lemma triple_device_keys:
  assumes "seals good (au_enc S)"
  shows "triple (on_tabs P) (new_device_keys S uid inp)
    (\<lambda>r s. on_tabs P s \<and> (\<forall>ik spk sg i. r = Inr (ik, spk, sg, i) \<longrightarrow> ik \<noteq> [] \<longrightarrow> good ik \<and> good spk \<and> good sg))"
proof (rule tripleI)
  fix s r s' assume p: "on_tabs P s" and r: "run_state (new_device_keys S uid inp) s = (r, s')"
  have "keeps (on_tabs P) (new_device_keys S uid inp)"
    unfolding new_device_keys_def encrypt3_def by (intro triple_intros)
  from tripleD [OF this p r] have "on_tabs P s'" .
  moreover have "good ik \<and> good spk \<and> good sg" if k: "r = Inr (ik, spk, sg, i)" "ik \<noteq> []" for ik spk sg i
  proof (cases "li_IdentityKey inp = []")
    case True
    with r k obtain d where "run_state (query_row (\<lambda>t. filter (\<lambda>d. d_user d = uid) (tb_devices t))) s = (Inr d, s')"
      "ik = d_identity_key d" "spk = d_signed_prekey d" "sg = d_signed_prekey_sig d"
      by (auto simp: new_device_keys_def split: if_splits sum.splits prod.splits)
    moreover from query_row_InrD [OF this(1)] have "d \<in> set (tb_devices (tabs s))" by (metis filter_is_subset list.set_intros(1) subsetD)
    ultimately show ?thesis using copy_dev p by (simp add: on_tabs_def)
  next
    case False
    with r k have "run_state (encrypt3 (au_enc S) (li_IdentityKey inp) (li_SignedPrekey inp) (li_SignedPrekeySig inp)) s = (Inr (ik, spk, sg), s')"
      by (auto simp: new_device_keys_def split: sum.splits prod.splits)
    with tripleD [OF triple_seal3 [OF assms] p] show ?thesis by blast
  qed
  ultimately show "on_tabs P s' \<and> (\<forall>ik spk sg i. r = Inr (ik, spk, sg, i) \<longrightarrow> ik \<noteq> [] \<longrightarrow> good ik \<and> good spk \<and> good sg)" by blast
qed

lemma keeps_add_device: "seals good (au_enc S) \<Longrightarrow> keeps (on_tabs P) (add_device S uid inp)"
  unfolding add_device_def login_prekey_def by (rule keeps_bind_fact [OF triple_device_keys] seal_binds triple_intros laws | assumption | simp)+

lemma keeps_Login: "seals good (au_enc S) \<Longrightarrow> keeps (on_tabs P) (Login E S inp)"
  unfolding Login_def login_user_def GetKeyBackup_def
  by (rule keeps_add_device keeps_grant triple_intros | assumption)+

lemma keeps_ValidateToken: "keeps (on_tabs Q) (ValidateToken E S tok)"
  unfolding ValidateToken_def by (intro triple_intros)

lemma keeps_sessions:
  "keeps (on_tabs P) (RevokeToken E S tok)" "keeps (on_tabs P) (RevokeDevice u dev)" "keeps (on_tabs P) (RenameDevice u dev name)"
  "keeps (on_tabs P) CleanupExpiredTokens"
  unfolding RevokeToken_def RevokeDevice_def RenameDevice_def CleanupExpiredTokens_def
  by (intro triple_intros keeps_ValidateToken laws; simp add: rename laws)+

lemma keeps_proxy: "keeps (on_tabs P) (CreateProxySession E home ht uid did n)" "keeps (on_tabs P) (GetProxySessionByToken E tok)"
  unfolding CreateProxySession_def GetProxySessionByToken_def
  by (intro triple_intros; simp add: frames)+

lemma keeps_bundle: "keeps (on_tabs P) (GetBundleForUser E D u)"
  by (intro keeps_GetBundleForUser laws)

lemma keeps_no_bundle: "keeps (on_tabs Q) (GetBundle E D u dv)"
  unfolding GetBundle_invalid by (rule keeps_ret)

lemma keeps_device_list: "keeps (on_tabs Q) (ListDevicesForUser E D u)"
  unfolding ListDevicesForUser_def Let_def by (intro triple_intros)

lemma keeps_key_status: "keeps (on_tabs Q) (GetKeyStatus dev)"
  unfolding GetKeyStatus_def by (intro triple_intros)

lemma keeps_uploads: "seals good (kd_enc D) \<Longrightarrow> keeps (on_tabs P) (UpdateKeys E D user dev spk sg spkID prekeys signKey)"
  unfolding UpdateKeys_def put_signed_prekey_def put_prekey_def
  by (rule seal_binds triple_intros laws | assumption | simp)+

lemma keeps_clean_prekeys: "keeps (on_tabs P) CleanupOldConsumedPrekeys"
  by (intro keeps_Cleanup laws)

lemma keeps_Send': "keeps (on_tabs P) (Send E (relay_service E d) inp)"
  by (intro keeps_Send laws)

lemma keeps_AcceptTransaction: "keeps (on_tabs P) (AcceptTransaction evs)"
  unfolding AcceptTransaction_def accept_event_def by (intro triple_intros laws)

lemma keeps_checks:
  "keeps (on_tabs Q) (can_read E (relay_service E d) reader u recipient)" "keeps (on_tabs Q) (sync_addrs (relay_service E d) u)"
  unfolding can_read_def sync_addrs_def relay_service_def
  by (intro triple_intros; auto intro!: rooms_checker.keeps_IsMember rooms_checker.keeps_addrs triple_intros split: if_splits)+

lemma keeps_Sync: "keeps (on_tabs P) (Sync E (relay_service E d) u dev since lim)"
  unfolding Sync_def sync_finish_def deliver_def Let_def by (intro triple_intros keeps_checks laws)

lemma keeps_MarkRead: "keeps (on_tabs P) (MarkRead E (relay_service E d) reader u eids)"
  unfolding MarkRead_def read_one_def by (intro triple_intros keeps_checks laws)

lemma keeps_push: "keeps (on_tabs P) (Subscribe u dev ep k au)" "keeps (on_tabs P) (Unsubscribe ep)"
  unfolding Subscribe_def Unsubscribe_def by (intro triple_intros laws; simp add: frames)+

lemma keeps_put: "(\<And>t. P t \<Longrightarrow> P (g t)) \<Longrightarrow> keeps (on_tabs P) (stmt (\<lambda>t. (Inr (), g t)))"
  by (rule keeps_stmt) simp

lemma keeps_cell: "seals good c \<Longrightarrow> (\<And>t e. P t \<Longrightarrow> good e \<Longrightarrow> P (upd (fst x) e t)) \<Longrightarrow> keeps (on_tabs P) (encrypt_cell c upd x)"
  unfolding encrypt_cell_def by (rule triple_case_prod, rule triple_if, rule keeps_ret) (rule seal_binds triple_intros | assumption | simp)+

lemma triple_maybe_seal: "seals good c \<Longrightarrow> triple (on_tabs Q) (maybe_enc c v) (\<lambda>r s. on_tabs Q s \<and> (\<forall>x. r = Inr x \<longrightarrow> good x))"
  unfolding maybe_enc_def using triple_seal [of c Q v] sealed by (auto simp: triple_def)

lemma keeps_device_keys: "seals good c \<Longrightarrow> keeps (on_tabs P) (encrypt_device c d)"
proof -
  have "P (upd_device_keys i ik spk sg t)" if "P t" "good ik" "good spk" "good sg" for t i ik spk sg
    unfolding upd_device_keys_def using that by (intro change_dev) auto
  then show "seals good c \<Longrightarrow> ?thesis" unfolding encrypt_device_def
    by - (rule keeps_bind_fact [OF triple_maybe_seal] triple_intros | assumption | simp)+
qed

lemma keeps_startup: "seals good c \<Longrightarrow> keeps (on_tabs P) (EncryptExisting c)"
proof -
  have u: "P t \<Longrightarrow> good e \<Longrightarrow> P (upd_users k e t)" "P t \<Longrightarrow> good e \<Longrightarrow> P (upd_otpks k e t)"
    "P t \<Longrightarrow> good e \<Longrightarrow> P (upd_tokens k e t)" "P t \<Longrightarrow> good e \<Longrightarrow> P (upd_salts k e t)" for t k e
    unfolding upd_users_def upd_otpks_def upd_tokens_def upd_salts_def
    by (rule change_user change_otpk tokens salts; force simp: kept_or_def)+
  show "seals good c \<Longrightarrow> ?thesis" unfolding EncryptExisting_def
    by (rule triple_if keeps_ret keeps_encrypt_column keeps_device_keys keeps_cell u | assumption)+
qed

lemma keeps_seed: "keeps (on_tabs P) (SeedFromJSON V json)"
  unfolding SeedFromJSON_def seed_node_def undefault_def put_seed_def checked_nodes_def
  by (intro triple_intros) (simp_all add: frames)

lemmas services = keeps_Register keeps_Login keeps_ValidateToken keeps_sessions keeps_proxy keeps_StoreKeyBackup' keeps_bundle keeps_no_bundle keeps_device_list keeps_key_status keeps_uploads keeps_clean_prekeys keeps_Send'
  keeps_AcceptTransaction keeps_Sync keeps_MarkRead keeps_push create invite leave transfer remove

end

section \<open>Programs on a node\<close>

text \<open>What touches the database only through its session.\<close>

lemma nd_notify_all: "nd_sess (notify_all ps n) = nd_sess n"
  by (induction ps n rule: notify_all.induct) (auto split: option.splits prod.splits)

lemma keeps_node_rest [world_intros]:
  "keeps (on_nd Q) (record_trust E origin)"
  "keeps (on_nd Q) (State (\<lambda>n. ((), notify_all ps n)))"
  by (auto simp: triple_def on_nd_def record_trust_def nd_notify_all split: option.splits prod.splits)

lemma keeps_with_origin: "keeps (on_nd Q) k \<Longrightarrow> keeps (on_nd Q) (with_origin E N origin r body k)"
  unfolding with_origin_def by (intro triple_intros world_intros)

lemma keeps_relay_txn [world_intros]: "keeps (on_nd Q) (relay_txn E N H req)"
  unfolding relay_txn_def by (intro triple_intros world_intros)

lemma keeps_find_home [world_intros]: "keeps (on_nd Q) (find_home E N fed name ps)"
  by (induction ps) (auto intro!: triple_intros world_intros split: option.splits)

lemma keeps_lookup_all [world_intros]: "keeps (on_nd Q) (lookup_all E N fed q us ps)"
  by (induction ps arbitrary: us) (auto intro!: triple_intros world_intros)

context table_inv
begin

lemma keeps_hub_peers: "keeps (on_nd P) (hub_peers E N hub_name my db)"
proof -
  have m: "keeps (on_nd P) (if db then mfold (\<lambda>_ s. on_sess (stmt (upsert_peer s False))) (Inr ()) xs else ret (Inr ()))" for xs
    by (intro triple_intros world_intros laws)
  have "keeps (on_nd P) (do { n1 \<leftarrow> State_Monad.get; _ \<leftarrow> State_Monad.set (n1\<lparr>nd_servers := (hub_name, found, go_now (nd_sess n1) + serversCacheTTL)\<rparr>);
      _ \<leftarrow> (if db then mfold (\<lambda>_ s. on_sess (stmt (upsert_peer s False))) (Inr ()) xs else ret (Inr ())); ret (Inr y) })" (is "keeps _ ?m") for found xs and y :: "string set"
  proof (rule tripleI)
    fix n r n' assume n: "on_nd P n" "run_state ?m n = (r, n')"
    let ?n = "n\<lparr>nd_servers := (hub_name, found, go_now (nd_sess n) + serversCacheTTL)\<rparr>"
    have "n' = snd (run_state (if db then mfold (\<lambda>_ s. on_sess (stmt (upsert_peer s False))) (Inr ()) xs else ret (Inr ())) ?n)"
      using n(2) by (auto simp: split: prod.splits)
    moreover have "on_nd P ?n" using n(1) by (simp add: on_nd_def)
    ultimately show "on_nd P n'" using tripleD_snd [OF m] by blast
  qed
  note c = this
  show ?thesis unfolding hub_peers_def
    by (rule keeps_bind [OF keeps_get], rule triple_case_prod, rule triple_case_prod, rule triple_if, rule keeps_ret,
        rule keeps_bind [OF keeps_on_net], rule triple_case_sum, rule keeps_ret, rule c)
qed

lemma keeps_peers: "keeps (on_nd P) (getFederationPeers E N db cl ps hub_name dm)"
  unfolding getFederationPeers_def Let_def by (intro triple_intros world_intros keeps_hub_peers)

lemma keeps_authVerify:
  assumes "\<And>A. fh_auth H = Some A \<Longrightarrow> seals good (au_enc A)"
  shows "keeps (on_nd P) (authVerify E N unm H r)"
  unfolding authVerify_def authVerify_body_def Let_def
  by (rule keeps_with_origin services triple_intros world_intros assms | assumption)+

lemma keeps_register_peer: "keeps (on_nd P) (register_handler E N H r)"
  unfolding register_handler_def Let_def by (intro triple_intros world_intros keeps_with_origin laws)

lemma keeps_transaction: "keeps (on_nd P) (transaction_handler E N H r)"
  unfolding transaction_handler_def transaction_body_def deliver_txn_def Let_def
  by (intro triple_intros world_intros keeps_with_origin services laws)

lemma keeps_servers: "keeps (on_nd Q) (federationServers E collate H)"
  unfolding federationServers_def Let_def by (intro triple_intros world_intros)

lemma keeps_fed_devices: "keeps (on_nd Q) (getDevices E H u)"
  unfolding getDevices_def Let_def by (intro triple_intros world_intros keeps_device_list)

lemma keeps_fed_keys: "keeps (on_nd Q) (getKeys E H u dv)"
  unfolding getKeys_def by (intro triple_intros world_intros keeps_no_bundle)

lemma keeps_users_lookup: "keeps (on_nd Q) (usersLookup E N H u r)"
  unfolding usersLookup_def Let_def by (intro triple_intros world_intros keeps_with_origin)

text \<open>The handlers of messages, when the relay asks the room service of this server.\<close>

lemma keeps_own_addr: "keeps (on_world Q) (own_addr H c)"
  unfolding own_addr_def GetUsername_def by (intro triple_intros world_intros)

lemma keeps_send:
  assumes "rh_relay H = relay_service E d"
  shows "keeps (on_world P) (send_handler E N J H r c)"
  by (rule keeps_send_handler) (unfold assms, rule keeps_Send')

lemma keeps_typing: "keeps (on_world Q) (typing_handler E J H r c)"
  unfolding typing_handler_def Members_def Get_def by (intro triple_intros world_intros keeps_own_addr)

lemma keeps_read:
  assumes "rh_relay H = relay_service E d"
  shows "keeps (on_world P) (read_handler E J H r c)"
  unfolding read_handler_def assms by (intro triple_intros world_intros keeps_own_addr services)

lemma keeps_sync:
  assumes "rh_relay H = relay_service E d"
  shows "keeps (on_world P) (sync_handler E H r c)"
  unfolding sync_handler_def assms Let_def by (intro triple_intros world_intros services)

lemma keeps_get_bundle: "keeps (on_world P) (getBundleForUser E N J H r)"
  unfolding getBundleForUser_def remote_bundle_def Let_def by (intro triple_intros world_intros services)

lemma keeps_get_bundle_device: "keeps (on_world P) (getBundle_handler E N H r)"
  unfolding getBundle_handler_def Let_def by (intro triple_intros world_intros services)

lemma keeps_list_devices: "keeps (on_world P) (listDevicesForUser_handler E N H r)"
  unfolding listDevicesForUser_handler_def Let_def by (intro triple_intros world_intros services)

lemma keeps_keysStatus: "keeps (on_world P) (keysStatus E c)"
  unfolding keysStatus_def by (intro triple_intros world_intros services)

lemma keeps_updateKeys: "seals good (kd_enc (kh_keydir H)) \<Longrightarrow> keeps (on_world P) (updateKeys E J H r c)"
  unfolding updateKeys_def Let_def by (rule services triple_intros world_intros | assumption)+

lemma keeps_with_room: "(\<And>i. keeps I (k i)) \<Longrightarrow> keeps I (with_room E r k)"
  unfolding with_room_def by (intro triple_intros)

lemma keeps_with_target: "(\<And>i. keeps (on_world Q) (k i)) \<Longrightarrow> keeps (on_world Q) (with_target E J dm r k)"
  unfolding with_target_def ResolveUserID_def Let_def by (intro triple_intros world_intros)

lemma keeps_room_reads:
  "keeps (on_world Q) (list_rooms E c) \<and> keeps (on_world Q) (get_room E r c) \<and> keeps (on_world Q) (members_handler E r c)"
  unfolding list_rooms_def List_rooms_def get_room_def members_handler_def Members_def Get_def
  by (intro conjI triple_intros world_intros keeps_with_room)

lemma keeps_room_writes:
  "keeps (on_world P) (create_room E J dm r c) \<and> keeps (on_world P) (leave_handler E r c) \<and> keeps (on_world P) (invite_handler E J dm r c)
    \<and> keeps (on_world P) (transferCreator_handler E J dm r c) \<and> keeps (on_world P) (removeMember_handler E J dm r c)"
  unfolding create_room_def leave_handler_def invite_handler_def transferCreator_handler_def removeMember_handler_def
  by (intro conjI triple_intros world_intros keeps_with_room keeps_with_target services)

lemma keeps_push_handlers:
  "keeps (on_world P) (subscribe_handler E J S r c) \<and> keeps (on_world P) (unsubscribe_handler J r)"
  unfolding subscribe_handler_def unsubscribe_handler_def by (intro conjI triple_intros world_intros services)

text \<open>Accounts.\<close>

lemma keeps_register_account: "seals good (au_enc (ah_auth H)) \<Longrightarrow> keeps (on_world P) (register_account E K H r)"
  unfolding register_account_def by (rule services triple_intros world_intros | assumption)+

lemma keeps_federated_login: "keeps (on_world P) (federated_login E N K fed dm name req)"
  unfolding federated_login_def by (intro triple_intros world_intros services)

lemma keeps_login: "seals good (au_enc (ah_auth H)) \<Longrightarrow> keeps (on_world P) (login_handler E N K H r)"
  unfolding login_handler_def discover_login_def Let_def
  by (rule services keeps_federated_login keeps_peers triple_intros world_intros | assumption)+

lemma keeps_account_handlers:
  "keeps (on_world P) (wsToken E H c) \<and> keeps (on_world P) (listDevices E c) \<and> keeps (on_world P) (revokeDevice E r c)
    \<and> keeps (on_world P) (renameDevice E K r c) \<and> keeps (on_world P) (logout E H r)"
  unfolding wsToken_def IssueWSToken_def listDevices_def ListDevices_def revokeDevice_def renameDevice_def with_device_param_def logout_def Let_def
  by (intro conjI triple_intros world_intros services)

lemma triple_on_db: "triple (on_tabs Q) m (\<lambda>r s. on_tabs Q s \<and> F r) \<Longrightarrow> triple (on_world Q) (on_db m) (\<lambda>r w. on_world Q w \<and> F r)"
  by (fastforce simp: triple_def on_world_def on_tabs_def run_on_node run_on_sess split: prod.splits)

lemma keeps_backup_handlers:
  assumes "seals good (au_enc (ah_auth H))"
  shows "keeps (on_world P) (prepare H c) \<and> keeps (on_world P) (syncKeys K H r c) \<and> keeps (on_world P) (getSalt H c)"
  unfolding prepare_def syncKeys_def getSalt_def
  by (rule conjI keeps_bind_fact [OF triple_on_db [OF triple_seal]] services laws triple_intros world_intros assms | assumption | simp)+

lemma keeps_vpn: "keeps (on_world P) (vpn_revoke E H r c) \<and> keeps (on_world P) (vpn_getConfig E H r c)"
  by (rule keeps_vpn_handlers [OF issue withdraw])

lemma keeps_search: "keeps (on_world P) (search_users E N K H r)"
  unfolding search_users_def Let_def by (intro triple_intros world_intros keeps_peers)

lemma keeps_stats: "keeps (on_world P) stats"
  unfolding stats_def by (intro triple_intros world_intros)

lemma keeps_protected:
  assumes "\<And>c. keeps (on_world P) (h c)"
  shows "keeps (on_world P) (protected E N S r h)"
  unfolding protected_def AuthMiddleware_def ProxyForwardMiddleware_def Let_def
  by (intro triple_intros world_intros services assms)

end

section \<open>Interpretations\<close>

text \<open>Predicates that do not look at rooms.\<close>

lemma rooms_aside:
  assumes ign: "\<And>t a b. Q t \<Longrightarrow> Q (t\<lparr>tb_rooms := a, tb_members := b\<rparr>)"
    and undo: "\<And>snap cur. Q snap \<Longrightarrow> seqs_le snap cur \<Longrightarrow> Q (restore snap cur)"
  shows "keeps (on_tabs Q) (Create dm name uid)" "keeps (on_tabs Q) (Invite room x y)" "keeps (on_tabs Q) (Leave room x)"
    "keeps (on_tabs Q) (TransferCreator room x y)" "keeps (on_tabs Q) (Remove room x y)"
proof -
  have f: "Q (t\<lparr>tb_rooms := a\<rparr>)" "Q (t\<lparr>tb_members := b\<rparr>)" if "Q t" for t a b
    using ign [OF that, where a = a and b = "tb_members t"] ign [OF that, where a = "tb_rooms t" and b = b] by simp_all
  have s: "Q t \<Longrightarrow> Q (snd (ins_room i n d c t))" "Q t \<Longrightarrow> Q (snd (ins_member i u role t))" "Q t \<Longrightarrow> Q (snd (ins_member_if_absent i u t))"
    "Q t \<Longrightarrow> Q (snd (del_member i u t))" "Q t \<Longrightarrow> Q (snd (upd_role i u role t))" "Q t \<Longrightarrow> Q (snd (upd_creator u i t))" for t i n d c u role
    by (simp_all add: ins_room_def ins_member_def ins_member_if_absent_def del_member_def upd_role_def upd_creator_def put_role_def put_creator_def f)
  have q: "seqs_le s t \<Longrightarrow> seqs_le s (snd (upd_role i u role t))" "seqs_le s t \<Longrightarrow> seqs_le s (snd (upd_creator u i t))" for s t i u role
    by (simp_all add: seqs_le_def upd_role_def upd_creator_def put_role_def put_creator_def)
  show "keeps (on_tabs Q) (Create dm name uid)" unfolding Create_def by (intro triple_intros s)
  show "keeps (on_tabs Q) (Invite room x y)" unfolding Invite_def by (intro triple_intros keeps_exec s)
  show "keeps (on_tabs Q) (Leave room x)" unfolding Leave_def by (intro triple_intros keeps_exec s)
  show "keeps (on_tabs Q) (TransferCreator room x y)"
    unfolding TransferCreator_def transfer_body_def by (intro triple_intros keeps_in_tx_then_seqs undo keeps_exec s q)
  show "keeps (on_tabs Q) (Remove room x y)" unfolding Remove_def by (intro triple_intros keeps_exec s)
qed

definition accounts_inv :: "tables \<Rightarrow> bool" where
  "accounts_inv t \<longleftrightarrow> distinct (map u_id (tb_users t)) \<and> (\<forall>u \<in> set (tb_users t). u_id u < seq_users t)
     \<and> distinct (map (\<lambda>u. (u_username u, u_domain u)) (tb_users t))
     \<and> distinct (map d_id (tb_devices t)) \<and> d_user ` set (tb_devices t) \<subseteq> u_id ` set (tb_users t)"

definition queue_inv :: "tables \<Rightarrow> bool" where
  "queue_inv t \<longleftrightarrow> distinct (map m_event_id (tb_msgs t)) \<and> (\<forall>m \<in> set (tb_msgs t). m_status m \<in> {''queued'', ''delivered''} \<and> m_type m = ''m.room.encrypted'')"

text \<open>What each invariant looks at.\<close>

lemma rooms_inv_frame:
  "rooms_inv t \<Longrightarrow> tb_rooms u = tb_rooms t \<Longrightarrow> tb_members u = tb_members t \<Longrightarrow> u_id ` set (tb_users t) \<subseteq> u_id ` set (tb_users u) \<Longrightarrow> rooms_inv u"
  by (fastforce simp: rooms_inv_def)

lemma accounts_inv_frame:
  "accounts_inv t \<Longrightarrow> tb_users u = tb_users t \<Longrightarrow> tb_devices u = tb_devices t \<Longrightarrow> seq_users t \<le> seq_users u \<Longrightarrow> accounts_inv u"
  by (fastforce simp: accounts_inv_def)

lemma queue_inv_frame: "queue_inv t \<Longrightarrow> tb_msgs u = tb_msgs t \<Longrightarrow> queue_inv u"
  by (simp add: queue_inv_def)

lemma spent_frame: "spent i dv k t \<Longrightarrow> tb_otpks u = tb_otpks t \<Longrightarrow> seq_otpks t \<le> seq_otpks u \<Longrightarrow> spent i dv k u"
  by (fastforce simp: spent_def otpk_inv_def)

lemma claim_frame:
  "tb_users (snd (claim_prekey dev t)) = tb_users t" "tb_devices (snd (claim_prekey dev t)) = tb_devices t" "tb_msgs (snd (claim_prekey dev t)) = tb_msgs t"
  "tb_rooms (snd (claim_prekey dev t)) = tb_rooms t" "tb_members (snd (claim_prekey dev t)) = tb_members t"
  "seq_users (snd (claim_prekey dev t)) = seq_users t" "seq_wg (snd (claim_prekey dev t)) = seq_wg t" "tb_vpeers (snd (claim_prekey dev t)) = tb_vpeers t"
  "tb_backups (snd (claim_prekey dev t)) = tb_backups t"
  by (simp_all add: claim_prekey_def split: list.splits)

lemma ins_msg_frame:
  "tb_users (snd (ins_msg eid from to sdev ct cts sid ts ex t)) = tb_users t" "tb_devices (snd (ins_msg eid from to sdev ct cts sid ts ex t)) = tb_devices t"
  "tb_otpks (snd (ins_msg eid from to sdev ct cts sid ts ex t)) = tb_otpks t" "tb_rooms (snd (ins_msg eid from to sdev ct cts sid ts ex t)) = tb_rooms t"
  "tb_members (snd (ins_msg eid from to sdev ct cts sid ts ex t)) = tb_members t" "seq_users (snd (ins_msg eid from to sdev ct cts sid ts ex t)) = seq_users t"
  "seq_otpks (snd (ins_msg eid from to sdev ct cts sid ts ex t)) = seq_otpks t" "seq_wg (snd (ins_msg eid from to sdev ct cts sid ts ex t)) = seq_wg t"
  "tb_vpeers (snd (ins_msg eid from to sdev ct cts sid ts ex t)) = tb_vpeers t" "tb_tokens (snd (ins_msg eid from to sdev ct cts sid ts ex t)) = tb_tokens t"
  "tb_salts (snd (ins_msg eid from to sdev ct cts sid ts ex t)) = tb_salts t" "tb_backups (snd (ins_msg eid from to sdev ct cts sid ts ex t)) = tb_backups t"
  by (simp_all add: ins_msg_def split: option.splits)

lemmas statement_frames = core_def restore_def seqs_le_def claim_frame ins_msg_frame ins_user_def ins_device_def ins_otpk_def mark_delivered_def Let_def

lemma rooms_vpn: "rooms_inv t \<Longrightarrow> seq_wg t \<le> k \<Longrightarrow> rooms_inv (t\<lparr>tb_vpeers := ps, seq_wg := k\<rparr>)"
  by (erule rooms_inv_frame) simp_all

interpretation ti_rooms: table_inv rooms_inv "\<lambda>_. True"
  by (unfold_locales; (rule vpn_aside [of rooms_inv, OF rooms_vpn] keeps_Create keeps_Invite keeps_Leave keeps_TransferCreator keeps_Remove
    | (erule rooms_inv_frame; simp add: statement_frames image_image; fastforce?) | simp))

lemma accounts_aside: "accounts_inv t \<Longrightarrow> accounts_inv (t\<lparr>tb_rooms := a, tb_members := b\<rparr>)"
  by (simp add: accounts_inv_def)

lemma accounts_undo: "accounts_inv snap \<Longrightarrow> seqs_le snap cur \<Longrightarrow> accounts_inv (restore snap cur)"
  by (erule accounts_inv_frame) (simp_all add: restore_def seqs_le_def)

lemma accounts_vpn: "accounts_inv t \<Longrightarrow> seq_wg t \<le> k \<Longrightarrow> accounts_inv (t\<lparr>tb_vpeers := ps, seq_wg := k\<rparr>)"
  by (erule accounts_inv_frame) simp_all

lemmas accounts_rooms = rooms_aside [of accounts_inv, OF accounts_aside accounts_undo] vpn_aside [of accounts_inv, OF accounts_vpn]

lemma accounts_add_user: "accounts_inv t \<Longrightarrow> accounts_inv (snd (ins_user n dm ph t))"
proof (cases "list_ex (\<lambda>u. u_domain u = dm \<and> u_username u = n) (tb_users t)")
  case True
  assume "accounts_inv t"
  then show ?thesis by (rule accounts_inv_frame) (use True in \<open>simp_all add: ins_user_def Let_def\<close>)
next
  case False
  assume a: "accounts_inv t"
  then have "seq_users t \<notin> u_id ` set (tb_users t)" by (auto simp: accounts_inv_def)
  moreover have "(n, dm) \<notin> (\<lambda>u. (u_username u, u_domain u)) ` set (tb_users t)" using False by (auto simp: list_ex_iff)
  moreover have "u_id u < seq_users t + 1" if "u \<in> set (tb_users t)" for u using a that by (fastforce simp: accounts_inv_def)
  ultimately show ?thesis using a False by (auto simp: accounts_inv_def ins_user_def Let_def)
qed

lemma accounts_change_user:
  "accounts_inv t \<Longrightarrow> (\<And>u. u_id (fu u) = u_id u \<and> u_username (fu u) = u_username u \<and> u_domain (fu u) = u_domain u)
    \<Longrightarrow> accounts_inv (t\<lparr>tb_users := map fu (tb_users t)\<rparr>)"
  by (auto simp: accounts_inv_def comp_def image_image)

lemma accounts_devices:
  "accounts_inv t \<Longrightarrow> accounts_inv (snd (ins_device dev uid ik spk sg kid t))"
  "accounts_inv t \<Longrightarrow> (\<And>d. d_id (fd d) = d_id d \<and> d_user (fd d) = d_user d) \<Longrightarrow> accounts_inv (t\<lparr>tb_devices := map fd (tb_devices t)\<rparr>)"
  "accounts_inv t \<Longrightarrow> accounts_inv (t\<lparr>tb_devices := filter A (tb_devices t), tb_otpks := filter B (tb_otpks t), tb_vpeers := ps\<rparr>)"
  by (auto simp: accounts_inv_def ins_device_def comp_def image_image distinct_map_filterI)

interpretation ti_accounts: table_inv accounts_inv "\<lambda>_. True"
  by (unfold_locales; (rule accounts_rooms | erule accounts_undo accounts_add_user accounts_change_user accounts_devices; assumption?
    | (erule accounts_inv_frame; simp add: statement_frames) | simp))

lemma queue_undo: "queue_inv snap \<Longrightarrow> seqs_le snap cur \<Longrightarrow> queue_inv (restore snap cur)"
  by (simp add: queue_inv_def restore_def)

lemmas queue_rooms = rooms_aside [of queue_inv, OF _ queue_undo] vpn_aside [of queue_inv]

lemma queue_msgs: "queue_inv t \<Longrightarrow> queue_inv (snd (ins_msg eid from to sdev ct cts sid ts expires t))" "queue_inv t \<Longrightarrow> queue_inv (snd (mark_delivered eid t))"
  by (auto simp: queue_inv_def ins_msg_def mark_delivered_def comp_def if_distrib split: option.splits cong: if_cong)

interpretation ti_queue: table_inv queue_inv "\<lambda>_. True"
  by (unfold_locales; (rule queue_rooms; simp add: queue_inv_def | erule queue_undo queue_msgs; assumption?
    | (erule queue_inv_frame; simp add: statement_frames) | simp))

text \<open>One-time prekeys: the invariant of the directory, and a row that has been handed out.\<close>

lemma otpk_inv_frame: "otpk_inv t \<Longrightarrow> tb_otpks u = tb_otpks t \<Longrightarrow> seq_otpks t \<le> seq_otpks u \<Longrightarrow> otpk_inv u"
  by (fastforce simp: otpk_inv_def)

lemma otpk_undo: "otpk_inv snap \<Longrightarrow> seqs_le snap cur \<Longrightarrow> otpk_inv (restore snap cur)"
  by (erule otpk_inv_frame) (simp_all add: restore_def seqs_le_def)

lemma otpk_rows:
  "otpk_inv t \<Longrightarrow> (\<And>p. o_id (fp p) = o_id p \<and> o_device (fp p) = o_device p \<and> o_key_id (fp p) = o_key_id p \<and> o_consumed (fp p) = o_consumed p)
    \<Longrightarrow> otpk_inv (t\<lparr>tb_otpks := map fp (tb_otpks t)\<rparr>)"
  "otpk_inv t \<Longrightarrow> otpk_inv (t\<lparr>tb_otpks := filter B (tb_otpks t)\<rparr>)"
  "otpk_inv t \<Longrightarrow> otpk_inv (t\<lparr>tb_devices := filter A (tb_devices t), tb_otpks := filter B (tb_otpks t), tb_vpeers := ps\<rparr>)"
  by (auto simp: otpk_inv_def comp_def distinct_map_filterI)

lemmas otpk_rooms = rooms_aside [of otpk_inv, OF _ otpk_undo] vpn_aside [of otpk_inv]

interpretation ti_otpks: table_inv otpk_inv "\<lambda>_. True"
  by (unfold_locales; (rule otpk_rooms; simp add: otpk_inv_def | erule otpk_undo inv_claim inv_ins_otpk otpk_rows; assumption?
    | (erule otpk_inv_frame; simp add: statement_frames) | simp))

lemma spent_undo: "spent i dv k snap \<Longrightarrow> seqs_le snap cur \<Longrightarrow> spent i dv k (restore snap cur)"
  by (erule spent_frame) (simp_all add: restore_def seqs_le_def)

lemma spent_add: "spent i dv k t \<Longrightarrow> spent i dv k (snd (ins_otpk dev key_id key t))"
  using spent_ins [of i dv k t dev key_id key] by (simp add: snd_if_absent)

lemma spent_rows:
  "spent i dv k t \<Longrightarrow> (\<And>p. o_id (fp p) = o_id p \<and> o_device (fp p) = o_device p \<and> o_key_id (fp p) = o_key_id p \<and> o_consumed (fp p) = o_consumed p)
    \<Longrightarrow> spent i dv k (t\<lparr>tb_otpks := map fp (tb_otpks t)\<rparr>)"
  "spent i dv k t \<Longrightarrow> spent i dv k (t\<lparr>tb_devices := filter A (tb_devices t), tb_otpks := filter B (tb_otpks t), tb_vpeers := ps\<rparr>)"
  by (auto simp: spent_def otpk_inv_def comp_def distinct_map_filterI)

lemmas spent_rooms = rooms_aside [of "spent i dv k", OF _ spent_undo] vpn_aside [of "spent i dv k"] for i dv k

interpretation ti_spent: table_inv "spent i dv k" "\<lambda>_. True" for i dv k
  by (unfold_locales; (rule spent_rooms; simp add: spent_def otpk_inv_def | erule spent_undo spent_claim spent_add spent_filter spent_rows; assumption?
    | (erule spent_frame; simp add: statement_frames) | simp))

text \<open>VPN peers, and the number of addresses given so far.\<close>

lemma vpn_inv_frame:
  assumes "vpn_inv t" "tb_vpeers u = tb_vpeers t" "u_id ` set (tb_users t) \<subseteq> u_id ` set (tb_users u)" "d_id ` set (tb_devices t) \<subseteq> d_id ` set (tb_devices u)"
    and "seq_wg t \<le> seq_wg u"
  shows "vpn_inv u"
proof (rule vpn_invI, goal_cases)
  case (3 p a)
  then show ?case using vpn_invD(3) [OF assms(1), of p a] assms(2,5) by force
next
  case (4 p q a)
  then show ?case using vpn_invD(4) [OF assms(1), of p q a] assms(2) by simp
qed (use vpn_invD(1,2,5) [OF assms(1)] assms in auto)

lemma vpn_rooms: "vpn_inv t \<Longrightarrow> vpn_inv (t\<lparr>tb_rooms := a, tb_members := b\<rparr>)"
  by (erule vpn_inv_frame) simp_all

interpretation ti_wg: table_inv "\<lambda>t. k \<le> seq_wg t" "\<lambda>_. True" for k
  by (unfold_locales; (rule rooms_aside vpn_aside; simp add: statement_frames)?; (simp add: statement_frames)?)

lemma vpn_undo: "vpn_inv snap \<Longrightarrow> seqs_le snap cur \<Longrightarrow> vpn_inv (restore snap cur)"
  by (erule vpn_inv_frame) (simp_all add: restore_def seqs_le_def)

lemma vpn_drop_dev:
  assumes i: "vpn_inv t" and d: "\<And>d p. d \<in> set (tb_devices t) \<Longrightarrow> \<not> A d \<Longrightarrow> C p \<Longrightarrow> vp_device p \<noteq> d_id d"
  shows "vpn_inv (t\<lparr>tb_devices := filter A (tb_devices t), tb_otpks := filter B (tb_otpks t), tb_vpeers := filter C (tb_vpeers t)\<rparr>)"
proof -
  note v = vpn_invD [OF vpn_inv_drop [OF i, of C]]
  have "vp_device p \<in> d_id ` set (filter A (tb_devices t))" if "p \<in> set (tb_vpeers t)" "C p" for p
    using vpn_invD(2) [OF i that(1)] d [OF _ _ that(2)] by fastforce
  then show ?thesis using v by (intro vpn_invI) auto
qed

lemma vpn_accounts:
  "vpn_inv t \<Longrightarrow> vpn_inv (snd (ins_user n dm ph t))"
  "vpn_inv t \<Longrightarrow> (\<And>u. u_id (fu u) = u_id u \<and> u_username (fu u) = u_username u \<and> u_domain (fu u) = u_domain u) \<Longrightarrow> vpn_inv (t\<lparr>tb_users := map fu (tb_users t)\<rparr>)"
  "vpn_inv t \<Longrightarrow> vpn_inv (snd (ins_device dev uid ik spk sg kid t))"
  "vpn_inv t \<Longrightarrow> (\<And>d. d_id (fd d) = d_id d \<and> d_user (fd d) = d_user d) \<Longrightarrow> vpn_inv (t\<lparr>tb_devices := map fd (tb_devices t)\<rparr>)"
  by (erule vpn_inv_frame; auto simp: ins_user_def ins_device_def Let_def image_image)+

lemmas vpn_services = rooms_aside [of vpn_inv, OF vpn_rooms vpn_undo] vpn_keeps_inv

interpretation ti_vpn: table_inv vpn_inv "\<lambda>_. True"
  by (unfold_locales; (rule vpn_services | erule vpn_undo vpn_drop_dev vpn_accounts; assumption?
    | (erule vpn_inv_frame; simp add: statement_frames) | simp))

text \<open>Nothing in plain text, in the columns the start-up migration covers.\<close>

lemma all_encrypted_frame:
  assumes "all_encrypted t" "tb_users u = tb_users t" "tb_devices u = tb_devices t" "tb_otpks u = tb_otpks t"
    and "kept_or IsEncrypted (map a_hash (tb_tokens t)) (map a_hash (tb_tokens u))" "kept_or IsEncrypted (map bs_salt (tb_salts t)) (map bs_salt (tb_salts u))"
  shows "all_encrypted u"
proof -
  have "IsEncrypted (a_hash a)" if "a \<in> set (tb_tokens u)" for a
    using assms(1,5) that by (force simp: all_encrypted_def kept_or_def)
  moreover have "IsEncrypted (bs_salt b)" if "b \<in> set (tb_salts u)" for b
    using assms(1,6) that by (force simp: all_encrypted_def kept_or_def)
  ultimately show ?thesis using assms(1-4) by (simp add: all_encrypted_def)
qed

lemma kept_or_same [simp]: "kept_or good xs xs"
  by (simp add: kept_or_def)

lemma all_encrypted_rooms: "all_encrypted t \<Longrightarrow> all_encrypted (t\<lparr>tb_rooms := a, tb_members := b\<rparr>)"
  "all_encrypted t \<Longrightarrow> all_encrypted (t\<lparr>tb_vpeers := ps, seq_wg := k\<rparr>)"
  "all_encrypted t \<Longrightarrow> all_encrypted (restore t cur)"
  by (erule all_encrypted_frame; simp add: restore_def)+

lemma all_encrypted_accounts:
  "all_encrypted t \<Longrightarrow> IsEncrypted ph \<Longrightarrow> all_encrypted (snd (ins_user n dm ph t))"
  "all_encrypted t \<Longrightarrow> (\<And>u. u_password_hash (fu u) = u_password_hash u \<or> (\<exists>h. u_password_hash (fu u) = Some h \<and> IsEncrypted h))
    \<Longrightarrow> all_encrypted (t\<lparr>tb_users := map fu (tb_users t)\<rparr>)"
  "all_encrypted t \<Longrightarrow> IsEncrypted ik \<Longrightarrow> IsEncrypted spk \<Longrightarrow> IsEncrypted sg \<Longrightarrow> all_encrypted (snd (ins_device dev uid ik spk sg kid t))"
  "all_encrypted t \<Longrightarrow> (\<And>d. (d_identity_key (fd d) = d_identity_key d \<or> IsEncrypted (d_identity_key (fd d)))
           \<and> (d_signed_prekey (fd d) = d_signed_prekey d \<or> IsEncrypted (d_signed_prekey (fd d)))
           \<and> (d_signed_prekey_sig (fd d) = d_signed_prekey_sig d \<or> IsEncrypted (d_signed_prekey_sig (fd d))))
    \<Longrightarrow> all_encrypted (t\<lparr>tb_devices := map fd (tb_devices t)\<rparr>)"
proof -
  show "all_encrypted t \<Longrightarrow> IsEncrypted ph \<Longrightarrow> all_encrypted (snd (ins_user n dm ph t))"
    "all_encrypted t \<Longrightarrow> IsEncrypted ik \<Longrightarrow> IsEncrypted spk \<Longrightarrow> IsEncrypted sg \<Longrightarrow> all_encrypted (snd (ins_device dev uid ik spk sg kid t))"
    by (auto simp: all_encrypted_def ins_user_def ins_device_def device_plain_def Let_def)
  show "all_encrypted (t\<lparr>tb_users := map fu (tb_users t)\<rparr>)" if "all_encrypted t"
    "\<And>u. u_password_hash (fu u) = u_password_hash u \<or> (\<exists>h. u_password_hash (fu u) = Some h \<and> IsEncrypted h)"
    using that(1) by (simp add: all_encrypted_def) (metis option.inject that(2))
  show "all_encrypted (t\<lparr>tb_devices := map fd (tb_devices t)\<rparr>)" if "all_encrypted t"
    "\<And>d. (d_identity_key (fd d) = d_identity_key d \<or> IsEncrypted (d_identity_key (fd d)))
           \<and> (d_signed_prekey (fd d) = d_signed_prekey d \<or> IsEncrypted (d_signed_prekey (fd d)))
           \<and> (d_signed_prekey_sig (fd d) = d_signed_prekey_sig d \<or> IsEncrypted (d_signed_prekey_sig (fd d)))"
    using that(1) by (simp add: all_encrypted_def device_plain_def) (metis that(2))
qed

lemma all_encrypted_prekeys:
  "all_encrypted t \<Longrightarrow> IsEncrypted key \<Longrightarrow> all_encrypted (snd (ins_otpk dev key_id key t))"
  "all_encrypted t \<Longrightarrow> all_encrypted (snd (claim_prekey dev t))"
  "all_encrypted t \<Longrightarrow> (\<And>p. o_prekey (fp p) = o_prekey p \<or> IsEncrypted (o_prekey (fp p))) \<Longrightarrow> all_encrypted (t\<lparr>tb_otpks := map fp (tb_otpks t)\<rparr>)"
  "all_encrypted t \<Longrightarrow> all_encrypted (t\<lparr>tb_otpks := filter B (tb_otpks t)\<rparr>)"
  "all_encrypted t \<Longrightarrow> all_encrypted (t\<lparr>tb_devices := filter A (tb_devices t), tb_otpks := filter B (tb_otpks t), tb_vpeers := ps\<rparr>)"
proof -
  show m: "all_encrypted (t\<lparr>tb_otpks := map fp (tb_otpks t)\<rparr>)" if "all_encrypted t" "\<And>p. o_prekey (fp p) = o_prekey p \<or> IsEncrypted (o_prekey (fp p))" for fp
    using that(1) by (simp add: all_encrypted_def) (metis that(2))
  show "all_encrypted t \<Longrightarrow> all_encrypted (snd (claim_prekey dev t))"
    by (rule claim_prekey_cases [of dev t]) (simp_all add: m)
qed (auto simp: all_encrypted_def ins_otpk_def Let_def)

lemmas encrypted_services = rooms_aside [of all_encrypted, OF all_encrypted_rooms(1) all_encrypted_rooms(3)] vpn_aside [of all_encrypted, OF all_encrypted_rooms(2)]

interpretation ti_sealed: table_inv all_encrypted IsEncrypted
  by (unfold_locales; (rule encrypted_services; assumption? | erule all_encrypted_rooms all_encrypted_accounts all_encrypted_prekeys; assumption?
    | (erule all_encrypted_frame; simp add: statement_frames) | simp add: all_encrypted_def device_plain_def))

text \<open>The backups of keys, which the migration leaves as they are.\<close>

definition backups_sealed :: "tables \<Rightarrow> bool" where
  "backups_sealed t \<longleftrightarrow> (\<forall>k \<in> set (tb_backups t). IsEncrypted (kb_bundle k))"

definition sealed_rows :: "tables \<Rightarrow> bool" where
  "sealed_rows t \<longleftrightarrow> all_encrypted t \<and> backups_sealed t"

lemma sealed_rowsI:
  assumes "sealed_rows t" "all_encrypted u" "kept_or IsEncrypted (map kb_bundle (tb_backups t)) (map kb_bundle (tb_backups u))"
  shows "sealed_rows u"
  using assms by (force simp: sealed_rows_def backups_sealed_def kept_or_def)

lemma sealed_rowsD: "sealed_rows t \<Longrightarrow> all_encrypted t"
  by (simp add: sealed_rows_def)

lemma sealed_rows_aside:
  "sealed_rows t \<Longrightarrow> all_encrypted u \<Longrightarrow> tb_backups u = tb_backups t \<Longrightarrow> sealed_rows u"
  by (erule sealed_rowsI) simp_all

lemma sealed_rows_rooms: "sealed_rows t \<Longrightarrow> sealed_rows (t\<lparr>tb_rooms := a, tb_members := b\<rparr>)"
  by (rule sealed_rows_aside, assumption, erule all_encrypted_rooms [OF sealed_rowsD]) simp

lemma sealed_rows_vpn: "sealed_rows t \<Longrightarrow> sealed_rows (t\<lparr>tb_vpeers := ps, seq_wg := k\<rparr>)"
  by (rule sealed_rows_aside, assumption, erule all_encrypted_rooms [OF sealed_rowsD]) simp

lemma sealed_rows_undo: "sealed_rows t \<Longrightarrow> sealed_rows (restore t cur)"
  by (rule sealed_rows_aside, assumption, erule all_encrypted_rooms(3) [OF sealed_rowsD]) (simp add: restore_def)

lemmas vault_services = rooms_aside [of sealed_rows, OF sealed_rows_rooms sealed_rows_undo] vpn_aside [of sealed_rows, OF sealed_rows_vpn]

interpretation ti_vault: table_inv sealed_rows IsEncrypted
  by (unfold_locales; (rule vault_services; assumption? | erule sealed_rows_undo
    | (rule sealed_rowsI, assumption, drule sealed_rowsD,
       (erule all_encrypted_accounts all_encrypted_prekeys; assumption? | (erule all_encrypted_frame; simp add: statement_frames)), simp add: statement_frames)
    | simp add: sealed_rows_def all_encrypted_def device_plain_def))

end
