(* ===== verification/Media.thy ===== *)
theory Media
  imports Api Config
begin

text \<open>
  Encrypted attachments: package \<open>media\<close> (\<open>src/server/internal/media/media.go\<close>) and its handlers
  (\<open>src/server/internal/api/handlers_media.go\<close>). The bucket is a part of the state; what the MinIO
  client does with a request is a parameter. Parsing the endpoint as a URL is the library's.
\<close>

section \<open>The object store\<close>

text \<open>
  \<open>s3_put\<close> says of a \<open>PutObject\<close> whether the object is stored and whether the call succeeds,
  \<open>s3_get_err\<close> whether \<open>GetObject\<close> fails before anything is read, \<open>s3_read\<close> what reading an object
  gives when \<open>SetRange\<close> was called with two numbers (or not), \<open>s3_stat\<close> whether \<open>StatObject\<close> answers,
  \<open>s3_url\<close> scheme, host name and port of \<open>url.Parse\<close>; \<open>s3_connect\<close> whether \<open>minio.New\<close> accepts an
  endpoint, \<open>s3_exists\<close> the answer of \<open>BucketExists\<close> (\<open>None\<close> for an error), \<open>s3_make\<close> whether
  \<open>MakeBucket\<close> succeeds.
\<close>

record s3_client =
  s3_put :: "(string \<Rightarrow> bytes option) \<Rightarrow> string \<Rightarrow> bool \<times> bool"
  s3_get_err :: "(string \<Rightarrow> bytes option) \<Rightarrow> string \<Rightarrow> bool"
  s3_read :: "(int \<times> int) option \<Rightarrow> bytes \<Rightarrow> bytes"
  s3_stat :: "(string \<Rightarrow> bytes option) \<Rightarrow> string \<Rightarrow> bool"
  s3_url :: "string \<Rightarrow> (string \<times> string \<times> string) option"
  s3_connect :: "string \<Rightarrow> bool"
  s3_exists :: "string \<Rightarrow> string \<Rightarrow> bool option"
  s3_make :: "string \<Rightarrow> string \<Rightarrow> bool"

definition sanitizeEndpoint :: "s3_client \<Rightarrow> string \<Rightarrow> string option" where
  "sanitizeEndpoint M endpoint =
     (if \<not> Contains endpoint ''://'' then Some endpoint
      else (case s3_url M endpoint of
        None \<Rightarrow> None
      | Some (sch, host, port) \<Rightarrow> Some (host @ '':'' @ (if port \<noteq> '''' then port else if sch = ''https'' then ''443'' else ''9000''))))"

datatype s3_err = BadEndpoint | ClientError | CheckBucket | CreateBucket

text \<open>\<open>New\<close>: the endpoint and the bucket the service works on.\<close>

definition New_media :: "s3_client \<Rightarrow> s3_config \<Rightarrow> s3_err + string \<times> string" where
  "New_media M cfg =
     (case sanitizeEndpoint M (s3_Endpoint cfg) of
        None \<Rightarrow> Inl BadEndpoint
      | Some endpoint \<Rightarrow>
          if \<not> s3_connect M endpoint then Inl ClientError
          else (case s3_exists M endpoint (s3_Bucket cfg) of
              None \<Rightarrow> Inl CheckBucket
            | Some ex \<Rightarrow> if \<not> ex \<and> \<not> s3_make M endpoint (s3_Bucket cfg) then Inl CreateBucket else Inr (endpoint, s3_Bucket cfg)))"

definition maxFileSize :: int where
  "maxFileSize = 100 * 1024 * 1024"

datatype media_err = TooLarge | ReadFailed | SizeMismatch | PutFailed | BadURI | GetFailed

definition objectKey :: "string \<Rightarrow> media_err + string" where
  "objectKey contentURI =
     (let prefix = ''blob:sha256:'' in
      if \<not> HasPrefix contentURI prefix \<or> length contentURI \<le> length prefix then Inl BadURI
      else (let hexStr = drop (length prefix) contentURI in
        if length hexStr \<noteq> 64 then Inl BadURI
        else (case hex_decode hexStr of None \<Rightarrow> Inl BadURI | Some _ \<Rightarrow> Inr hexStr)))"

text \<open>\<open>reader\<close> is what the body gives, \<open>None\<close> when reading it fails within the limit.\<close>

definition Upload :: "env \<Rightarrow> s3_client \<Rightarrow> bytes option \<Rightarrow> int \<Rightarrow> (world, media_err + string) state" where
  "Upload E M reader sz =
     (if sz > maxFileSize then ret (Inl TooLarge)
      else (case map_option (take (nat maxFileSize)) reader of
        None \<Rightarrow> ret (Inl ReadFailed)
      | Some data \<Rightarrow>
          if sz > 0 \<and> int (length data) \<noteq> sz then ret (Inl SizeMismatch)
          else (let hexHash = hex_encode (sha256 E data) in State (\<lambda>w.
            case s3_put M (wd_objects w) hexHash of (stored, ok) \<Rightarrow>
              (if ok then Inr (''blob:sha256:'' @ hexHash) else Inl PutFailed,
               if stored then w\<lparr>wd_objects := (wd_objects w)(hexHash \<mapsto> data)\<rparr> else w)))))"

record download_info =
  di_IsRange :: bool
  di_RangeOffset :: int
  di_RangeLength :: int
  di_TotalSize :: int

text \<open>The reader that is returned fails at the first read when the object is not there.\<close>

definition Download :: "s3_client \<Rightarrow> string \<Rightarrow> int \<Rightarrow> int \<Rightarrow> (world, media_err + bytes option \<times> download_info) state" where
  "Download M contentURI rangeOffset rangeLength =
     (case objectKey contentURI of
        Inl e \<Rightarrow> ret (Inl e)
      | Inr key \<Rightarrow> do {
          w \<leftarrow> State_Monad.get;
          let isRange = (rangeOffset > 0 \<or> rangeLength > 0) in
          if s3_get_err M (wd_objects w) key then ret (Inl GetFailed)
          else ret (Inr (map_option (s3_read M (if isRange then Some (rangeOffset, rangeLength) else None)) (wd_objects w key),
            \<lparr> di_IsRange = isRange, di_RangeOffset = rangeOffset, di_RangeLength = rangeLength,
              di_TotalSize = (if isRange \<and> s3_stat M (wd_objects w) key then (case wd_objects w key of None \<Rightarrow> 0 | Some d \<Rightarrow> int (length d)) else 0) \<rparr>)) })"

section \<open>Handlers\<close>

text \<open>Offset, length and whether the header is a range; the length is computed in 64 bits.\<close>

definition parseRange :: "env \<Rightarrow> string \<Rightarrow> int \<times> int \<times> bool" where
  "parseRange E s0 =
     (let s = TrimSpace s0 in
      if \<not> HasPrefix (ToLower E s) ''bytes='' then (0, 0, False)
      else (case SplitN2 (CHR ''-'') (drop 6 s) of
        [a, b] \<Rightarrow>
          (case (if a = '''' then (0, True) else ParseInt a, if b = '''' then (0, True) else ParseInt b) of
             ((n, ok1), (m, ok2)) \<Rightarrow>
               if \<not> ok1 \<or> \<not> ok2 then (0, 0, False) else (n, if b = '''' then 0 else wrap64 (m - n + 1), True))
      | _ \<Rightarrow> (0, 0, False)))"

text \<open>The body of a request gives as many bytes as \<open>Content-Length\<close> says, or reading it fails.\<close>

definition request_body :: "api_req \<Rightarrow> bytes option" where
  "request_body r = (if int (length (hr_Body r)) = hr_ContentLength r then Some (hr_Body r) else None)"

definition media_upload :: "env \<Rightarrow> s3_client \<Rightarrow> bytes option \<Rightarrow> int \<Rightarrow> (world, string answer) state" where
  "media_upload E M body contentLength =
     (if contentLength \<le> 0 then ret (Fail 400 ''invalid_request'')
      else if contentLength > 100 * 1024 * 1024 then ret (Fail 413 ''file_too_large'')
      else do {
        x \<leftarrow> Upload E M body contentLength;
        ret (case x of Inl _ \<Rightarrow> Fail 500 ''upload_failed'' | Inr uri \<Rightarrow> Done uri) })"

text \<open>The answer: the header \<open>Content-Range\<close> with status 206, or none with status 200; and the body.\<close>

record media_body =
  mb_range :: "(int \<times> int \<times> int) option"
  mb_data :: bytes

definition media_download :: "env \<Rightarrow> s3_client \<Rightarrow> api_req \<Rightarrow> (world, media_body answer) state" where
  "media_download E M r =
     (let uri0 = TrimPrefix (hr_Param r ''*'') ''/'' in
      if uri0 = '''' then ret (Fail 400 ''invalid_request'')
      else (let uri1 = unescaped uri0; uri = (if HasPrefix uri1 ''blob:sha256:'' then uri1 else ''blob:sha256:'' @ uri1) in
        case parseRange E (hr_Header r ''Range'') of (offset, len, hasRange) \<Rightarrow> do {
          x \<leftarrow> Download M uri offset len;
          ret (case x of
            Inl _ \<Rightarrow> Fail 404 ''not_found''
          | Inr (data, info) \<Rightarrow> Done
              \<lparr> mb_range = (if hasRange \<and> di_IsRange info \<and> di_TotalSize info > 0
                  then Some (offset, if len \<le> 0 then di_TotalSize info - 1 else wrap64 (offset + len - 1), di_TotalSize info) else None),
                mb_data = (case data of None \<Rightarrow> [] | Some d \<Rightarrow> d) \<rparr>) }))"

section \<open>Invariants of the tables\<close>

lemma keeps_media [world_intros]: "keeps (on_world P) (media_upload E M b n)" "keeps (on_world P) (media_download E M r)"
proof -
  have u: "keeps (on_world P) (Upload E M b n)" for b n
    by (auto simp: Upload_def Let_def triple_def on_world_def split: option.splits prod.splits if_splits)
  have d: "keeps (on_world P) (Download M uri o' l)" for uri o' l
    unfolding Download_def Let_def by (intro triple_intros)
  show "keeps (on_world P) (media_upload E M b n)" unfolding media_upload_def by (intro triple_intros u)
  show "keeps (on_world P) (media_download E M r)" unfolding media_download_def Let_def by (intro triple_intros d)
qed

section \<open>Properties\<close>

lemma hex_uri: "length (sha256 E d) = 32 \<Longrightarrow> objectKey (''blob:sha256:'' @ hex_encode (sha256 E d)) = Inr (hex_encode (sha256 E d))"
  by (simp add: objectKey_def hex_decode_encode)

lemma hex_plain: "CHR ''%'' \<notin> set (hex_encode b)"
proof -
  have "\<forall>n \<in> set [0..<16]. hex_digit n \<noteq> CHR ''%''" by code_simp
  moreover have "(of_char c :: nat) div 16 < 16" "(of_char c :: nat) mod 16 < 16" for c :: char using of_char_div [of c] by simp_all
  ultimately show ?thesis by (fastforce simp: hex_encode_def)
qed

lemma hex_inj: "hex_encode a = hex_encode b \<Longrightarrow> a = b"
  by (metis hex_decode_encode option.inject)

lemma no_range: "parseRange E '''' = (0, 0, False)"
  by (simp add: parseRange_def)

text \<open>What an upload does.\<close>

lemma upload_run:
  assumes "int (length d) = n" "0 < n" "n \<le> maxFileSize" "s3_put M (wd_objects w) (hex_encode (sha256 E d)) = (st, ok)"
  shows "run_state (media_upload E M (Some d) n) w =
    (if ok then Done (''blob:sha256:'' @ hex_encode (sha256 E d)) else Fail 500 ''upload_failed'',
     if st then w\<lparr>wd_objects := (wd_objects w)(hex_encode (sha256 E d) \<mapsto> d)\<rparr> else w)"
proof -
  have d: "take (nat maxFileSize) d = d" using assms(1,3) by simp
  show ?thesis using assms by (simp add: media_upload_def Upload_def d maxFileSize_def Let_def)
qed

lemma upload_Done:
  assumes "run_state (media_upload E M (Some d) n) w = (x, w1)" "int (length d) = n"
  shows "(x = Done (''blob:sha256:'' @ hex_encode (sha256 E d)) \<and> snd (s3_put M (wd_objects w) (hex_encode (sha256 E d))) \<or> (\<forall>u. x \<noteq> Done u))
    \<and> wd_objects w1 = (if 0 < n \<and> n \<le> maxFileSize \<and> fst (s3_put M (wd_objects w) (hex_encode (sha256 E d)))
        then (wd_objects w)(hex_encode (sha256 E d) \<mapsto> d) else wd_objects w)"
proof (cases "0 < n \<and> n \<le> maxFileSize")
  case True
  obtain st ok where p: "s3_put M (wd_objects w) (hex_encode (sha256 E d)) = (st, ok)" by fastforce
  show ?thesis using upload_run [OF assms(2) _ _ p] True assms(1) p by (auto split: if_splits)
next
  case False
  with assms(1) show ?thesis by (auto simp: media_upload_def maxFileSize_def split: if_splits)
qed


text \<open>
  \<open>SetRange(start, end)\<close> of the MinIO client sets the first and the last byte; a call it refuses
  (and whose error is dropped) leaves the whole object.
\<close>

definition ranges_documented :: "s3_client \<Rightarrow> bool" where
  "ranges_documented M \<longleftrightarrow> (\<forall>a b d. 0 \<le> a \<and> a \<le> b \<longrightarrow> s3_read M (Some (a, b)) d = take (nat (b - a + 1)) (drop (nat a) d))
     \<and> (\<forall>a b d. 0 < b \<and> b < a \<longrightarrow> s3_read M (Some (a, b)) d = d)"

definition range_header :: "int \<Rightarrow> int \<Rightarrow> string" where
  "range_header a b = ''bytes='' @ Itoa a @ ''-'' @ Itoa b"

lemma parseRange_header:
  assumes "0 \<le> a" "a \<le> b" "int64 b" "b - a + 1 < 2 ^ 63"
  shows "parseRange E (range_header a b) = (a, b - a + 1, True)"
proof -
  have i: "Itoa a = dec (nat a)" "Itoa b = dec (nat b)" using assms(1,2) by (simp_all add: Itoa_def)
  have "int64 a" using assms(1-3) by (auto simp: int64_def)
  then have p: "ParseInt (dec (nat a)) = (a, True)" "ParseInt (dec (nat b)) = (b, True)" using ParseInt_Itoa [of a] ParseInt_Itoa [of b] assms(3) i by simp_all
  have v: "list_all visible (range_header a b)" using dec_visible [of "nat a"] dec_visible [of "nat b"] by (simp add: range_header_def i visible_def)
  then have t: "TrimSpace (range_header a b) = range_header a b" by (rule TrimSpace_all_visible)
  have asc: "is_ascii (range_header a b)" using v by (auto simp: is_ascii_def visible_def list_all_iff)
  have low: "HasPrefix (ToLower E (range_header a b)) ''bytes=''"
    unfolding ToLower_def using asc by (simp add: range_header_def ascii_lower_def)
  have "\<forall>k \<in> set [0..<10]. digit k \<noteq> CHR ''-''" by code_simp
  then have nd: "CHR ''-'' \<notin> set (dec (nat a))" using dec_digits [of "CHR ''-''" "nat a"] by fastforce
  have s: "SplitN2 (CHR ''-'') (drop 6 (range_header a b)) = [dec (nat a), dec (nat b)]"
    using SplitN2_first [OF nd] by (simp add: range_header_def i)
  have "wrap64 (b - a + 1) = b - a + 1" using assms by (intro wrap64_id) (simp add: int64_def)
  then show ?thesis unfolding parseRange_def Let_def t using low s p by simp
qed

text \<open>Ranges are served wrong: with the documented meaning of \<open>SetRange\<close>, a request for the bytes
  \<open>a\<close> to \<open>b\<close> of a stored object is answered with a header that claims exactly these bytes, and a body
  that has either \<open>a - 1\<close> bytes less or, when \<open>a\<close> is larger than the length asked for, the whole object.\<close>

theorem range_body_differs_from_header:
  assumes "ranges_documented M" "0 < a" "a \<le> b" "b < int (length d)" "int64 b"
    and "objectKey uri = Inr k" "wd_objects w k = Some d" "\<not> s3_get_err M (wd_objects w) k" "s3_stat M (wd_objects w) k"
    and "TrimPrefix (hr_Param r ''*'') ''/'' = uri" "unescaped uri = uri" "hr_Header r ''Range'' = range_header a b"
  shows "run_state (media_download E M r) w =
    (Done \<lparr> mb_range = Some (a, b, int (length d)),
            mb_data = (if a \<le> b - a + 1 then take (nat (b - a + 1 - (a - 1))) (drop (nat a) d) else d) \<rparr>, w)"
proof -
  have l: "b - a + 1 < 2 ^ 63" using assms(2,5) by (simp add: int64_def)
  have p: "parseRange E (range_header a b) = (a, b - a + 1, True)" using assms(2,3,5) l by (intro parseRange_header) auto
  have uri: "HasPrefix uri ''blob:sha256:''" "uri \<noteq> ''''" using assms(6) by (auto simp: objectKey_def Let_def split: if_splits)
  have "s3_read M (Some (a, b - a + 1)) d = (if a \<le> b - a + 1 then take (nat (b - a + 1 - (a - 1))) (drop (nat a) d) else d)"
  proof (cases "a \<le> b - a + 1")
    case True
    then have "s3_read M (Some (a, b - a + 1)) d = take (nat (b - a + 1 - a + 1)) (drop (nat a) d)"
      using assms(1,2) unfolding ranges_documented_def by (metis less_imp_le)
    with True show ?thesis by (simp only: if_True diff_diff_eq2 add.commute add_diff_eq diff_add_eq)
  next
    case False
    then show ?thesis using assms(1,3) by (simp add: ranges_documented_def)
  qed
  moreover have "wrap64 b = b" using assms(5) by (rule wrap64_id)
  moreover have "d \<noteq> []" using assms(2-4) by auto
  ultimately show ?thesis using assms uri p by (simp add: media_download_def Download_def Let_def)
qed

definition demo_s3 :: s3_client where
  "demo_s3 = \<lparr> s3_put = (\<lambda>_ _. (True, True)), s3_get_err = (\<lambda>_ _. False),
     s3_read = (\<lambda>r d. case r of None \<Rightarrow> d | Some (a, b) \<Rightarrow> if 0 \<le> a \<and> a \<le> b then take (nat (b - a + 1)) (drop (nat a) d) else d),
     s3_stat = (\<lambda>_ _. True), s3_url = (\<lambda>_. None), s3_connect = (\<lambda>_. True), s3_exists = (\<lambda>_ _. Some True), s3_make = (\<lambda>_ _. True) \<rparr>"

definition demo_key :: string where
  "demo_key = replicate 64 (CHR ''0'')"

definition demo_objects :: world where
  "demo_objects = (world_on (session_on empty_tables []))\<lparr>wd_objects := [demo_key \<mapsto> ''abcd'']\<rparr>"

definition demo_range_request :: api_req where
  "demo_range_request = (demo_request '''')\<lparr>hr_Param := (\<lambda>_. ''blob:sha256:'' @ demo_key), hr_Header := (\<lambda>k. if k = ''Range'' then range_header 2 3 else '''')\<rparr>"

lemma demo_uri: "objectKey (''blob:sha256:'' @ demo_key) = Inr demo_key" "unescaped (''blob:sha256:'' @ demo_key) = ''blob:sha256:'' @ demo_key"
  "TrimPrefix (''blob:sha256:'' @ demo_key) ''/'' = ''blob:sha256:'' @ demo_key"
  by code_simp+

theorem range_body_differs_from_header_witness:
  "run_state (media_download demo_env demo_s3 demo_range_request) demo_objects
    = (Done \<lparr> mb_range = Some (2, 3, 4), mb_data = ''c'' \<rparr>, demo_objects)"
proof -
  have "ranges_documented demo_s3" by (simp add: ranges_documented_def demo_s3_def)
  moreover have "wd_objects demo_objects demo_key = Some ''abcd''" by (simp add: demo_objects_def)
  moreover have "hr_Param demo_range_request ''*'' = ''blob:sha256:'' @ demo_key" "hr_Header demo_range_request ''Range'' = range_header 2 3"
    by (simp_all add: demo_range_request_def)
  ultimately show ?thesis
    using range_body_differs_from_header [of demo_s3 2 3 "''abcd''" "''blob:sha256:'' @ demo_key" demo_key demo_objects demo_range_request demo_env] demo_uri
    by (simp add: demo_s3_def int64_def)
qed

definition demo_sha :: env where
  "demo_sha = demo_env\<lparr>sha256 := (\<lambda>b. take 32 (b @ replicate 32 (CHR ''-'')))\<rparr>"


end
