(* ===== verification/Server.thy ===== *)
theory Server
  imports Table_Inv Media Config
begin

text \<open>
  The server put together: the services and handlers as \<open>src/server/cmd/server/main.go\<close> and
  \<open>NewRouter\<close> (\<open>src/server/internal/api/router.go\<close>) wire them, the routes with the middleware they
  are behind, the periodic clean-up, and the server as a step relation. Rate limits, time-outs
  and loggers are left out with the libraries that implement them; matching a path against a
  pattern is chi's, so a step names its route.
\<close>

section \<open>Configuration\<close>

text \<open>
  What \<open>main\<close> reads from the configuration and the environment, and the parameters of the model
  (\<open>env\<close>, network and decoders).
\<close>

record server =
  sv_env :: env
  sv_net :: net
  sv_codec :: codec
  sv_acodec :: auth_codec
  sv_unverify :: "string \<Rightarrow> auth_verify_req option"
  sv_collate :: "peer_row list \<Rightarrow> peer_row list"
  sv_domain :: string
  sv_enc :: cipher
  sv_jwt :: bytes
  sv_keys :: server_keys
  sv_mode :: string
  sv_mainDomain :: string
  sv_push :: push
  sv_strict :: bool
  sv_peers :: "string list"
  sv_hub :: string
  sv_maxBody :: int
  sv_s3 :: s3_client
  sv_vpn :: vpn_handler
  sv_nodesJSON :: string

text \<open>The JWT secret, \<open>None\<close> where \<open>main\<close> ends with \<open>log.Fatalf\<close>.\<close>

definition jwt_secret :: "string \<Rightarrow> string \<Rightarrow> string \<Rightarrow> bytes option" where
  "jwt_secret secret env0 app_env =
     (let e = (if env0 = '''' then app_env else env0) in
      if (e = ''production'' \<or> e = ''prod'') \<and> (secret = '''' \<or> length secret < 16) then None
      else Some (if secret = '''' then ''dev-secret-change-in-production'' else secret))"

text \<open>A key \<open>dbenc.New\<close> refuses is logged, and the server runs without encryption.\<close>

definition startup_cipher :: "enc_err + cipher \<Rightarrow> cipher" where
  "startup_cipher x = (case x of Inl _ \<Rightarrow> None | Inr c \<Rightarrow> c)"

definition main_only :: "server \<Rightarrow> bool" where
  "main_only S \<longleftrightarrow> sv_mode S = ''main_only'' \<and> sv_mainDomain S \<noteq> ''''"

definition fedClient :: "server \<Rightarrow> fed_client" where
  "fedClient S = \<lparr> fc_domain = sv_domain S, fc_mainDomain = (if main_only S then sv_mainDomain S else ''''), fc_keys = sv_keys S \<rparr>"

definition authSvc :: "server \<Rightarrow> auth" where
  "authSvc S = \<lparr> au_domain = sv_domain S, au_jwt = sv_jwt S, au_enc = sv_enc S \<rparr>"

definition keydirSvc :: "server \<Rightarrow> keydir" where
  "keydirSvc S = \<lparr> kd_dom = sv_domain S, kd_enc = sv_enc S \<rparr>"

section \<open>Handlers\<close>

definition authH :: "server \<Rightarrow> auth_handler" where
  "authH S = \<lparr> ah_auth = authSvc S, ah_domain = sv_domain S, ah_fed = Some (fedClient S), ah_db = True, ah_fedPeers = sv_peers S, ah_discoveryHub = sv_hub S \<rparr>"

definition keysH :: "server \<Rightarrow> keys_handler" where
  "keysH S = \<lparr> kh_keydir = keydirSvc S, kh_fed = Some (fedClient S), kh_domain = sv_domain S \<rparr>"

definition relayH :: "server \<Rightarrow> relay_handler" where
  "relayH S = \<lparr> rh_relay = relay_service (sv_env S) (sv_domain S), rh_rooms = True, rh_fed = Some (fedClient S), rh_domain = sv_domain S,
     rh_push = Some (sv_push S), rh_auth = authSvc S, rh_e2eeStrictOnly = sv_strict S \<rparr>"

definition fedH :: "server \<Rightarrow> fed_handler" where
  "fedH S = \<lparr> fh_keydir = keydirSvc S, fh_auth = Some (authSvc S), fh_keys = sv_keys S, fh_domain = sv_domain S, fh_maxBody = sv_maxBody S,
     fh_client = Some (fedClient S), fh_mainOnly = (if main_only S then sv_mainDomain S else ''''), fh_db = True \<rparr>"

section \<open>Routes\<close>

datatype api_route =
    R_wsToken | R_logout | R_listDevices | R_renameDevice | R_revokeDevice
  | R_keysStatus | R_updateKeys | R_bundleForUser | R_bundle | R_devicesForUser | R_search
  | R_send | R_typing | R_read | R_sync
  | R_createRoom | R_listRooms | R_getRoom | R_invite | R_leave | R_transfer | R_remove | R_members
  | R_prepare | R_getSalt | R_syncKeys
  | R_vapidPublic | R_subscribe | R_unsubscribe
  | R_mediaUpload | R_mediaDownload
  | R_vpnProtocols | R_vpnNodes | R_vpnConfigs | R_vpnRevoke | R_vpnConfig

definition route_pattern :: "api_route \<Rightarrow> string \<times> string" where
  "route_pattern rt = (case rt of
     R_wsToken \<Rightarrow> (''POST'', ''/auth/ws-token'') | R_logout \<Rightarrow> (''POST'', ''/auth/logout'') | R_listDevices \<Rightarrow> (''GET'', ''/auth/devices'')
   | R_renameDevice \<Rightarrow> (''PATCH'', ''/auth/devices/{deviceID}'') | R_revokeDevice \<Rightarrow> (''POST'', ''/auth/devices/{deviceID}/revoke'')
   | R_keysStatus \<Rightarrow> (''GET'', ''/auth/keys/status'') | R_updateKeys \<Rightarrow> (''PUT'', ''/auth/keys'')
   | R_bundleForUser \<Rightarrow> (''GET'', ''/keys/bundle/{userID}'') | R_bundle \<Rightarrow> (''GET'', ''/keys/bundle/{userID}/{deviceID}'')
   | R_devicesForUser \<Rightarrow> (''GET'', ''/keys/devices/{userID}'') | R_search \<Rightarrow> (''GET'', ''/users/search'')
   | R_send \<Rightarrow> (''POST'', ''/messages/send'') | R_typing \<Rightarrow> (''POST'', ''/messages/typing'') | R_read \<Rightarrow> (''POST'', ''/messages/read'')
   | R_sync \<Rightarrow> (''GET'', ''/messages/sync'') | R_createRoom \<Rightarrow> (''POST'', ''/rooms'') | R_listRooms \<Rightarrow> (''GET'', ''/rooms'')
   | R_getRoom \<Rightarrow> (''GET'', ''/rooms/{roomID}'') | R_invite \<Rightarrow> (''POST'', ''/rooms/{roomID}/invite'') | R_leave \<Rightarrow> (''POST'', ''/rooms/{roomID}/leave'')
   | R_transfer \<Rightarrow> (''POST'', ''/rooms/{roomID}/transfer'') | R_remove \<Rightarrow> (''POST'', ''/rooms/{roomID}/remove'')
   | R_members \<Rightarrow> (''GET'', ''/rooms/{roomID}/members'') | R_prepare \<Rightarrow> (''POST'', ''/backup/prepare'') | R_getSalt \<Rightarrow> (''GET'', ''/backup/salt'')
   | R_syncKeys \<Rightarrow> (''POST'', ''/keys/sync'') | R_vapidPublic \<Rightarrow> (''GET'', ''/push/vapid-public'')
   | R_subscribe \<Rightarrow> (''POST'', ''/push/subscribe'') | R_unsubscribe \<Rightarrow> (''POST'', ''/push/unsubscribe'')
   | R_mediaUpload \<Rightarrow> (''POST'', ''/media/upload'') | R_mediaDownload \<Rightarrow> (''GET'', ''/media/*'')
   | R_vpnProtocols \<Rightarrow> (''GET'', ''/vpn/protocols'') | R_vpnNodes \<Rightarrow> (''GET'', ''/vpn/nodes'') | R_vpnConfigs \<Rightarrow> (''GET'', ''/vpn/my-configs'')
   | R_vpnRevoke \<Rightarrow> (''POST'', ''/vpn/revoke'') | R_vpnConfig \<Rightarrow> (''GET'', ''/vpn/config/{protocol}''))"

text \<open>What is done for a request, without the body of the answer.\<close>

definition quiet :: "('s, 'a answer) state \<Rightarrow> ('s, unit answer) state" where
  "quiet m = do { a \<leftarrow> m; ret (map_answer (\<lambda>_. ()) a) }"

definition run_route :: "server \<Rightarrow> api_route \<Rightarrow> api_req \<Rightarrow> ctx \<Rightarrow> (world, unit answer) state" where
  "run_route S rt r c = (let E = sv_env S; N = sv_net S; J = sv_codec S; K = sv_acodec S in case rt of
     R_wsToken \<Rightarrow> quiet (wsToken E (authH S) c)
   | R_logout \<Rightarrow> logout E (authH S) r
   | R_listDevices \<Rightarrow> quiet (listDevices E c)
   | R_renameDevice \<Rightarrow> renameDevice E K r c
   | R_revokeDevice \<Rightarrow> revokeDevice E r c
   | R_keysStatus \<Rightarrow> quiet (keysStatus E c)
   | R_updateKeys \<Rightarrow> updateKeys E J (keysH S) r c
   | R_bundleForUser \<Rightarrow> quiet (getBundleForUser E N J (keysH S) r)
   | R_bundle \<Rightarrow> quiet (getBundle_handler E N (keysH S) r)
   | R_devicesForUser \<Rightarrow> quiet (listDevicesForUser_handler E N (keysH S) r)
   | R_search \<Rightarrow> quiet (search_users E N K (authH S) r)
   | R_send \<Rightarrow> quiet (send_handler E N J (relayH S) r c)
   | R_typing \<Rightarrow> typing_handler E J (relayH S) r c
   | R_read \<Rightarrow> read_handler E J (relayH S) r c
   | R_sync \<Rightarrow> quiet (sync_handler E (relayH S) r c)
   | R_createRoom \<Rightarrow> quiet (create_room E J (sv_domain S) r c)
   | R_listRooms \<Rightarrow> quiet (list_rooms E c)
   | R_getRoom \<Rightarrow> quiet (get_room E r c)
   | R_invite \<Rightarrow> invite_handler E J (sv_domain S) r c
   | R_leave \<Rightarrow> leave_handler E r c
   | R_transfer \<Rightarrow> transferCreator_handler E J (sv_domain S) r c
   | R_remove \<Rightarrow> removeMember_handler E J (sv_domain S) r c
   | R_members \<Rightarrow> quiet (members_handler E r c)
   | R_prepare \<Rightarrow> quiet (prepare (authH S) c)
   | R_getSalt \<Rightarrow> quiet (getSalt (authH S) c)
   | R_syncKeys \<Rightarrow> syncKeys K (authH S) r c
   | R_vapidPublic \<Rightarrow> ret (map_answer (\<lambda>_. ()) (vapidPublic_handler (sv_push S)))
   | R_subscribe \<Rightarrow> subscribe_handler E J (sv_push S) r c
   | R_unsubscribe \<Rightarrow> unsubscribe_handler J r
   | R_mediaUpload \<Rightarrow> quiet (media_upload E (sv_s3 S) (request_body r) (hr_ContentLength r))
   | R_mediaDownload \<Rightarrow> quiet (media_download E (sv_s3 S) r)
   | R_vpnProtocols \<Rightarrow> ret (map_answer (\<lambda>_. ()) (listProtocols (sv_vpn S)))
   | R_vpnNodes \<Rightarrow> quiet (listNodes (sv_vpn S))
   | R_vpnConfigs \<Rightarrow> quiet (myConfigs E (sv_vpn S) c)
   | R_vpnRevoke \<Rightarrow> vpn_revoke E (sv_vpn S) r c
   | R_vpnConfig \<Rightarrow> quiet (vpn_getConfig E (sv_vpn S) r c))"

datatype public_route = P_stats | P_register | P_login

definition run_public :: "server \<Rightarrow> public_route \<Rightarrow> api_req \<Rightarrow> (world, unit answer) state" where
  "run_public S rt r = (case rt of
     P_stats \<Rightarrow> quiet stats
   | P_register \<Rightarrow> quiet (register_account (sv_env S) (sv_acodec S) (authH S) r)
   | P_login \<Rightarrow> quiet (login_handler (sv_env S) (sv_net S) (sv_acodec S) (authH S) r))"

text \<open>Strings carry what chi takes from the path and the query.\<close>

datatype fed_route = F_servers | F_keys string string | F_devices string | F_register | F_verify | F_lookup string | F_transaction

definition run_fed :: "server \<Rightarrow> fed_route \<Rightarrow> fed_req \<Rightarrow> (node, unit answer) state" where
  "run_fed S rt r = (let E = sv_env S; N = sv_net S; H = fedH S in case rt of
     F_servers \<Rightarrow> quiet (federationServers E (sv_collate S) H)
   | F_keys u d \<Rightarrow> quiet (getKeys E H u d)
   | F_devices u \<Rightarrow> quiet (getDevices E H u)
   | F_register \<Rightarrow> register_handler E N H r
   | F_verify \<Rightarrow> quiet (authVerify E N (sv_unverify S) H r)
   | F_lookup u \<Rightarrow> quiet (usersLookup E N H u r)
   | F_transaction \<Rightarrow> quiet (transaction_handler E N H r))"

text \<open>The clean-up at the start and every six hours; its errors are logged.\<close>

definition cleanup :: "(sess, unit) state" where
  "cleanup = do { _ \<leftarrow> CleanupExpiredTokens; _ \<leftarrow> CleanupOldConsumedPrekeys; ret () }"

section \<open>Cross-origin requests\<close>

definition corsForDomain :: "string \<Rightarrow> string list \<times> string list" where
  "corsForDomain domain =
     ([''http://localhost:3000'', ''http://127.0.0.1:3000''] @
        (if domain \<noteq> '''' \<and> domain \<noteq> ''localhost'' then [''http://'' @ domain, ''https://'' @ domain] else []),
      [''GET'', ''POST'', ''PUT'', ''DELETE'', ''OPTIONS''])"

section \<open>The server as a step relation\<close>

text \<open>
  One request at a time, whatever the faults of the database, the answers of the network and
  the requests are. Between requests time passes, and everything that is not a table may
  change: faults to come, random numbers, connections, the caches of the network.
\<close>

inductive server_step :: "server \<Rightarrow> world \<Rightarrow> world \<Rightarrow> bool" for S where
  start: "run_state (on_db (EncryptExisting (sv_enc S))) w = (x, w') \<Longrightarrow> server_step S w w'"
| seed: "run_state (on_db (SeedFromJSON (vh_env (sv_vpn S)) (sv_nodesJSON S))) w = (z, w') \<Longrightarrow> server_step S w w'"
| clean: "run_state (on_db cleanup) w = (y, w') \<Longrightarrow> server_step S w w'"
| api: "run_state (protected (sv_env S) (sv_net S) (authSvc S) r (run_route S rt r)) w = (a, w') \<Longrightarrow> server_step S w w'"
| public: "run_state (run_public S pt r) w = (b, w') \<Longrightarrow> server_step S w w'"
| fed: "run_state (on_node (run_fed S ft q)) w = (c, w') \<Longrightarrow> server_step S w w'"
| tick: "tabs (nd_sess (wd_node w')) = (tabs (nd_sess (wd_node w)))\<lparr>tb_now := now\<rparr> \<Longrightarrow> server_step S w w'"

lemma keeps_quiet: "keeps I m \<Longrightarrow> keeps I (quiet m)"
  unfolding quiet_def by (intro triple_intros)

lemma relayH_rooms: "rh_relay (relayH S) = relay_service (sv_env S) (sv_domain S)"
  by (simp add: relayH_def)

context table_inv
begin

lemma server_seals:
  assumes "seals good (sv_enc S)"
  shows "seals good (au_enc (ah_auth (authH S)))" "seals good (kd_enc (kh_keydir (keysH S)))" "fh_auth (fedH S) = Some A \<Longrightarrow> seals good (au_enc A)"
  using assms by (auto simp: authH_def authSvc_def keysH_def keydirSvc_def fedH_def)

lemma keeps_routes: "seals good (sv_enc S) \<Longrightarrow> keeps (on_world P) (run_route S rt r c)"
  by (cases rt)
     (simp_all add: run_route_def Let_def server_seals keeps_ret keeps_quiet keeps_account_handlers keeps_keysStatus keeps_updateKeys keeps_get_bundle keeps_get_bundle_device
      keeps_list_devices keeps_search keeps_send [OF relayH_rooms] keeps_typing keeps_read [OF relayH_rooms] keeps_sync [OF relayH_rooms]
      keeps_room_reads keeps_room_writes keeps_backup_handlers keeps_push_handlers keeps_vpn_lists keeps_vpn keeps_media)

lemma keeps_public: "seals good (sv_enc S) \<Longrightarrow> keeps (on_world P) (run_public S rt r)"
  by (cases rt) (simp_all add: run_public_def server_seals keeps_quiet keeps_stats keeps_register_account keeps_login)

lemma keeps_fed: "seals good (sv_enc S) \<Longrightarrow> keeps (on_nd P) (run_fed S rt r)"
  by (cases rt) (simp_all add: run_fed_def Let_def server_seals keeps_quiet keeps_servers keeps_fed_keys keeps_fed_devices keeps_register_peer keeps_authVerify
      keeps_users_lookup keeps_transaction)

lemma keeps_cleanup: "keeps (on_tabs P) cleanup"
  unfolding cleanup_def by (intro triple_intros services)

lemma server_step_keeps: "server_step S w w' \<Longrightarrow> seals good (sv_enc S) \<Longrightarrow> P (tabs (nd_sess (wd_node w))) \<Longrightarrow> P (tabs (nd_sess (wd_node w')))"
proof (induction rule: server_step.induct)
  case (start w x w')
  then show ?case using tripleD [OF keeps_on_node [OF keeps_on_sess [OF keeps_startup [OF start(2)]]] _ start(1)] by (simp add: on_world_def)
next
  case (seed w z w')
  then show ?case using tripleD [OF keeps_on_node [OF keeps_on_sess [OF keeps_seed]] _ seed(1)] by (simp add: on_world_def)
next
  case (clean w y w')
  then show ?case using tripleD [OF keeps_on_node [OF keeps_on_sess [OF keeps_cleanup]] _ clean(1)] by (simp add: on_world_def)
next
  case (api r rt w a w')
  then show ?case using tripleD [OF keeps_protected [OF keeps_routes [OF api(2)]] _ api(1)] by (simp add: on_world_def)
next
  case (public pt r w b w')
  then show ?case using tripleD [OF keeps_public [OF public(2)] _ public(1)] by (simp add: on_world_def)
next
  case (fed ft q w c w')
  then show ?case using tripleD [OF keeps_on_node [OF keeps_fed [OF fed(2)]] _ fed(1)] by (simp add: on_world_def)
next
  case (tick w' w now)
  then show ?case using tick(1) by (simp add: time_passes)
qed

lemma server_run_keeps: "(server_step S)\<^sup>*\<^sup>* w w' \<Longrightarrow> seals good (sv_enc S) \<Longrightarrow> P (tabs (nd_sess (wd_node w))) \<Longrightarrow> P (tabs (nd_sess (wd_node w')))"
  by (induction rule: rtranclp_induct) (auto intro: server_step_keeps)

end

section \<open>Properties\<close>

text \<open>A database without rows.\<close>

definition no_rows :: "tables \<Rightarrow> bool" where
  "no_rows t \<longleftrightarrow> tb_users t = [] \<and> tb_devices t = [] \<and> tb_otpks t = [] \<and> tb_msgs t = [] \<and> tb_rooms t = [] \<and> tb_members t = []
     \<and> tb_vpeers t = [] \<and> seq_wg t = 2"


text \<open>C7: through the whole server a one-time prekey is handed out at most once when requests do not
  overlap: whatever requests are served between two fetches of key bundles, the two take their
  one-time prekeys from different rows, both unconsumed when taken; and as long as the first row is
  there, the two differ in device or key id.\<close>

theorem prekey_once_per_server:
  assumes "otpk_inv (tabs (nd_sess (wd_node w)))"
    and "run_state (GetBundleForUser E D u) (nd_sess (wd_node w)) = (Inr (b1, dev1), s1)" "bu_OneTimePrekey b1 = Some k1"
    and "(server_step S)\<^sup>*\<^sup>* (at_sess w s1) w2"
    and "run_state (GetBundleForUser E' D' u') (nd_sess (wd_node w2)) = (Inr (b2, dev2), s3)" "bu_OneTimePrekey b2 = Some k2"
  shows "\<exists>p1 \<in> set (tb_otpks (tabs (nd_sess (wd_node w)))). \<exists>p2 \<in> set (tb_otpks (tabs (nd_sess (wd_node w2)))). o_id p1 \<noteq> o_id p2
    \<and> o_device p1 = dev1 \<and> o_key_id p1 = pk_KeyID k1 \<and> o_consumed p1 = None
    \<and> o_device p2 = dev2 \<and> o_key_id p2 = pk_KeyID k2 \<and> o_consumed p2 = None
    \<and> (o_id p1 \<in> o_id ` set (tb_otpks (tabs (nd_sess (wd_node w2)))) \<longrightarrow> (dev1, pk_KeyID k1) \<noteq> (dev2, pk_KeyID k2))"
proof -
  from GetBundleForUser_InrD [OF assms(2,3,1)] obtain p1 where p1: "p1 \<in> set (tb_otpks (tabs (nd_sess (wd_node w))))"
    "o_device p1 = dev1" "o_consumed p1 = None" "o_key_id p1 = pk_KeyID k1" "spent (o_id p1) dev1 (pk_KeyID k1) (tabs s1)" by blast
  have "spent (o_id p1) dev1 (pk_KeyID k1) (tabs (nd_sess (wd_node w2)))"
    using ti_spent.server_run_keeps [OF assms(4) seals_any] p1(5) by (simp add: at_sess_def)
  from second_bundle [OF this assms(5,6)] p1 show ?thesis by blast
qed

text \<open>The server of \<open>a.org\<close>, and a registration at it.\<close>

definition demo_register_req :: register_req where
  "demo_register_req = \<lparr> gq_Username = ''ann'', gq_Password = ''secret'', gq_DeviceID = ''7'', gq_Keys = ('''', ('''', '''', 1), []), gq_KeysBackup = None \<rparr>"

definition demo_server :: server where
  "demo_server = \<lparr> sv_env = demo_env, sv_net = demo_net, sv_codec = demo_codec, sv_acodec = demo_ac\<lparr>dec_register := (\<lambda>_. Some demo_register_req)\<rparr>,
     sv_unverify = (\<lambda>_. None), sv_collate = (\<lambda>ps. ps), sv_domain = ''a.org'', sv_enc = None, sv_jwt = ''key'', sv_keys = fc_keys srv_a, sv_mode = ''open'',
     sv_mainDomain = '''', sv_push = demo_push, sv_strict = True, sv_peers = [], sv_hub = '''', sv_maxBody = 0,
     sv_s3 = demo_s3, sv_vpn = \<lparr> vh_env = demo_vpn, vh_config = demo_vpn_config \<rparr>, sv_nodesJSON = '''' \<rparr>"

lemma demo_hash: "bcrypt_hash demo_env pw = Some (CHR ''$'' # pw)" "jwt_sign demo_env key c = None"
  by (simp_all add: demo_env_def)


theorem prekey_once_per_server_witness:
  "\<exists>b1 s1 b2 s2 k1 k2. run_state (GetBundleForUser demo_env demo_dir ''@ann:a.org'') (session_on demo_keys []) = (Inr (b1, 7), s1)
    \<and> (server_step demo_server)\<^sup>*\<^sup>* (world_on s1) (world_on s1)
    \<and> run_state (GetBundleForUser demo_env demo_dir ''@ann:a.org'') s1 = (Inr (b2, 7), s2)
    \<and> bu_OneTimePrekey b1 = Some k1 \<and> bu_OneTimePrekey b2 = Some k2
    \<and> (\<exists>p1 \<in> set (tb_otpks demo_keys). \<exists>p2 \<in> set (tb_otpks (tabs s1)). o_id p1 \<noteq> o_id p2 \<and> o_key_id p1 = pk_KeyID k1 \<and> o_key_id p2 = pk_KeyID k2)"
proof -
  from demo_first obtain b1 s1 b2 s2 where r: "run_state (GetBundleForUser demo_env demo_dir ''@ann:a.org'') (session_on demo_keys []) = (Inr (b1, 7), s1)"
    "bu_OneTimePrekey b1 = Some \<lparr> pk_Key = ''k1'', pk_KeyID = 1 \<rparr>"
    "run_state (GetBundleForUser demo_env demo_dir ''@ann:a.org'') s1 = (Inr (b2, 7), s2)"
    "bu_OneTimePrekey b2 = Some \<lparr> pk_Key = ''k2'', pk_KeyID = 2 \<rparr>" by blast
  let ?w = "world_on (session_on demo_keys [])"
  have s: "nd_sess (wd_node ?w) = session_on demo_keys []" "nd_sess (wd_node (at_sess ?w s1)) = s1" "at_sess ?w s1 = world_on s1"
    by (simp_all add: world_on_def at_sess_def)
  have i: "otpk_inv (tabs (nd_sess (wd_node ?w)))" unfolding s by (simp add: session_on_def)
  have r1: "run_state (GetBundleForUser demo_env demo_dir ''@ann:a.org'') (nd_sess (wd_node ?w)) = (Inr (b1, 7), s1)" using r(1) by (simp only: s)
  have r2: "run_state (GetBundleForUser demo_env demo_dir ''@ann:a.org'') (nd_sess (wd_node (at_sess ?w s1))) = (Inr (b2, 7), s2)" using r(3) by (simp only: s(2))
  from prekey_once_per_server [OF i r1 r(2) rtranclp.rtrancl_refl r2 r(4)]
  have "\<exists>p1 \<in> set (tb_otpks demo_keys). \<exists>p2 \<in> set (tb_otpks (tabs s1)). o_id p1 \<noteq> o_id p2 \<and> o_key_id p1 = 1 \<and> o_key_id p2 = 2"
    unfolding s(1,2) by (auto simp: session_on_def)
  with r show ?thesis by auto
qed

text \<open>The client of the browser cannot rename a device across origins: its method is not allowed.\<close>

lemma cors_misses_one_route:
  "fst (route_pattern rt) \<notin> set (snd (corsForDomain d)) \<longleftrightarrow> rt = R_renameDevice"
  by (cases rt) (simp_all add: route_pattern_def corsForDomain_def)

lemma routes_apart: "route_pattern rt = route_pattern rt' \<Longrightarrow> rt = rt'"
  by (cases rt; cases rt') (simp_all add: route_pattern_def)

section \<open>The pool of addresses\<close>

text \<open>C33: the pool of WireGuard addresses only shrinks: once the sequence has given its 252 addresses, every
  device without a WireGuard configuration is refused from then on, whatever configurations and
  devices are revoked in between, even when no peer is left.\<close>

theorem address_pool_runs_dry:
  assumes "seq_wg (tables_of w) > 253" "(server_step S)\<^sup>*\<^sup>* w w'"
    and "vc_Enabled (vh_config H)" "vc_wg_Enabled (vh_config H)" "vc_wg_ServerPubKey (vh_config H) \<noteq> ''''"
    and "hr_Param r ''protocol'' = ''wireguard''" "uuid_parse E (getDeviceID c) = Some dev" "no_wg_peer (getUserID c) dev (tables_of w')"
    and "faults (nd_sess (wd_node w')) = []" "entropy (nd_sess (wd_node w')) (epos (nd_sess (wd_node w'))) \<noteq> None"
  shows "fst (run_state (vpn_getConfig E H r c) w') = Fail 400 ''vpn_error''"
proof -
  let ?v = "\<lparr> vs_sess = nd_sess (wd_node w'), vs_calls = wd_calls w' \<rparr>"
  let ?n = "let s = hr_Query r ''node_id'' in if s \<noteq> '''' then uuid_parse E s else None"
  have "254 \<le> seq_wg (tables_of w')" using ti_wg.server_run_keeps [OF assms(2) seals_any, of 254] assms(1) by simp
  then have "fst (run_state (GetConfig E (vh_env H) (vh_config H) ''wireguard'' (getUserID c) dev ?n) ?v) = Inl (PoolExhausted SequenceLimit)"
    using assms by (intro pool_exhausted) simp_all
  then obtain v1 where "run_state (GetConfig E (vh_env H) (vh_config H) ''wireguard'' (getUserID c) dev ?n) ?v = (Inl (PoolExhausted SequenceLimit), v1)"
    by (metis prod.collapse)
  then show ?thesis using assms(6,7) by (simp add: vpn_getConfig_def in_vpn_def Let_def split del: if_split)
qed

theorem address_pool_runs_dry_witness:
  "fst (run_state (vpn_getConfig demo_env \<lparr> vh_env = demo_vpn, vh_config = demo_vpn_config \<rparr> ((demo_request '''')\<lparr>hr_Param := (\<lambda>_. ''wireguard'')\<rparr>) (user_ctx 1))
    (world_on (session_on (empty_tables\<lparr>seq_wg := 254\<rparr>) []))) = Fail 400 ''vpn_error''"
proof -
  let ?w = "world_on (session_on (empty_tables\<lparr>seq_wg := 254\<rparr>) [])"
  have "uuid_parse demo_env (getDeviceID (user_ctx 1)) = Some 7" by (simp add: getDeviceID_def user_ctx_def demo_device_seven)
  then show ?thesis
    by (rule address_pool_runs_dry [where w = ?w and S = demo_server, OF _ rtranclp.rtrancl_refl, rotated 5])
       (simp_all add: world_on_def session_on_def empty_tables_def demo_vpn_config_def no_wg_peer_def)
qed

end
