(* ===== verification/Startup.thy ===== *)
theory Startup
  imports Server
begin

text \<open>
  Start-up: the pool and the runner of migrations (\<open>src/server/internal/db\<close>, \<open>src/server/cmd/migrate\<close>), and the body of
  \<open>main\<close> (\<open>src/server/cmd/server/main.go\<close>) up to the point where the server listens, as one program over the
  session of the database, in the order of the code. What \<open>main\<close> starts in goroutines (clean-up, requests)
  are the steps of \<open>server_step\<close>.
\<close>

section \<open>The pool and the migrations\<close>

text \<open>
  The driver: whether a pool can be made for a URL and answers a ping, whether the embedded files and
  the database make an instance of golang-migrate, and what \<open>Up\<close> does to the tables.
\<close>

datatype up_result = Up_Done | Up_NoChange | Up_Failed

record db_driver =
  pg_connect :: "string \<Rightarrow> bool"
  pg_ping :: "string \<Rightarrow> bool"
  mg_source :: bool
  mg_instance :: "string \<Rightarrow> bool"
  mg_up :: "tables \<Rightarrow> up_result \<times> tables"

datatype db_open_err = ConnectToDB | PingDB

definition New_db :: "db_driver \<Rightarrow> string \<Rightarrow> db_open_err + string" where
  "New_db G databaseURL =
     (if \<not> pg_connect G databaseURL then Inl ConnectToDB
      else if \<not> pg_ping G databaseURL then Inl PingDB
      else Inr databaseURL)"

datatype migrate_err = MigrateSource | MigrateInstance | MigrateUp

definition Migrate :: "db_driver \<Rightarrow> string \<Rightarrow> (sess, migrate_err + unit) state" where
  "Migrate G databaseURL =
     (if \<not> mg_source G then ret (Inl MigrateSource)
      else if \<not> mg_instance G databaseURL then ret (Inl MigrateInstance)
      else State (\<lambda>s. case mg_up G (tabs s) of (r, t) \<Rightarrow> (if r = Up_Failed then Inl MigrateUp else Inr (), s\<lparr>tabs := t\<rparr>)))"

text \<open>The program that only migrates; \<open>Inl None\<close> is its end for want of a URL.\<close>

definition migrate_main :: "env \<Rightarrow> db_driver \<Rightarrow> (string \<Rightarrow> string) \<Rightarrow> (sess, migrate_err option + unit) state" where
  "migrate_main E G osenv =
     (let url = db_URL (cf_Database (Load E osenv)); url' = (if url = '''' then osenv ''DATABASE_URL'' else url) in
      if url' = '''' then ret (Inl None)
      else do { x \<leftarrow> Migrate G url'; ret (case x of Inl e \<Rightarrow> Inl (Some e) | Inr _ \<Rightarrow> Inr ()) })"

section \<open>The client of federation\<close>

text \<open>
  The clients of federation \<open>main\<close> chooses from (\<open>src/server/internal/federation/client.go\<close>), each with the
  certificate it shows: files are read by \<open>fs\<close>, \<open>pair\<close> is \<open>tls.X509KeyPair\<close>. \<open>Inl\<close> is an error.
\<close>

definition loadClientTLS :: "(string \<Rightarrow> bytes option) \<Rightarrow> (bytes \<Rightarrow> bytes \<Rightarrow> 'c option) \<Rightarrow> string \<Rightarrow> string \<Rightarrow> unit + 'c option" where
  "loadClientTLS fs pair certPath keyPath =
     (if certPath = '''' \<or> keyPath = '''' then Inr None
      else (case fs certPath of
          None \<Rightarrow> Inl ()
        | Some certPEM \<Rightarrow> (case fs keyPath of
            None \<Rightarrow> Inl ()
          | Some keyPEM \<Rightarrow> (case pair certPEM keyPEM of None \<Rightarrow> Inl () | Some cert \<Rightarrow> Inr (Some cert)))))"

definition NewClient :: "string \<Rightarrow> server_keys \<Rightarrow> fed_client \<times> 'c option" where
  "NewClient domain keys = (\<lparr> fc_domain = domain, fc_mainDomain = '''', fc_keys = keys \<rparr>, None)"

definition with_main :: "string \<Rightarrow> fed_client \<times> 'c option \<Rightarrow> fed_client \<times> 'c option" where
  "with_main mainDomain c = ((fst c)\<lparr>fc_mainDomain := mainDomain\<rparr>, snd c)"

definition NewClientWithMain :: "string \<Rightarrow> string \<Rightarrow> server_keys \<Rightarrow> fed_client \<times> 'c option" where
  "NewClientWithMain domain mainDomain keys = with_main mainDomain (NewClient domain keys)"

definition NewClientWithMTLS :: "(string \<Rightarrow> bytes option) \<Rightarrow> (bytes \<Rightarrow> bytes \<Rightarrow> 'c option) \<Rightarrow> string \<Rightarrow> server_keys \<Rightarrow> string \<Rightarrow> string \<Rightarrow> fed_client \<times> 'c option" where
  "NewClientWithMTLS fs pair domain keys clientCert clientKey =
     (fst (NewClient domain keys :: fed_client \<times> 'c option), case loadClientTLS fs pair clientCert clientKey of Inl _ \<Rightarrow> None | Inr cert \<Rightarrow> cert)"

definition NewClientWithMainAndMTLS :: "(string \<Rightarrow> bytes option) \<Rightarrow> (bytes \<Rightarrow> bytes \<Rightarrow> 'c option) \<Rightarrow> string \<Rightarrow> string \<Rightarrow> server_keys \<Rightarrow> string \<Rightarrow> string \<Rightarrow> fed_client \<times> 'c option" where
  "NewClientWithMainAndMTLS fs pair domain mainDomain keys clientCert clientKey =
     with_main mainDomain (NewClientWithMTLS fs pair domain keys clientCert clientKey)"

definition choose_client :: "(string \<Rightarrow> bytes option) \<Rightarrow> (bytes \<Rightarrow> bytes \<Rightarrow> 'c option) \<Rightarrow> server \<Rightarrow> string \<Rightarrow> string \<Rightarrow> fed_client \<times> 'c option" where
  "choose_client fs pair S mtlsCert mtlsKey =
     (if main_only S \<and> mtlsCert \<noteq> '''' \<and> mtlsKey \<noteq> '''' then NewClientWithMainAndMTLS fs pair (sv_domain S) (sv_mainDomain S) (sv_keys S) mtlsCert mtlsKey
      else if main_only S then NewClientWithMain (sv_domain S) (sv_mainDomain S) (sv_keys S)
      else if mtlsCert \<noteq> '''' \<and> mtlsKey \<noteq> '''' then NewClientWithMTLS fs pair (sv_domain S) (sv_keys S) mtlsCert mtlsKey
      else NewClient (sv_domain S) (sv_keys S))"

lemmas client_defs = choose_client_def NewClientWithMainAndMTLS_def NewClientWithMTLS_def NewClientWithMain_def NewClient_def with_main_def

text \<open>Whichever constructor is taken, the client is the one the handlers use.\<close>

lemma choose_client_fedClient: "fst (choose_client fs pair S mtlsCert mtlsKey) = fedClient S"
  by (simp add: client_defs fedClient_def)

text \<open>A certificate that is configured and cannot be read or used is dropped without a word.\<close>

lemma unusable_certificate_dropped:
  "loadClientTLS fs pair mtlsCert mtlsKey = Inl () \<Longrightarrow> snd (choose_client fs pair S mtlsCert mtlsKey) = None"
  by (simp add: client_defs)

section \<open>What the configuration gives\<close>

text \<open>\<open>time.Duration(hours) * time.Hour\<close> is a product of 64 bits.\<close>

definition security_config :: "config \<Rightarrow> sec_config" where
  "security_config cfg =
     (let s = fg_Security (cf_Federation cfg) in
      s\<lparr>BlocklistReload := wrap64 (BlocklistReload s * 3600000000000),
        cfg_MaxBodySize := (if cfg_MaxBodySize s \<le> 0 then DefaultMaxBodySize else cfg_MaxBodySize s),
        AllowlistMode := (if AllowlistMode s = '''' then ''auto'' else AllowlistMode s)\<rparr>)"

definition listen_port :: "config \<Rightarrow> int" where
  "listen_port cfg = (if sc_Port (cf_Server cfg) \<le> 0 then 8080 else sc_Port (cf_Server cfg))"

definition registers_with_hub :: "env \<Rightarrow> config \<Rightarrow> bool" where
  "registers_with_hub E cfg \<longleftrightarrow> (let hub = fg_DiscoveryHub (cf_Federation cfg) in
     hub \<noteq> '''' \<and> ToLower E (TrimSpace (sc_Domain (cf_Server cfg))) \<noteq> ToLower E (TrimSpace hub))"

text \<open>
  The handlers and services \<open>main\<close> builds: \<open>S0\<close> carries the parameters of the model, \<open>W\<close> the files and URLs of
  the lists of federation.
\<close>

definition setup_server :: "server \<Rightarrow> config \<Rightarrow> sec_world \<Rightarrow> cipher \<Rightarrow> bytes \<Rightarrow> server_keys \<Rightarrow> server" where
  "setup_server S0 cfg W dbEnc jwtSecret fedKeys =
     (let sec = NewSecurityService (sv_env S0) W (security_config cfg) in
      S0\<lparr> sv_domain := sc_Domain (cf_Server cfg), sv_enc := dbEnc,
          sv_jwt := jwtSecret, sv_keys := fedKeys, sv_mode := fg_Mode (cf_Federation cfg), sv_mainDomain := fg_MainDomain (cf_Federation cfg),
          sv_push := \<lparr> pw_vapidPublic = cf_VAPIDPublicKey cfg, pw_vapidPrivate = cf_VAPIDPrivateKey cfg \<rparr>, sv_strict := sc_E2EEStrictOnly (cf_Server cfg),
          sv_peers := fg_Peers (cf_Federation cfg), sv_hub := fg_DiscoveryHub (cf_Federation cfg), sv_maxBody := MaxBodySize sec,
          sv_vpn := (sv_vpn S0)\<lparr>vh_config := vg_Config (cf_VPN cfg)\<rparr>, sv_nodesJSON := vg_NodesJSON (cf_VPN cfg)\<rparr>)"

definition stream_hub :: "(string \<Rightarrow> bool) \<Rightarrow> redis_config \<Rightarrow> hub" where
  "stream_hub up cfg = (if rd_Disabled cfg \<or> rd_URL cfg = '''' then NewHub else NewHubWithRedis up (rd_URL cfg))"

text \<open>A second pool for the transactions of other servers, if one is configured and answers; else the first.\<close>

definition federation_pool :: "db_driver \<Rightarrow> string \<Rightarrow> string option" where
  "federation_pool G url = (if url = '''' then None else (case New_db G url of Inl _ \<Rightarrow> None | Inr p \<Rightarrow> Some p))"

text \<open>The directory and the name of the file with the server's keys.\<close>

definition key_path :: "(string \<Rightarrow> string) \<Rightarrow> string \<Rightarrow> string \<times> string" where
  "key_path osenv domain = ((if osenv ''FEDERATION_KEYS_DIR'' = '''' then ''.'' else osenv ''FEDERATION_KEYS_DIR''), ''.federation_key_'' @ domain)"

section \<open>The start\<close>

text \<open>
  The host: environment, database, files and certificates, the files of server keys and the key
  generator, the ciphers \<open>dbenc.New\<close> makes, the lists of federation, Redis.
\<close>

record 'c host =
  ho_env :: "string \<Rightarrow> string"
  ho_db :: db_driver
  ho_files :: "string \<Rightarrow> bytes option"
  ho_pair :: "bytes \<Rightarrow> bytes \<Rightarrow> 'c option"
  ho_keyfile :: "string \<times> string \<Rightarrow> (string \<times> string) option"
  ho_keygen :: "(bytes \<times> bytes) option"
  ho_aes :: "bytes \<Rightarrow> aead"
  ho_lists :: sec_world
  ho_redis :: "string \<Rightarrow> bool"

datatype fatal = Fatal_database db_open_err | Fatal_migrate migrate_err | Fatal_encrypt enc_err | Fatal_jwt | Fatal_media s3_err | Fatal_keys

text \<open>What runs after the start: the server, its pools and hub, the client of federation with its
  certificate, the port, the keys written to their file, whether the server will register with the hub.\<close>

record 'c started =
  st_server :: server
  st_pool :: string
  st_fedPool :: "string option"
  st_client :: "fed_client \<times> 'c option"
  st_hub :: hub
  st_bucket :: "string \<times> string"
  st_port :: int
  st_keyfile :: "(string \<times> string) option"
  st_registers :: bool

definition boot_services :: "'c host \<Rightarrow> server \<Rightarrow> config \<Rightarrow> string \<Rightarrow> string option \<Rightarrow> cipher \<Rightarrow> (sess, fatal + 'c started) state" where
  "boot_services H S0 cfg pool fedPool dbEnc =
     (case jwt_secret (ho_env H ''JWT_SECRET'') (ho_env H ''ENV'') (ho_env H ''APP_ENV'') of
        None \<Rightarrow> ret (Inl Fatal_jwt)
      | Some jwtSecret \<Rightarrow> (case New_media (sv_s3 S0) (cf_S3 cfg) of
        Inl e \<Rightarrow> ret (Inl (Fatal_media e))
      | Inr bucket \<Rightarrow> (case LoadServerKeys (ho_keyfile H (key_path (ho_env H) (sc_Domain (cf_Server cfg)))) (ho_keygen H) of
        None \<Rightarrow> ret (Inl Fatal_keys)
      | Some (fedKeys, written) \<Rightarrow> (let S = setup_server S0 cfg (ho_lists H) dbEnc jwtSecret fedKeys in do {
          _ \<leftarrow> SeedFromJSON (vh_env (sv_vpn S)) (sv_nodesJSON S);
          ret (Inr \<lparr> st_server = S, st_pool = pool, st_fedPool = fedPool,
            st_client = choose_client (ho_files H) (ho_pair H) S (fg_ClientCert (cf_Federation cfg)) (fg_ClientKey (cf_Federation cfg)),
            st_hub = stream_hub (ho_redis H) (cf_Redis cfg), st_bucket = bucket, st_port = listen_port cfg, st_keyfile = written,
            st_registers = registers_with_hub (sv_env S0) cfg \<rparr>) }))))"

definition boot :: "'c host \<Rightarrow> server \<Rightarrow> (sess, fatal + 'c started) state" where
  "boot H S0 =
     (let cfg = Load (sv_env S0) (ho_env H) in
      case New_db (ho_db H) (db_URL (cf_Database cfg)) of
        Inl e \<Rightarrow> ret (Inl (Fatal_database e))
      | Inr pool \<Rightarrow> do {
          m \<leftarrow> Migrate (ho_db H) (db_URL (cf_Database cfg));
          case m of Inl e \<Rightarrow> ret (Inl (Fatal_migrate e)) | Inr _ \<Rightarrow>
            (let fedPool = federation_pool (ho_db H) (db_FederationURL (cf_Database cfg));
                 dbEnc = startup_cipher (New (ho_aes H) (db_EncryptionKey (cf_Database cfg))) in do {
             x \<leftarrow> (if dbEnc = None then ret (Inr ()) else EncryptExisting dbEnc);
             case x of Inl e \<Rightarrow> ret (Inl (Fatal_encrypt e)) | Inr _ \<Rightarrow> boot_services H S0 cfg pool fedPool dbEnc }) })"

section \<open>What a start has done\<close>

lemma Load_key: "db_EncryptionKey (cf_Database (Load E osenv)) = osenv ''DB_ENCRYPTION_KEY''"
  by (simp add: Load_def Let_def getEnv_def)

lemma Load_domain: "sc_Domain (cf_Server (Load E osenv)) = (if osenv ''SERVER_DOMAIN'' = '''' then ''localhost'' else osenv ''SERVER_DOMAIN'')"
  by (simp add: Load_def Let_def getEnv_def)

text \<open>The cipher of a start, from the environment alone.\<close>

definition boot_cipher :: "'c host \<Rightarrow> cipher" where
  "boot_cipher H = startup_cipher (New (ho_aes H) (ho_env H ''DB_ENCRYPTION_KEY''))"

lemma boot_services_InrD:
  assumes "run_state (boot_services H S0 cfg pool fedPool dbEnc) s = (Inr st, s1)"
  shows "\<exists>secret bucket keys written z. jwt_secret (ho_env H ''JWT_SECRET'') (ho_env H ''ENV'') (ho_env H ''APP_ENV'') = Some secret
    \<and> New_media (sv_s3 S0) (cf_S3 cfg) = Inr bucket
    \<and> LoadServerKeys (ho_keyfile H (key_path (ho_env H) (sc_Domain (cf_Server cfg)))) (ho_keygen H) = Some (keys, written)
    \<and> st_server st = setup_server S0 cfg (ho_lists H) dbEnc secret keys \<and> st_keyfile st = written
    \<and> run_state (SeedFromJSON (vh_env (sv_vpn (st_server st))) (sv_nodesJSON (st_server st))) s = (z, s1)"
  using assms by (auto simp: boot_services_def Let_def sql_simps split: option.splits sum.splits prod.splits)

lemma boot_cipher_Load: "startup_cipher (New (ho_aes H) (db_EncryptionKey (cf_Database (Load E (ho_env H))))) = boot_cipher H"
  by (simp add: boot_cipher_def Load_key)

lemma encrypt_existing_guard: "(if c = None then ret (Inr ()) else EncryptExisting c) = EncryptExisting c"
  by (simp add: EncryptExisting_def)

lemmas boot_unfold = boot_def [unfolded Let_def boot_cipher_Load encrypt_existing_guard]

lemma boot_InrD:
  assumes "run_state (boot H S0) s = (Inr st, s1)"
  obtains cfg pool fedPool r t s2 where "cfg = Load (sv_env S0) (ho_env H)" "New_db (ho_db H) (db_URL (cf_Database cfg)) = Inr pool"
    "mg_source (ho_db H)" "mg_instance (ho_db H) (db_URL (cf_Database cfg))" "mg_up (ho_db H) (tabs s) = (r, t)" "r \<noteq> Up_Failed"
    "run_state (EncryptExisting (boot_cipher H)) (s\<lparr>tabs := t\<rparr>) = (Inr (), s2)"
    "run_state (boot_services H S0 cfg pool fedPool (boot_cipher H)) s2 = (Inr st, s1)"
  using assms by (auto simp: boot_unfold Migrate_def sql_simps split: sum.splits prod.splits if_splits)

lemma setup_server_sel [simp]: "sv_enc (setup_server S0 cfg W dbEnc secret keys) = dbEnc" "sv_jwt (setup_server S0 cfg W dbEnc secret keys) = secret"
  "sv_keys (setup_server S0 cfg W dbEnc secret keys) = keys"
  by (simp_all add: setup_server_def Let_def)

lemma seals_encrypted: "seals IsEncrypted (Some a)"
  by (auto simp: seals_def Encrypt_def sql_simps split: option.splits)

text \<open>The encryption of existing rows ends without error when the database answers, whatever the key.\<close>

lemma EncryptExisting_runs:
  assumes "ready s"
  obtains s' where "run_state (EncryptExisting c) s = (Inr (), s')" "c \<noteq> None \<Longrightarrow> all_encrypted (tabs s')"
proof (cases c)
  case None
  then show ?thesis using that by (simp add: EncryptExisting_def)
next
  case (Some a)
  obtain r s' where "run_state (EncryptExisting c) s = (r, s')" by fastforce
  with tripleD [OF EncryptExisting_done [of a] assms] Some show ?thesis using that by auto
qed

text \<open>What has to be there for a start.\<close>

definition can_start :: "'c host \<Rightarrow> server \<Rightarrow> tables \<Rightarrow> bool" where
  "can_start H S0 t \<longleftrightarrow> (let cfg = Load (sv_env S0) (ho_env H); url = db_URL (cf_Database cfg); G = ho_db H in
     pg_connect G url \<and> pg_ping G url \<and> mg_source G \<and> mg_instance G url \<and> fst (mg_up G t) \<noteq> Up_Failed
     \<and> jwt_secret (ho_env H ''JWT_SECRET'') (ho_env H ''ENV'') (ho_env H ''APP_ENV'') \<noteq> None
     \<and> (\<exists>b. New_media (sv_s3 S0) (cf_S3 cfg) = Inr b)
     \<and> LoadServerKeys (ho_keyfile H (key_path (ho_env H) (sc_Domain (cf_Server cfg)))) (ho_keygen H) \<noteq> None)"

lemma boot_services_starts:
  assumes "jwt_secret (ho_env H ''JWT_SECRET'') (ho_env H ''ENV'') (ho_env H ''APP_ENV'') \<noteq> None" "New_media (sv_s3 S0) (cf_S3 cfg) = Inr b"
    and "LoadServerKeys (ho_keyfile H (key_path (ho_env H) (sc_Domain (cf_Server cfg)))) (ho_keygen H) \<noteq> None"
  shows "\<exists>st s1. run_state (boot_services H S0 cfg pool fedPool dbEnc) s = (Inr st, s1)"
  using assms by (auto simp: boot_services_def Let_def sql_simps split: prod.splits)

lemma boot_starts:
  assumes "ready s" "can_start H S0 (tabs s)"
  shows "\<exists>st s1. run_state (boot H S0) s = (Inr st, s1)"
proof -
  define cfg where "cfg = Load (sv_env S0) (ho_env H)"
  obtain r t where u: "mg_up (ho_db H) (tabs s) = (r, t)" by fastforce
  have "ready (s\<lparr>tabs := t\<rparr>)" using assms(1) by (simp add: ready_def)
  then obtain s2 where e: "run_state (EncryptExisting (boot_cipher H)) (s\<lparr>tabs := t\<rparr>) = (Inr (), s2)" by (rule EncryptExisting_runs)
  from assms(2) obtain b where "New_media (sv_s3 S0) (cf_S3 cfg) = Inr b" by (auto simp: can_start_def Let_def cfg_def)
  with assms(2) obtain st s1 where "run_state (boot_services H S0 cfg (db_URL (cf_Database cfg))
      (federation_pool (ho_db H) (db_FederationURL (cf_Database cfg))) (boot_cipher H)) s2 = (Inr st, s1)"
    using boot_services_starts [of H S0 cfg b] by (fastforce simp: can_start_def Let_def cfg_def)
  with assms(2) u e show ?thesis by (auto simp: boot_unfold Migrate_def New_db_def can_start_def Let_def sql_simps simp flip: cfg_def)
qed

lemma boot_started:
  assumes "run_state (boot H S0) s = (Inr st, s1)"
  shows "can_start H S0 (tabs s)"
  using assms by (rule boot_InrD) (auto simp: can_start_def New_db_def Let_def dest!: boot_services_InrD split: if_splits)

text \<open>A start seeds the nodes after everything else, which writes no secret.\<close>

lemma boot_encrypts:
  assumes "run_state (boot H S0) s = (Inr st, s1)" "ready s" "New (ho_aes H) (ho_env H ''DB_ENCRYPTION_KEY'') = Inr (Some a)"
  shows "all_encrypted (tabs s1) \<and> sv_enc (st_server st) = Some a"
proof -
  have c: "boot_cipher H = Some a" using assms(3) by (simp add: boot_cipher_def startup_cipher_def)
  from assms(1) show ?thesis
  proof (rule boot_InrD)
    fix cfg pool fedPool r t s2
    assume e: "run_state (EncryptExisting (boot_cipher H)) (s\<lparr>tabs := t\<rparr>) = (Inr (), s2)"
      and b: "run_state (boot_services H S0 cfg pool fedPool (boot_cipher H)) s2 = (Inr st, s1)"
    have "ready (s\<lparr>tabs := t\<rparr>)" using assms(2) by (simp add: ready_def)
    then have "on_tabs all_encrypted s2" using tripleD [OF EncryptExisting_done _ e [unfolded c]] by (simp add: on_tabs_def)
    then show ?thesis using boot_services_InrD [OF b] tripleD [OF ti_sealed.keeps_seed] c by (fastforce simp: on_tabs_def)
  qed
qed

section \<open>Properties\<close>


text \<open>A host with a key for the encryption of columns, where everything works.\<close>

definition demo_db :: db_driver where
  "demo_db = \<lparr> pg_connect = (\<lambda>_. True), pg_ping = (\<lambda>_. True), mg_source = True, mg_instance = (\<lambda>_. True), mg_up = (\<lambda>t. (Up_NoChange, t)) \<rparr>"

definition demo_host :: "(string \<Rightarrow> string) \<Rightarrow> unit host" where
  "demo_host osenv = \<lparr> ho_env = osenv, ho_db = demo_db, ho_files = (\<lambda>_. None), ho_pair = (\<lambda>_ _. None), ho_keyfile = (\<lambda>_. None),
     ho_keygen = Some (key32, key32 @ key32), ho_aes = (\<lambda>_. toy_aead), ho_lists = demo_world, ho_redis = (\<lambda>_. False) \<rparr>"

definition demo_osenv :: "string \<Rightarrow> string" where
  "demo_osenv = (\<lambda>_. '''')(''DB_ENCRYPTION_KEY'' := b64_encode (replicate 32 (CHR ''r'')), ''S3_ENDPOINT'' := ''minio:9000'')"

lemma demo_can_start:
  assumes "osenv ''S3_ENDPOINT'' = ''minio:9000''" "osenv ''JWT_SECRET'' = ''''" "osenv ''ENV'' = ''''" "osenv ''APP_ENV'' = ''''"
  shows "can_start (demo_host osenv) demo_server t"
proof -
  have "New_media demo_s3 cfg = Inr (s3_Endpoint cfg, s3_Bucket cfg)" if "s3_Endpoint cfg = ''minio:9000''" for cfg :: s3_config
    using that by (simp add: New_media_def sanitizeEndpoint_def Contains_def demo_s3_def)
  then have "\<exists>b. New_media demo_s3 (cf_S3 (Load demo_env osenv)) = Inr b" using assms(1) by (simp add: Load_def Let_def getEnv_def)
  with assms show ?thesis
    by (simp add: can_start_def demo_host_def demo_db_def demo_server_def jwt_secret_def LoadServerKeys_def Let_def)
qed

lemma ready_session: "ready (session_on t [])"
  by (simp add: ready_def session_on_def)






text \<open>
  A restart with the same environment and the file the first start left has the same server, whatever the key
  generator now gives; but where the file could not be written, which \<open>LoadServerKeys\<close> does not report, every
  start has new keys.
\<close>

definition key_file :: "'c host \<Rightarrow> server \<Rightarrow> (string \<times> string) option" where
  "key_file H S0 = ho_keyfile H (key_path (ho_env H) (sc_Domain (cf_Server (Load (sv_env S0) (ho_env H)))))"

lemma boot_server:
  assumes "run_state (boot H S0) s = (Inr st, s1)"
  obtains secret keys where "jwt_secret (ho_env H ''JWT_SECRET'') (ho_env H ''ENV'') (ho_env H ''APP_ENV'') = Some secret"
    "LoadServerKeys (key_file H S0) (ho_keygen H) = Some (keys, st_keyfile st)"
    "st_server st = setup_server S0 (Load (sv_env S0) (ho_env H)) (ho_lists H) (boot_cipher H) secret keys"
  using assms by (rule boot_InrD) (auto simp: key_file_def dest!: boot_services_InrD)

lemma restart_same_server:
  assumes "run_state (boot H S0) s = (Inr st, s1)" "run_state (boot H' S0) s2 = (Inr st', s3)"
    and "ho_env H' = ho_env H" "ho_aes H' = ho_aes H" "ho_lists H' = ho_lists H"
    and "key_file H' S0 = (case st_keyfile st of None \<Rightarrow> key_file H S0 | Some w \<Rightarrow> Some w)"
    and "\<And>p q. ho_keygen H = Some (p, q) \<Longrightarrow> length p = 32 \<and> length q = 64"
  shows "st_server st' = st_server st \<and> st_keyfile st' = None"
proof -
  from assms(1) obtain secret keys where 1: "jwt_secret (ho_env H ''JWT_SECRET'') (ho_env H ''ENV'') (ho_env H ''APP_ENV'') = Some secret"
    "LoadServerKeys (key_file H S0) (ho_keygen H) = Some (keys, st_keyfile st)"
    "st_server st = setup_server S0 (Load (sv_env S0) (ho_env H)) (ho_lists H) (boot_cipher H) secret keys" by (rule boot_server)
  from assms(2) obtain secret' keys' where 2: "jwt_secret (ho_env H' ''JWT_SECRET'') (ho_env H' ''ENV'') (ho_env H' ''APP_ENV'') = Some secret'"
    "LoadServerKeys (key_file H' S0) (ho_keygen H') = Some (keys', st_keyfile st')"
    "st_server st' = setup_server S0 (Load (sv_env S0) (ho_env H')) (ho_lists H') (boot_cipher H') secret' keys'" by (rule boot_server)
  have "key_file H' S0 = (if st_keyfile st = None then key_file H S0 else st_keyfile st)" using assms(6) by (simp split: option.splits)
  with LoadServerKeys_again [OF 1(2) assms(7), of "ho_keygen H'"] 2(2) have "keys' = keys" "st_keyfile st' = None" by simp_all
  with 1 2 assms(3-5) show ?thesis by (simp add: boot_cipher_def)
qed

lemma unwritten_keys_lost:
  assumes "run_state (boot H S0) s = (Inr st, s1)" "run_state (boot H' S0) s2 = (Inr st', s3)"
    and "key_file H S0 = None" "key_file H' S0 = None" "ho_keygen H' \<noteq> ho_keygen H"
  shows "sv_keys (st_server st') \<noteq> sv_keys (st_server st)"
  using assms by (elim boot_server) (auto simp: LoadServerKeys_def split: option.splits)

text \<open>The hub of a start is one the properties of \<open>Stream\<close> speak of, and has a Redis only if one is configured and answers.\<close>

lemma stream_hub_fresh: "\<exists>up' url. stream_hub up cfg = NewHubWithRedis up' url"
  "hb_redis (stream_hub up cfg) \<longleftrightarrow> \<not> rd_Disabled cfg \<and> rd_URL cfg \<noteq> '''' \<and> up (rd_URL cfg)"
  by (auto simp: stream_hub_def NewHub_def NewHubWithRedis_def)

text \<open>\<open>migrate\<close> never ends for want of a URL: the configuration has a default.\<close>

lemma migrate_main_url: "migrate_main E G osenv = do { x \<leftarrow> Migrate G (db_URL (cf_Database (Load E osenv))); ret (case x of Inl e \<Rightarrow> Inl (Some e) | Inr _ \<Rightarrow> Inr ()) }"
proof -
  have "db_URL (cf_Database (Load E osenv)) \<noteq> ''''" by (simp add: Load_def Let_def getEnv_def)
  then show ?thesis by (simp add: migrate_main_def Let_def)
qed

end
