(* ===== verification/Spec2Isabelle.thy ===== *)
theory Spec2Isabelle
  imports Dbenc Relay Send_Races Keydir Races Auth Stream Sockets Fed_Handlers Wrappers Edges Mesh Mesh_Main Backup_Receiver Server Startup
begin

text \<open>
  A verification of the server of a federated messenger (\<open>src/server\<close>), of its mesh coordinator
  (\<open>src/mesh/coordinator\<close>) and of its backup receiver (\<open>src/mesh/backup-receiver\<close>), all written in
  Go.

  \<^bold>\<open>The program.\<close> Clients register accounts with devices and device keys, log in for tokens, send
  end-to-end encrypted messages to users and rooms, and fetch them by polling or through a
  WebSocket. Servers deliver messages to each other in signed transactions. Beside that the
  server keeps key backups, stores encrypted attachments, sends web-push notifications and gives
  out VPN configurations. Packages: \<open>auth\<close> (accounts), \<open>keydir\<close> (device keys), \<open>rooms\<close>, \<open>relay\<close>
  (the queue of messages), \<open>stream\<close> (the hub of WebSockets), \<open>push\<close>, \<open>media\<close>, \<open>vpn\<close>, \<open>dbenc\<close>
  (encryption of columns), \<open>federation\<close> (client, signatures, admission rules), \<open>config\<close>, and \<open>api\<close>,
  whose handlers call all of them. \<open>relay\<close> asks \<open>rooms\<close> through an interface; \<open>auth\<close>, \<open>keydir\<close> and the
  key backups call \<open>dbenc\<close>; everything shares one PostgreSQL database.

  \<^bold>\<open>Theories and sources.\<close>
  \<^item> \<open>Prelude\<close>: collections of rules, the state monad with triples (\<open>triple P m Q\<close>, \<open>keeps I m\<close>) and the
    loop combinators for Go's \<open>for range\<close>, 64-bit wrap-around, lists.
  \<^item> \<open>Go_Lib\<close>, \<open>Go_Enc\<close>: the part of Go's standard library the code uses (\<open>strings\<close>, \<open>strconv\<close>,
    \<open>encoding/hex\<close>, \<open>encoding/base64\<close>, \<open>net/url\<close>, \<open>fmt.Sscanf\<close>), and the record \<open>env\<close> of what is given
    from outside (Unicode tables, UUID texts, SHA-256, Ed25519, bcrypt, JWT).
  \<^item> \<open>Database\<close>: one record per table, sessions with a schedule of faults, statements, queries,
    transactions with rollback (\<open>src/server/internal/db/migrations\<close>).
  \<^item> \<open>Interfaces\<close>: the contracts between packages as locales.
  \<^item> \<open>Dbenc\<close>: \<open>dbenc/dbenc.go\<close>, \<open>dbenc/migrate.go\<close>. \<open>Rooms\<close>: \<open>rooms/rooms.go\<close>. \<open>Relay\<close>: \<open>relay/relay.go\<close>,
    and \<open>Send_Races\<close>: its sends interleaved.
    \<open>Keydir\<close>: \<open>keydir/keydir.go\<close>, and \<open>Races\<close>: the same with its requests interleaved.
    \<open>Auth\<close>: \<open>auth/auth.go\<close>. \<open>Stream\<close>: \<open>stream/hub.go\<close> and the requests of \<open>api/handlers_websocket.go\<close>,
    and \<open>Sockets\<close>: the life of a connection after them. \<open>Push\<close>:
    \<open>push/service.go\<close>. \<open>Wg_Stats\<close>: \<open>vpn/wg_stats.go\<close>. \<open>Vpn\<close>: the rest of \<open>vpn\<close>. \<open>Config\<close>:
    \<open>config/config.go\<close> (all under \<open>src/server/internal\<close>).
  \<^item> \<open>Fed_Client\<close>: \<open>federation/client.go\<close>, \<open>keys.go\<close>, \<open>discovery.go\<close>, \<open>server.go\<close>. \<open>Fed_Security\<close>:
    \<open>federation/security.go\<close>. \<open>Fed_Handlers\<close>: \<open>api/handlers_federation.go\<close>, \<open>api/peer_resolver.go\<close>.
  \<^item> \<open>Api\<close>: \<open>api/middleware.go\<close>, \<open>handlers.go\<close>, \<open>handlers_rooms.go\<close>, \<open>handlers_push.go\<close>. \<open>Api_Auth\<close>:
    \<open>api/handlers_auth.go\<close>, \<open>handlers_backup.go\<close>, \<open>handlers_users.go\<close>, \<open>handlers_stats.go\<close>. \<open>Api_Vpn\<close>:
    \<open>api/handlers_vpn.go\<close>. \<open>Media\<close>: \<open>media/media.go\<close>, \<open>api/handlers_media.go\<close>.
  \<^item> \<open>Wrappers\<close>: \<open>api/response.go\<close>, \<open>ratelimit.go\<close>, \<open>federation_middleware.go\<close>, \<open>federation_metrics.go\<close>, \<open>alert.go\<close>:
    responses, recovery from panics, logs and rate limits, around any handler.
  \<^item> \<open>Edges\<close>: the client and the waits of \<open>vpn/xrayapi.go\<close>, \<open>api/latency_metrics.go\<close>, \<open>api/vpn_metrics.go\<close>.
  \<^item> \<open>Table_Inv\<close>: invariants of the tables through every service and handler. \<open>Server\<close>: \<open>api/router.go\<close>
    and the wiring of \<open>cmd/server/main.go\<close>, the server as a step relation. \<open>Startup\<close>: \<open>main\<close> itself up to the
    point where it listens, with \<open>db/db.go\<close>, \<open>db/migrate.go\<close> and \<open>cmd/migrate/main.go\<close>.
  \<^item> \<open>Mesh\<close>: the handlers of \<open>src/mesh/coordinator\<close>, \<open>Mesh_Main\<close>: its \<open>main\<close>, routes and CA. \<open>Backup_Receiver\<close>: \<open>src/mesh/backup-receiver/main.go\<close>.
  \<^item> this theory: a message from one server to another, across \<open>Fed_Client\<close>, \<open>Fed_Handlers\<close> and \<open>Relay\<close>.

  \<^bold>\<open>State and operations.\<close> A function of the code that only computes is a function here, with the
  name it has in Go (suffixed where HOL has the name). A function that uses the database is a
  program of the state monad over \<open>sess\<close>: the tables, the clocks, the random source, and a list of
  faults. Each statement takes the next fault: it is answered, refused, applied with its answer
  lost, or a result set breaks off. Theorems said to hold under any faults quantify over that
  list. SQL statements are functions of the tables and return the errors of the constraints in
  the migrations; a transaction puts back every row but not the sequences. Handlers run over a
  \<open>node\<close> (session, network, hub, admission rules) or a \<open>world\<close> (a node, the notifications pushed,
  the commands given to WireGuard and Xray, the bucket of the media); their answer is a status
  with an error code, or what is written as JSON. Errors are values of a sum type; a panic that
  the code can reach is a value too. Integers are unbounded with \<open>wrap64\<close> where Go's \<open>int64\<close> can
  wrap; strings are byte strings.

  \<^bold>\<open>What the lemmas show.\<close>
  \<^item> Invariants. The locale \<open>table_inv\<close> lists the statements that reach the tables; every service
    and handler keeps what they keep, proved once, and the locale is interpreted for accounts,
    rooms, the queue, prekeys, spent prekeys, VPN peers, the address sequence and, with a second parameter
    that says what may be written into an encrypted column, for encryption at rest. With the step
    relation \<open>server_step\<close> they hold in every reachable state of the server
    (\<open>database_consistent\<close>, and \<open>encrypted_at_rest\<close> from the start of the process on). The connections of a
    hub carry what it sends in order (\<open>socket_in_order\<close>). The hubs and the mesh have their own step relations with concurrent
    handlers (\<open>stream_no_misdelivery\<close>, \<open>vpn_addresses\<close>), and the key directory one with interleaved
    statements, of which its operations are runs (\<open>keydir_is_interleaving\<close>).
  \<^item> Access. Who may change a room (\<open>rooms_refine_acl\<close>, a refinement of an abstract access-control
    list, and \<open>rooms_authorised\<close> under faults), log in, use a token, read and receive messages,
    deliver a transaction, see VPN configurations; under any faults where the theorem says so.
  \<^item> Functional behaviour. Delivery inside a server and between two, idempotency keys, round trips
    of encryption and of attachments, the migration to encrypted columns (safe under any faults,
    complete without), exact limits of federation, bounds of the configuration, when a server starts
    and when not (\<open>starts_exactly_when\<close>).
  \<^item> What the code gets wrong. Theorems whose text says so prove the behaviour of the code as it
    is: unchecked senders, the dead code for keys of other servers, passwords sent to other
    servers, VPN addresses that never come back, byte ranges that are not the ones asked for, goroutines
    that outlive their connection.

  \<^bold>\<open>Bounds and fuel.\<close> No definition uses fuel: every loop of the modelled code runs over data and is
  structural recursion, or has a bound in the code (\<open>xrayRetry\<close>: three attempts). The server's own
  endless loops (the hub, the tickers, the HTTP server) are step relations.

  \<^bold>\<open>Assumptions.\<close> \<open>server_step\<close> serves one request after the other, each as a whole: what two
  requests of one server do between each other's statements is modelled for the hub, the mesh,
  the key directory (\<open>Races\<close>, where two clients can be given one one-time prekey) and sends
  (\<open>Send_Races\<close>, where one idempotency key can store two messages), not for the other tables. Between steps everything but the tables may change. Dates are
  computed in UTC. Cryptography, JSON decoding, collations and the network are parameters; what a
  theorem needs of them is a hypothesis of it.

  \<^bold>\<open>Not modelled.\<close> The counters of the rate limiter and the windows they belong to (package
  \<open>httprate\<close>, a parameter of \<open>Wrappers\<close>), the buckets and the registry of Prometheus and the duration of
  federation requests, time-outs and idle connections of HTTP, what is inside the drivers of PostgreSQL, gRPC,
  Redis and MinIO and inside golang-migrate, whose outcomes are parameters, the TLS of a connection, the encoding of
  certificates in the mesh, floating-point products in the output of \<open>wg show\<close>, chi's path matching, the
  frames of a WebSocket, the shutdown of a process; declarations the code does not use (\<open>models\<close>); the logger; and the
  browser client (\<open>src/web\<close>), which is a program of its own.
\<close>

section \<open>A message from one server to another\<close>

lemma ValidateTransaction_ends:
  "ValidateTransaction (txn\<lparr>tx_Origin := a, tx_Destination := b\<rparr>) now = ValidateTransaction txn now"
  by (simp add: ValidateTransaction_def)


lemma sent_to_b:
  "\<exists>s1. run_state (SendTransaction demo_env json_net srv_a ''b.org'' demo_txn) demo_netst = (Inr (), s1)
    \<and> hq_url (last (ns_sent s1)) = ''https://b.org/federation/v1/transaction''"
  by (simp add: SendTransaction_def resolveEndpoint_def discover_def http_call_def post_signed_def signed_call_def
      srv_a_def json_net_def demo_net_def demo_netst_def scheme_def Let_def demo_url demo_names)


end
